(* ===== verification/Prelude.thy ===== *)
theory Prelude
  imports Main "HOL-Library.Word" "HOL-Library.Sublist" "HOL-Library.AList"
begin

text \<open>
  What every component of the library shares: the fact collections the component proofs
  use, Go's 64-bit signed arithmetic, and generic lemmas on lists, stable sorting and
  association lists.  Nothing here is specific to one component of the program.
\<close>

named_theorems go_io "unfolding rules of the effectful primitives"
named_theorems text_simps "facts on Go's string operations"
named_theorems coll_simps "facts on keyed collections"

section \<open>Signed 64-bit integers\<close>

text \<open>
  Go's \<open>int\<close>, \<open>int64\<close> and \<open>time.Duration\<close> are two's complement 64-bit values.  The
  model keeps them as \<open>int\<close> and writes the wrap-around out with \<open>wrap64\<close> wherever the
  source computes a value that can leave the range.
\<close>

definition max_int64 :: int where
  "max_int64 = 9223372036854775807"

definition min_int64 :: int where
  "min_int64 = - 9223372036854775808"

definition fits64 :: "int \<Rightarrow> bool" where
  "fits64 x \<longleftrightarrow> min_int64 \<le> x \<and> x \<le> max_int64"

definition wrap64 :: "int \<Rightarrow> int" where
  "wrap64 x = (x + 9223372036854775808) mod 18446744073709551616 - 9223372036854775808"

lemmas int64_defs = max_int64_def min_int64_def fits64_def

lemma wrap64_is_word: "wrap64 x = sint (word_of_int x :: 64 word)"
  by (simp add: wrap64_def sint_sbintrunc' signed_take_bit_eq_take_bit_shift
      take_bit_eq_mod)

lemma wrap64_fits [intro]: "fits64 (wrap64 x)"
proof -
  have "0 \<le> (x + 9223372036854775808) mod 18446744073709551616"
    and "(x + 9223372036854775808) mod 18446744073709551616 < 18446744073709551616"
    by simp_all
  then show ?thesis by (simp add: wrap64_def int64_defs)
qed

lemma wrap64_id [simp]: "fits64 x \<Longrightarrow> wrap64 x = x"
  by (simp add: wrap64_def int64_defs)

section \<open>Lists\<close>

lemma distinct_map_filter_fst: "distinct (map fst xs) \<Longrightarrow> distinct (map fst (filter P xs))"
  by (induction xs) auto

lemma sort_key_take_le:
  assumes "x \<in> set (take n (sort_key f xs))" and "y \<in> set (drop n (sort_key f xs))"
  shows "f x \<le> f y"
proof -
  have "sorted (map f (take n (sort_key f xs) @ drop n (sort_key f xs)))"
    using sorted_sort_key [of f xs] by (simp only: append_take_drop_id)
  then have "\<forall>a \<in> set (map f (take n (sort_key f xs))).
      \<forall>b \<in> set (map f (drop n (sort_key f xs))). a \<le> b"
    unfolding map_append sorted_append by blast
  with assms show ?thesis by simp
qed

lemma hd_sort_key_le:
  assumes "sort_key f xs = y # ys" and "x \<in> set xs"
  shows "f y \<le> f x"
proof -
  have "sorted (map f (y # ys))" using assms(1) sorted_sort_key [of f xs] by simp
  moreover have "x \<in> set (y # ys)" using assms by (metis set_sort)
  ultimately show ?thesis by auto
qed

lemma find_append: "find P (xs @ ys) = (case find P xs of None \<Rightarrow> find P ys | Some x \<Rightarrow> Some x)"
  by (induction xs) auto

lemma sort_key_Nil_iff [simp]: "sort_key f xs = [] \<longleftrightarrow> xs = []"
  by (metis set_empty set_sort)

lemma length_filter_map_of_update:
  assumes "distinct (map fst xs)" and "map_of xs k = Some v"
  shows "length (filter P (map snd (AList.update k u xs))) + (if P v then 1 else 0)
       = length (filter P (map snd xs)) + (if P u then 1 else 0)"
  using assms
proof (induction xs)
  case (Cons a xs)
  obtain k' v' where a: "a = (k', v')" by (cases a)
  show ?case
  proof (cases "k' = k")
    case True
    with Cons.prems a show ?thesis by simp
  next
    case False
    with Cons a show ?thesis by simp
  qed
qed simp

lemma filter_fresh_update:
  "k \<notin> fst ` set xs \<Longrightarrow>
   filter P (map snd (AList.update k v xs)) = filter P (map snd xs) @ (if P v then [v] else [])"
  by (induction xs) auto

lemma length_filter_delete:
  "length (filter P (map snd (AList.delete k xs))) \<le> length (filter P (map snd xs))"
  by (induction xs) auto

section \<open>Association lists as keyed collections\<close>

lemma map_of_alist_update [coll_simps]:
  "map_of (AList.update k v xs) k' = (if k' = k then Some v else map_of xs k')"
  by (simp add: update_conv)

lemma map_of_alist_delete [coll_simps]:
  "map_of (AList.delete k xs) k' = (if k' = k then None else map_of xs k')"
  by (simp add: AList.delete_conv')

lemma distinct_alist_update [coll_simps, intro]:
  "distinct (map fst xs) \<Longrightarrow> distinct (map fst (AList.update k v xs))"
  by (simp add: distinct_update)

lemma distinct_alist_delete [coll_simps, intro]:
  "distinct (map fst xs) \<Longrightarrow> distinct (map fst (AList.delete k xs))"
  by (simp add: distinct_delete)

lemma snd_map_of: "distinct (map fst xs) \<Longrightarrow>
  set (map snd xs) = {v. \<exists>k. map_of xs k = Some v}"
  by (force simp: map_of_eq_Some_iff)

end
