(* ===== verification/GoText.thy ===== *)
theory GoText
  imports Prelude
begin

text \<open>
  Go strings are byte sequences that usually hold UTF-8; a model string is a list of
  8-bit characters.  This theory holds the operations of Go's \<open>strings\<close>, \<open>unicode\<close> and
  \<open>strconv\<close> packages that the program calls, with the byte offsets and the treatment of
  invalid UTF-8 that Go has.  What depends on Unicode tables (compatibility decomposition,
  which comes from golang.org/x/text, and the case mapping of letters outside ASCII) is an
  argument: the record \<open>text_env\<close>.
\<close>

record text_env =
  nfkd :: "string \<Rightarrow> string"
  lower_rune :: "string \<Rightarrow> string"
  upper_rune :: "string \<Rightarrow> string"

section \<open>Runes\<close>

text \<open>The environment of a program that meets only ASCII text.\<close>

definition plain_env :: text_env where
  "plain_env = \<lparr>nfkd = (\<lambda>s. s), lower_rune = (\<lambda>s. s), upper_rune = (\<lambda>s. s)\<rparr>"

definition byte :: "char \<Rightarrow> nat" where
  "byte c = of_char c"

definition is_cont :: "char \<Rightarrow> bool" where
  "is_cont c \<longleftrightarrow> 128 \<le> byte c \<and> byte c \<le> 191"

definition second_ok :: "nat \<Rightarrow> char \<Rightarrow> bool" where
  "second_ok lead c \<longleftrightarrow>
     (if lead = 224 then 160 \<le> byte c \<and> byte c \<le> 191
      else if lead = 237 then 128 \<le> byte c \<and> byte c \<le> 159
      else if lead = 240 then 144 \<le> byte c \<and> byte c \<le> 191
      else if lead = 244 then 128 \<le> byte c \<and> byte c \<le> 143
      else is_cont c)"

text \<open>The width of the valid encoding a string starts with, 0 when it starts with none.\<close>

fun rune_len :: "string \<Rightarrow> nat" where
  "rune_len [] = 0"
| "rune_len (a # s) =
     (let x = byte a in
      if x < 128 then 1
      else if 194 \<le> x \<and> x \<le> 223 then
        (case s of b # _ \<Rightarrow> if is_cont b then 2 else 0 | _ \<Rightarrow> 0)
      else if 224 \<le> x \<and> x \<le> 239 then
        (case s of b # c # _ \<Rightarrow> if second_ok x b \<and> is_cont c then 3 else 0 | _ \<Rightarrow> 0)
      else if 240 \<le> x \<and> x \<le> 244 then
        (case s of b # c # d # _ \<Rightarrow>
           if second_ok x b \<and> is_cont c \<and> is_cont d then 4 else 0 | _ \<Rightarrow> 0)
      else 0)"

definition rune_error :: string where
  "rune_error = [CHR 0xEF, CHR 0xBF, CHR 0xBD]"

text \<open>The runes \<open>range\<close> visits, each by its encoding; an invalid byte is U+FFFD.\<close>

function runes :: "string \<Rightarrow> string list" where
  "runes [] = []"
| "runes (c # s) =
     (if rune_len (c # s) = 0 then rune_error # runes s
      else take (rune_len (c # s)) (c # s) # runes (drop (rune_len (c # s)) (c # s)))"
  by pat_completeness auto
termination
  by (relation "measure length") auto

declare runes.simps(2) [simp del]

definition is_ascii :: "string \<Rightarrow> bool" where
  "is_ascii s \<longleftrightarrow> list_all (\<lambda>c. byte c < 128) s"

lemma runes_ascii: "is_ascii s \<Longrightarrow> runes s = map (\<lambda>c. [c]) s"
  by (induction s) (simp_all add: is_ascii_def runes.simps(2))

section \<open>Case\<close>

definition lower_byte :: "char \<Rightarrow> char" where
  "lower_byte c = (if 65 \<le> byte c \<and> byte c \<le> 90 then char_of (byte c + 32) else c)"

definition upper_byte :: "char \<Rightarrow> char" where
  "upper_byte c = (if 97 \<le> byte c \<and> byte c \<le> 122 then char_of (byte c - 32) else c)"

definition map_runes :: "(char \<Rightarrow> char) \<Rightarrow> (string \<Rightarrow> string) \<Rightarrow> string \<Rightarrow> string" where
  "map_runes f g s =
     (if is_ascii s then map f s
      else concat (map (\<lambda>r. case r of [c] \<Rightarrow> [f c] | _ \<Rightarrow> g r) (runes s)))"

definition ToLower :: "text_env \<Rightarrow> string \<Rightarrow> string" where
  "ToLower env s = map_runes lower_byte (lower_rune env) s"

definition ToUpper :: "text_env \<Rightarrow> string \<Rightarrow> string" where
  "ToUpper env s = map_runes upper_byte (upper_rune env) s"

lemma byte_less [simp]: "byte c < 256"
  by (simp add: byte_def)

lemma byte_char_of [simp]: "n < 256 \<Longrightarrow> byte (char_of n) = n"
  by (simp add: byte_def)

lemma lower_byte_idem [simp]: "lower_byte (lower_byte c) = lower_byte c"
  by (auto simp: lower_byte_def)

lemma lower_byte_ascii: "byte c < 128 \<Longrightarrow> byte (lower_byte c) < 128"
  by (auto simp: lower_byte_def)

lemma is_ascii_map_lower: "is_ascii s \<Longrightarrow> is_ascii (map lower_byte s)"
  by (auto simp: is_ascii_def list_all_iff lower_byte_ascii)

lemma ToLower_ascii [text_simps]: "is_ascii s \<Longrightarrow> ToLower env s = map lower_byte s"
  by (simp add: ToLower_def map_runes_def)

section \<open>White space\<close>

text \<open>The encodings of the runes \<open>unicode.IsSpace\<close> accepts.\<close>

definition space_codes :: "string list" where
  "space_codes =
     [[CHR 0x09], [CHR 0x0A], [CHR 0x0B], [CHR 0x0C], [CHR 0x0D], [CHR 0x20],
      [CHR 0xC2, CHR 0x85], [CHR 0xC2, CHR 0xA0], [CHR 0xE1, CHR 0x9A, CHR 0x80],
      [CHR 0xE2, CHR 0x80, CHR 0x80], [CHR 0xE2, CHR 0x80, CHR 0x81],
      [CHR 0xE2, CHR 0x80, CHR 0x82], [CHR 0xE2, CHR 0x80, CHR 0x83],
      [CHR 0xE2, CHR 0x80, CHR 0x84], [CHR 0xE2, CHR 0x80, CHR 0x85],
      [CHR 0xE2, CHR 0x80, CHR 0x86], [CHR 0xE2, CHR 0x80, CHR 0x87],
      [CHR 0xE2, CHR 0x80, CHR 0x88], [CHR 0xE2, CHR 0x80, CHR 0x89],
      [CHR 0xE2, CHR 0x80, CHR 0x8A], [CHR 0xE2, CHR 0x80, CHR 0xA8],
      [CHR 0xE2, CHR 0x80, CHR 0xA9], [CHR 0xE2, CHR 0x80, CHR 0xAF],
      [CHR 0xE2, CHR 0x81, CHR 0x9F], [CHR 0xE3, CHR 0x80, CHR 0x80]]"

text \<open>
  The width of the space a string starts with under a list of encodings, 0 when it starts
  with none.  A space's lead byte is never a continuation byte, so looking at every byte
  offset finds exactly the spaces Go's rune-wise scan finds.
\<close>

definition code_len :: "string list \<Rightarrow> string \<Rightarrow> nat" where
  "code_len codes s = (case find (\<lambda>p. prefix p s) codes of None \<Rightarrow> 0 | Some p \<Rightarrow> length p)"

definition space_len :: "string \<Rightarrow> nat" where
  "space_len s = code_len space_codes s"

lemma code_len_0: "[] \<notin> set codes \<Longrightarrow> code_len codes s = 0 \<longleftrightarrow> (\<forall>p \<in> set codes. \<not> prefix p s)"
  by (auto simp: code_len_def find_None_iff find_Some_iff split: option.splits)
     (metis length_0_conv nth_mem)

lemma nil_not_space [simp]: "[] \<notin> set space_codes"
  by (simp add: space_codes_def)

lemma space_len_0: "space_len s = 0 \<longleftrightarrow> (\<forall>p \<in> set space_codes. \<not> prefix p s)"
  by (simp add: space_len_def code_len_0)

lemma space_len_Nil [simp]: "space_len [] = 0"
  by (auto simp: space_len_0)

lemma space_len_blank [simp]: "space_len (CHR '' '' # s) = 1"
  by (simp add: space_len_def code_len_def space_codes_def)

function fields_from :: "string \<Rightarrow> string \<Rightarrow> string list" where
  "fields_from cur [] = (if cur = [] then [] else [cur])"
| "fields_from cur (c # s) =
     (if space_len (c # s) = 0 then fields_from (cur @ [c]) s
      else (if cur = [] then [] else [cur])
           @ fields_from [] (drop (space_len (c # s)) (c # s)))"
  by pat_completeness auto
termination
  by (relation "measure (\<lambda>(cur, s). length s)") auto

declare fields_from.simps(2) [simp del]

text \<open>\<open>strings.Fields\<close>: the maximal runs of runes that are not white space.\<close>

definition Fields :: "string \<Rightarrow> string list" where
  "Fields s = fields_from [] s"

function trim_codes :: "string list \<Rightarrow> string \<Rightarrow> string" where
  "trim_codes codes s =
     (if code_len codes s = 0 then s else trim_codes codes (drop (code_len codes s) s))"
  by pat_completeness auto
termination
proof (relation "measure (\<lambda>(codes, s). length s)", goal_cases)
  case (2 codes s)
  then have "code_len codes s \<noteq> 0" by simp
  moreover from this have "s \<noteq> []"
    by (auto simp: code_len_def find_Some_iff split: option.splits)
  ultimately show ?case by simp
qed simp

declare trim_codes.simps [simp del]

definition TrimSpace :: "string \<Rightarrow> string" where
  "TrimSpace s = rev (trim_codes (map rev space_codes) (rev (trim_codes space_codes s)))"

section \<open>Searching, cutting and joining\<close>

fun Index :: "string \<Rightarrow> string \<Rightarrow> nat option" where
  "Index [] p = (if p = [] then Some 0 else None)"
| "Index (c # s) p = (if prefix p (c # s) then Some 0 else map_option Suc (Index s p))"

definition Contains :: "string \<Rightarrow> string \<Rightarrow> bool" where
  "Contains s p \<longleftrightarrow> Index s p \<noteq> None"

abbreviation HasPrefix :: "string \<Rightarrow> string \<Rightarrow> bool" where
  "HasPrefix s p \<equiv> prefix p s"

definition CutPrefix :: "string \<Rightarrow> string \<Rightarrow> string option" where
  "CutPrefix s p = (if prefix p s then Some (drop (length p) s) else None)"

definition TrimPrefix :: "string \<Rightarrow> string \<Rightarrow> string" where
  "TrimPrefix s p = (if prefix p s then drop (length p) s else s)"

definition TrimSuffix :: "string \<Rightarrow> string \<Rightarrow> string" where
  "TrimSuffix s tail = (if suffix tail s then take (length s - length tail) s else s)"

definition HasSuffix :: "string \<Rightarrow> string \<Rightarrow> bool" where
  "HasSuffix s tail \<longleftrightarrow> suffix tail s"

definition TrimLeft :: "string \<Rightarrow> string \<Rightarrow> string" where
  "TrimLeft s cutset = dropWhile (\<lambda>c. c \<in> set cutset) s"

definition ContainsAny :: "string \<Rightarrow> string \<Rightarrow> bool" where
  "ContainsAny s chars \<longleftrightarrow> list_ex (\<lambda>c. c \<in> set chars) s"

fun Join :: "string list \<Rightarrow> string \<Rightarrow> string" where
  "Join [] sep = []"
| "Join [x] sep = x"
| "Join (x # y # xs) sep = x @ sep @ Join (y # xs) sep"

text \<open>\<open>strings.SplitN(s, sep, 2)\<close> for a one-byte separator.\<close>

definition SplitTwo :: "string \<Rightarrow> char \<Rightarrow> string \<times> string option" where
  "SplitTwo s sep =
     (case dropWhile (\<lambda>c. c \<noteq> sep) s of [] \<Rightarrow> (s, None)
      | _ # rest \<Rightarrow> (takeWhile (\<lambda>c. c \<noteq> sep) s, Some rest))"

definition digits :: string where
  "digits = ''0123456789''"

definition is_digit :: "char \<Rightarrow> bool" where
  "is_digit c \<longleftrightarrow> 48 \<le> byte c \<and> byte c \<le> 57"

definition digit_value :: "char \<Rightarrow> int" where
  "digit_value c = int (byte c) - 48"

definition digits_value :: "string \<Rightarrow> int" where
  "digits_value s = foldl (\<lambda>n c. 10 * n + digit_value c) 0 s"

text \<open>\<open>strconv.Atoi\<close> on a 64-bit platform: an optional sign, digits, and the range check.\<close>

definition Atoi :: "string \<Rightarrow> int option" where
  "Atoi s =
     (let (neg, ds) = (case s of [] \<Rightarrow> (False, [])
          | c # r \<Rightarrow> if c = CHR ''-'' then (True, r)
                     else if c = CHR ''+'' then (False, r) else (False, s));
          v = (if neg then - digits_value ds else digits_value ds)
      in if ds \<noteq> [] \<and> list_all is_digit ds \<and> fits64 v then Some v else None)"

section \<open>Facts on searching\<close>

lemma Index_Some:
  "Index s p = Some i \<Longrightarrow> i \<le> length s \<and> prefix p (drop i s)
     \<and> (\<forall>j < i. \<not> prefix p (drop j s))"
proof (induction s arbitrary: i)
  case (Cons c s)
  show ?case
  proof (cases "prefix p (c # s)")
    case False
    with Cons.prems obtain k where k: "Index s p = Some k" and i: "i = Suc k" by auto
    from Cons.IH [OF k] False show ?thesis by (auto simp: i less_Suc_eq_0_disj)
  qed (use Cons.prems in auto)
qed (auto split: if_splits)

lemma Index_None: "Index s p = None \<longleftrightarrow> (\<forall>i \<le> length s. \<not> prefix p (drop i s))"
proof (induction s)
  case (Cons c s)
  have "(\<forall>i \<le> length (c # s). \<not> prefix p (drop i (c # s)))
      \<longleftrightarrow> \<not> prefix p (c # s) \<and> (\<forall>i \<le> length s. \<not> prefix p (drop i s))"
    (is "?l \<longleftrightarrow> ?r")
  proof
    assume l: ?l
    have "\<not> prefix p (drop i s)" if "i \<le> length s" for i
      using l [rule_format, of "Suc i"] that by simp
    with l [rule_format, of 0] show ?r by simp
  next
    assume ?r
    then show ?l by (metis Suc_le_mono drop0 drop_Suc_Cons length_Cons not0_implies_Suc)
  qed
  with Cons show ?case by simp
qed auto

lemma Index_split:
  assumes "Index s p = Some i"
  shows "s = take i s @ p @ drop (i + length p) s"
proof -
  from Index_Some [OF assms] obtain r where r: "drop i s = p @ r" by (auto simp: prefix_def)
  then have "drop (i + length p) s = r"
    by (metis add.commute append_eq_conv_conj drop_drop)
  with r show ?thesis by (metis append_take_drop_id)
qed

lemma Contains_iff [text_simps]: "Contains s p \<longleftrightarrow> sublist p s"
proof
  assume "Contains s p"
  then obtain i where "Index s p = Some i" by (auto simp: Contains_def)
  from Index_split [OF this] show "sublist p s" by (auto simp: sublist_def)
next
  assume "sublist p s"
  then obtain a b where s: "s = a @ p @ b" by (auto simp: sublist_def)
  have "length a \<le> length s" and "prefix p (drop (length a) s)" by (simp_all add: s)
  then show "Contains s p" using Index_None by (auto simp: Contains_def)
qed

lemma Contains_refl [simp]: "Contains s s"
  by (simp add: Contains_iff)

section \<open>Facts on fields\<close>

text \<open>A solid string starts no white space at any offset: what \<open>Fields\<close> cuts out.\<close>

definition solid :: "string \<Rightarrow> bool" where
  "solid f \<longleftrightarrow> f \<noteq> [] \<and> (\<forall>t. suffix t f \<longrightarrow> t \<noteq> [] \<longrightarrow> space_len t = 0)"

lemma space_len_prefix: "space_len (t @ r) = 0 \<Longrightarrow> space_len t = 0"
  by (auto simp: space_len_0 prefix_prefix)

lemma blank_code: "p \<in> set space_codes \<Longrightarrow> CHR '' '' \<in> set p \<Longrightarrow> p = '' ''"
  by (auto simp: space_codes_def)

lemma space_len_before_blank:
  assumes "space_len t = 0" and "t \<noteq> []"
  shows "space_len (t @ CHR '' '' # r) = 0"
proof -
  { fix p assume p: "p \<in> set space_codes" and "prefix p (t @ CHR '' '' # r)"
    then consider "prefix p t" | u where "p = t @ CHR '' '' # u"
      by (auto simp: prefix_append prefix_Cons)
    then have False
    proof cases
      case 1 with assms p show False by (auto simp: space_len_0)
    next
      case 2
      with p have "p = '' ''" by (intro blank_code) auto
      with 2 assms(2) show False by (cases t) auto
    qed }
  then show ?thesis by (auto simp: space_len_0)
qed

lemma fields_from_solid:
  "cur @ f \<noteq> [] \<Longrightarrow> (\<forall>t. suffix t f \<longrightarrow> t \<noteq> [] \<longrightarrow> space_len t = 0) \<Longrightarrow>
   fields_from cur (f @ CHR '' '' # r) = (cur @ f) # fields_from [] r"
proof (induction f arbitrary: cur)
  case Nil
  then show ?case by (simp add: fields_from.simps(2))
next
  case (Cons c f)
  have "space_len (c # f) = 0" using Cons.prems(2) by blast
  then have "space_len ((c # f) @ CHR '' '' # r) = 0" by (rule space_len_before_blank) simp
  then have "fields_from cur ((c # f) @ CHR '' '' # r) = fields_from (cur @ [c]) (f @ CHR '' '' # r)"
    by (simp add: fields_from.simps(2))
  also have "\<dots> = ((cur @ [c]) @ f) # fields_from [] r"
    by (rule Cons.IH) (use Cons.prems(2) in \<open>auto simp: suffix_Cons\<close>)
  finally show ?case by simp
qed

lemma fields_from_solid_end:
  "cur @ f \<noteq> [] \<Longrightarrow> (\<forall>t. suffix t f \<longrightarrow> t \<noteq> [] \<longrightarrow> space_len t = 0) \<Longrightarrow>
   fields_from cur f = [cur @ f]"
proof (induction f arbitrary: cur)
  case (Cons c f)
  have "space_len (c # f) = 0" using Cons.prems(2) by blast
  then have "fields_from cur (c # f) = fields_from (cur @ [c]) f"
    by (simp add: fields_from.simps(2))
  also have "\<dots> = [(cur @ [c]) @ f]"
    by (rule Cons.IH) (use Cons.prems(2) in \<open>auto simp: suffix_Cons\<close>)
  finally show ?case by simp
qed simp

lemma fields_from_props:
  "(\<And>t. suffix t cur \<Longrightarrow> t \<noteq> [] \<Longrightarrow> space_len (t @ s) = 0) \<Longrightarrow>
   f \<in> set (fields_from cur s) \<Longrightarrow> solid f \<and> sublist f (cur @ s)"
proof (induction cur s rule: fields_from.induct)
  case (1 cur)
  then show ?case by (auto simp: solid_def split: if_splits)
next
  case (2 cur c s)
  show ?case
  proof (cases "space_len (c # s) = 0")
    case True
    have "solid f \<and> sublist f ((cur @ [c]) @ s)"
    proof (rule "2.IH"(1) [OF True])
      show "f \<in> set (fields_from (cur @ [c]) s)"
        using "2.prems"(2) True by (simp add: fields_from.simps(2))
      fix t assume t: "suffix t (cur @ [c])" "t \<noteq> []"
      then obtain u where "t = u @ [c]" "suffix u cur" by (auto simp: suffix_append suffix_Cons)
      then show "space_len (t @ s) = 0" using "2.prems"(1) [of u] True by (cases "u = []") auto
    qed
    then show ?thesis by simp
  next
    case False
    let ?r = "drop (space_len (c # s)) (c # s)"
    from "2.prems"(2) False
    have "(cur \<noteq> [] \<and> f = cur) \<or> f \<in> set (fields_from [] ?r)"
      by (auto simp: fields_from.simps(2) split: if_splits)
    then show ?thesis
    proof
      assume f: "cur \<noteq> [] \<and> f = cur"
      then have "solid f"
        using "2.prems"(1) by (auto simp: solid_def dest: space_len_prefix)
      with f show ?thesis by simp
    next
      assume "f \<in> set (fields_from [] ?r)"
      with "2.IH"(2) [OF False] have "solid f \<and> sublist f ([] @ ?r)" by simp
      then have "solid f" and "sublist f ?r" by simp_all
      moreover have "sublist ?r (cur @ c # s)"
        by (meson sublist_append_leftI sublist_drop sublist_order.order.trans)
      ultimately show ?thesis by (meson sublist_order.order.trans)
    qed
  qed
qed

lemma Fields_solid: "f \<in> set (Fields s) \<Longrightarrow> solid f"
  using fields_from_props [of "[]" s f] by (simp add: Fields_def)

lemma Fields_sublist: "f \<in> set (Fields s) \<Longrightarrow> sublist f s"
  using fields_from_props [of "[]" s f] by (simp add: Fields_def)

lemma Fields_Nil [simp]: "Fields [] = []"
  by (simp add: Fields_def)

lemma Fields_Join_solid: "(\<And>f. f \<in> set fs \<Longrightarrow> solid f) \<Longrightarrow> Fields (Join fs '' '') = fs"
proof (induction fs "'' ''" rule: Join.induct)
  case (2 x)
  then show ?case by (simp add: Fields_def solid_def fields_from_solid_end [of "[]", simplified])
next
  case (3 x y xs)
  then have "solid x" by simp
  then have "Fields (x @ CHR '' '' # Join (y # xs) '' '') = x # Fields (Join (y # xs) '' '')"
    unfolding Fields_def solid_def by (intro fields_from_solid [of "[]", simplified]) auto
  with 3 show ?case by simp
qed simp

lemma Fields_Join_Fields [text_simps]: "Fields (Join (Fields s) '' '') = Fields s"
  by (rule Fields_Join_solid) (rule Fields_solid)

lemma Join_Nil_iff: "(\<And>f. f \<in> set fs \<Longrightarrow> f \<noteq> []) \<Longrightarrow> Join fs sep = [] \<longleftrightarrow> fs = []"
  by (induction fs sep rule: Join.induct) auto

lemma Join_Fields_Nil_iff: "Join (Fields s) '' '' = [] \<longleftrightarrow> Fields s = []"
  by (rule Join_Nil_iff) (use Fields_solid solid_def in blast)

end
