(* ===== verification/Model.thy ===== *)
theory Model
  imports GoText
begin

text \<open>
  The domain types of internal/model: offers, carts, orders, searches, items and source
  health, field by field, with the source's names behind a type prefix (record fields are
  global in Isabelle).  A pointer that may be nil is an option, a \<open>map[string]string\<close> an
  association list, a \<open>time.Time\<close> its nanoseconds since the epoch and a \<open>time.Duration\<close>
  a number of nanoseconds.  The string types a caller fills in (game, match mode, product
  kind) stay strings, since any text can arrive in them; the status types the program
  itself writes are datatypes.
\<close>

type_synonym time = int
type_synonym duration = int

definition nanosecond :: duration where "nanosecond = 1"
definition millisecond :: duration where "millisecond = 1000000"
definition second :: duration where "second = 1000000000"
definition minute :: duration where "minute = 60 * second"
definition hour :: duration where "hour = 60 * minute"

lemmas duration_defs = nanosecond_def millisecond_def second_def minute_def hour_def

section \<open>Offers (internal/model/offer.go)\<close>

type_synonym product_kind = string
type_synonym match_mode = string
type_synonym game = string

definition KindSingle :: product_kind where "KindSingle = ''single''"
definition KindSealed :: product_kind where "KindSealed = ''sealed''"
definition MatchExact :: match_mode where "MatchExact = ''exact''"
definition MatchIncludes :: match_mode where "MatchIncludes = ''includes''"

lemmas kind_defs = KindSingle_def KindSealed_def
lemmas match_defs = MatchExact_def MatchIncludes_def

record offer =
  OfferID :: string
  OfferCardName :: string
  OfferStore :: string
  OfferPriceAmount :: string
  OfferPriceCurrency :: string
  OfferURL :: string
  OfferImage :: string
  OfferVariantID :: string
  OfferLanguage :: string
  OfferCondition :: string
  OfferFinish :: string
  OfferEdition :: string
  OfferKind :: product_kind
  OfferLocations :: "string list"
  OfferCardKey :: string
  OfferSource :: string
  OfferStockStatus :: string
  OfferStockQuantity :: "int option"
  OfferSuspicious :: bool
  OfferSuspiciousReason :: string
  OfferMetadata :: "(string \<times> string) list"

text \<open>Reading a Go map answers the zero value for a missing key.\<close>

definition lookup_string :: "(string \<times> string) list \<Rightarrow> string \<Rightarrow> string" where
  "lookup_string m k = (case map_of m k of None \<Rightarrow> [] | Some v \<Rightarrow> v)"

record stock_reading =
  ReadingStatus :: string
  ReadingQuantity :: "int option"

definition ReadStock :: "string \<Rightarrow> stock_reading" where
  "ReadStock status = \<lparr>ReadingStatus = status, ReadingQuantity = None\<rparr>"

definition CountStock :: "string \<Rightarrow> int \<Rightarrow> stock_reading" where
  "CountStock status quantity = \<lparr>ReadingStatus = status, ReadingQuantity = Some quantity\<rparr>"

record card_query =
  QueryName :: string
  QueryMatch :: match_mode
  QueryKind :: product_kind

text \<open>The offer with every field at Go's zero value.\<close>

definition zero_offer :: offer where
  "zero_offer = \<lparr>OfferID = [], OfferCardName = [], OfferStore = [], OfferPriceAmount = [],
     OfferPriceCurrency = [], OfferURL = [], OfferImage = [], OfferVariantID = [],
     OfferLanguage = [], OfferCondition = [], OfferFinish = [], OfferEdition = [],
     OfferKind = [], OfferLocations = [], OfferCardKey = [], OfferSource = [],
     OfferStockStatus = [], OfferStockQuantity = None, OfferSuspicious = False,
     OfferSuspiciousReason = [], OfferMetadata = []\<rparr>"

section \<open>Carts and orders (internal/model/cart.go)\<close>

record cart_line =
  LineOffer :: offer
  LineQuantity :: int

record shipping_address =
  AddressCountry :: string
  AddressRegion :: string
  AddressCity :: string
  AddressPostcode :: string

record quote_line =
  QuoteLineOfferID :: string
  QuoteLineQuantity :: int
  QuoteLineUnitPrice :: string

record shipping_rate =
  RateID :: string
  RateName :: string
  RatePrice :: string
  RateSelected :: bool

record cart_quote =
  QuoteCurrency :: string
  QuoteItems :: string
  QuoteShipping :: string
  QuoteTotal :: string
  QuoteLines :: "quote_line list"
  QuoteShippingRates :: "shipping_rate list"
  QuotePaymentMethods :: "string list"
  QuoteNotices :: "string list"

record cart_request =
  RequestOfferID :: string
  RequestQuantity :: int

record checkout_line =
  CheckoutOfferID :: string
  CheckoutQuantity :: int
  CheckoutURL :: string

record store_checkout =
  CheckoutStore :: string
  CheckoutDomain :: string
  CheckoutMode :: string
  CheckoutLinkURL :: string
  CheckoutLines :: "checkout_line list"
  CheckoutQuote :: "cart_quote option"
  CheckoutQuoteError :: string

record offer_stock =
  StockOfferID :: string
  StockReadingOf :: stock_reading

datatype order_status = OrderPending | OrderConfirmed | OrderReleased | OrderLinked | OrderReported

record order =
  OrderID :: string
  OrderSearchID :: string
  OrderStore :: string
  OrderDomain :: string
  OrderLines :: "checkout_line list"
  OrderStatus :: order_status
  OrderStoreOrder :: string
  OrderPaymentURL :: string
  OrderCreatedAt :: time
  OrderUpdatedAt :: time

section \<open>Searches and items (internal/model/search.go)\<close>

datatype job_status =
  JobQueued | JobRunning | JobCompleted | JobCompletedWithErrors | JobFailed | JobCancelled

datatype item_status = ItemPending | ItemRunning | ItemFound | ItemNotFound | ItemSourceError

record card_input =
  CardInputName :: string
  CardInputQuantity :: int

definition GameDigimon :: game where "GameDigimon = ''digimon''"
definition GameMagic :: game where "GameMagic = ''magic''"
definition GameMitos :: game where "GameMitos = ''mitos-y-leyendas''"
definition GameOnePiece :: game where "GameOnePiece = ''one-piece''"
definition GamePokemon :: game where "GamePokemon = ''pokemon''"
definition GameRiftbound :: game where "GameRiftbound = ''riftbound''"
definition GameYuGiOh :: game where "GameYuGiOh = ''yugioh''"

lemmas game_defs = GameDigimon_def GameMagic_def GameMitos_def GameOnePiece_def
  GamePokemon_def GameRiftbound_def GameYuGiOh_def

record options =
  OptVerifyStock :: bool
  OptMatch :: match_mode
  OptKind :: product_kind

record source_fault =
  FaultSource :: string
  FaultReason :: string

record create_input =
  InputGame :: game
  InputCards :: "card_input list"
  InputOptions :: options

record job =
  JobID :: string
  JobGame :: game
  JobStatus :: job_status
  JobTotal :: int
  JobProcessed :: int
  JobCurrentCard :: string
  JobFound :: int
  JobNotFound :: int
  JobErrors :: int
  JobCreatedAt :: time
  JobStartedAt :: "time option"
  JobUpdatedAt :: time
  JobFinishedAt :: "time option"
  JobIncidentID :: string

record item =
  ItemID :: string
  ItemSearchID :: string
  ItemGame :: game
  ItemPosition :: int
  ItemSequence :: int
  ItemOriginalName :: string
  ItemNormalizedName :: string
  ItemQuantity :: int
  ItemStatus :: item_status
  ItemAttempts :: int
  ItemSource :: string
  ItemErrorCode :: string
  ItemErrorMessage :: string
  ItemOffers :: "offer list"
  ItemLeaseOwner :: string
  ItemLeaseUntil :: "time option"
  ItemVerifyStock :: bool
  ItemMatch :: match_mode
  ItemKind :: product_kind
  ItemFaults :: "source_fault list"

record search_result =
  ResultSearchID :: string
  ResultItems :: "item list"
  ResultCursor :: int
  ResultHasMore :: bool

record result_page =
  PageAfter :: int
  PageLimit :: int

record source_health =
  HealthSource :: string
  HealthPlatform :: string
  HealthEnabled :: bool
  HealthEstimatedMs :: int
  HealthLastSuccess :: "time option"
  HealthLastFailure :: "time option"
  HealthFailures :: int
  HealthLatencyMs :: int
  HealthOpenUntil :: "time option"

section \<open>Failures\<close>

text \<open>
  The error values the program distinguishes, one constructor per sentinel of the source
  (internal/model/cart.go, internal/model/offer.go, internal/search/failures.go,
  internal/repositories/repository.go, internal/source/client.go and the list error of
  internal/stores/moxfield; \<open>ErrCatalogCardNotFound\<close> is the \<open>ErrCardNotFound\<close> of
  internal/cardmetadata), \<open>StatusError\<close> with its code and body, the two ends of a
  context, and \<open>Failure\<close> for any error from outside the program.  \<open>OutOfFuel\<close> is not an
  error of the program: a loop of the model that used up its fuel ends with it.
\<close>

datatype failure =
    ErrInvalidOffer | ErrInvalidKind | ErrInvalidMatch
  | ErrNoQuote | ErrOrderNotFound | ErrOrderNotSupported | ErrOrderConflict
  | ErrConflict | ErrInvalid | ErrNotFound | ErrNotRunning
  | ErrNoCardMetadata | ErrNoAutocomplete | ErrNoCardName | ErrNoCardNames
  | ErrCardNotFound | ErrUnsupportedLanguage | ErrCatalogCardNotFound
  | ErrMissing | ErrExists | ErrReadAfterWrite
  | ErrCircuitOpen time
  | StatusError int string
  | ErrNoList
  | ContextDone
  | OutOfFuel
  | Failure string

end
