(* ===== verification/Records.thy ===== *)
theory Records
  imports Model
begin

text \<open>
  What the program keeps: the records of internal/repositories/records.go and the named
  collections of internal/repositories/collections.go.  A collection is an association
  list from document ids to records; its order stands for the order in which storage
  answers ties, of which statements use only that changing a document keeps its place.  A \<open>table\<close> pairs the two directions of one
  collection (read it out of the database, change it in place), so that the repository
  primitive is written once for every collection.
\<close>

section \<open>Stored records\<close>

record kept_search =
  KeptJob :: job
  KeptItemIDs :: "string list"
  KeptExpiresAt :: time

record kept_item =
  KeptItem :: item
  KeptAvailableAt :: time
  KeptItemExpiresAt :: time
  KeptDamaged :: bool

record entry =
  EntryOffers :: "offer list"
  EntryExpiresAt :: time
  EntryIndexed :: bool

record snapshot =
  SnapshotOffer :: offer
  SnapshotExpiresAt :: time

record request =
  RequestHash :: string
  RequestResourceID :: string
  RequestExpiresAt :: time

record lease =
  NextAllowedAt :: time

section \<open>Collections\<close>

type_synonym 'a coll = "(string \<times> 'a) list"

record database =
  db_searches :: "kept_search coll"
  db_items :: "kept_item coll"
  db_item_offers :: "entry coll"
  db_requests :: "request coll"
  db_orders :: "order coll"
  db_offers :: "snapshot coll"
  db_offer_cache :: "entry coll"
  db_source_health :: "source_health coll"
  db_traffic :: "lease coll"
  db_health :: "unit coll"

definition empty_db :: database where
  "empty_db = \<lparr>db_searches = [], db_items = [], db_item_offers = [], db_requests = [],
     db_orders = [], db_offers = [], db_offer_cache = [], db_source_health = [],
     db_traffic = [], db_health = []\<rparr>"

record 'a table =
  table_rows :: "database \<Rightarrow> 'a coll"
  table_change :: "('a coll \<Rightarrow> 'a coll) \<Rightarrow> database \<Rightarrow> database"

definition Searches :: "kept_search table" where
  "Searches = \<lparr>table_rows = db_searches, table_change = db_searches_update\<rparr>"

definition Items :: "kept_item table" where
  "Items = \<lparr>table_rows = db_items, table_change = db_items_update\<rparr>"

definition ItemOfferEntries :: "entry table" where
  "ItemOfferEntries = \<lparr>table_rows = db_item_offers, table_change = db_item_offers_update\<rparr>"

definition Requests :: "request table" where
  "Requests = \<lparr>table_rows = db_requests, table_change = db_requests_update\<rparr>"

definition Orders :: "order table" where
  "Orders = \<lparr>table_rows = db_orders, table_change = db_orders_update\<rparr>"

definition Offers :: "snapshot table" where
  "Offers = \<lparr>table_rows = db_offers, table_change = db_offers_update\<rparr>"

definition OfferCache :: "entry table" where
  "OfferCache = \<lparr>table_rows = db_offer_cache, table_change = db_offer_cache_update\<rparr>"

definition SourceHealth :: "source_health table" where
  "SourceHealth = \<lparr>table_rows = db_source_health, table_change = db_source_health_update\<rparr>"

definition Traffic :: "lease table" where
  "Traffic = \<lparr>table_rows = db_traffic, table_change = db_traffic_update\<rparr>"

definition Health :: "unit table" where
  "Health = \<lparr>table_rows = db_health, table_change = db_health_update\<rparr>"

lemmas table_defs = Searches_def Items_def ItemOfferEntries_def Requests_def Orders_def
  Offers_def OfferCache_def SourceHealth_def Traffic_def Health_def

lemma table_rows_simps [simp]:
  "table_rows Searches = db_searches" "table_rows Items = db_items"
  "table_rows ItemOfferEntries = db_item_offers" "table_rows Requests = db_requests"
  "table_rows Orders = db_orders" "table_rows Offers = db_offers"
  "table_rows OfferCache = db_offer_cache" "table_rows SourceHealth = db_source_health"
  "table_rows Traffic = db_traffic" "table_rows Health = db_health"
  by (simp_all add: table_defs)

lemma table_change_simps [simp]:
  "table_change Searches = db_searches_update" "table_change Items = db_items_update"
  "table_change ItemOfferEntries = db_item_offers_update"
  "table_change Requests = db_requests_update" "table_change Orders = db_orders_update"
  "table_change Offers = db_offers_update" "table_change OfferCache = db_offer_cache_update"
  "table_change SourceHealth = db_source_health_update"
  "table_change Traffic = db_traffic_update" "table_change Health = db_health_update"
  by (simp_all add: table_defs)

section \<open>Reading and writing one record\<close>

definition row_of :: "'a table \<Rightarrow> string \<Rightarrow> database \<Rightarrow> 'a option" where
  "row_of t i d = map_of (table_rows t d) i"

definition put_row :: "'a table \<Rightarrow> string \<Rightarrow> 'a \<Rightarrow> database \<Rightarrow> database" where
  "put_row t i v d = table_change t (AList.update i v) d"

definition drop_row :: "'a table \<Rightarrow> string \<Rightarrow> database \<Rightarrow> database" where
  "drop_row t i d = table_change t (AList.delete i) d"

definition put_rows :: "'a table \<Rightarrow> (string \<times> 'a) list \<Rightarrow> database \<Rightarrow> database" where
  "put_rows t rows d = foldl (\<lambda>d (i, v). put_row t i v d) d rows"

text \<open>
  The interface every store of the program relies on: a collection answers what was last
  written to it under each id, and the other ids stand.
\<close>

locale keyed_table =
  fixes t :: "'a table"
  assumes rows_change: "table_rows t (table_change t f d) = f (table_rows t d)"
begin

lemma row_of_put: "row_of t i (put_row t j v d) = (if i = j then Some v else row_of t i d)"
  by (simp add: row_of_def put_row_def rows_change map_of_alist_update)

lemma row_of_drop: "row_of t i (drop_row t j d) = (if i = j then None else row_of t i d)"
  by (simp add: row_of_def drop_row_def rows_change map_of_alist_delete)

lemma row_of_put_rows:
  "row_of t i (put_rows t rows d) =
   (case map_of (rev rows) i of Some v \<Rightarrow> Some v | None \<Rightarrow> row_of t i d)"
proof (induction rows arbitrary: d)
  case (Cons r rows)
  obtain j v where r: "r = (j, v)" by (cases r)
  have "put_rows t (r # rows) d = put_rows t rows (put_row t j v d)"
    by (simp add: put_rows_def r)
  then show ?case by (simp add: Cons.IH r map_add_def row_of_put split: option.splits)
qed (simp add: put_rows_def)

lemma distinct_put:
  "distinct (map fst (table_rows t d)) \<Longrightarrow> distinct (map fst (table_rows t (put_row t i v d)))"
  by (simp add: put_row_def rows_change distinct_alist_update)

lemma distinct_drop:
  "distinct (map fst (table_rows t d)) \<Longrightarrow> distinct (map fst (table_rows t (drop_row t i d)))"
  by (simp add: drop_row_def rows_change distinct_alist_delete)

end

interpretation searches: keyed_table Searches by unfold_locales simp
interpretation items: keyed_table Items by unfold_locales simp
interpretation item_offers: keyed_table ItemOfferEntries by unfold_locales simp
interpretation requests: keyed_table Requests by unfold_locales simp
interpretation orders: keyed_table Orders by unfold_locales simp
interpretation offers: keyed_table Offers by unfold_locales simp
interpretation offer_cache: keyed_table OfferCache by unfold_locales simp
interpretation source_health: keyed_table SourceHealth by unfold_locales simp
interpretation traffic: keyed_table Traffic by unfold_locales simp
interpretation health: keyed_table Health by unfold_locales simp

lemmas row_simps [coll_simps] =
  searches.row_of_put searches.row_of_drop items.row_of_put items.row_of_drop
  item_offers.row_of_put item_offers.row_of_drop requests.row_of_put requests.row_of_drop
  orders.row_of_put orders.row_of_drop offers.row_of_put offers.row_of_drop
  offer_cache.row_of_put offer_cache.row_of_drop source_health.row_of_put
  source_health.row_of_drop traffic.row_of_put traffic.row_of_drop

text \<open>Writing one collection leaves the others.\<close>

lemma row_of_other [coll_simps]:
  "row_of Searches i (put_row Items j x d) = row_of Searches i d"
  "row_of Searches i (drop_row Items j d) = row_of Searches i d"
  "row_of Searches i (put_row ItemOfferEntries j y d) = row_of Searches i d"
  "row_of Searches i (put_row Requests j z d) = row_of Searches i d"
  "row_of Items i (put_row Searches j u d) = row_of Items i d"
  "row_of Items i (put_row ItemOfferEntries j y d) = row_of Items i d"
  "row_of Items i (put_row Requests j z d) = row_of Items i d"
  "row_of ItemOfferEntries i (put_row Searches j u d) = row_of ItemOfferEntries i d"
  "row_of ItemOfferEntries i (put_row Items j x d) = row_of ItemOfferEntries i d"
  "row_of Requests i (put_row Searches j u d) = row_of Requests i d"
  "row_of Requests i (put_row Items j x d) = row_of Requests i d"
  "row_of Requests i (put_row Orders j k d) = row_of Requests i d"
  "row_of Orders i (put_row Requests j z d) = row_of Orders i d"
  "row_of Offers i (put_row OfferCache j y d) = row_of Offers i d"
  "row_of OfferCache i (put_row Offers j w d) = row_of OfferCache i d"
  "row_of SourceHealth i (put_row Traffic j v d) = row_of SourceHealth i d"
  "row_of Traffic i (put_row SourceHealth j g d) = row_of Traffic i d"
  by (simp_all add: row_of_def put_row_def drop_row_def)

end
