(* ===== verification/Effects.thy ===== *)
theory Effects
  imports Records
begin

text \<open>
  The effects the program runs under, and the repository primitive of
  internal/repositories/repository.go as internal/db/collection.go implements it.

  A \<open>world\<close> holds the database, the clock the program reads, the random identifiers it
  draws, and what the backend answers: \<open>outage n\<close> says whether the n-th call to it fails,
  and with what message.  The clock need not advance, and any call may fail, unless a statement says
  otherwise.  An operation maps a world to a failure or a value and the next world.

  Inside \<open>Transact\<close> the calls are bound to one transaction, as Firestore runs it: a read
  after the first write fails, \<open>Create\<close> over a kept id is found out when the transaction
  commits, and any failure undoes every write.  A transaction that contention restarts
  leaves no trace of the earlier runs; they are not modelled.
\<close>

record world =
  wdb :: database
  calls :: nat
  outage :: "nat \<Rightarrow> string option"
  ticks :: nat
  clock :: "nat \<Rightarrow> time"
  draws :: nat
  entropy :: "nat \<Rightarrow> string"
  tx_open :: bool
  tx_wrote :: bool
  tx_doomed :: bool
  naps :: "duration list"

text \<open>A world where nothing fails, the clock reads 0, 1, 2, ... and every draw is new.\<close>

definition calm_world :: "database \<Rightarrow> world" where
  "calm_world d = \<lparr>wdb = d, calls = 0, outage = (\<lambda>_. None), ticks = 0, clock = int, draws = 0,
     entropy = (\<lambda>n. replicate n CHR ''x''), tx_open = False, tx_wrote = False,
     tx_doomed = False, naps = []\<rparr>"

type_synonym 'a io = "world \<Rightarrow> (failure + 'a) \<times> world"

section \<open>Sequencing\<close>

definition return_io :: "'a \<Rightarrow> 'a io" where
  "return_io x w = (Inr x, w)"

definition fail_io :: "failure \<Rightarrow> 'a io" where
  "fail_io e w = (Inl e, w)"

definition bind_io :: "'a io \<Rightarrow> ('a \<Rightarrow> 'b io) \<Rightarrow> 'b io" where
  "bind_io m f w = (case m w of (Inl e, w') \<Rightarrow> (Inl e, w') | (Inr x, w') \<Rightarrow> f x w')"

text \<open>Go's \<open>value, err := m\<close> where the caller looks at the error itself.\<close>

definition try_io :: "'a io \<Rightarrow> (failure + 'a) io" where
  "try_io m w = (case m w of (r, w') \<Rightarrow> (Inr r, w'))"

definition map_failure :: "(failure \<Rightarrow> failure) \<Rightarrow> 'a io \<Rightarrow> 'a io" where
  "map_failure g m w = (case m w of (Inl e, w') \<Rightarrow> (Inl (g e), w') | (Inr x, w') \<Rightarrow> (Inr x, w'))"

definition when_io :: "bool \<Rightarrow> unit io \<Rightarrow> unit io" where
  "when_io b m = (if b then m else return_io ())"

fun each_io :: "('a \<Rightarrow> unit io) \<Rightarrow> 'a list \<Rightarrow> unit io" where
  "each_io f [] = return_io ()"
| "each_io f (x # xs) = bind_io (f x) (\<lambda>_. each_io f xs)"

text \<open>\<open>time.Now()\<close>, \<open>rand.Read\<close> through hex, and a timer.\<close>

definition now :: "time io" where
  "now w = (Inr (clock w (ticks w)), w\<lparr>ticks := Suc (ticks w)\<rparr>)"

definition draw :: "string io" where
  "draw w = (Inr (entropy w (draws w)), w\<lparr>draws := Suc (draws w)\<rparr>)"

definition call_backend :: "unit io" where
  "call_backend w =
     (case outage w (calls w) of
        Some e \<Rightarrow> (Inl (Failure e), w\<lparr>calls := Suc (calls w)\<rparr>)
      | None \<Rightarrow> (Inr (), w\<lparr>calls := Suc (calls w)\<rparr>))"

definition nap :: "duration \<Rightarrow> unit io" where
  "nap d = bind_io (map_failure (\<lambda>_. ContextDone) call_backend) (\<lambda>_ w. (Inr (), w\<lparr>naps := naps w @ [d]\<rparr>))"

section \<open>The repository primitive (internal/db/collection.go)\<close>

definition read_db :: "(database \<Rightarrow> 'a) \<Rightarrow> 'a io" where
  "read_db f =
     bind_io call_backend (\<lambda>_ w.
       if tx_open w \<and> tx_wrote w then (Inl ErrReadAfterWrite, w) else (Inr (f (wdb w)), w))"

definition write_db :: "(database \<Rightarrow> database) \<Rightarrow> unit io" where
  "write_db f =
     bind_io call_backend (\<lambda>_ w. (Inr (), w\<lparr>wdb := f (wdb w), tx_wrote := True\<rparr>))"

definition Create :: "'a table \<Rightarrow> string \<Rightarrow> 'a \<Rightarrow> unit io" where
  "Create t i v =
     bind_io call_backend (\<lambda>_ w.
       if row_of t i (wdb w) = None
       then (Inr (), w\<lparr>wdb := put_row t i v (wdb w), tx_wrote := True\<rparr>)
       else if tx_open w then (Inr (), w\<lparr>tx_doomed := True, tx_wrote := True\<rparr>)
       else (Inl ErrExists, w))"

definition Save :: "'a table \<Rightarrow> string \<Rightarrow> 'a \<Rightarrow> unit io" where
  "Save t i v = write_db (put_row t i v)"

definition Get :: "'a table \<Rightarrow> string \<Rightarrow> 'a io" where
  "Get t i =
     bind_io (read_db (row_of t i))
       (\<lambda>r. case r of None \<Rightarrow> fail_io ErrMissing | Some v \<Rightarrow> return_io v)"

definition Delete :: "'a table \<Rightarrow> string \<Rightarrow> unit io" where
  "Delete t i = write_db (drop_row t i)"

definition begin_tx :: "world \<Rightarrow> world" where
  "begin_tx w = w\<lparr>tx_open := True, tx_wrote := False, tx_doomed := False\<rparr>"

definition end_tx :: "database \<Rightarrow> world \<Rightarrow> world" where
  "end_tx d w = w\<lparr>wdb := d, tx_open := False, tx_wrote := False, tx_doomed := False\<rparr>"

definition Transact :: "'a io \<Rightarrow> 'a io" where
  "Transact work w =
     (case work (begin_tx w) of
        (Inl e, w') \<Rightarrow> (Inl e, end_tx (wdb w) w')
      | (Inr x, w') \<Rightarrow>
          (case call_backend w' of
             (Inl e, w'') \<Rightarrow> (Inl e, end_tx (wdb w) w'')
           | (Inr _, w'') \<Rightarrow>
               if tx_doomed w'' then (Inl (Failure ''AlreadyExists''), end_tx (wdb w) w'')
               else (Inr x, end_tx (wdb w'') w'')))"

definition modify_row :: "'a table \<Rightarrow> string \<Rightarrow> ('a \<Rightarrow> 'a io) \<Rightarrow> 'a io" where
  "modify_row t i change =
     bind_io (Get t i) (\<lambda>current.
     bind_io (change current) (\<lambda>updated.
     bind_io (Save t i updated) (\<lambda>_. return_io updated)))"

definition Update :: "'a table \<Rightarrow> string \<Rightarrow> ('a \<Rightarrow> 'a io) \<Rightarrow> 'a io" where
  "Update t i change w =
     (if tx_open w then modify_row t i change w else Transact (modify_row t i change) w)"

text \<open>
  A query: every filter holds, ascending by one key when there is one, and at most the
  limit when it is positive.
\<close>

record ('a, 'k) query =
  QueryFilters :: "('a \<Rightarrow> bool) list"
  QueryOrderBy :: "('a \<Rightarrow> 'k) option"
  QueryLimit :: int

definition run_query :: "('a, 'k::linorder) query \<Rightarrow> 'a list \<Rightarrow> 'a list" where
  "run_query q records =
     (let kept = filter (\<lambda>r. list_all (\<lambda>p. p r) (QueryFilters q)) records;
          ordered = (case QueryOrderBy q of None \<Rightarrow> kept | Some key \<Rightarrow> sort_key key kept)
      in if 0 < QueryLimit q then take (nat (QueryLimit q)) ordered else ordered)"

definition ListRecords :: "'a table \<Rightarrow> ('a, 'k::linorder) query \<Rightarrow> 'a list io" where
  "ListRecords t q = read_db (\<lambda>d. run_query q (map snd (table_rows t d)))"

definition maxBatchWrites :: nat where "maxBatchWrites = 500"

function batches :: "'a list \<Rightarrow> 'a list list" where
  "batches xs = (if xs = [] then [] else take maxBatchWrites xs # batches (drop maxBatchWrites xs))"
  by pat_completeness auto
termination by (relation "measure length") (auto simp: maxBatchWrites_def)

declare batches.simps [simp del]

definition found_rows :: "'a table \<Rightarrow> string list \<Rightarrow> database \<Rightarrow> (string \<times> 'a) list" where
  "found_rows t ids d =
     List.map_filter (\<lambda>i. map_option (\<lambda>v. (i, v)) (row_of t i d)) ids"

fun read_batches :: "'a table \<Rightarrow> string list list \<Rightarrow> (string \<times> 'a) list io" where
  "read_batches t [] = return_io []"
| "read_batches t (g # gs) =
     bind_io (read_db (found_rows t g)) (\<lambda>found.
     bind_io (read_batches t gs) (\<lambda>rest. return_io (found @ rest)))"

definition GetMany :: "'a table \<Rightarrow> string list \<Rightarrow> (string \<times> 'a) list io" where
  "GetMany t ids = read_batches t (batches ids)"

definition SaveMany :: "'a table \<Rightarrow> (string \<times> 'a) list \<Rightarrow> unit io" where
  "SaveMany t rows w =
     (if tx_open w then each_io (\<lambda>(i, v). Save t i v) rows w
      else each_io (\<lambda>batch. write_db (put_rows t batch)) (batches rows) w)"

section \<open>How a successful run decomposes\<close>

lemma return_io_run [go_io]: "return_io x w = (r, w') \<longleftrightarrow> r = Inr x \<and> w' = w"
  by (auto simp: return_io_def)

lemma fail_io_run [go_io]: "fail_io e w = (r, w') \<longleftrightarrow> r = Inl e \<and> w' = w"
  by (auto simp: fail_io_def)

lemma bind_io_Inr [go_io]:
  "bind_io m f w = (Inr y, w') \<longleftrightarrow> (\<exists>x w1. m w = (Inr x, w1) \<and> f x w1 = (Inr y, w'))"
  by (auto simp: bind_io_def split: prod.splits sum.splits)

lemma bind_io_Inl [go_io]:
  "bind_io m f w = (Inl e, w') \<longleftrightarrow>
   m w = (Inl e, w') \<or> (\<exists>x w1. m w = (Inr x, w1) \<and> f x w1 = (Inl e, w'))"
  by (auto simp: bind_io_def split: prod.splits sum.splits)

lemma try_io_run [go_io]: "try_io m w = (r, w') \<longleftrightarrow> (\<exists>s. m w = (s, w') \<and> r = Inr s)"
  by (auto simp: try_io_def split: prod.splits)

lemmas [go_io] = split_sum_ex

lemma map_failure_Inr [go_io]: "map_failure g m w = (Inr x, w') \<longleftrightarrow> m w = (Inr x, w')"
  by (auto simp: map_failure_def split: prod.splits sum.splits)

lemma map_failure_Inl [go_io]:
  "map_failure g m w = (Inl e, w') \<longleftrightarrow> (\<exists>e0. m w = (Inl e0, w') \<and> e = g e0)"
  by (auto simp: map_failure_def split: prod.splits sum.splits)

lemma now_run [go_io]:
  "now w = (r, w') \<longleftrightarrow> r = Inr (clock w (ticks w)) \<and> w' = w\<lparr>ticks := Suc (ticks w)\<rparr>"
  by (auto simp: now_def)

lemma draw_run [go_io]:
  "draw w = (r, w') \<longleftrightarrow> r = Inr (entropy w (draws w)) \<and> w' = w\<lparr>draws := Suc (draws w)\<rparr>"
  by (auto simp: draw_def)

lemma call_backend_Inr [go_io]:
  "call_backend w = (Inr u, w') \<longleftrightarrow>
   outage w (calls w) = None \<and> w' = w\<lparr>calls := Suc (calls w)\<rparr>"
  by (auto simp: call_backend_def split: option.splits)

lemma call_backend_Inl [go_io]:
  "call_backend w = (Inl e, w') \<longleftrightarrow>
   (\<exists>s. outage w (calls w) = Some s \<and> e = Failure s) \<and> w' = w\<lparr>calls := Suc (calls w)\<rparr>"
  by (auto simp: call_backend_def split: option.splits)

lemma read_db_Inr [go_io]:
  "read_db f w = (Inr x, w') \<longleftrightarrow>
   outage w (calls w) = None \<and> \<not> (tx_open w \<and> tx_wrote w) \<and> x = f (wdb w)
   \<and> w' = w\<lparr>calls := Suc (calls w)\<rparr>"
  by (auto simp: read_db_def go_io)

lemma write_db_Inr [go_io]:
  "write_db f w = (Inr u, w') \<longleftrightarrow>
   outage w (calls w) = None
   \<and> w' = w\<lparr>calls := Suc (calls w), wdb := f (wdb w), tx_wrote := True\<rparr>"
  by (auto simp: write_db_def go_io)

lemma write_db_ok: "outage w (calls w) = None \<Longrightarrow>
   write_db f w = (Inr (), w\<lparr>calls := Suc (calls w), wdb := f (wdb w), tx_wrote := True\<rparr>)"
  by (simp add: write_db_def bind_io_def call_backend_def)

lemma write_db_down: "outage w (calls w) = Some s \<Longrightarrow>
   write_db f w = (Inl (Failure s), w\<lparr>calls := Suc (calls w)\<rparr>)"
  by (simp add: write_db_def bind_io_def call_backend_def)

lemma Get_Inr [go_io]:
  "Get t i w = (Inr x, w') \<longleftrightarrow>
   outage w (calls w) = None \<and> \<not> (tx_open w \<and> tx_wrote w) \<and> row_of t i (wdb w) = Some x
   \<and> w' = w\<lparr>calls := Suc (calls w)\<rparr>"
  by (auto simp: Get_def go_io split: option.splits)

lemma Get_Inl [go_io]:
  "Get t i w = (Inl e, w') \<longleftrightarrow>
   w' = w\<lparr>calls := Suc (calls w)\<rparr> \<and>
   (case outage w (calls w) of
      Some s \<Rightarrow> e = Failure s
    | None \<Rightarrow> if tx_open w \<and> tx_wrote w then e = ErrReadAfterWrite
              else row_of t i (wdb w) = None \<and> e = ErrMissing)"
  by (auto simp: Get_def read_db_def bind_io_def call_backend_def fail_io_def return_io_def
      split: option.splits if_splits)

lemma Save_Inr [go_io]:
  "Save t i v w = (Inr u, w') \<longleftrightarrow>
   outage w (calls w) = None
   \<and> w' = w\<lparr>calls := Suc (calls w), wdb := put_row t i v (wdb w), tx_wrote := True\<rparr>"
  by (simp add: Save_def go_io)

lemma Delete_Inr [go_io]:
  "Delete t i w = (Inr u, w') \<longleftrightarrow>
   outage w (calls w) = None
   \<and> w' = w\<lparr>calls := Suc (calls w), wdb := drop_row t i (wdb w), tx_wrote := True\<rparr>"
  by (simp add: Delete_def go_io)

lemma Save_Inl [go_io]:
  "Save t i v w = (Inl e, w') \<longleftrightarrow>
   (\<exists>s. outage w (calls w) = Some s \<and> e = Failure s) \<and> w' = w\<lparr>calls := Suc (calls w)\<rparr>"
  by (auto simp: Save_def write_db_def go_io)

lemma Delete_Inl [go_io]:
  "Delete t i w = (Inl e, w') \<longleftrightarrow>
   (\<exists>s. outage w (calls w) = Some s \<and> e = Failure s) \<and> w' = w\<lparr>calls := Suc (calls w)\<rparr>"
  by (auto simp: Delete_def write_db_def go_io)

lemma ListRecords_Inr [go_io]:
  "ListRecords t q w = (Inr x, w') \<longleftrightarrow>
   outage w (calls w) = None \<and> \<not> (tx_open w \<and> tx_wrote w)
   \<and> x = run_query q (map snd (table_rows t (wdb w))) \<and> w' = w\<lparr>calls := Suc (calls w)\<rparr>"
  by (simp add: ListRecords_def go_io)

lemma Create_Inr [go_io]:
  "Create t i v w = (Inr u, w') \<longleftrightarrow>
   outage w (calls w) = None
   \<and> (if row_of t i (wdb w) = None
      then w' = w\<lparr>calls := Suc (calls w), wdb := put_row t i v (wdb w), tx_wrote := True\<rparr>
      else tx_open w \<and> w' = w\<lparr>calls := Suc (calls w), tx_doomed := True, tx_wrote := True\<rparr>)"
  by (auto simp: Create_def go_io)

lemma Transact_Inr:
  assumes "Transact work w = (Inr x, w')"
  obtains w1 where "work (begin_tx w) = (Inr x, w1)" "\<not> tx_doomed w1"
    "outage w1 (calls w1) = None" "w' = end_tx (wdb w1) (w1\<lparr>calls := Suc (calls w1)\<rparr>)"
  using assms
  by (auto simp: Transact_def call_backend_def split: prod.splits sum.splits option.splits if_splits)

lemma Transact_Inl:
  assumes "Transact work w = (Inl e, w')"
  shows "wdb w' = wdb w" "tx_open w' = False"
  using assms by (auto simp: Transact_def end_tx_def split: prod.splits sum.splits if_splits)

lemma begin_tx_simps [simp]:
  "wdb (begin_tx w) = wdb w" "calls (begin_tx w) = calls w" "outage (begin_tx w) = outage w"
  "ticks (begin_tx w) = ticks w" "clock (begin_tx w) = clock w" "draws (begin_tx w) = draws w"
  "entropy (begin_tx w) = entropy w" "tx_open (begin_tx w)" "\<not> tx_wrote (begin_tx w)"
  "\<not> tx_doomed (begin_tx w)" "naps (begin_tx w) = naps w"
  by (simp_all add: begin_tx_def)

lemma end_tx_simps [simp]:
  "wdb (end_tx d w) = d" "calls (end_tx d w) = calls w" "outage (end_tx d w) = outage w"
  "ticks (end_tx d w) = ticks w" "clock (end_tx d w) = clock w" "draws (end_tx d w) = draws w"
  "entropy (end_tx d w) = entropy w" "\<not> tx_open (end_tx d w)" "\<not> tx_wrote (end_tx d w)"
  "\<not> tx_doomed (end_tx d w)" "naps (end_tx d w) = naps w"
  by (simp_all add: end_tx_def)

section \<open>What every operation keeps\<close>

text \<open>
  No operation changes the environment or leaves a transaction open, and its counters only
  advance.
\<close>

definition follows :: "world \<Rightarrow> world \<Rightarrow> bool" where
  "follows w w' \<longleftrightarrow>
     clock w' = clock w \<and> outage w' = outage w \<and> entropy w' = entropy w \<and> tx_open w' = tx_open w
     \<and> ticks w \<le> ticks w' \<and> draws w \<le> draws w' \<and> calls w \<le> calls w'"

lemma follows_refl [simp]: "follows w w"
  by (simp add: follows_def)

lemma follows_trans: "follows a b \<Longrightarrow> follows b c \<Longrightarrow> follows a c"
  by (auto simp: follows_def)

definition sound :: "'a io \<Rightarrow> bool" where
  "sound m \<longleftrightarrow> (\<forall>w. follows w (snd (m w)))"

lemma soundD: "sound m \<Longrightarrow> m w = (r, w') \<Longrightarrow> follows w w'"
  by (metis sound_def snd_conv)

named_theorems sound_intros "operations that keep the environment"

lemma sound_prims [sound_intros, simp]:
  "sound (return_io x)" "sound (fail_io e)" "sound now" "sound draw" "sound call_backend"
  by (auto simp: sound_def follows_def return_io_def fail_io_def now_def draw_def call_backend_def
      split: option.splits)

lemma sound_bind [sound_intros]:
  assumes "sound m" and "\<And>x. sound (f x)"
  shows "sound (bind_io m f)"
  unfolding sound_def
proof
  fix w
  obtain r w1 where m: "m w = (r, w1)" by (cases "m w")
  then have "follows w w1" using assms(1) soundD by blast
  then show "follows w (snd (bind_io m f w))"
    using assms(2) m by (cases r) (auto simp: bind_io_def sound_def intro: follows_trans)
qed

lemma sound_try [sound_intros]: "sound m \<Longrightarrow> sound (try_io m)"
  by (simp add: sound_def try_io_def split_beta)

lemma sound_map_failure [sound_intros]: "sound m \<Longrightarrow> sound (map_failure g m)"
  by (auto simp: sound_def map_failure_def split_beta split: sum.splits)

lemma sound_when [sound_intros]: "sound m \<Longrightarrow> sound (when_io b m)"
  by (simp add: when_io_def sound_intros)

lemma sound_each [sound_intros]: "(\<And>x. sound (f x)) \<Longrightarrow> sound (each_io f xs)"
  by (induction xs) (simp_all add: sound_bind)

lemma sound_read [sound_intros, simp]: "sound (read_db f)"
  unfolding read_db_def by (rule sound_bind, simp) (auto simp: sound_def)

lemma sound_write [sound_intros, simp]: "sound (write_db f)"
  unfolding write_db_def by (rule sound_bind, simp) (auto simp: sound_def follows_def)

lemma sound_Create [sound_intros, simp]: "sound (Create t i v)"
  unfolding Create_def by (rule sound_bind, simp) (auto simp: sound_def follows_def)

lemma sound_Save [sound_intros, simp]: "sound (Save t i v)"
  by (simp add: Save_def)

lemma sound_Get [sound_intros, simp]: "sound (Get t i)"
  unfolding Get_def by (intro sound_intros) (auto split: option.split)

lemma sound_Delete [sound_intros, simp]: "sound (Delete t i)"
  by (simp add: Delete_def)

lemma sound_List [sound_intros, simp]: "sound (ListRecords t q)"
  by (simp add: ListRecords_def)

lemma sound_branches [sound_intros]:
  "sound a \<Longrightarrow> sound b \<Longrightarrow> sound (if c then a else b)"
  "sound n \<Longrightarrow> (\<And>x. sound (s x)) \<Longrightarrow> sound (case o1 of None \<Rightarrow> n | Some x \<Rightarrow> s x)"
  "(\<And>e. sound (l e)) \<Longrightarrow> (\<And>x. sound (r x)) \<Longrightarrow> sound (case o2 of Inl e \<Rightarrow> l e | Inr x \<Rightarrow> r x)"
  "(\<And>x y. sound (q x y)) \<Longrightarrow> sound (case o3 of (x, y) \<Rightarrow> q x y)"
  by (simp_all split: option.split sum.split prod.split)

text \<open>A transaction opened outside any other is closed again.\<close>

definition outside :: "'a io \<Rightarrow> bool" where
  "outside m \<longleftrightarrow> (\<forall>w. \<not> tx_open w \<longrightarrow> follows w (snd (m w)))"

lemma outsideD: "outside m \<Longrightarrow> m w = (r, w') \<Longrightarrow> \<not> tx_open w \<Longrightarrow> follows w w'"
  by (metis outside_def snd_conv)

lemma sound_outside [sound_intros]: "sound m \<Longrightarrow> outside m"
  by (simp add: sound_def outside_def)

lemma outside_bind:
  assumes "outside m" and "\<And>x. outside (f x)"
  shows "outside (bind_io m f)"
  unfolding outside_def
proof (intro allI impI)
  fix w :: world assume w: "\<not> tx_open w"
  obtain r w1 where m: "m w = (r, w1)" by (cases "m w")
  then have f: "follows w w1" using assms(1) w outsideD by blast
  with w have "\<not> tx_open w1" by (simp add: follows_def)
  with f show "follows w (snd (bind_io m f w))"
    using assms(2) m by (cases r) (auto simp: bind_io_def outside_def intro: follows_trans)
qed

lemma outside_map_failure: "outside m \<Longrightarrow> outside (map_failure g m)"
  by (auto simp: outside_def map_failure_def split_beta split: sum.splits)

lemma outside_try: "outside m \<Longrightarrow> outside (try_io m)"
  by (simp add: outside_def try_io_def split_beta)

lemma outside_each: "(\<And>x. outside (f x)) \<Longrightarrow> outside (each_io f xs)"
  by (induction xs) (simp_all add: outside_bind sound_outside)

lemma outside_Transact:
  assumes "sound work"
  shows "outside (Transact work)"
  unfolding outside_def
proof (intro allI impI)
  fix w :: world assume "\<not> tx_open w"
  obtain r w1 where run: "work (begin_tx w) = (r, w1)" by (cases "work (begin_tx w)")
  have "follows (begin_tx w) w1" using assms run by (rule soundD)
  with \<open>\<not> tx_open w\<close> show "follows w (snd (Transact work w))"
    by (auto simp: Transact_def run call_backend_def follows_def split: sum.splits option.splits)
qed

lemma outside_Update:
  assumes "\<And>x. sound (change x)"
  shows "outside (Update t i change)"
proof -
  have "sound (modify_row t i change)"
    unfolding modify_row_def by (intro sound_intros assms)
  then have "outside (Transact (modify_row t i change))" by (rule outside_Transact)
  then show ?thesis by (simp add: outside_def Update_def)
qed

lemma sound_Update [sound_intros]:
  assumes "\<And>x. sound (change x)"
  shows "sound (Update t i change)"
  unfolding sound_def
proof
  fix w :: world
  have "sound (modify_row t i change)"
    unfolding modify_row_def by (intro sound_intros assms)
  then show "follows w (snd (Update t i change w))"
    using outside_Transact [of "modify_row t i change"]
    by (cases "tx_open w") (simp_all add: Update_def sound_def outside_def)
qed

section \<open>All or nothing\<close>

text \<open>
  \<open>reads_only m\<close>: m never changes the database.  \<open>atomic m\<close>: when m fails the database is as it was.
\<close>

definition reads_only :: "'a io \<Rightarrow> bool" where
  "reads_only m \<longleftrightarrow> (\<forall>w. wdb (snd (m w)) = wdb w)"

definition atomic :: "'a io \<Rightarrow> bool" where
  "atomic m \<longleftrightarrow> (\<forall>w e w'. m w = (Inl e, w') \<longrightarrow> wdb w' = wdb w)"

lemma reads_onlyD: "reads_only m \<Longrightarrow> m w = (r, w') \<Longrightarrow> wdb w' = wdb w"
  by (metis reads_only_def snd_conv)

lemma atomicD: "atomic m \<Longrightarrow> m w = (Inl e, w') \<Longrightarrow> wdb w' = wdb w"
  by (simp add: atomic_def)

lemma reads_only_prims [simp]:
  "reads_only (return_io x)" "reads_only (fail_io e)" "reads_only now" "reads_only draw"
  "reads_only call_backend"
  by (auto simp: reads_only_def return_io_def fail_io_def now_def draw_def call_backend_def
      split: option.splits)

lemma reads_only_bind:
  assumes "reads_only m" and "\<And>x. reads_only (f x)"
  shows "reads_only (bind_io m f)"
  unfolding reads_only_def
proof
  fix w
  obtain r w1 where m: "m w = (r, w1)" by (cases "m w")
  then have "wdb w1 = wdb w" using assms(1) reads_onlyD by blast
  then show "wdb (snd (bind_io m f w)) = wdb w"
    using assms(2) m by (cases r) (auto simp: bind_io_def reads_only_def)
qed

lemma reads_only_branches:
  "reads_only a \<Longrightarrow> reads_only b \<Longrightarrow> reads_only (if c then a else b)"
  "reads_only n \<Longrightarrow> (\<And>x. reads_only (s x)) \<Longrightarrow> reads_only (case o1 of None \<Rightarrow> n | Some x \<Rightarrow> s x)"
  "(\<And>e. reads_only (l e)) \<Longrightarrow> (\<And>x. reads_only (r x)) \<Longrightarrow>
   reads_only (case o2 of Inl e \<Rightarrow> l e | Inr x \<Rightarrow> r x)"
  "(\<And>x y. reads_only (q x y)) \<Longrightarrow> reads_only (case o3 of (x, y) \<Rightarrow> q x y)"
  by (simp_all split: option.split sum.split prod.split)

lemma reads_only_read [simp]: "reads_only (read_db f)"
  unfolding read_db_def by (rule reads_only_bind, simp) (auto simp: reads_only_def)

lemma reads_only_Get [simp]: "reads_only (Get t i)"
  unfolding Get_def by (intro reads_only_bind) (auto split: option.split)

lemma reads_only_List [simp]: "reads_only (ListRecords t q)"
  by (simp add: ListRecords_def)

lemma reads_only_try [simp]: "reads_only m \<Longrightarrow> reads_only (try_io m)"
  by (simp add: reads_only_def try_io_def split_beta)

lemma reads_only_map_failure [simp]: "reads_only m \<Longrightarrow> reads_only (map_failure g m)"
  by (auto simp: reads_only_def map_failure_def split_beta split: sum.splits)

lemma reads_only_nap [simp]: "reads_only (nap d)"
  unfolding nap_def by (rule reads_only_bind, simp) (auto simp: reads_only_def)

lemma atomic_reads [simp]: "reads_only m \<Longrightarrow> atomic m"
  unfolding atomic_def by (metis reads_onlyD)

lemma atomic_write [simp]: "atomic (write_db f)"
  by (auto simp: atomic_def write_db_def go_io)

lemma atomic_Save [simp]: "atomic (Save t i v)"
  by (simp add: Save_def)

lemma atomic_Delete [simp]: "atomic (Delete t i)"
  by (simp add: Delete_def)

lemma atomic_Transact [simp]: "atomic (Transact work)"
  by (auto simp: atomic_def dest: Transact_Inl)

lemma atomic_map_failure [simp]: "atomic m \<Longrightarrow> atomic (map_failure g m)"
  by (auto simp: atomic_def go_io)

lemma atomic_after_reads:
  assumes "reads_only m" and "\<And>x. atomic (f x)"
  shows "atomic (bind_io m f)"
  unfolding atomic_def
proof (intro allI impI)
  fix w e w' assume "bind_io m f w = (Inl e, w')"
  then consider "m w = (Inl e, w')" | x w1 where "m w = (Inr x, w1)" "f x w1 = (Inl e, w')"
    by (auto simp: go_io)
  then show "wdb w' = wdb w"
  proof cases
    case 1 with assms(1) show ?thesis by (rule reads_onlyD)
  next
    case 2
    then have "wdb w1 = wdb w" using assms(1) reads_onlyD by blast
    with 2 assms(2) show ?thesis using atomicD by metis
  qed
qed

lemma atomic_then_reads:
  "atomic m \<Longrightarrow> (\<And>x w e w'. f x w = (Inl e, w') \<Longrightarrow> False) \<Longrightarrow> atomic (bind_io m f)"
  by (simp add: atomic_def go_io) metis

lemma atomic_modify:
  "(\<And>x. reads_only (change x)) \<Longrightarrow> atomic (modify_row t i change)"
  unfolding modify_row_def
  by (intro atomic_after_reads atomic_then_reads) (auto simp: go_io)

lemma atomic_Update: "(\<And>x. reads_only (change x)) \<Longrightarrow> atomic (Update t i change)"
  using atomic_modify [of change t i] atomic_Transact [of "modify_row t i change"]
  by (auto simp: atomic_def Update_def split: if_splits)

lemmas reads_intros = reads_only_bind reads_only_branches

section \<open>Updating one record outside a transaction\<close>

lemma Update_Inr:
  assumes "Update t i change w = (Inr v, w')" and "\<not> tx_open w" and "\<And>x. reads_only (change x)"
  obtains x w1 w2 where "row_of t i (wdb w) = Some x" "change x w1 = (Inr v, w2)"
    "w1 = (begin_tx w)\<lparr>calls := Suc (calls w)\<rparr>" "wdb w' = put_row t i v (wdb w)"
proof -
  from assms(1,2) have "Transact (modify_row t i change) w = (Inr v, w')" by (simp add: Update_def)
  then obtain w3 where run: "modify_row t i change (begin_tx w) = (Inr v, w3)" "wdb w' = wdb w3"
    by (rule Transact_Inr) simp
  then obtain x w2 where x: "row_of t i (wdb w) = Some x"
      "change x ((begin_tx w)\<lparr>calls := Suc (calls w)\<rparr>) = (Inr v, w2)" "wdb w3 = put_row t i v (wdb w2)"
    by (auto simp: modify_row_def go_io)
  have "wdb w2 = wdb ((begin_tx w)\<lparr>calls := Suc (calls w)\<rparr>)"
    using assms(3) x(2) by (rule reads_onlyD)
  with x run that show thesis by auto
qed

section \<open>Writing many records\<close>

lemma put_rows_simps [simp]:
  "put_rows t [] d = d"
  "put_rows t (r # rows) d = put_rows t rows (put_row t (fst r) (snd r) d)"
  "put_rows t (rows @ rows2) d = put_rows t rows2 (put_rows t rows d)"
  by (simp_all add: put_rows_def split_beta)

lemma batches_concat: "concat (batches xs) = xs"
proof (induction xs rule: batches.induct)
  case (1 xs)
  then show ?case by (subst batches.simps) auto
qed

lemma batches_prefix: "prefix gs (batches xs) \<Longrightarrow> prefix (concat gs) xs"
  by (metis batches_concat concat_append prefix_def)

lemma each_write_prefix:
  assumes "each_io (\<lambda>batch. write_db (put_rows t batch)) gs w = (r, w')"
  obtains hs where "prefix hs gs" "wdb w' = put_rows t (concat hs) (wdb w)"
    "\<And>u. r = Inr u \<Longrightarrow> hs = gs"
  using assms
proof (induction gs arbitrary: w thesis)
  case Nil
  then show ?case by (auto simp: go_io)
next
  case (Cons g gs)
  show ?case
  proof (cases "outage w (calls w)")
    case None
    let ?w = "w\<lparr>calls := Suc (calls w), wdb := put_rows t g (wdb w), tx_wrote := True\<rparr>"
    from Cons.prems(2) None have "each_io (\<lambda>batch. write_db (put_rows t batch)) gs ?w = (r, w')"
      by (simp add: bind_io_def write_db_ok)
    from Cons.IH [OF _ this] obtain hs where "prefix hs gs"
        "wdb w' = put_rows t (concat hs) (put_rows t g (wdb w))" "\<And>u. r = Inr u \<Longrightarrow> hs = gs"
      by auto
    then show ?thesis by (intro Cons.prems(1) [of "g # hs"]) auto
  next
    case (Some e)
    with Cons.prems(2) have "r = Inl (Failure e)" "wdb w' = wdb w"
      by (auto simp: bind_io_def write_db_down)
    then show ?thesis by (intro Cons.prems(1) [of "[]"]) auto
  qed
qed

text \<open>
  Outside a transaction \<open>SaveMany\<close> writes a prefix of the records, and all of them when it
  succeeds: an interrupted bulk write stands.
\<close>

lemma SaveMany_prefix:
  assumes "SaveMany t rows w = (r, w')" and "\<not> tx_open w"
  obtains n where "n \<le> length rows" "wdb w' = put_rows t (take n rows) (wdb w)"
    "\<And>u. r = Inr u \<Longrightarrow> n = length rows"
proof -
  from assms have "each_io (\<lambda>batch. write_db (put_rows t batch)) (batches rows) w = (r, w')"
    by (simp add: SaveMany_def)
  then obtain hs where hs: "prefix hs (batches rows)" "wdb w' = put_rows t (concat hs) (wdb w)"
      "\<And>u. r = Inr u \<Longrightarrow> hs = batches rows"
    by (rule each_write_prefix) blast
  from hs(1) have "prefix (concat hs) rows" by (rule batches_prefix)
  then have "take (length (concat hs)) rows = concat hs" by (metis append_eq_conv_conj prefix_def)
  moreover have "length (concat hs) \<le> length rows" using \<open>prefix (concat hs) rows\<close>
    by (rule prefix_length_le)
  moreover have "r = Inr u \<Longrightarrow> length (concat hs) = length rows" for u
    using hs(3) batches_concat by metis
  ultimately show thesis using that hs(2) by metis
qed

lemma sound_SaveMany [sound_intros, simp]: "sound (SaveMany t rows)"
proof -
  have "sound (each_io (\<lambda>(i, v). Save t i v) rows)"
    "sound (each_io (\<lambda>batch. write_db (put_rows t batch)) (batches rows))"
    by (intro sound_intros)+
  then show ?thesis by (simp add: sound_def SaveMany_def)
qed

section \<open>Runs without failures\<close>

definition calm :: "world \<Rightarrow> bool" where
  "calm w \<longleftrightarrow> (\<forall>n. outage w n = None)"

lemma calm_simps [simp]:
  "calm (w\<lparr>wdb := d\<rparr>) = calm w" "calm (w\<lparr>calls := n\<rparr>) = calm w" "calm (w\<lparr>ticks := n\<rparr>) = calm w"
  "calm (w\<lparr>draws := n\<rparr>) = calm w" "calm (w\<lparr>tx_open := b\<rparr>) = calm w"
  "calm (w\<lparr>tx_wrote := b\<rparr>) = calm w" "calm (w\<lparr>tx_doomed := b\<rparr>) = calm w"
  "calm (w\<lparr>naps := ns\<rparr>) = calm w" "calm (begin_tx w) = calm w" "calm (end_tx d w) = calm w"
  by (simp_all add: calm_def)

lemma calm_world_simps [simp]:
  "calm (calm_world d)" "wdb (calm_world d) = d" "\<not> tx_open (calm_world d)"
  "clock (calm_world d) = int" "ticks (calm_world d) = 0"
  by (simp_all add: calm_def calm_world_def)

lemma calm_call: "calm w \<Longrightarrow> call_backend w = (Inr (), w\<lparr>calls := Suc (calls w)\<rparr>)"
  by (simp add: calm_def call_backend_def)

lemma calm_read: "calm w \<Longrightarrow> \<not> tx_open w \<or> \<not> tx_wrote w \<Longrightarrow>
   read_db f w = (Inr (f (wdb w)), w\<lparr>calls := Suc (calls w)\<rparr>)"
  by (simp add: read_db_def bind_io_def calm_call)

lemma calm_Get: "calm w \<Longrightarrow> \<not> tx_open w \<or> \<not> tx_wrote w \<Longrightarrow>
   Get t i w = ((case row_of t i (wdb w) of None \<Rightarrow> Inl ErrMissing | Some x \<Rightarrow> Inr x),
                w\<lparr>calls := Suc (calls w)\<rparr>)"
  by (simp add: Get_def bind_io_def calm_read fail_io_def return_io_def split: option.split)

lemma calm_List: "calm w \<Longrightarrow> \<not> tx_open w \<or> \<not> tx_wrote w \<Longrightarrow>
   ListRecords t q w = (Inr (run_query q (map snd (table_rows t (wdb w)))), w\<lparr>calls := Suc (calls w)\<rparr>)"
  by (simp add: ListRecords_def calm_read)

lemma calm_Save: "calm w \<Longrightarrow>
   Save t i v w = (Inr (), w\<lparr>calls := Suc (calls w), wdb := put_row t i v (wdb w), tx_wrote := True\<rparr>)"
  by (simp add: Save_def write_db_def bind_io_def calm_call)

lemma calm_Delete: "calm w \<Longrightarrow>
   Delete t i w = (Inr (), w\<lparr>calls := Suc (calls w), wdb := drop_row t i (wdb w), tx_wrote := True\<rparr>)"
  by (simp add: Delete_def write_db_def bind_io_def calm_call)

lemmas run_simps = bind_io_def return_io_def fail_io_def try_io_def map_failure_def now_def draw_def

lemmas calm_runs = calm_call calm_read calm_Get calm_List calm_Save calm_Delete

end
