(* ===== verification/CardNames.thy ===== *)
theory CardNames
  imports Model
begin

text \<open>
  The card naming half of internal/model/offer.go: how names are levelled, when a store
  title belongs to a query, which card a title names, and which sets a sealed title names.
  The lemmas show that the three title tests widen one another, that the key an accepted
  title is grouped by is the name asked for, and that the word search finds exactly the
  occurrences on word edges.
\<close>

section \<open>Levelling names\<close>

text \<open>U+0300 to U+036F, by their UTF-8 encodings.\<close>

definition combining_mark :: "string \<Rightarrow> bool" where
  "combining_mark r \<longleftrightarrow>
     (case r of [a, b] \<Rightarrow>
        (byte a = 204 \<and> 128 \<le> byte b \<and> byte b \<le> 191)
        \<or> (byte a = 205 \<and> 128 \<le> byte b \<and> byte b \<le> 175)
      | _ \<Rightarrow> False)"

definition dropAccents :: "text_env \<Rightarrow> string \<Rightarrow> string" where
  "dropAccents env v = concat (filter (\<lambda>r. \<not> combining_mark r) (runes (nfkd env v)))"

definition NormalizeCard :: "text_env \<Rightarrow> string \<Rightarrow> string" where
  "NormalizeCard env name = Join (Fields (ToLower env (dropAccents env name))) '' ''"

definition editionBrackets :: "string list" where
  "editionBrackets = ['' | '', '' ('', '' ['']"

definition editionDashes :: "string list" where
  "editionDashes = ['' - '', '' '' @ [CHR 0xE2, CHR 0x80, CHR 0x93] @ '' '',
                    '' '' @ [CHR 0xE2, CHR 0x80, CHR 0x94] @ '' '']"

definition quotePairs :: "(string \<times> string) list" where
  "quotePairs = [([CHR 0xE2, CHR 0x80, CHR 0x9C], [CHR 0xE2, CHR 0x80, CHR 0x9D]),
                 ([CHR 0x22], [CHR 0x22]),
                 ([CHR 0xC2, CHR 0xAB], [CHR 0xC2, CHR 0xBB])]"

section \<open>Modes and kinds\<close>

definition ReadProductKind :: "string \<Rightarrow> failure + product_kind" where
  "ReadProductKind value =
     (if value = [] \<or> value = KindSingle then Inr KindSingle
      else if value = KindSealed then Inr KindSealed
      else Inl ErrInvalidKind)"

definition ReadMatchMode :: "string \<Rightarrow> failure + match_mode" where
  "ReadMatchMode value =
     (if value = [] \<or> value = MatchExact then Inr MatchExact
      else if value = MatchIncludes then Inr MatchIncludes
      else Inl ErrInvalidMatch)"

definition Sealed :: "card_query \<Rightarrow> bool" where
  "Sealed q \<longleftrightarrow> QueryKind q = KindSealed"

section \<open>Accepting a title\<close>

definition ContainsCard :: "text_env \<Rightarrow> string \<Rightarrow> string \<Rightarrow> bool" where
  "ContainsCard env title name =
     (let name = NormalizeCard env name
      in name \<noteq> [] \<and> Contains (NormalizeCard env title) name)"

definition CoversCard :: "text_env \<Rightarrow> string \<Rightarrow> string \<Rightarrow> bool" where
  "CoversCard env title name =
     (let words = Fields (NormalizeCard env name) in
      if words = [] then False
      else let title = NormalizeCard env title in list_all (\<lambda>word. Contains title word) words)"

definition code_follows :: "string \<Rightarrow> bool" where
  "code_follows tail =
     (case Fields tail of [] \<Rightarrow> False | f # _ \<Rightarrow> ContainsAny f digits)"

definition followsCode :: "string \<Rightarrow> string \<Rightarrow> bool" where
  "followsCode title name =
     list_ex (\<lambda>dash. case CutPrefix title (name @ dash) of
                None \<Rightarrow> False | Some tail \<Rightarrow> code_follows tail) editionDashes"

definition quotesCardName :: "string \<Rightarrow> string \<Rightarrow> bool" where
  "quotesCardName title name =
     list_ex (\<lambda>(opening, closing). Contains title (opening @ name @ closing)) quotePairs"

definition MatchesCard :: "text_env \<Rightarrow> string \<Rightarrow> string \<Rightarrow> bool" where
  "MatchesCard env title name =
     (let title = NormalizeCard env title; name = NormalizeCard env name in
      if name = [] then False
      else if title = name then True
      else if list_ex (\<lambda>bracket. HasPrefix title (name @ bracket)) editionBrackets then True
      else followsCode title name \<or> quotesCardName title name)"

definition AcceptsTitle :: "text_env \<Rightarrow> card_query \<Rightarrow> string \<Rightarrow> bool" where
  "AcceptsTitle env q title =
     (if Sealed q then CoversCard env title (QueryName q)
      else if QueryMatch q = MatchIncludes then ContainsCard env title (QueryName q)
      else MatchesCard env title (QueryName q))"

section \<open>The card a title names\<close>

function plainDashes :: "string \<Rightarrow> string" where
  "plainDashes [] = []"
| "plainDashes (c # s) =
     (if prefix [CHR 0xE2, CHR 0x80, CHR 0x93] (c # s)
         \<or> prefix [CHR 0xE2, CHR 0x80, CHR 0x94] (c # s)
      then CHR ''-'' # plainDashes (drop 2 s)
      else c # plainDashes s)"
  by pat_completeness auto
termination
  by (relation "measure length") auto

fun read_quoted :: "string \<Rightarrow> (string \<times> string) list \<Rightarrow> string" where
  "read_quoted title [] = []"
| "read_quoted title ((opening, closing) # pairs) =
     (case Index title opening of None \<Rightarrow> read_quoted title pairs
      | Some i \<Rightarrow>
          (let rest = drop (i + length opening) title in
           case Index rest closing of
             Some (Suc k) \<Rightarrow> take (Suc k) rest
           | _ \<Rightarrow> read_quoted title pairs))"

definition readQuotedName :: "string \<Rightarrow> string" where
  "readQuotedName title = read_quoted title quotePairs"

fun cut_brackets :: "string \<Rightarrow> string list \<Rightarrow> string \<Rightarrow> string" where
  "cut_brackets title [] shortest = shortest"
| "cut_brackets title (b # bs) shortest =
     (case Index title b of
        Some pos \<Rightarrow> cut_brackets title bs
          (if 0 < pos \<and> pos < length shortest then take pos title else shortest)
      | None \<Rightarrow> cut_brackets title bs shortest)"

fun cut_dashes :: "string \<Rightarrow> string list \<Rightarrow> string \<Rightarrow> string" where
  "cut_dashes title [] shortest = shortest"
| "cut_dashes title (d # ds) shortest =
     (case Index title d of
        None \<Rightarrow> cut_dashes title ds shortest
      | Some pos \<Rightarrow>
          if pos = 0 \<or> length shortest \<le> pos then cut_dashes title ds shortest
          else cut_dashes title ds
            (if code_follows (drop (pos + length d) title) then take pos title else shortest))"

definition trimPrintingTail :: "string \<Rightarrow> string" where
  "trimPrintingTail title =
     cut_dashes title editionDashes (cut_brackets title editionBrackets title)"

definition ReadCardKey :: "text_env \<Rightarrow> string \<Rightarrow> string" where
  "ReadCardKey env title =
     (let title = NormalizeCard env (plainDashes title); quoted = readQuotedName title in
      if quoted \<noteq> [] then quoted else trimPrintingTail title)"

definition PriceGroupOf :: "text_env \<Rightarrow> card_query \<Rightarrow> offer \<Rightarrow> string" where
  "PriceGroupOf env q it =
     (if QueryMatch q = MatchIncludes \<or> Sealed q then OfferCardKey it
      else NormalizeCard env (QueryName q))"

definition ReadSealedKey :: "text_env \<Rightarrow> offer \<Rightarrow> string" where
  "ReadSealedKey env it =
     (let name = NormalizeCard env (plainDashes (OfferCardName it)) in
      if OfferEdition it = [] then name
      else Join [NormalizeCard env (OfferEdition it), name] ''|'')"

definition readOfferKey :: "text_env \<Rightarrow> offer \<Rightarrow> string" where
  "readOfferKey env it =
     (if OfferKind it = KindSealed then ReadSealedKey env it
      else let card = ReadCardKey env (OfferCardName it) in
        if lookup_string (OfferMetadata it) ''game'' \<noteq> ''pokemon'' then card
        else let fk = lookup_string (OfferMetadata it) ''functional_key'' in
          if fk \<noteq> [] then Join [card, fk] ''|''
          else let product = lookup_string (OfferMetadata it) ''product_id'' in
            if product \<noteq> [] then Join [card, ''printing'', product] ''|'' else card)"

definition NameCards :: "text_env \<Rightarrow> offer list \<Rightarrow> offer list" where
  "NameCards env items = map (\<lambda>it. it\<lparr>OfferCardKey := readOfferKey env it\<rparr>) items"

section \<open>The sets a title names\<close>

definition isWordByte :: "char \<Rightarrow> bool" where
  "isWordByte c \<longleftrightarrow> (48 \<le> byte c \<and> byte c \<le> 57) \<or> (97 \<le> byte c \<and> byte c \<le> 122)
     \<or> (65 \<le> byte c \<and> byte c \<le> 90)"

definition openEdge :: "string \<Rightarrow> nat \<Rightarrow> bool" where
  "openEdge title start \<longleftrightarrow> start = 0 \<or> \<not> isWordByte (title ! (start - 1))"

definition closeEdge :: "string \<Rightarrow> nat \<Rightarrow> bool" where
  "closeEdge title stop \<longleftrightarrow> stop = length title \<or> \<not> isWordByte (title ! stop)"

text \<open>
  The search loop.  Slicing past the end would panic in Go; the first test answers that
  case, which \<open>words_from_in_range\<close> shows no call with a phrase reaches.
\<close>

function words_from :: "string \<Rightarrow> string \<Rightarrow> nat \<Rightarrow> bool" where
  "words_from title phrase offset =
     (if length title < offset then False
      else case Index (drop offset title) phrase of
        None \<Rightarrow> False
      | Some found \<Rightarrow>
          (let start = offset + found; stop = start + length phrase in
           if openEdge title start \<and> closeEdge title stop then True
           else words_from title phrase (start + 1)))"
  by pat_completeness auto
termination
  by (relation "measure (\<lambda>(title, phrase, offset). Suc (length title) - offset)") auto

declare words_from.simps [simp del]

definition wordsContain :: "string \<Rightarrow> string \<Rightarrow> bool" where
  "wordsContain title phrase = words_from title phrase 0"

definition NamesSet :: "text_env \<Rightarrow> string \<Rightarrow> string list \<Rightarrow> bool" where
  "NamesSet env title sets =
     (let title = NormalizeCard env title in
      list_ex (\<lambda>one. let name = NormalizeCard env one in name \<noteq> [] \<and> wordsContain title name)
        sets)"

section \<open>Levelled names\<close>

lemma Fields_NormalizeCard [text_simps]:
  "Fields (NormalizeCard env name) = Fields (ToLower env (dropAccents env name))"
  by (simp add: NormalizeCard_def Fields_Join_Fields)

lemma NormalizeCard_Nil_iff: "NormalizeCard env name = [] \<longleftrightarrow> Fields (NormalizeCard env name) = []"
  unfolding Fields_NormalizeCard unfolding NormalizeCard_def by (rule Join_Fields_Nil_iff)

text \<open>What NFKD is documented to do with text that is already ASCII: nothing.\<close>

definition keeps_ascii :: "text_env \<Rightarrow> bool" where
  "keeps_ascii env \<longleftrightarrow> (\<forall>s. is_ascii s \<longrightarrow> nfkd env s = s)"

lemma combining_ascii: "byte c < 128 \<Longrightarrow> \<not> combining_mark [c]"
  by (simp add: combining_mark_def)

lemma dropAccents_ascii: "keeps_ascii env \<Longrightarrow> is_ascii s \<Longrightarrow> dropAccents env s = s"
  by (simp add: dropAccents_def keeps_ascii_def runes_ascii filter_map o_def combining_mark_def)

lemma NormalizeCard_ascii:
  "keeps_ascii env \<Longrightarrow> is_ascii s \<Longrightarrow>
   NormalizeCard env s = Join (Fields (map lower_byte s)) '' ''"
  by (simp add: NormalizeCard_def dropAccents_ascii ToLower_ascii)

section \<open>The title tests widen one another\<close>

lemma quoted_contains: "quotesCardName title name \<Longrightarrow> sublist name title"
  by (auto simp: quotesCardName_def list_ex_iff Contains_iff)
     (meson sublist_append_leftI sublist_append_rightI sublist_order.order.trans)

lemma code_contains: "followsCode title name \<Longrightarrow> sublist name title"
  by (auto simp: followsCode_def list_ex_iff CutPrefix_def split: if_splits)
     (meson append_prefixD prefix_imp_sublist)

lemma bracket_contains: "HasPrefix title (name @ bracket) \<Longrightarrow> sublist name title"
  by (meson append_prefixD prefix_imp_sublist)

lemma exact_in_includes: "MatchesCard env title name \<Longrightarrow> ContainsCard env title name"
  by (auto simp: MatchesCard_def ContainsCard_def Contains_iff list_ex_iff Let_def
      intro: quoted_contains code_contains bracket_contains split: if_splits)

lemma includes_in_covers: "ContainsCard env title name \<Longrightarrow> CoversCard env title name"
  unfolding ContainsCard_def CoversCard_def
  by (auto simp: Let_def Contains_iff list_all_iff NormalizeCard_Nil_iff
      dest: Fields_sublist intro: sublist_order.order.trans)

section \<open>The word search\<close>

definition word_at :: "string \<Rightarrow> string \<Rightarrow> nat \<Rightarrow> bool" where
  "word_at title phrase i \<longleftrightarrow> i + length phrase \<le> length title \<and> prefix phrase (drop i title)
     \<and> openEdge title i \<and> closeEdge title (i + length phrase)"

lemma prefix_drop_le: "i \<le> length s \<Longrightarrow> prefix p (drop i s) \<Longrightarrow> i + length p \<le> length s"
  using prefix_length_le [of p "drop i s"] by simp

lemma words_from_in_range:
  "phrase \<noteq> [] \<Longrightarrow> offset \<le> length title \<Longrightarrow> Index (drop offset title) phrase = Some found
   \<Longrightarrow> offset + found + 1 \<le> length title"
proof -
  assume p: "phrase \<noteq> []" and off: "offset \<le> length title"
    and ix: "Index (drop offset title) phrase = Some found"
  from Index_Some [OF ix] have "found \<le> length title - offset"
    and "prefix phrase (drop (offset + found) title)" by (simp_all add: add.commute)
  with off have "offset + found + length phrase \<le> length title"
    by (intro prefix_drop_le) auto
  with p show ?thesis by (cases phrase) auto
qed

lemma words_from_iff:
  "phrase \<noteq> [] \<Longrightarrow> offset \<le> length title \<Longrightarrow>
   words_from title phrase offset \<longleftrightarrow> (\<exists>i \<ge> offset. word_at title phrase i)"
proof (induction title phrase offset rule: words_from.induct)
  case (1 title phrase offset)
  show ?case
  proof (cases "Index (drop offset title) phrase")
    case None
    have "\<not> word_at title phrase i" if "i \<ge> offset" for i
    proof
      assume w: "word_at title phrase i"
      then have "i - offset \<le> length (drop offset title)"
        and "prefix phrase (drop (i - offset) (drop offset title))"
        using that by (auto simp: word_at_def)
      then show False using None by (auto simp: Index_None)
    qed
    with None "1.prems" show ?thesis by (simp add: words_from.simps [of title phrase offset])
  next
    case (Some found)
    let ?start = "offset + found"
    note ix = Index_Some [OF Some]
    from "1.prems" Some have bound: "?start + 1 \<le> length title" by (rule words_from_in_range)
    have at: "prefix phrase (drop ?start title)" using ix by (simp add: add.commute)
    have none_before: "\<not> word_at title phrase i" if "offset \<le> i" "i < ?start" for i
      using ix that by (auto simp: word_at_def dest!: spec [of _ "i - offset"])
    show ?thesis
    proof (cases "openEdge title ?start \<and> closeEdge title (?start + length phrase)")
      case True
      then have "word_at title phrase ?start"
        using at bound prefix_drop_le [of ?start title phrase] by (simp add: word_at_def)
      moreover have "words_from title phrase offset"
        using True Some "1.prems" by (simp add: words_from.simps [of title phrase offset])
      ultimately show ?thesis by (meson le_add1)
    next
      case False
      have "words_from title phrase offset = words_from title phrase (?start + 1)"
        using False Some "1.prems" by (auto simp: words_from.simps [of title phrase offset])
      also have "\<dots> \<longleftrightarrow> (\<exists>i \<ge> ?start + 1. word_at title phrase i)"
        using False Some "1.prems" bound by (intro "1.IH") auto
      also have "\<dots> \<longleftrightarrow> (\<exists>i \<ge> offset. word_at title phrase i)"
      proof
        assume "\<exists>i \<ge> offset. word_at title phrase i"
        then obtain i where i: "i \<ge> offset" "word_at title phrase i" by blast
        with none_before have "i \<ge> ?start" by (meson not_le)
        moreover have "i \<noteq> ?start" using i False by (auto simp: word_at_def)
        ultimately show "\<exists>i \<ge> ?start + 1. word_at title phrase i"
          using i by (intro exI [of _ i]) auto
      qed (meson add_leD1 le_add1 order_trans)
      finally show ?thesis .
    qed
  qed
qed

lemma word_at_split:
  "phrase \<noteq> [] \<Longrightarrow> (\<exists>i. word_at title phrase i) \<longleftrightarrow>
   (\<exists>before after. title = before @ phrase @ after
      \<and> (before = [] \<or> \<not> isWordByte (last before)) \<and> (after = [] \<or> \<not> isWordByte (hd after)))"
proof (intro iffI; elim exE conjE)
  fix i assume "phrase \<noteq> []" and w: "word_at title phrase i"
  then have len: "i + length phrase \<le> length title" and "prefix phrase (drop i title)"
    by (simp_all add: word_at_def)
  then have split: "title = take i title @ phrase @ drop (i + length phrase) title"
    by (metis add.commute append_eq_conv_conj append_take_drop_id drop_drop prefix_def)
  have "take i title = [] \<or> \<not> isWordByte (last (take i title))"
    using w len by (auto simp: word_at_def openEdge_def last_conv_nth split: if_splits)
  moreover have "drop (i + length phrase) title = []
      \<or> \<not> isWordByte (hd (drop (i + length phrase) title))"
    using w len by (auto simp: word_at_def closeEdge_def hd_drop_conv_nth)
  ultimately show "\<exists>before after. title = before @ phrase @ after
      \<and> (before = [] \<or> \<not> isWordByte (last before)) \<and> (after = [] \<or> \<not> isWordByte (hd after))"
    using split by blast
next
  fix before after
  assume "phrase \<noteq> []" and t: "title = before @ phrase @ after"
    and "before = [] \<or> \<not> isWordByte (last before)" and "after = [] \<or> \<not> isWordByte (hd after)"
  then have "word_at title phrase (length before)"
    by (auto simp: word_at_def openEdge_def closeEdge_def last_conv_nth nth_append hd_conv_nth)
  then show "\<exists>i. word_at title phrase i" ..
qed

lemma wordsContain_iff:
  "phrase \<noteq> [] \<Longrightarrow> wordsContain title phrase \<longleftrightarrow>
   (\<exists>before after. title = before @ phrase @ after
      \<and> (before = [] \<or> \<not> isWordByte (last before)) \<and> (after = [] \<or> \<not> isWordByte (hd after)))"
  using words_from_iff [of phrase 0 title] word_at_split [of phrase title]
  by (simp add: wordsContain_def)

section \<open>The key of an accepted title\<close>

text \<open>
  A levelled name that carries none of the openings an edition tail starts with, so that
  the tail of an accepted title is the first one found.
\<close>

definition plain_name :: "string \<Rightarrow> bool" where
  "plain_name n \<longleftrightarrow> n \<noteq> [] \<and> (\<forall>m \<in> {CHR ''|'', CHR ''('', CHR ''['', CHR ''-''}.
     \<not> sublist [CHR '' '', m] n)"

lemma solid_last: "solid f \<Longrightarrow> last f \<noteq> CHR '' ''"
proof
  assume s: "solid f" and l: "last f = CHR '' ''"
  then have "f = butlast f @ '' ''" by (metis append_butlast_last_id solid_def)
  then have "suffix '' '' f" by (metis suffixI)
  with s have "space_len '' '' = 0" by (auto simp: solid_def)
  then show False by simp
qed

lemma last_Join: "fs \<noteq> [] \<Longrightarrow> (\<And>f. f \<in> set fs \<Longrightarrow> f \<noteq> []) \<Longrightarrow> last (Join fs sep) = last (last fs)"
proof (induction fs sep rule: Join.induct)
  case (3 x y xs sep)
  then have "Join (y # xs) sep \<noteq> []" by (subst Join_Nil_iff) auto
  with 3 show ?case by simp
qed simp_all

lemma NormalizeCard_last: "NormalizeCard env s \<noteq> [] \<Longrightarrow> last (NormalizeCard env s) \<noteq> CHR '' ''"
proof -
  let ?fs = "Fields (ToLower env (dropAccents env s))"
  assume "NormalizeCard env s \<noteq> []"
  then have "?fs \<noteq> []" by (auto simp: NormalizeCard_def)
  moreover have "solid f" if "f \<in> set ?fs" for f using that by (rule Fields_solid)
  moreover from calculation have "solid (last ?fs)" by simp
  ultimately have "last (NormalizeCard env s) = last (last ?fs)" and "solid (last ?fs)"
    unfolding NormalizeCard_def by (auto intro!: last_Join simp: solid_def)
  then show ?thesis by (simp add: solid_last)
qed

lemma set_Join: "set (Join fs sep) \<subseteq> \<Union> (set ` set fs) \<union> set sep"
  by (induction fs sep rule: Join.induct) auto

lemma set_sublist: "sublist a b \<Longrightarrow> set a \<subseteq> set b"
  by (auto simp: sublist_def)

lemma set_NormalizeCard_ascii:
  assumes "keeps_ascii env" and "is_ascii s"
  shows "set (NormalizeCard env s) \<subseteq> lower_byte ` set s \<union> {CHR '' ''}"
proof -
  have "set f \<subseteq> lower_byte ` set s" if "f \<in> set (Fields (map lower_byte s))" for f
    using Fields_sublist [OF that] set_sublist by fastforce
  then show ?thesis
    using set_Join [of "Fields (map lower_byte s)" "'' ''"] assms
    by (fastforce simp: NormalizeCard_ascii)
qed

lemma NormalizeCard_is_ascii: "keeps_ascii env \<Longrightarrow> is_ascii s \<Longrightarrow> is_ascii (NormalizeCard env s)"
proof -
  assume k: "keeps_ascii env" and a: "is_ascii s"
  have "byte c < 128" if "c \<in> set (NormalizeCard env s)" for c
  proof -
    from set_NormalizeCard_ascii [OF k a] that consider d where "d \<in> set s" "c = lower_byte d"
      | "c = CHR '' ''" by auto
    then show ?thesis
    proof cases
      case 1 with a show ?thesis by (auto simp: is_ascii_def list_all_iff lower_byte_ascii)
    qed (simp add: byte_def)
  qed
  then show ?thesis by (simp add: is_ascii_def list_all_iff)
qed

lemma lower_byte_quote: "lower_byte c = CHR 0x22 \<Longrightarrow> c = CHR 0x22"
proof -
  assume "lower_byte c = CHR 0x22"
  then have "byte (lower_byte c) = 34" by (simp add: byte_def)
  moreover have "byte (char_of (byte c + 32)) = byte c + 32" if "byte c \<le> 90"
    using that by (simp add: byte_def)
  ultimately have "byte c = 34" by (auto simp: lower_byte_def split: if_splits)
  moreover have "c = char_of (byte c)" by (simp add: byte_def)
  moreover have "char_of (34 :: nat) = CHR 0x22" by code_simp
  ultimately show ?thesis by simp
qed

lemma ascii_no_high: "is_ascii t \<Longrightarrow> 128 \<le> byte c \<Longrightarrow> c \<in> set p \<Longrightarrow> \<not> sublist p t"
  by (fastforce simp: is_ascii_def list_all_iff dest: set_sublist)

lemma Index_not_sublist: "\<not> sublist p t \<Longrightarrow> Index t p = None"
  using Contains_iff [of t p] by (simp add: Contains_def)

lemma plainDashes_ascii: "is_ascii s \<Longrightarrow> plainDashes s = s"
  by (induction s) (auto simp: is_ascii_def byte_def)

lemma mark_after_name:
  assumes "plain_name n" and "last n \<noteq> CHR '' ''" and "m \<in> {CHR ''|'', CHR ''('', CHR ''['', CHR ''-''}"
    and "Index (n @ u) (CHR '' '' # m # r) = Some i"
  shows "length n \<le> i"
proof (rule ccontr)
  assume "\<not> length n \<le> i"
  then have lt: "i < length n" by simp
  from Index_Some [OF assms(4)] obtain q where "drop i (n @ u) = CHR '' '' # m # q"
    by (auto simp: prefix_def)
  with lt have q: "drop i n @ u = CHR '' '' # m # q" by simp
  from lt obtain c w where cw: "drop i n = c # w" by (metis Cons_nth_drop_Suc)
  with q have c: "c = CHR '' ''" by simp
  show False
  proof (cases w)
    case Nil
    then have "last n = c" by (metis cw drop_eq_Nil last_ConsL last_drop lt not_less)
    with c assms(2) show False by simp
  next
    case (Cons d v)
    with q cw c have "drop i n = [CHR '' '', m] @ v" by simp
    then have "sublist [CHR '' '', m] n" by (metis append_take_drop_id sublist_appendI)
    with assms(1,3) show False by (auto simp: plain_name_def)
  qed
qed

lemma cut_brackets_spec:
  "(\<forall>b \<in> set bs. \<forall>i. Index t b = Some i \<longrightarrow> k \<le> i) \<Longrightarrow> 0 < k \<Longrightarrow> k \<le> j \<Longrightarrow> j \<le> length t \<Longrightarrow>
   \<exists>j'. cut_brackets t bs (take j t) = take j' t \<and> k \<le> j' \<and> j' \<le> j
      \<and> ((\<exists>b \<in> set bs. Index t b = Some k) \<longrightarrow> j' = k)"
proof (induction bs arbitrary: j)
  case (Cons b bs)
  show ?case
  proof (cases "Index t b")
    case None
    with Cons.IH [of j] Cons.prems show ?thesis by fastforce
  next
    case (Some i)
    let ?j = "if 0 < i \<and> i < j then i else j"
    have k: "k \<le> i" using Cons.prems(1) Some by auto
    have "cut_brackets t (b # bs) (take j t) = cut_brackets t bs (take ?j t)"
      using Some Cons.prems(4) by (auto simp: min_def)
    moreover have "\<exists>j'. cut_brackets t bs (take ?j t) = take j' t \<and> k \<le> j' \<and> j' \<le> ?j
        \<and> ((\<exists>b \<in> set bs. Index t b = Some k) \<longrightarrow> j' = k)"
      using Cons.prems k by (intro Cons.IH) auto
    then obtain j' where "cut_brackets t bs (take ?j t) = take j' t" "k \<le> j'" "j' \<le> ?j"
      and "(\<exists>b \<in> set bs. Index t b = Some k) \<longrightarrow> j' = k" by blast
    moreover have "j' = k" if "i = k"
      using that calculation(3,4) Cons.prems(2,3) by (auto split: if_splits)
    ultimately show ?thesis using Some by (intro exI [of _ j']) (auto split: if_splits)
  qed
qed auto

lemma cut_dashes_spec:
  "(\<forall>d \<in> set ds. \<forall>i. Index t d = Some i \<longrightarrow> k \<le> i) \<Longrightarrow> 0 < k \<Longrightarrow> k \<le> j \<Longrightarrow> j \<le> length t \<Longrightarrow>
   \<exists>j'. cut_dashes t ds (take j t) = take j' t \<and> k \<le> j' \<and> j' \<le> j
      \<and> ((\<exists>d \<in> set ds. Index t d = Some k \<and> code_follows (drop (k + length d) t)) \<longrightarrow> j' = k)"
proof (induction ds arbitrary: j)
  case (Cons d ds)
  show ?case
  proof (cases "Index t d")
    case None
    with Cons.IH [of j] Cons.prems show ?thesis by fastforce
  next
    case (Some i)
    let ?j = "if i < j \<and> code_follows (drop (i + length d) t) then i else j"
    have k: "k \<le> i" using Cons.prems(1) Some by auto
    have "cut_dashes t (d # ds) (take j t) = cut_dashes t ds (take ?j t)"
      using Some Cons.prems k by (auto simp: min_def)
    moreover have "\<exists>j'. cut_dashes t ds (take ?j t) = take j' t \<and> k \<le> j' \<and> j' \<le> ?j
        \<and> ((\<exists>d \<in> set ds. Index t d = Some k \<and> code_follows (drop (k + length d) t)) \<longrightarrow> j' = k)"
      using Cons.prems k by (intro Cons.IH) auto
    then obtain j' where "cut_dashes t ds (take ?j t) = take j' t" "k \<le> j'" "j' \<le> ?j"
      and "(\<exists>d \<in> set ds. Index t d = Some k \<and> code_follows (drop (k + length d) t)) \<longrightarrow> j' = k"
      by blast
    moreover have "j' = k" if "i = k" "code_follows (drop (k + length d) t)"
      using that calculation(3,4) Cons.prems(2,3) by (auto split: if_splits)
    ultimately show ?thesis using Some by (intro exI [of _ j']) (auto split: if_splits)
  qed
qed auto

lemma marks_shape:
  "b \<in> set editionBrackets \<Longrightarrow> \<exists>m \<in> {CHR ''|'', CHR ''('', CHR ''['', CHR ''-''}. \<exists>r. b = CHR '' '' # m # r"
  by (auto simp: editionBrackets_def)

lemma tail_marks_after_name:
  assumes n: "plain_name n" "last n \<noteq> CHR '' ''" and t: "is_ascii (n @ u)"
    and d: "d \<in> set editionBrackets \<union> set editionDashes" and i: "Index (n @ u) d = Some i"
  shows "length n \<le> i"
proof (cases "d \<in> set editionBrackets \<or> d = '' - ''")
  case True
  then obtain m r where "m \<in> {CHR ''|'', CHR ''('', CHR ''['', CHR ''-''}" "d = CHR '' '' # m # r"
    using marks_shape [of d] by auto
  with mark_after_name [OF n] i show ?thesis by blast
next
  case False
  with d have "CHR 0xE2 \<in> set d" by (auto simp: editionDashes_def)
  then have "\<not> sublist d (n @ u)" using ascii_no_high [OF t, of "CHR 0xE2" d] by (simp add: byte_def)
  with i show ?thesis by (simp add: Index_not_sublist)
qed

lemma trimPrintingTail_ge:
  assumes n: "plain_name n" "last n \<noteq> CHR '' ''" and t: "is_ascii (n @ u)"
  obtains j where "trimPrintingTail (n @ u) = take j (n @ u)" "length n \<le> j" "j \<le> length (n @ u)"
    "(\<exists>b \<in> set editionBrackets. Index (n @ u) b = Some (length n)) \<Longrightarrow> j = length n"
    "(\<exists>d \<in> set editionDashes. Index (n @ u) d = Some (length n)
        \<and> code_follows (drop (length n + length d) (n @ u))) \<Longrightarrow> j = length n"
proof -
  let ?t = "n @ u" and ?k = "length n"
  have k: "0 < ?k" using n(1) by (auto simp: plain_name_def)
  have "\<exists>j'. cut_brackets ?t editionBrackets (take (length ?t) ?t) = take j' ?t \<and> ?k \<le> j'
      \<and> j' \<le> length ?t \<and> ((\<exists>b \<in> set editionBrackets. Index ?t b = Some ?k) \<longrightarrow> j' = ?k)"
    using tail_marks_after_name [OF n t] k by (intro cut_brackets_spec) auto
  then obtain j1 where j1: "cut_brackets ?t editionBrackets ?t = take j1 ?t" "?k \<le> j1"
      "j1 \<le> length ?t" and b: "(\<exists>b \<in> set editionBrackets. Index ?t b = Some ?k) \<longrightarrow> j1 = ?k"
    unfolding take_all [OF order_refl] by blast
  have "\<exists>j'. cut_dashes ?t editionDashes (take j1 ?t) = take j' ?t \<and> ?k \<le> j' \<and> j' \<le> j1
      \<and> ((\<exists>d \<in> set editionDashes. Index ?t d = Some ?k
            \<and> code_follows (drop (?k + length d) ?t)) \<longrightarrow> j' = ?k)"
    using tail_marks_after_name [OF n t] k j1(2,3) by (intro cut_dashes_spec) auto
  then obtain j2 where "cut_dashes ?t editionDashes (take j1 ?t) = take j2 ?t" "?k \<le> j2" "j2 \<le> j1"
      "(\<exists>d \<in> set editionDashes. Index ?t d = Some ?k
            \<and> code_follows (drop (?k + length d) ?t)) \<longrightarrow> j2 = ?k" by blast
  with j1 b show ?thesis by (intro that [of j2]) (auto simp: trimPrintingTail_def)
qed

lemma Index_at_name:
  assumes n: "plain_name n" "last n \<noteq> CHR '' ''" and t: "is_ascii (n @ d @ v)"
    and d: "d \<in> set editionBrackets \<union> set editionDashes"
  shows "Index (n @ d @ v) d = Some (length n)"
proof (cases "Index (n @ d @ v) d")
  case None
  then show ?thesis by (auto simp: Index_None dest!: spec [of _ "length n"])
next
  case (Some i)
  from tail_marks_after_name [OF n t d Some] have "length n \<le> i" .
  moreover have "i \<le> length n"
  proof (rule ccontr)
    assume "\<not> i \<le> length n"
    then have "length n < i" by simp
    with Index_Some [OF Some] have "\<not> prefix d (drop (length n) (n @ d @ v))" by blast
    then show False by simp
  qed
  ultimately show ?thesis using Some by simp
qed

lemma no_quote_no_quoted:
  assumes "is_ascii t" and "CHR 0x22 \<notin> set t"
  shows "readQuotedName t = []" and "\<not> quotesCardName t n"
proof -
  have high: "Index t p = None" if "c \<in> set p" "128 \<le> byte c" for p c
    using Index_not_sublist [OF ascii_no_high [OF assms(1) that(2,1)]] .
  have "Index t [CHR 0x22] = None"
    using assms(2) by (intro Index_not_sublist) (auto dest: set_sublist)
  moreover have "Index t [CHR 0xE2, CHR 0x80, CHR 0x9C] = None" "Index t [CHR 0xC2, CHR 0xAB] = None"
    by (rule high [of "CHR 0xE2"]; simp add: byte_def) (rule high [of "CHR 0xC2"]; simp add: byte_def)
  ultimately show "readQuotedName t = []" by (simp add: readQuotedName_def quotePairs_def)
  have "Index t ([CHR 0x22] @ n @ [CHR 0x22]) = None"
    using assms(2) by (intro Index_not_sublist) (auto dest: set_sublist)
  moreover have "Index t ([CHR 0xE2, CHR 0x80, CHR 0x9C] @ n @ [CHR 0xE2, CHR 0x80, CHR 0x9D]) = None"
    by (rule high [of "CHR 0xE2"]; simp add: byte_def)
  moreover have "Index t ([CHR 0xC2, CHR 0xAB] @ n @ [CHR 0xC2, CHR 0xBB]) = None"
    by (rule high [of "CHR 0xC2"]; simp add: byte_def)
  ultimately show "\<not> quotesCardName t n"
    by (simp add: quotesCardName_def quotePairs_def Contains_def)
qed

lemma key_of_levelled:
  assumes n: "plain_name n" "last n \<noteq> CHR '' ''" and t: "is_ascii t"
    and m: "t = n \<or> (\<exists>b \<in> set editionBrackets. HasPrefix t (n @ b)) \<or> followsCode t n"
  shows "trimPrintingTail t = n"
proof -
  from m consider "t = n" | b v where "b \<in> set editionBrackets" "t = n @ b @ v"
    | d v where "d \<in> set editionDashes" "t = n @ d @ v" "code_follows v"
    by (auto simp: followsCode_def list_ex_iff CutPrefix_def prefix_def split: if_splits)
  then show ?thesis
  proof cases
    case 1
    with trimPrintingTail_ge [OF n, of "[]"] t show ?thesis
      by (metis append_Nil2 take_all_iff)
  next
    case 2
    have "Index (n @ b @ v) b = Some (length n)" using 2 n t by (intro Index_at_name) auto
    with trimPrintingTail_ge [OF n, of "b @ v"] t 2 show ?thesis
      by (metis append_eq_conv_conj)
  next
    case 3
    have "Index (n @ d @ v) d = Some (length n)" using 3 n t by (intro Index_at_name) auto
    moreover have "code_follows (drop (length n + length d) (n @ d @ v))" using 3 by simp
    ultimately show ?thesis using trimPrintingTail_ge [OF n, of "d @ v"] t 3
      by (metis append_eq_conv_conj)
  qed
qed

lemma key_of_exact_title:
  assumes env: "keeps_ascii env" and title: "is_ascii title" "CHR 0x22 \<notin> set title"
    and n: "plain_name (NormalizeCard env name)" and m: "MatchesCard env title name"
  shows "ReadCardKey env title = NormalizeCard env name"
proof -
  let ?t = "NormalizeCard env title" and ?n = "NormalizeCard env name"
  have ne: "?n \<noteq> []" using n by (simp add: plain_name_def)
  have t: "is_ascii ?t" by (rule NormalizeCard_is_ascii [OF env title(1)])
  have q: "CHR 0x22 \<notin> set ?t"
    using set_NormalizeCard_ascii [OF env title(1)] title(2)
    by (auto dest: lower_byte_quote [OF sym])
  have "trimPrintingTail ?t = ?n"
    using m no_quote_no_quoted [OF t q] ne
    by (intro key_of_levelled n NormalizeCard_last t)
       (auto simp: MatchesCard_def Let_def list_ex_iff split: if_splits)
  then show ?thesis
    using no_quote_no_quoted [OF t q] title
    by (simp add: ReadCardKey_def plainDashes_ascii Let_def)
qed

section \<open>Properties of titles\<close>

text \<open>The title tests widen one another: a title the exact mode accepts for a card is accepted by
  the mode that includes it, and a title that mode accepts is accepted by the question for
  sealed product of the same name.\<close>
theorem title_tests_widen:
  assumes "QueryKind q \<noteq> KindSealed"
  shows "(AcceptsTitle env (q\<lparr>QueryMatch := MatchExact\<rparr>) title
           \<longrightarrow> AcceptsTitle env (q\<lparr>QueryMatch := MatchIncludes\<rparr>) title)
    \<and> (AcceptsTitle env (q\<lparr>QueryMatch := MatchIncludes\<rparr>) title
           \<longrightarrow> AcceptsTitle env (q\<lparr>QueryKind := KindSealed\<rparr>) title)"
  using assms exact_in_includes includes_in_covers
  by (auto simp: AcceptsTitle_def Sealed_def match_defs kind_defs)

theorem title_tests_widen_witness:
  "AcceptsTitle plain_env \<lparr>QueryName = ''kuriboh'', QueryMatch = MatchExact, QueryKind = KindSingle\<rparr> ''Kuriboh (C)''
   \<and> AcceptsTitle plain_env \<lparr>QueryName = ''kuriboh'', QueryMatch = MatchIncludes, QueryKind = KindSingle\<rparr> ''Kuriboh (C)''"
proof -
  let ?q = "\<lparr>QueryName = ''kuriboh'', QueryMatch = MatchExact, QueryKind = KindSingle\<rparr>"
  have "AcceptsTitle plain_env ?q ''Kuriboh (C)''" by code_simp
  with title_tests_widen [of ?q plain_env "''Kuriboh (C)''"] show ?thesis by (simp add: kind_defs)
qed

text \<open>The key groups what the exact mode accepts: for ASCII text without double quotes, and a
  card name without the openings of an edition tail, every title the exact mode accepts for
  the card has the levelled card name for its key, so all printings of one card share one key.\<close>
theorem accepted_title_key:
  assumes "keeps_ascii env" "is_ascii title" "CHR 0x22 \<notin> set title"
    and "plain_name (NormalizeCard env (QueryName q))"
    and "QueryKind q \<noteq> KindSealed" "QueryMatch q \<noteq> MatchIncludes" "AcceptsTitle env q title"
  shows "ReadCardKey env title = NormalizeCard env (QueryName q)"
  using key_of_exact_title [OF assms(1-4)] assms(5-7)
  by (simp add: AcceptsTitle_def Sealed_def)

theorem accepted_title_key_witness:
  "ReadCardKey plain_env ''Mewtwo - SM214'' = ''mewtwo''
   \<and> AcceptsTitle plain_env \<lparr>QueryName = ''Mewtwo'', QueryMatch = MatchExact, QueryKind = KindSingle\<rparr> ''Mewtwo - SM214''"
proof -
  let ?q = "\<lparr>QueryName = ''Mewtwo'', QueryMatch = MatchExact, QueryKind = KindSingle\<rparr>"
  have accepts: "AcceptsTitle plain_env ?q ''Mewtwo - SM214''" by code_simp
  have key: "NormalizeCard plain_env ''Mewtwo'' = ''mewtwo''" by code_simp
  have "plain_name ''mewtwo''" by (auto simp: plain_name_def sublist_code)
  moreover have "keeps_ascii plain_env" by (simp add: keeps_ascii_def plain_env_def)
  moreover have "is_ascii ''Mewtwo - SM214''" by code_simp
  ultimately have "ReadCardKey plain_env ''Mewtwo - SM214'' = NormalizeCard plain_env (QueryName ?q)"
    using accepts by (intro accepted_title_key) (simp_all add: key match_defs kind_defs)
  with accepts key show ?thesis by simp
qed

text \<open>A title names a set exactly when the levelled name of one of the sets stands in the
  levelled title with no letter or digit next to it on either side: the scanning loop finds
  every such place, and never one inside a longer word.\<close>
theorem set_named_on_word_edges:
  "NamesSet env title sets \<longleftrightarrow>
   (\<exists>one \<in> set sets. NormalizeCard env one \<noteq> []
      \<and> (\<exists>before after. NormalizeCard env title = before @ NormalizeCard env one @ after
           \<and> (before = [] \<or> \<not> isWordByte (last before))
           \<and> (after = [] \<or> \<not> isWordByte (hd after))))"
  unfolding NamesSet_def Let_def list_ex_iff by (intro bex_cong refl conj_cong) (rule wordsContain_iff)

theorem set_named_on_word_edges_witness:
  "NamesSet plain_env ''Promo 1510 y 151'' [''151''] \<and> \<not> NamesSet plain_env ''Promo 1510'' [''151'']"
proof -
  have t: "NormalizeCard plain_env ''Promo 1510 y 151'' = ''promo 1510 y '' @ ''151'' @ []"
    "NormalizeCard plain_env ''151'' = ''151''" by code_simp+
  have "\<not> isWordByte (last ''promo 1510 y '')" by code_simp
  then have "NamesSet plain_env ''Promo 1510 y 151'' [''151'']"
    unfolding set_named_on_word_edges
    by (intro bexI [of _ "''151''"] conjI exI [of _ "''promo 1510 y ''"] exI [of _ "[]"])
       (simp_all add: t)
  moreover have "\<not> NamesSet plain_env ''Promo 1510'' [''151'']" by code_simp
  ultimately show ?thesis by blast
qed

end
