(* ===== verification/SearchStore.thy ===== *)
theory SearchStore
  imports Effects CardNames
begin

text \<open>
  internal/repositories/keeping.go and search_store.go: how a search is opened under an
  idempotency key, filled with one item per card, read back page by page and cancelled.
\<close>

section \<open>Keeping\<close>

definition lapsed :: "time \<Rightarrow> bool io" where
  "lapsed expiresAt = bind_io now (\<lambda>n. return_io (expiresAt < n))"

definition hex_digit :: "nat \<Rightarrow> char" where
  "hex_digit n = (if n < 10 then char_of (48 + n) else char_of (87 + n))"

definition hex :: "string \<Rightarrow> string" where
  "hex s = concat (map (\<lambda>c. [hex_digit (byte c div 16), hex_digit (byte c mod 16)]) s)"

definition build_id :: "string \<Rightarrow> string \<Rightarrow> string" where
  "build_id kind data = kind @ ''_'' @ hex data"

definition buildID :: "string \<Rightarrow> string io" where
  "buildID kind = bind_io draw (\<lambda>data. return_io (build_id kind data))"

definition mapSearchError :: "failure \<Rightarrow> failure" where
  "mapSearchError e = (if e = ErrMissing then ErrNotFound else e)"

definition zero_request :: request where
  "zero_request = \<lparr>RequestHash = [], RequestResourceID = [], RequestExpiresAt = 0\<rparr>"

definition readRequest :: "string \<Rightarrow> string \<Rightarrow> (request \<times> bool) io" where
  "readRequest action key =
     bind_io (try_io (Get Requests (action @ '':'' @ key))) (\<lambda>r.
       case r of
         Inl e \<Rightarrow> if e = ErrMissing then return_io (zero_request, False) else fail_io e
       | Inr request \<Rightarrow>
           bind_io (lapsed (RequestExpiresAt request)) (\<lambda>gone. return_io (request, \<not> gone)))"

definition saveRequest :: "string \<Rightarrow> string \<Rightarrow> request \<Rightarrow> unit io" where
  "saveRequest action key request = Save Requests (action @ '':'' @ key) request"

definition readSearch :: "string \<Rightarrow> kept_search io" where
  "readSearch i =
     bind_io (map_failure mapSearchError (Get Searches i)) (\<lambda>stored.
     bind_io (lapsed (KeptExpiresAt stored)) (\<lambda>gone.
       if gone then fail_io ErrNotFound else return_io stored))"

section \<open>Opening a search\<close>

definition buildSearch :: "create_input \<Rightarrow> job io" where
  "buildSearch input =
     bind_io now (\<lambda>n.
     bind_io (buildID ''search'') (\<lambda>i.
       return_io \<lparr>JobID = i, JobGame = InputGame input, JobStatus = JobQueued,
         JobTotal = int (length (InputCards input)), JobProcessed = 0, JobCurrentCard = [],
         JobFound = 0, JobNotFound = 0, JobErrors = 0, JobCreatedAt = n, JobStartedAt = None,
         JobUpdatedAt = n, JobFinishedAt = None, JobIncidentID = []\<rparr>))"

fun build_ids :: "string \<Rightarrow> nat \<Rightarrow> string list io" where
  "build_ids kind 0 = return_io []"
| "build_ids kind (Suc n) =
     bind_io (buildID kind) (\<lambda>i. bind_io (build_ids kind n) (\<lambda>rest. return_io (i # rest)))"

definition saveSearch :: "duration \<Rightarrow> string \<Rightarrow> string \<Rightarrow> job \<Rightarrow> unit io" where
  "saveSearch ttl key hash job =
     bind_io (build_ids ''item'' (nat (JobTotal job))) (\<lambda>itemIDs.
     bind_io now (\<lambda>n.
       let expires = n + ttl in
       bind_io (Create Searches (JobID job)
                  \<lparr>KeptJob = job, KeptItemIDs = itemIDs, KeptExpiresAt = expires\<rparr>) (\<lambda>_.
         saveRequest ''create'' key
           \<lparr>RequestHash = hash, RequestResourceID = JobID job, RequestExpiresAt = expires\<rparr>)))"

text \<open>The transaction of \<open>CreateSearch\<close>: the job it answers, and whether it is a new one.\<close>

definition openSearch :: "duration \<Rightarrow> string \<Rightarrow> string \<Rightarrow> create_input \<Rightarrow> (job \<times> bool) io" where
  "openSearch ttl key hash input =
     map_failure mapSearchError (Transact (
       bind_io (readRequest ''create'' key) (\<lambda>(stored, found).
         if found
         then if RequestHash stored \<noteq> hash then fail_io ErrConflict
              else bind_io (readSearch (RequestResourceID stored)) (\<lambda>answered.
                     return_io (KeptJob answered, False))
         else bind_io (buildSearch input) (\<lambda>job.
                bind_io (saveSearch ttl key hash job) (\<lambda>_. return_io (job, True))))))"

definition pending_item ::
  "text_env \<Rightarrow> job \<Rightarrow> create_input \<Rightarrow> string list \<Rightarrow> time \<Rightarrow> nat \<Rightarrow> kept_item" where
  "pending_item env job input itemIDs expires index =
     (let card = InputCards input ! index in
      \<lparr>KeptItem = \<lparr>ItemID = itemIDs ! index, ItemSearchID = JobID job, ItemGame = InputGame input,
          ItemPosition = int index, ItemSequence = 0, ItemOriginalName = CardInputName card,
          ItemNormalizedName = NormalizeCard env (CardInputName card),
          ItemQuantity = CardInputQuantity card, ItemStatus = ItemPending, ItemAttempts = 0,
          ItemSource = [], ItemErrorCode = [], ItemErrorMessage = [], ItemOffers = [],
          ItemLeaseOwner = [], ItemLeaseUntil = None,
          ItemVerifyStock = OptVerifyStock (InputOptions input),
          ItemMatch = OptMatch (InputOptions input), ItemKind = OptKind (InputOptions input),
          ItemFaults = []\<rparr>,
       KeptAvailableAt = JobCreatedAt job, KeptItemExpiresAt = expires, KeptDamaged = False\<rparr>)"

definition createItems :: "text_env \<Rightarrow> job \<Rightarrow> create_input \<Rightarrow> unit io" where
  "createItems env job input =
     bind_io (Get Searches (JobID job)) (\<lambda>stored.
       SaveMany Items
         (map (\<lambda>index. (KeptItemIDs stored ! index,
                 pending_item env job input (KeptItemIDs stored) (KeptExpiresAt stored) index))
              [0 ..< length (InputCards input)]))"

definition Store_CreateSearch ::
  "text_env \<Rightarrow> duration \<Rightarrow> string \<Rightarrow> string \<Rightarrow> create_input \<Rightarrow> job io" where
  "Store_CreateSearch env ttl key hash input =
     bind_io (openSearch ttl key hash input) (\<lambda>(job, created).
       if \<not> created then return_io job
       else bind_io (createItems env job input) (\<lambda>_. return_io job))"

section \<open>Reading a search\<close>

definition Store_GetSearch :: "string \<Rightarrow> job io" where
  "Store_GetSearch i = bind_io (readSearch i) (\<lambda>stored. return_io (KeptJob stored))"

definition page_query :: "string \<Rightarrow> result_page \<Rightarrow> (kept_item, int) query" where
  "page_query i page =
     \<lparr>QueryFilters = [\<lambda>k. ItemSearchID (KeptItem k) = i,
                      \<lambda>k. PageAfter page < ItemSequence (KeptItem k)],
      QueryOrderBy = Some (\<lambda>k. ItemSequence (KeptItem k)),
      QueryLimit = wrap64 (PageLimit page + 1)\<rparr>"

fun read_page :: "int \<Rightarrow> item list \<Rightarrow> kept_item list \<Rightarrow> (item list \<times> bool) io" where
  "read_page limit items [] = return_io (items, False)"
| "read_page limit items (record # rest) =
     (if KeptDamaged record
      then fail_io (Failure (''item '' @ ItemID (KeptItem record) @ '' cannot be read''))
      else if int (length items) = limit then return_io (items, True)
      else bind_io (try_io (Get ItemOfferEntries (ItemID (KeptItem record)))) (\<lambda>r.
             let offers = (case r of Inl _ \<Rightarrow> [] | Inr kept \<Rightarrow> EntryOffers kept) in
             read_page limit (items @ [(KeptItem record)\<lparr>ItemOffers := offers\<rparr>]) rest))"

definition loadResultPage :: "string \<Rightarrow> result_page \<Rightarrow> (item list \<times> bool) io" where
  "loadResultPage i page =
     bind_io (map_failure mapSearchError (ListRecords Items (page_query i page))) (\<lambda>stored.
       read_page (PageLimit page) [] stored)"

definition Store_ListResults :: "string \<Rightarrow> result_page \<Rightarrow> search_result io" where
  "Store_ListResults i page =
     bind_io (readSearch i) (\<lambda>_.
     bind_io (loadResultPage i page) (\<lambda>(items, hasMore).
       let cursor = (if items = [] then PageAfter page else ItemSequence (last items)) in
       return_io \<lparr>ResultSearchID = i, ResultItems = items, ResultCursor = cursor,
                  ResultHasMore = hasMore\<rparr>))"

section \<open>Cancelling a search\<close>

definition cancelSearch :: "kept_search \<Rightarrow> kept_search io" where
  "cancelSearch stored =
     bind_io (lapsed (KeptExpiresAt stored)) (\<lambda>gone.
       if gone then fail_io ErrNotFound
       else if JobStatus (KeptJob stored) \<noteq> JobQueued \<and> JobStatus (KeptJob stored) \<noteq> JobRunning
       then fail_io ErrNotRunning
       else bind_io now (\<lambda>n. return_io (stored\<lparr>KeptJob := (KeptJob stored)\<lparr>
              JobStatus := JobCancelled, JobFinishedAt := Some n, JobUpdatedAt := n\<rparr>\<rparr>)))"

definition Store_CancelSearch :: "duration \<Rightarrow> string \<Rightarrow> string \<Rightarrow> string \<Rightarrow> job io" where
  "Store_CancelSearch ttl i key hash =
     map_failure mapSearchError (Transact (
       bind_io (readRequest ''cancel'' key) (\<lambda>(stored, found).
         if found
         then if RequestHash stored \<noteq> hash then fail_io ErrConflict
              else bind_io (readSearch (RequestResourceID stored)) (\<lambda>answered.
                     return_io (KeptJob answered))
         else bind_io (Update Searches i cancelSearch) (\<lambda>cancelled.
                let job = KeptJob cancelled in
                bind_io (saveRequest ''cancel'' key
                   \<lparr>RequestHash = hash, RequestResourceID = JobID job,
                    RequestExpiresAt = JobUpdatedAt job + ttl\<rparr>) (\<lambda>_. return_io job)))))"

section \<open>What the operations do when they succeed\<close>

lemma lapsed_run [go_io]:
  "lapsed e w = (r, w') \<longleftrightarrow>
   r = Inr (e < clock w (ticks w)) \<and> w' = w\<lparr>ticks := Suc (ticks w)\<rparr>"
  by (auto simp: lapsed_def bind_io_def now_def return_io_def)

lemma sound_lapsed [sound_intros, simp]: "sound (lapsed e)"
  unfolding lapsed_def by (intro sound_intros)

lemma reads_only_lapsed [simp]: "reads_only (lapsed e)"
  unfolding lapsed_def by (intro reads_intros) simp_all

lemma buildID_run [go_io]:
  "buildID kind w = (r, w') \<longleftrightarrow>
   r = Inr (build_id kind (entropy w (draws w))) \<and> w' = w\<lparr>draws := Suc (draws w)\<rparr>"
  by (auto simp: buildID_def bind_io_def draw_def return_io_def)

lemma readSearch_Inr [go_io]:
  "readSearch i w = (Inr s, w') \<longleftrightarrow>
   outage w (calls w) = None \<and> \<not> (tx_open w \<and> tx_wrote w) \<and> row_of Searches i (wdb w) = Some s
   \<and> \<not> KeptExpiresAt s < clock w (ticks w)
   \<and> w' = w\<lparr>calls := Suc (calls w), ticks := Suc (ticks w)\<rparr>"
  by (auto simp: readSearch_def go_io)

lemma sound_readSearch [sound_intros, simp]: "sound (readSearch i)"
  unfolding readSearch_def by (intro sound_intros)

lemma reads_only_readSearch [simp]: "reads_only (readSearch i)"
  unfolding readSearch_def by (intro reads_intros) simp_all

lemma sound_readRequest [sound_intros, simp]: "sound (readRequest action key)"
  unfolding readRequest_def by (intro sound_intros)

lemma reads_only_readRequest [simp]: "reads_only (readRequest action key)"
  unfolding readRequest_def by (intro reads_intros) simp_all

lemma readRequest_Inr:
  assumes "readRequest action key w = (Inr (request, found), w')"
  shows "wdb w' = wdb w" "found \<Longrightarrow> row_of Requests (action @ '':'' @ key) (wdb w) = Some request"
    "found \<longleftrightarrow> (\<exists>r. row_of Requests (action @ '':'' @ key) (wdb w) = Some r
                  \<and> \<not> RequestExpiresAt r < clock w (ticks w))"
    "w' = w\<lparr>calls := Suc (calls w),
            ticks := (if row_of Requests (action @ '':'' @ key) (wdb w) = None then ticks w
                      else Suc (ticks w))\<rparr>"
proof -
  let ?k = "action @ '':'' @ key"
  obtain r w1 where g: "Get Requests ?k w = (r, w1)"
    and rest: "(case r of
         Inl e \<Rightarrow> if e = ErrMissing then return_io (zero_request, False) else fail_io e
       | Inr request \<Rightarrow>
           bind_io (lapsed (RequestExpiresAt request)) (\<lambda>gone. return_io (request, \<not> gone))) w1
       = (Inr (request, found), w')"
    using assms by (auto simp: readRequest_def bind_io_Inr try_io_run)
  have "wdb w' = wdb w \<and> (found \<longrightarrow> row_of Requests ?k (wdb w) = Some request)
      \<and> (found \<longleftrightarrow> (\<exists>r. row_of Requests ?k (wdb w) = Some r
                  \<and> \<not> RequestExpiresAt r < clock w (ticks w)))
      \<and> w' = w\<lparr>calls := Suc (calls w),
            ticks := (if row_of Requests ?k (wdb w) = None then ticks w else Suc (ticks w))\<rparr>"
  proof (cases r)
    case (Inl e)
    with g rest show ?thesis by (auto simp: go_io split: if_splits option.splits)
  next
    case (Inr x)
    with g rest show ?thesis by (auto simp: go_io)
  qed
  then show "wdb w' = wdb w" "found \<Longrightarrow> row_of Requests ?k (wdb w) = Some request"
    "found \<longleftrightarrow> (\<exists>r. row_of Requests ?k (wdb w) = Some r
                  \<and> \<not> RequestExpiresAt r < clock w (ticks w))"
    "w' = w\<lparr>calls := Suc (calls w),
            ticks := (if row_of Requests ?k (wdb w) = None then ticks w else Suc (ticks w))\<rparr>"
    by blast+
qed

fun drawn_ids :: "string \<Rightarrow> (nat \<Rightarrow> string) \<Rightarrow> nat \<Rightarrow> nat \<Rightarrow> string list" where
  "drawn_ids kind ent k 0 = []"
| "drawn_ids kind ent k (Suc n) = build_id kind (ent k) # drawn_ids kind ent (Suc k) n"

lemma build_ids_run [go_io]:
  "build_ids kind n w = (r, w') \<longleftrightarrow>
   r = Inr (drawn_ids kind (entropy w) (draws w) n) \<and> w' = w\<lparr>draws := draws w + n\<rparr>"
proof (induction n arbitrary: w r w')
  case (Suc n)
  show ?case
    by (auto simp: bind_io_def buildID_def draw_def return_io_def split: prod.splits sum.splits)
       (auto simp: Suc.IH)
qed (auto simp: go_io)

lemma length_drawn_ids [simp]: "length (drawn_ids kind ent k n) = n"
  by (induction n arbitrary: k) auto

lemma set_drawn_ids: "set (drawn_ids kind ent k n) = (\<lambda>m. build_id kind (ent m)) ` {k ..< k + n}"
proof (induction n arbitrary: k)
  case (Suc n)
  have "{k ..< k + Suc n} = insert k {Suc k ..< Suc k + n}" by auto
  then show ?case by (simp add: Suc.IH)
qed simp

lemma nth_drawn_ids: "m < n \<Longrightarrow> drawn_ids kind ent k n ! m = build_id kind (ent (k + m))"
proof (induction n arbitrary: k m)
  case (Suc n)
  then show ?case by (cases m) simp_all
qed simp

definition new_job :: "string \<Rightarrow> game \<Rightarrow> nat \<Rightarrow> time \<Rightarrow> job" where
  "new_job i game cards n =
     \<lparr>JobID = i, JobGame = game, JobStatus = JobQueued, JobTotal = int cards, JobProcessed = 0,
      JobCurrentCard = [], JobFound = 0, JobNotFound = 0, JobErrors = 0, JobCreatedAt = n,
      JobStartedAt = None, JobUpdatedAt = n, JobFinishedAt = None, JobIncidentID = []\<rparr>"

lemma mapSearchError_sentinels [simp]:
  "mapSearchError (Failure s) = Failure s" "mapSearchError ErrConflict = ErrConflict"
  "mapSearchError ErrNotFound = ErrNotFound" "mapSearchError ErrMissing = ErrNotFound"
  "mapSearchError ErrNotRunning = ErrNotRunning"
  by (simp_all add: mapSearchError_def)

lemma openSearch_Inr:
  assumes "openSearch ttl key hash input w = (Inr (job, created), w')"
  shows "(\<not> created \<and> wdb w' = wdb w \<and>
      (\<exists>req s. row_of Requests (''create:'' @ key) (wdb w) = Some req \<and> RequestHash req = hash
        \<and> row_of Searches (RequestResourceID req) (wdb w) = Some s \<and> job = KeptJob s))
    \<or> (created \<and> (\<exists>n m. let i = build_id ''search'' (entropy w (draws w));
           ids = drawn_ids ''item'' (entropy w) (Suc (draws w)) (length (InputCards input))
         in row_of Searches i (wdb w) = None
          \<and> job = new_job i (InputGame input) (length (InputCards input)) n
          \<and> wdb w' = put_row Requests (''create:'' @ key)
               \<lparr>RequestHash = hash, RequestResourceID = i, RequestExpiresAt = m + ttl\<rparr>
             (put_row Searches i \<lparr>KeptJob = job, KeptItemIDs = ids, KeptExpiresAt = m + ttl\<rparr>
               (wdb w))
          \<and> draws w' = draws w + Suc (length (InputCards input))))"
proof -
  let ?body = "\<lambda>(stored, found).
         if found
         then if RequestHash stored \<noteq> hash then fail_io ErrConflict
              else bind_io (readSearch (RequestResourceID stored)) (\<lambda>answered.
                     return_io (KeptJob answered, False))
         else bind_io (buildSearch input) (\<lambda>job.
                bind_io (saveSearch ttl key hash job) (\<lambda>_. return_io (job, True)))"
  have "Transact (bind_io (readRequest ''create'' key) ?body) w = (Inr (job, created), w')"
    using assms by (simp add: openSearch_def go_io)
  then obtain w1 where run: "bind_io (readRequest ''create'' key) ?body (begin_tx w) = (Inr (job, created), w1)"
    and doom: "\<not> tx_doomed w1" and w': "wdb w' = wdb w1" "draws w' = draws w1"
    by (rule Transact_Inr) simp
  then obtain stored found w2 where req: "readRequest ''create'' key (begin_tx w) = (Inr (stored, found), w2)"
    and body: "?body (stored, found) w2 = (Inr (job, created), w1)"
    by (auto simp: go_io)
  note R = readRequest_Inr [OF req]
  show ?thesis
  proof (cases found)
    case True
    with body R w' show ?thesis by (auto simp: go_io split: if_splits)
  next
    case False
    have w2: "wdb w2 = wdb w" "entropy w2 = entropy w" "draws w2 = draws w" "\<not> tx_doomed w2"
      using R(1,4) by simp_all
    from False body w2 doom show ?thesis
      unfolding w'
      by (auto simp: go_io buildSearch_def saveSearch_def saveRequest_def new_job_def Let_def
          split: if_splits)
  qed
qed

lemma openSearch_Inl: "openSearch ttl key hash input w = (Inl e, w') \<Longrightarrow> wdb w' = wdb w"
  by (auto simp: openSearch_def go_io dest: Transact_Inl)

lemma sound_openSearch_body:
  "sound (bind_io (readRequest ''create'' key) (\<lambda>(stored, found).
         if found
         then if RequestHash stored \<noteq> hash then fail_io ErrConflict
              else bind_io (readSearch (RequestResourceID stored)) (\<lambda>answered.
                     return_io (KeptJob answered, False))
         else bind_io (buildSearch input) (\<lambda>job.
                bind_io (saveSearch ttl key hash job) (\<lambda>_. return_io (job, True)))))"
proof -
  have ids: "sound (build_ids kind n)" for kind n
    by (auto simp: sound_def follows_def build_ids_run [THEN iffD1, OF surjective_pairing] split: prod.splits)
  show ?thesis
    unfolding buildSearch_def saveSearch_def saveRequest_def buildID_def Let_def
    by (intro sound_intros ids)
qed

lemma outside_openSearch: "outside (openSearch ttl key hash input)"
  unfolding openSearch_def
  by (intro outside_map_failure outside_Transact sound_openSearch_body)

lemma createItems_run:
  assumes "createItems env job input w = (r, w')" and "\<not> tx_open w"
  obtains "wdb w' = wdb w" "\<And>u. r \<noteq> Inr u"
  | stored n where "row_of Searches (JobID job) (wdb w) = Some stored"
    "n \<le> length (InputCards input)"
    "wdb w' = put_rows Items (map (\<lambda>index. (KeptItemIDs stored ! index,
         pending_item env job input (KeptItemIDs stored) (KeptExpiresAt stored) index)) [0 ..< n]) (wdb w)"
    "\<And>u. r = Inr u \<Longrightarrow> n = length (InputCards input)"
proof (cases "Get Searches (JobID job) w")
  case (Pair g w1)
  show thesis
  proof (cases g)
    case (Inl e)
    with Pair assms have "r = Inl e" "w' = w1" by (auto simp: createItems_def bind_io_def)
    with Pair Inl show thesis by (intro that(1)) (auto simp: go_io)
  next
    case (Inr stored)
    let ?row = "\<lambda>index. (KeptItemIDs stored ! index,
         pending_item env job input (KeptItemIDs stored) (KeptExpiresAt stored) index)"
    let ?len = "length (InputCards input)"
    from Pair Inr have s: "row_of Searches (JobID job) (wdb w) = Some stored"
      and w1: "w1 = w\<lparr>calls := Suc (calls w)\<rparr>" by (auto simp: go_io)
    from Pair Inr assms have "SaveMany Items (map ?row [0 ..< ?len]) w1 = (r, w')"
      by (simp add: createItems_def bind_io_def)
    then obtain n where n: "n \<le> ?len" "wdb w' = put_rows Items (take n (map ?row [0 ..< ?len])) (wdb w1)"
        "\<And>u. r = Inr u \<Longrightarrow> n = ?len"
      by (rule SaveMany_prefix) (use w1 assms(2) in auto)
    from n(1) have "take n (map ?row [0 ..< ?len]) = map ?row [0 ..< n]"
      by (simp add: take_map take_upt)
    with n w1 show thesis by (intro that(2) [OF s n(1)]) auto
  qed
qed

lemma sound_createItems: "sound (createItems env job input)"
  unfolding createItems_def by (intro sound_intros)

lemma row_of_put_rows_items:
  "row_of Requests x (put_rows Items rows d) = row_of Requests x d"
  "row_of Searches x (put_rows Items rows d) = row_of Searches x d"
  by (induction rows arbitrary: d) (simp_all add: coll_simps)

section \<open>Cancelling\<close>

definition cancelled :: "kept_search \<Rightarrow> time \<Rightarrow> kept_search" where
  "cancelled stored n = stored\<lparr>KeptJob := (KeptJob stored)\<lparr>
     JobStatus := JobCancelled, JobFinishedAt := Some n, JobUpdatedAt := n\<rparr>\<rparr>"

lemma cancelSearch_Inr:
  "cancelSearch stored w = (Inr s, w') \<longleftrightarrow>
   \<not> KeptExpiresAt stored < clock w (ticks w)
   \<and> JobStatus (KeptJob stored) \<in> {JobQueued, JobRunning}
   \<and> s = cancelled stored (clock w (Suc (ticks w)))
   \<and> w' = w\<lparr>ticks := Suc (Suc (ticks w))\<rparr>"
  by (auto simp: cancelSearch_def go_io cancelled_def)

lemma sound_cancelSearch: "sound (cancelSearch s)"
  unfolding cancelSearch_def by (intro sound_intros)

lemma Store_CancelSearch_Inr:
  assumes "Store_CancelSearch ttl i key hash w = (Inr job, w')"
  shows "(wdb w' = wdb w \<and>
      (\<exists>req s. row_of Requests (''cancel:'' @ key) (wdb w) = Some req \<and> RequestHash req = hash
        \<and> row_of Searches (RequestResourceID req) (wdb w) = Some s \<and> job = KeptJob s))
    \<or> (\<exists>s n. row_of Searches i (wdb w) = Some s
          \<and> JobStatus (KeptJob s) \<in> {JobQueued, JobRunning}
          \<and> job = KeptJob (cancelled s n)
          \<and> wdb w' = put_row Requests (''cancel:'' @ key)
               \<lparr>RequestHash = hash, RequestResourceID = JobID job, RequestExpiresAt = n + ttl\<rparr>
             (put_row Searches i (cancelled s n) (wdb w)))"
proof -
  let ?body = "\<lambda>(stored, found).
         if found
         then if RequestHash stored \<noteq> hash then fail_io ErrConflict
              else bind_io (readSearch (RequestResourceID stored)) (\<lambda>answered.
                     return_io (KeptJob answered))
         else bind_io (Update Searches i cancelSearch) (\<lambda>cancelled.
                let job = KeptJob cancelled in
                bind_io (saveRequest ''cancel'' key
                   \<lparr>RequestHash = hash, RequestResourceID = JobID job,
                    RequestExpiresAt = JobUpdatedAt job + ttl\<rparr>) (\<lambda>_. return_io job))"
  have "Transact (bind_io (readRequest ''cancel'' key) ?body) w = (Inr job, w')"
    using assms by (simp add: Store_CancelSearch_def go_io)
  then obtain w1 where run: "bind_io (readRequest ''cancel'' key) ?body (begin_tx w) = (Inr job, w1)"
    and w': "wdb w' = wdb w1"
    by (rule Transact_Inr) simp
  then obtain stored found w2 where req: "readRequest ''cancel'' key (begin_tx w) = (Inr (stored, found), w2)"
    and body: "?body (stored, found) w2 = (Inr job, w1)"
    by (auto simp: go_io)
  note R = readRequest_Inr [OF req]
  show ?thesis
  proof (cases found)
    case True
    with body R w' show ?thesis by (auto simp: go_io split: if_splits)
  next
    case False
    have w2: "wdb w2 = wdb w" "tx_open w2" using R(1,4) by simp_all
    from False body w2 show ?thesis
      unfolding w'
      by (auto simp: go_io Update_def modify_row_def cancelSearch_Inr saveRequest_def Let_def
            cancelled_def)
  qed
qed

section \<open>Record ids name the bytes they were drawn from\<close>

lemma byte_inj: "byte a = byte b \<Longrightarrow> a = b"
  by (simp add: byte_def)

lemma hex_digit_inj: "m < 16 \<Longrightarrow> n < 16 \<Longrightarrow> hex_digit m = hex_digit n \<Longrightarrow> m = n"
proof -
  assume mn: "m < 16" "n < 16" "hex_digit m = hex_digit n"
  have "byte (hex_digit k) = (if k < 10 then 48 + k else 87 + k)" if "k < 16" for k
    using that by (simp add: hex_digit_def byte_def)
  then have "(if m < 10 then 48 + m else 87 + m) = (if n < 10 then 48 + n else 87 + n)"
    using mn by metis
  then show "m = n" by (simp split: if_splits)
qed

lemma hex_inj: "hex a = hex b \<Longrightarrow> a = b"
proof (induction a arbitrary: b)
  case Nil
  then show ?case by (cases b) (simp_all add: hex_def)
next
  case (Cons c a)
  then obtain d b' where b: "b = d # b'" by (cases b) (simp_all add: hex_def)
  from Cons.prems have h: "hex_digit (byte c div 16) = hex_digit (byte d div 16)"
    "hex_digit (byte c mod 16) = hex_digit (byte d mod 16)" "hex a = hex b'"
    by (simp_all add: b hex_def)
  have "byte x div 16 < 16" for x using byte_less [of x] by (simp add: less_mult_imp_div_less)
  then have "byte c div 16 = byte d div 16" using h(1) hex_digit_inj by blast
  moreover have "byte c mod 16 = byte d mod 16" using h(2) by (rule hex_digit_inj [rotated 2]) simp_all
  ultimately have "byte c = byte d" by (metis div_mult_mod_eq)
  with h(3) Cons.IH byte_inj b show ?case by blast
qed

lemma build_id_inj: "build_id kind a = build_id kind b \<Longrightarrow> a = b"
  by (simp add: build_id_def hex_inj)

lemma distinct_drawn_ids:
  assumes "inj ent"
  shows "distinct (drawn_ids kind ent k n)"
proof (induction n arbitrary: k)
  case (Suc n)
  have "build_id kind (ent k) \<noteq> build_id kind (ent m)" if "m \<noteq> k" for m
    using build_id_inj [of kind "ent k" "ent m"] that injD [OF assms] by metis
  then have "build_id kind (ent k) \<notin> (\<lambda>m. build_id kind (ent m)) ` {Suc k ..< Suc k + n}"
    by (metis (no_types, lifting) atLeastLessThan_iff imageE not_less_eq_eq order_refl)
  with Suc show ?case by (simp add: set_drawn_ids)
qed simp

section \<open>Answering a retried request\<close>

lemma readRequest_calm:
  assumes "calm w" and "\<not> tx_open w \<or> \<not> tx_wrote w"
    and "row_of Requests (action @ '':'' @ key) (wdb w) = Some r"
    and "\<not> RequestExpiresAt r < clock w (ticks w)"
  shows "readRequest action key w = (Inr (r, True), w\<lparr>calls := Suc (calls w), ticks := Suc (ticks w)\<rparr>)"
  using assms by (simp add: readRequest_def lapsed_def run_simps calm_runs)

lemma readSearch_calm:
  assumes "calm w" and "\<not> tx_open w \<or> \<not> tx_wrote w"
    and "row_of Searches i (wdb w) = Some s" and "\<not> KeptExpiresAt s < clock w (ticks w)"
  shows "readSearch i w = (Inr s, w\<lparr>calls := Suc (calls w), ticks := Suc (ticks w)\<rparr>)"
  using assms by (simp add: readSearch_def lapsed_def run_simps calm_runs)

lemma openSearch_again:
  assumes w: "calm w" and req: "row_of Requests (''create:'' @ key) (wdb w) = Some r"
    "\<not> RequestExpiresAt r < clock w (ticks w)"
  shows "RequestHash r \<noteq> hash \<Longrightarrow>
      \<exists>w'. openSearch ttl key hash input w = (Inl ErrConflict, w') \<and> wdb w' = wdb w"
    and "RequestHash r = hash \<Longrightarrow> row_of Searches (RequestResourceID r) (wdb w) = Some s \<Longrightarrow>
      \<not> KeptExpiresAt s < clock w (Suc (ticks w)) \<Longrightarrow>
      \<exists>w'. openSearch ttl key hash input w = (Inr (KeptJob s, False), w') \<and> wdb w' = wdb w"
proof -
  let ?w2 = "(begin_tx w)\<lparr>calls := Suc (calls w), ticks := Suc (ticks w)\<rparr>"
  have read: "readRequest ''create'' key (begin_tx w) = (Inr (r, True), ?w2)"
    using readRequest_calm [of "begin_tx w" "''create''" key r] w req by simp
  show "\<exists>w'. openSearch ttl key hash input w = (Inl ErrConflict, w') \<and> wdb w' = wdb w"
    if "RequestHash r \<noteq> hash"
    using that by (simp add: openSearch_def map_failure_def Transact_def bind_io_def read fail_io_def)
  show "\<exists>w'. openSearch ttl key hash input w = (Inr (KeptJob s, False), w') \<and> wdb w' = wdb w"
    if "RequestHash r = hash" "row_of Searches (RequestResourceID r) (wdb w) = Some s"
      "\<not> KeptExpiresAt s < clock w (Suc (ticks w))"
  proof -
    have "readSearch (RequestResourceID r) ?w2
        = (Inr s, ?w2\<lparr>calls := Suc (calls ?w2), ticks := Suc (ticks ?w2)\<rparr>)"
      using that(2,3) w by (intro readSearch_calm) simp_all
    with that(1) w show ?thesis
      by (simp add: openSearch_def map_failure_def Transact_def bind_io_def read return_io_def calm_call)
  qed
qed


definition one_card :: create_input where
  "one_card = \<lparr>InputGame = GameMagic,
     InputCards = [\<lparr>CardInputName = ''Opt'', CardInputQuantity = 1\<rparr>],
     InputOptions = \<lparr>OptVerifyStock = False, OptMatch = MatchExact, OptKind = KindSingle\<rparr>\<rparr>"


end
