(* ===== verification/ItemStore.thy ===== *)
theory ItemStore
  imports SearchStore
begin

text \<open>
  internal/repositories/item_store.go: the queue of card items.  A turn claims the oldest
  item that is ready under a lease, renews it while it works and completes it, which
  counts it into its search.  An item nobody can claim is discarded.
\<close>

definition maxClaimDiscards :: nat where "maxClaimDiscards = 20"

definition doneParking :: duration where "doneParking = 24 * hour"

definition zero_item :: item where
  "zero_item = \<lparr>ItemID = [], ItemSearchID = [], ItemGame = [], ItemPosition = 0,
     ItemSequence = 0, ItemOriginalName = [], ItemNormalizedName = [], ItemQuantity = 0,
     ItemStatus = ItemPending, ItemAttempts = 0, ItemSource = [], ItemErrorCode = [],
     ItemErrorMessage = [], ItemOffers = [], ItemLeaseOwner = [], ItemLeaseUntil = None,
     ItemVerifyStock = False, ItemMatch = [], ItemKind = [], ItemFaults = []\<rparr>"

section \<open>Claiming\<close>

definition leased :: "kept_item \<Rightarrow> string \<Rightarrow> time \<Rightarrow> kept_item" where
  "leased candidate owner expires =
     candidate\<lparr>KeptItem := (KeptItem candidate)\<lparr>
         ItemStatus := ItemRunning, ItemAttempts := ItemAttempts (KeptItem candidate) + 1,
         ItemLeaseOwner := owner, ItemLeaseUntil := Some expires\<rparr>,
       KeptAvailableAt := expires\<rparr>"

definition started :: "kept_search \<Rightarrow> string \<Rightarrow> time \<Rightarrow> kept_search" where
  "started stored name n =
     stored\<lparr>KeptJob := (KeptJob stored)\<lparr>
         JobStatus := JobRunning, JobCurrentCard := name, JobUpdatedAt := n,
         JobStartedAt := (case JobStartedAt (KeptJob stored) of None \<Rightarrow> Some n | Some s \<Rightarrow> Some s)\<rparr>\<rparr>"

definition claimItem :: "kept_item \<Rightarrow> string \<Rightarrow> duration \<Rightarrow> item io" where
  "claimItem candidate owner lease =
     (if KeptDamaged candidate then fail_io ErrNotFound
      else bind_io (lapsed (KeptItemExpiresAt candidate)) (\<lambda>gone.
        if gone \<or> ItemSearchID (KeptItem candidate) = [] then fail_io ErrNotFound
        else bind_io (try_io (readSearch (ItemSearchID (KeptItem candidate)))) (\<lambda>r.
          case r of
            Inl e \<Rightarrow> fail_io e
          | Inr stored \<Rightarrow>
              if JobStatus (KeptJob stored) = JobCancelled then fail_io ErrNotFound
              else bind_io now (\<lambda>n.
                let expires = n + lease;
                    taken = leased candidate owner expires;
                    parent = started stored (ItemOriginalName (KeptItem candidate)) n
                in bind_io (Save Items (ItemID (KeptItem taken)) taken) (\<lambda>_.
                   bind_io (Save Searches (JobID (KeptJob parent)) parent) (\<lambda>_.
                     return_io (KeptItem taken)))))))"

definition ready_query :: "time \<Rightarrow> int \<Rightarrow> (kept_item, time) query" where
  "ready_query n limit =
     \<lparr>QueryFilters = [\<lambda>k. KeptAvailableAt k \<le> n], QueryOrderBy = Some KeptAvailableAt,
      QueryLimit = limit\<rparr>"

text \<open>The claimed item (its zero value when none was), and the id of a discarded one.\<close>

definition claimOnce :: "string \<Rightarrow> duration \<Rightarrow> (item \<times> string) io" where
  "claimOnce owner lease =
     Transact (
       bind_io now (\<lambda>n.
       bind_io (ListRecords Items (ready_query n 1)) (\<lambda>candidates.
         case candidates of
           [] \<Rightarrow> fail_io ErrNotFound
         | candidate # _ \<Rightarrow>
             bind_io (try_io (claimItem candidate owner lease)) (\<lambda>r.
               case r of
                 Inr claimed \<Rightarrow> return_io (claimed, [])
               | Inl e \<Rightarrow>
                   if e = ErrNotFound
                   then let discarded = ItemID (KeptItem candidate) in
                        bind_io (Delete Items discarded) (\<lambda>_. return_io (zero_item, discarded))
                   else fail_io e))))"

fun claim_turns :: "nat \<Rightarrow> string \<Rightarrow> duration \<Rightarrow> item io" where
  "claim_turns 0 owner lease = fail_io ErrNotFound"
| "claim_turns (Suc attempts) owner lease =
     bind_io (map_failure mapSearchError (claimOnce owner lease)) (\<lambda>(claimed, discarded).
       if ItemID claimed \<noteq> [] then return_io claimed else claim_turns attempts owner lease)"

definition ClaimSearchItem :: "string \<Rightarrow> duration \<Rightarrow> item io" where
  "ClaimSearchItem owner lease = claim_turns (Suc maxClaimDiscards) owner lease"

section \<open>Counting\<close>

fun count_alive :: "kept_item list \<Rightarrow> nat io" where
  "count_alive [] = return_io 0"
| "count_alive (candidate # rest) =
     (if KeptDamaged candidate then count_alive rest
      else bind_io (lapsed (KeptItemExpiresAt candidate)) (\<lambda>gone.
             bind_io (count_alive rest) (\<lambda>n. return_io (if gone then n else Suc n))))"

definition CountWaitingItems :: "int \<Rightarrow> nat io" where
  "CountWaitingItems limit =
     bind_io now (\<lambda>n.
     bind_io (map_failure mapSearchError (ListRecords Items (ready_query n limit))) (\<lambda>ready.
       count_alive ready))"

section \<open>Renewing and completing\<close>

definition renew_row :: "string \<Rightarrow> duration \<Rightarrow> kept_item \<Rightarrow> kept_item io" where
  "renew_row owner lease stored =
     (if KeptDamaged stored \<or> ItemLeaseOwner (KeptItem stored) \<noteq> owner
         \<or> ItemStatus (KeptItem stored) \<noteq> ItemRunning
      then fail_io ErrNotFound
      else bind_io now (\<lambda>n. return_io (stored\<lparr>
             KeptItem := (KeptItem stored)\<lparr>ItemLeaseUntil := Some (n + lease)\<rparr>,
             KeptAvailableAt := n + lease\<rparr>)))"

definition RenewItemLease :: "string \<Rightarrow> string \<Rightarrow> duration \<Rightarrow> unit io" where
  "RenewItemLease i owner lease =
     map_failure mapSearchError (bind_io (Update Items i (renew_row owner lease)) (\<lambda>_. return_io ()))"

definition counted :: "job \<Rightarrow> item \<Rightarrow> job" where
  "counted job it =
     (let job = job\<lparr>JobProcessed := JobProcessed job + 1\<rparr> in
      case ItemStatus it of
        ItemFound \<Rightarrow> job\<lparr>JobFound := JobFound job + 1\<rparr>
      | ItemNotFound \<Rightarrow> job\<lparr>JobNotFound := JobNotFound job + 1\<rparr>
      | ItemSourceError \<Rightarrow> job\<lparr>JobErrors := JobErrors job + 1\<rparr>
      | _ \<Rightarrow> job)"

definition closed :: "job \<Rightarrow> time \<Rightarrow> job" where
  "closed job n =
     job\<lparr>JobStatus := (if 0 < JobErrors job then JobCompletedWithErrors else JobCompleted),
         JobCurrentCard := [], JobFinishedAt := Some n\<rparr>"

definition updateSearch :: "job \<Rightarrow> item \<Rightarrow> job io" where
  "updateSearch job it =
     (let job = counted job it in
      if JobProcessed job = JobTotal job \<and> JobStatus job \<noteq> JobCancelled
      then bind_io now (\<lambda>n. bind_io now (\<lambda>m. return_io ((closed job n)\<lparr>JobUpdatedAt := m\<rparr>)))
      else bind_io now (\<lambda>m. return_io (job\<lparr>JobUpdatedAt := m\<rparr>)))"

definition CompleteSearchItem :: "item \<Rightarrow> offer list \<Rightarrow> unit io" where
  "CompleteSearchItem it offers =
     map_failure mapSearchError (Transact (
       bind_io (Get Items (ItemID it)) (\<lambda>stored.
         if KeptDamaged stored \<or> ItemLeaseOwner (KeptItem stored) \<noteq> ItemLeaseOwner it
            \<or> ItemStatus (KeptItem stored) \<noteq> ItemRunning
         then fail_io ErrNotFound
         else bind_io (readSearch (ItemSearchID it)) (\<lambda>parent.
           let it = it\<lparr>ItemSequence := JobProcessed (KeptJob parent) + 1,
                       ItemLeaseOwner := [], ItemLeaseUntil := None\<rparr>;
               stored = stored\<lparr>KeptItem := it,
                               KeptAvailableAt := KeptItemExpiresAt stored + doneParking\<rparr>
           in bind_io (Save Items (ItemID it) stored) (\<lambda>_.
              bind_io (Save ItemOfferEntries (ItemID it)
                 \<lparr>EntryOffers = offers, EntryExpiresAt = KeptItemExpiresAt stored,
                  EntryIndexed = False\<rparr>) (\<lambda>_.
              bind_io (updateSearch (KeptJob parent) it) (\<lambda>job.
                Save Searches (JobID job) (parent\<lparr>KeptJob := job\<rparr>))))))))"

section \<open>What the operations do when they succeed\<close>

lemma leased_simps [simp]:
  "ItemID (KeptItem (leased c owner e)) = ItemID (KeptItem c)"
  "ItemSearchID (KeptItem (leased c owner e)) = ItemSearchID (KeptItem c)"
  "ItemSequence (KeptItem (leased c owner e)) = ItemSequence (KeptItem c)"
  "ItemStatus (KeptItem (leased c owner e)) = ItemRunning"
  "ItemLeaseOwner (KeptItem (leased c owner e)) = owner"
  "KeptItemExpiresAt (leased c owner e) = KeptItemExpiresAt c"
  "KeptAvailableAt (leased c owner e) = e"
  "KeptDamaged (leased c owner e) = KeptDamaged c"
  by (simp_all add: leased_def)

lemma started_simps [simp]:
  "JobID (KeptJob (started s name n)) = JobID (KeptJob s)"
  "JobStatus (KeptJob (started s name n)) = JobRunning"
  "JobTotal (KeptJob (started s name n)) = JobTotal (KeptJob s)"
  "JobProcessed (KeptJob (started s name n)) = JobProcessed (KeptJob s)"
  "JobFound (KeptJob (started s name n)) = JobFound (KeptJob s)"
  "JobNotFound (KeptJob (started s name n)) = JobNotFound (KeptJob s)"
  "JobErrors (KeptJob (started s name n)) = JobErrors (KeptJob s)"
  "JobFinishedAt (KeptJob (started s name n)) = JobFinishedAt (KeptJob s)"
  "KeptItemIDs (started s name n) = KeptItemIDs s"
  "KeptExpiresAt (started s name n) = KeptExpiresAt s"
  by (simp_all add: started_def)

lemma claimItem_Inr:
  assumes "claimItem cand owner lease w = (Inr it, w')"
  obtains stored n where "\<not> KeptDamaged cand" "\<not> KeptItemExpiresAt cand < clock w (ticks w)"
    "ItemSearchID (KeptItem cand) \<noteq> []"
    "row_of Searches (ItemSearchID (KeptItem cand)) (wdb w) = Some stored"
    "JobStatus (KeptJob stored) \<noteq> JobCancelled"
    "it = KeptItem (leased cand owner (n + lease))"
    "wdb w' = put_row Searches (JobID (KeptJob stored))
        (started stored (ItemOriginalName (KeptItem cand)) n)
       (put_row Items (ItemID (KeptItem cand)) (leased cand owner (n + lease)) (wdb w))"
  using assms
  by (auto simp: claimItem_def go_io Let_def split: if_splits)

lemma claimItem_refused:
  assumes "claimItem cand owner lease w = (Inl ErrNotFound, w')"
  shows "wdb w' = wdb w"
proof -
  have r: "wdb w2 = wdb w1" if "readSearch i w1 = (r, w2)" for i r w1 w2
    using reads_onlyD [OF reads_only_readSearch that] .
  show ?thesis
    using assms
    by (auto simp: claimItem_def go_io Let_def split: if_splits dest!: r)
qed

lemma run_query_first:
  assumes "run_query (ready_query n 1) rows = cand # rest"
  shows "cand \<in> set rows" "KeptAvailableAt cand \<le> n" "rest = []"
    "\<And>k. k \<in> set rows \<Longrightarrow> KeptAvailableAt k \<le> n \<Longrightarrow> KeptAvailableAt cand \<le> KeptAvailableAt k"
proof -
  let ?s = "sort_key KeptAvailableAt (filter (\<lambda>k. KeptAvailableAt k \<le> n) rows)"
  have t: "take 1 ?s = cand # rest"
    using assms by (simp add: run_query_def ready_query_def)
  then obtain more where s: "?s = cand # more" "rest = []" by (cases ?s) auto
  then have "cand \<in> set ?s" by simp
  then show "cand \<in> set rows" "KeptAvailableAt cand \<le> n" by auto
  show "rest = []" by (rule s)
  show "KeptAvailableAt cand \<le> KeptAvailableAt k" if "k \<in> set rows" "KeptAvailableAt k \<le> n" for k
    using hd_sort_key_le [OF s(1), of k] that by simp
qed

text \<open>
  A turn that succeeds either takes the first ready item of a live search, or removes it
  because nobody can claim it.
\<close>

lemma claimOnce_Inr:
  assumes "claimOnce owner lease w = (Inr (it, discarded), w')"
  obtains (claimed) cand stored n
    where "cand \<in> set (map snd (db_items (wdb w)))" "KeptAvailableAt cand \<le> clock w (ticks w)"
      "\<And>k. k \<in> set (map snd (db_items (wdb w))) \<Longrightarrow> KeptAvailableAt k \<le> clock w (ticks w) \<Longrightarrow>
         KeptAvailableAt cand \<le> KeptAvailableAt k"
      "\<not> KeptDamaged cand" "\<not> KeptItemExpiresAt cand < clock w (Suc (ticks w))"
      "ItemSearchID (KeptItem cand) \<noteq> []"
      "row_of Searches (ItemSearchID (KeptItem cand)) (wdb w) = Some stored"
      "JobStatus (KeptJob stored) \<noteq> JobCancelled"
      "it = KeptItem (leased cand owner (n + lease))" "discarded = []"
      "wdb w' = put_row Searches (JobID (KeptJob stored))
          (started stored (ItemOriginalName (KeptItem cand)) n)
         (put_row Items (ItemID (KeptItem cand)) (leased cand owner (n + lease)) (wdb w))"
  | (discarded) cand
    where "cand \<in> set (map snd (db_items (wdb w)))" "it = zero_item"
      "discarded = ItemID (KeptItem cand)" "wdb w' = drop_row Items discarded (wdb w)"
proof -
  let ?t = "clock w (ticks w)"
  let ?rows = "map snd (db_items (wdb w))"
  let ?w1 = "(begin_tx w)\<lparr>ticks := Suc (ticks w), calls := Suc (calls w)\<rparr>"
  from assms obtain w1 where
    run: "bind_io now (\<lambda>n. bind_io (ListRecords Items (ready_query n 1)) (\<lambda>candidates.
         case candidates of
           [] \<Rightarrow> fail_io ErrNotFound
         | candidate # _ \<Rightarrow>
             bind_io (try_io (claimItem candidate owner lease)) (\<lambda>r.
               case r of
                 Inr claimed \<Rightarrow> return_io (claimed, [])
               | Inl e \<Rightarrow>
                   if e = ErrNotFound
                   then let discarded = ItemID (KeptItem candidate) in
                        bind_io (Delete Items discarded) (\<lambda>_. return_io (zero_item, discarded))
                   else fail_io e))) (begin_tx w) = (Inr (it, discarded), w1)"
    and w': "wdb w' = wdb w1"
    unfolding claimOnce_def by (rule Transact_Inr) simp
  then obtain cand rest where q: "run_query (ready_query ?t 1) ?rows = cand # rest"
    by (auto simp: go_io split: list.splits)
  note Q = run_query_first [OF q]
  from run q obtain r w2 where c: "claimItem cand owner lease ?w1 = (r, w2)"
    and rest: "(case r of Inr claimed \<Rightarrow> return_io (claimed, [])
               | Inl e \<Rightarrow> if e = ErrNotFound
                   then let discarded = ItemID (KeptItem cand) in
                        bind_io (Delete Items discarded) (\<lambda>_. return_io (zero_item, discarded))
                   else fail_io e) w2 = (Inr (it, discarded), w1)"
    by (auto simp: go_io)
  show thesis
  proof (cases r)
    case (Inl e)
    with rest have e: "e = ErrNotFound" and d: "discarded = ItemID (KeptItem cand)" "it = zero_item"
      "wdb w1 = drop_row Items discarded (wdb w2)"
      by (auto simp: go_io Let_def split: if_splits)
    from c Inl e have "wdb w2 = wdb w" using claimItem_refused by fastforce
    with d Q(1) w' show thesis by (intro discarded) auto
  next
    case (Inr x)
    with rest have "x = it" "discarded = []" "w1 = w2" by (auto simp: go_io)
    from c Inr \<open>x = it\<close> have "claimItem cand owner lease ?w1 = (Inr it, w2)" by simp
    then show thesis
      by (rule claimItem_Inr)
         (use Q w' \<open>discarded = []\<close> \<open>w1 = w2\<close> in \<open>auto intro!: claimed\<close>)
  qed
qed

lemma renew_row_Inr:
  "renew_row owner lease stored w = (Inr k, w') \<longleftrightarrow>
   \<not> KeptDamaged stored \<and> ItemLeaseOwner (KeptItem stored) = owner
   \<and> ItemStatus (KeptItem stored) = ItemRunning
   \<and> k = stored\<lparr>KeptItem := (KeptItem stored)\<lparr>ItemLeaseUntil := Some (clock w (ticks w) + lease)\<rparr>,
                KeptAvailableAt := clock w (ticks w) + lease\<rparr>
   \<and> w' = w\<lparr>ticks := Suc (ticks w)\<rparr>"
  by (auto simp: renew_row_def go_io)

lemma reads_only_renew_row [simp]: "reads_only (renew_row owner lease stored)"
  unfolding renew_row_def by (intro reads_intros) simp_all

lemma RenewItemLease_Inr:
  assumes "RenewItemLease i owner lease w = (Inr u, w')" and "\<not> tx_open w"
  obtains stored e where "row_of Items i (wdb w) = Some stored" "\<not> KeptDamaged stored"
    "ItemLeaseOwner (KeptItem stored) = owner" "ItemStatus (KeptItem stored) = ItemRunning"
    "wdb w' = put_row Items i (stored\<lparr>KeptItem := (KeptItem stored)\<lparr>ItemLeaseUntil := Some e\<rparr>,
                                    KeptAvailableAt := e\<rparr>) (wdb w)"
proof -
  from assms(1) obtain k where "Update Items i (renew_row owner lease) w = (Inr k, w')"
    by (auto simp: RenewItemLease_def go_io)
  then obtain x w1 w2 where "row_of Items i (wdb w) = Some x"
      "renew_row owner lease x w1 = (Inr k, w2)" "wdb w' = put_row Items i k (wdb w)"
    by (rule Update_Inr [OF _ assms(2)]) auto
  then show thesis using that by (auto simp: renew_row_Inr)
qed

definition settled :: "item \<Rightarrow> int \<Rightarrow> item" where
  "settled it processed =
     it\<lparr>ItemSequence := processed + 1, ItemLeaseOwner := [], ItemLeaseUntil := None\<rparr>"

definition after_count :: "job \<Rightarrow> item \<Rightarrow> time \<Rightarrow> time \<Rightarrow> job" where
  "after_count job it n m =
     (let job = counted job it in
      if JobProcessed job = JobTotal job \<and> JobStatus job \<noteq> JobCancelled
      then (closed job n)\<lparr>JobUpdatedAt := m\<rparr> else job\<lparr>JobUpdatedAt := m\<rparr>)"

lemma updateSearch_Inr:
  "updateSearch job it w = (Inr job', w') \<Longrightarrow>
   (\<exists>n m. job' = after_count job it n m) \<and> wdb w' = wdb w \<and> outage w' = outage w"
  by (auto simp: updateSearch_def after_count_def go_io Let_def split: if_splits)

lemma CompleteSearchItem_Inr:
  assumes "CompleteSearchItem it offers w = (Inr u, w')"
  obtains stored parent n m where "row_of Items (ItemID it) (wdb w) = Some stored"
    "\<not> KeptDamaged stored" "ItemLeaseOwner (KeptItem stored) = ItemLeaseOwner it"
    "ItemStatus (KeptItem stored) = ItemRunning"
    "row_of Searches (ItemSearchID it) (wdb w) = Some parent"
    "wdb w' =
       (let done = settled it (JobProcessed (KeptJob parent));
            job = after_count (KeptJob parent) done n m in
        put_row Searches (JobID job) (parent\<lparr>KeptJob := job\<rparr>)
         (put_row ItemOfferEntries (ItemID it)
            \<lparr>EntryOffers = offers, EntryExpiresAt = KeptItemExpiresAt stored, EntryIndexed = False\<rparr>
          (put_row Items (ItemID it)
             (stored\<lparr>KeptItem := done, KeptAvailableAt := KeptItemExpiresAt stored + doneParking\<rparr>)
             (wdb w))))"
proof -
  from assms obtain w1 where
    run: "bind_io (Get Items (ItemID it)) (\<lambda>stored.
         if KeptDamaged stored \<or> ItemLeaseOwner (KeptItem stored) \<noteq> ItemLeaseOwner it
            \<or> ItemStatus (KeptItem stored) \<noteq> ItemRunning
         then fail_io ErrNotFound
         else bind_io (readSearch (ItemSearchID it)) (\<lambda>parent.
           let it = it\<lparr>ItemSequence := JobProcessed (KeptJob parent) + 1,
                       ItemLeaseOwner := [], ItemLeaseUntil := None\<rparr>;
               stored = stored\<lparr>KeptItem := it,
                               KeptAvailableAt := KeptItemExpiresAt stored + doneParking\<rparr>
           in bind_io (Save Items (ItemID it) stored) (\<lambda>_.
              bind_io (Save ItemOfferEntries (ItemID it)
                 \<lparr>EntryOffers = offers, EntryExpiresAt = KeptItemExpiresAt stored,
                  EntryIndexed = False\<rparr>) (\<lambda>_.
              bind_io (updateSearch (KeptJob parent) it) (\<lambda>job.
                Save Searches (JobID job) (parent\<lparr>KeptJob := job\<rparr>)))))) (begin_tx w) = (Inr u, w1)"
    and w': "wdb w' = wdb w1"
    unfolding CompleteSearchItem_def by (auto simp: map_failure_Inr elim!: Transact_Inr)
  from run show thesis
    unfolding settled_def [symmetric] Let_def
    by (auto simp: go_io w' settled_def Let_def split: if_splits dest!: updateSearch_Inr intro!: that)
qed

section \<open>All or nothing, and time\<close>

lemma sound_claimItem: "sound (claimItem cand owner lease)"
  unfolding claimItem_def Let_def by (intro sound_intros)

lemma outside_claimOnce: "outside (claimOnce owner lease)"
proof -
  have first: "sound (case cs of [] \<Rightarrow> fail_io ErrNotFound | candidate # _ \<Rightarrow> f candidate)"
    if "\<And>c. sound (f c)" for cs and f :: "kept_item \<Rightarrow> (item \<times> string) io"
    using that by (simp split: list.split)
  show ?thesis
    unfolding claimOnce_def Let_def
    by (intro outside_Transact sound_intros sound_claimItem first)
qed

lemma claimOnce_Inl: "claimOnce owner lease w = (Inl e, w') \<Longrightarrow> wdb w' = wdb w"
  unfolding claimOnce_def by (rule Transact_Inl)

lemma atomic_RenewItemLease: "atomic (RenewItemLease i owner lease)"
  unfolding RenewItemLease_def
  by (intro atomic_map_failure atomic_then_reads atomic_Update) (auto simp: go_io)

lemma outside_RenewItemLease: "outside (RenewItemLease i owner lease)"
proof -
  have "sound (renew_row owner lease k)" for k
    unfolding renew_row_def by (intro sound_intros)
  then show ?thesis
    unfolding RenewItemLease_def
    by (intro outside_map_failure outside_bind outside_Update sound_outside sound_intros)
qed

lemma atomic_CompleteSearchItem: "atomic (CompleteSearchItem it offers)"
  unfolding CompleteSearchItem_def by simp

lemma outside_CompleteSearchItem: "outside (CompleteSearchItem it offers)"
proof -
  have "sound (updateSearch job x)" for job x
    unfolding updateSearch_def Let_def by (intro sound_intros)
  then show ?thesis
    unfolding CompleteSearchItem_def Let_def
    by (intro outside_map_failure outside_Transact sound_intros)
qed

end
