(* ===== verification/Queue.thy ===== *)
theory Queue
  imports ItemStore
begin

text \<open>
  The queue as a system: searches being opened, filled and cancelled, and workers that
  claim, renew and complete their items, in any order and with any failures of storage.
  The invariant says what holds of the two collections after every transaction; the step
  relation takes each transaction of SearchStore and ItemStore as one step.
\<close>

section \<open>What a worker reports (internal/search/worker.go)\<close>

definition classifyResult :: "offer list \<Rightarrow> failure option \<Rightarrow> item_status \<times> string \<times> string" where
  "classifyResult items err =
     (if items \<noteq> [] then (ItemFound, [], [])
      else if err \<noteq> None then (ItemSourceError, ''source_unavailable'', ''Source unavailable'')
      else (ItemNotFound, [], []))"

definition applyItemResult :: "item \<Rightarrow> offer list \<Rightarrow> failure option \<Rightarrow> item" where
  "applyItemResult it items sourceErr =
     (let it = (case items of [] \<Rightarrow> it | x # _ \<Rightarrow> it\<lparr>ItemSource := OfferSource x\<rparr>);
          (status, code, message) = classifyResult items sourceErr
      in it\<lparr>ItemStatus := status, ItemErrorCode := code, ItemErrorMessage := message\<rparr>)"

definition unfinished :: "item \<Rightarrow> bool" where
  "unfinished it \<longleftrightarrow> ItemStatus it = ItemPending \<or> ItemStatus it = ItemRunning"

lemma applyItemResult_simps [simp]:
  "ItemID (applyItemResult it items err) = ItemID it"
  "ItemSearchID (applyItemResult it items err) = ItemSearchID it"
  "ItemLeaseOwner (applyItemResult it items err) = ItemLeaseOwner it"
  by (simp_all add: applyItemResult_def Let_def split: prod.split list.split)

lemma applyItemResult_finished:
  "ItemStatus (applyItemResult it items err) \<in> {ItemFound, ItemNotFound, ItemSourceError}"
  by (simp add: applyItemResult_def classifyResult_def split: list.split)

section \<open>The invariant of the two collections\<close>

definition waits_for :: "string \<Rightarrow> kept_item \<Rightarrow> bool" where
  "waits_for i k \<longleftrightarrow> ItemSearchID (KeptItem k) = i \<and> unfinished (KeptItem k)"

definition waiting_in :: "string \<Rightarrow> database \<Rightarrow> int" where
  "waiting_in i d = int (length (filter (waits_for i) (map snd (db_items d))))"

text \<open>A kept item under its id, and the search it belongs to.\<close>

definition item_ok :: "kept_search \<Rightarrow> string \<Rightarrow> kept_item \<Rightarrow> bool" where
  "item_ok s i k \<longleftrightarrow>
     ItemID (KeptItem k) = i \<and> i \<in> set (KeptItemIDs s)
     \<and> (if unfinished (KeptItem k) then ItemSequence (KeptItem k) = 0
        else 1 \<le> ItemSequence (KeptItem k)
           \<and> ItemSequence (KeptItem k) \<le> JobProcessed (KeptJob s)
           \<and> KeptAvailableAt k = KeptItemExpiresAt k + doneParking)"

definition terminal :: "job_status \<Rightarrow> bool" where
  "terminal st \<longleftrightarrow> st \<in> {JobCompleted, JobCompletedWithErrors, JobCancelled}"

text \<open>
  A kept search under its id: its counters add up, with the items that wait they fit its
  total, and its status says whether every card was processed.
\<close>

definition search_ok :: "int \<Rightarrow> string \<Rightarrow> kept_search \<Rightarrow> bool" where
  "search_ok waiting i s \<longleftrightarrow>
     (let j = KeptJob s in
      JobID j = i \<and> distinct (KeptItemIDs s) \<and> JobTotal j = int (length (KeptItemIDs s))
      \<and> 0 < JobTotal j
      \<and> 0 \<le> JobFound j \<and> 0 \<le> JobNotFound j \<and> 0 \<le> JobErrors j
      \<and> JobProcessed j = JobFound j + JobNotFound j + JobErrors j
      \<and> JobProcessed j + waiting \<le> JobTotal j
      \<and> JobStatus j \<noteq> JobFailed
      \<and> (JobStatus j = JobCompleted \<longrightarrow> JobProcessed j = JobTotal j \<and> JobErrors j = 0)
      \<and> (JobStatus j = JobCompletedWithErrors \<longrightarrow> JobProcessed j = JobTotal j \<and> 0 < JobErrors j)
      \<and> (JobProcessed j = JobTotal j \<longrightarrow> terminal (JobStatus j))
      \<and> (JobFinishedAt j \<noteq> None \<longleftrightarrow> terminal (JobStatus j)))"

definition queue_ok :: "database \<Rightarrow> bool" where
  "queue_ok d \<longleftrightarrow>
     distinct (map fst (db_items d))
     \<and> (\<forall>i k. row_of Items i d = Some k \<longrightarrow>
          (\<exists>s. row_of Searches (ItemSearchID (KeptItem k)) d = Some s \<and> item_ok s i k))
     \<and> (\<forall>i s. row_of Searches i d = Some s \<longrightarrow> search_ok (waiting_in i d) i s)
     \<and> (\<forall>i j s t. row_of Searches i d = Some s \<longrightarrow> row_of Searches j d = Some t \<longrightarrow> i \<noteq> j \<longrightarrow>
          set (KeptItemIDs s) \<inter> set (KeptItemIDs t) = {})
     \<and> (\<forall>i j k l. row_of Items i d = Some k \<longrightarrow> row_of Items j d = Some l \<longrightarrow> i \<noteq> j \<longrightarrow>
          ItemSearchID (KeptItem k) = ItemSearchID (KeptItem l) \<longrightarrow>
          \<not> unfinished (KeptItem k) \<longrightarrow> \<not> unfinished (KeptItem l) \<longrightarrow>
          ItemSequence (KeptItem k) \<noteq> ItemSequence (KeptItem l))"

lemma queue_ok_item:
  assumes "queue_ok d" and "row_of Items i d = Some k"
  obtains s where "row_of Searches (ItemSearchID (KeptItem k)) d = Some s" "item_ok s i k"
  using assms unfolding queue_ok_def by blast

lemma queue_ok_search: "queue_ok d \<Longrightarrow> row_of Searches i d = Some s \<Longrightarrow> search_ok (waiting_in i d) i s"
  by (simp add: queue_ok_def)

lemma queue_ok_owner:
  assumes "queue_ok d" and "row_of Searches i d = Some s" and "row_of Searches j d = Some t"
    and "x \<in> set (KeptItemIDs s)" and "x \<in> set (KeptItemIDs t)"
  shows "i = j"
  using assms unfolding queue_ok_def by blast

lemma queue_ok_disjoint:
  "queue_ok d \<Longrightarrow> row_of Searches i d = Some s \<Longrightarrow> row_of Searches j d = Some t \<Longrightarrow> i \<noteq> j \<Longrightarrow>
   set (KeptItemIDs s) \<inter> set (KeptItemIDs t) = {}"
  unfolding queue_ok_def by blast

lemma queue_ok_item_ex: "queue_ok d \<Longrightarrow> row_of Items i d = Some k \<Longrightarrow>
   \<exists>s. row_of Searches (ItemSearchID (KeptItem k)) d = Some s \<and> item_ok s i k"
  by (simp add: queue_ok_def)

lemma queue_ok_distinct: "queue_ok d \<Longrightarrow> distinct (map fst (db_items d))"
  by (simp add: queue_ok_def)

lemma queue_ok_sequences:
  "queue_ok d \<Longrightarrow> row_of Items i d = Some k \<Longrightarrow> row_of Items j d = Some l \<Longrightarrow> i \<noteq> j \<Longrightarrow>
   ItemSearchID (KeptItem k) = ItemSearchID (KeptItem l) \<Longrightarrow>
   \<not> unfinished (KeptItem k) \<Longrightarrow> \<not> unfinished (KeptItem l) \<Longrightarrow>
   ItemSequence (KeptItem k) \<noteq> ItemSequence (KeptItem l)"
  unfolding queue_ok_def by blast

lemma queue_ok_empty:
  "db_items d = [] \<Longrightarrow> db_searches d = [] \<Longrightarrow> queue_ok d"
  by (simp add: queue_ok_def row_of_def)

lemma queue_ok_cong:
  "db_items d' = db_items d \<Longrightarrow> db_searches d' = db_searches d \<Longrightarrow> queue_ok d' = queue_ok d"
  by (simp add: queue_ok_def row_of_def waiting_in_def)

lemma row_of_mem:
  "distinct (map fst (table_rows t d)) \<Longrightarrow>
   k \<in> set (map snd (table_rows t d)) \<Longrightarrow> \<exists>i. row_of t i d = Some k"
  using snd_map_of [of "table_rows t d"] by (auto simp: row_of_def)

lemma queue_ok_mem:
  assumes "queue_ok d" and "k \<in> set (map snd (db_items d))"
  shows "row_of Items (ItemID (KeptItem k)) d = Some k"
proof -
  have "\<exists>i. row_of Items i d = Some k"
    using assms by (intro row_of_mem) (simp_all add: queue_ok_distinct)
  then obtain i where i: "row_of Items i d = Some k" ..
  with assms(1) obtain s where "item_ok s i k" by (rule queue_ok_item)
  with i show ?thesis by (simp add: item_ok_def)
qed

section \<open>Counting the items that wait\<close>

lemma waiting_put_other [simp]:
  "waiting_in i (put_row Searches j s d) = waiting_in i d"
  "waiting_in i (put_row ItemOfferEntries j e d) = waiting_in i d"
  "waiting_in i (put_row Requests j r d) = waiting_in i d"
  by (simp_all add: waiting_in_def put_row_def)

lemma items_put_other [simp]:
  "db_items (put_row Searches j s d) = db_items d"
  "db_items (put_row ItemOfferEntries j e d) = db_items d"
  "db_items (put_row Requests j r d) = db_items d"
  "db_searches (put_row ItemOfferEntries j e d) = db_searches d"
  "db_searches (put_row Requests j r d) = db_searches d"
  "db_searches (put_row Items j k d) = db_searches d"
  by (simp_all add: put_row_def)

lemma waiting_put:
  assumes "distinct (map fst (db_items d))" and "row_of Items j d = Some k"
  shows "waiting_in i (put_row Items j k' d)
       = waiting_in i d - (if waits_for i k then 1 else 0) + (if waits_for i k' then 1 else 0)"
  using length_filter_map_of_update [of "db_items d" j k "waits_for i" k'] assms
  by (auto simp: waiting_in_def put_row_def row_of_def split: if_splits)

lemma waiting_put_fresh:
  assumes "row_of Items j d = None"
  shows "waiting_in i (put_row Items j k' d) = waiting_in i d + (if waits_for i k' then 1 else 0)"
  using assms filter_fresh_update [of j "db_items d" "waits_for i" k']
  by (simp add: waiting_in_def put_row_def row_of_def map_of_eq_None_iff)

lemma waiting_drop: "waiting_in i (drop_row Items j d) \<le> waiting_in i d"
  using length_filter_delete [of "waits_for i" j "db_items d"]
  by (simp add: waiting_in_def drop_row_def)

lemma waiting_nonneg [simp]: "0 \<le> waiting_in i d"
  by (simp add: waiting_in_def)

lemma waiting_pos:
  assumes "row_of Items j d = Some k" and "waits_for i k"
  shows "1 \<le> waiting_in i d"
proof -
  have "k \<in> set (filter (waits_for i) (map snd (db_items d)))"
    using assms by (force simp: row_of_def dest: map_of_SomeD)
  then have "0 < length (filter (waits_for i) (map snd (db_items d)))" by (rule length_pos_if_in_set)
  then show ?thesis by (simp add: waiting_in_def Suc_leI)
qed

section \<open>Each write keeps the invariant\<close>

lemma queue_ok_intro:
  assumes "distinct (map fst (db_items d))"
    and "\<And>i k. row_of Items i d = Some k \<Longrightarrow>
          \<exists>s. row_of Searches (ItemSearchID (KeptItem k)) d = Some s \<and> item_ok s i k"
    and "\<And>i s. row_of Searches i d = Some s \<Longrightarrow> search_ok (waiting_in i d) i s"
    and "\<And>i j s t. row_of Searches i d = Some s \<Longrightarrow> row_of Searches j d = Some t \<Longrightarrow> i \<noteq> j \<Longrightarrow>
          set (KeptItemIDs s) \<inter> set (KeptItemIDs t) = {}"
    and "\<And>i j k l. row_of Items i d = Some k \<Longrightarrow> row_of Items j d = Some l \<Longrightarrow> i \<noteq> j \<Longrightarrow>
          ItemSearchID (KeptItem k) = ItemSearchID (KeptItem l) \<Longrightarrow>
          \<not> unfinished (KeptItem k) \<Longrightarrow> \<not> unfinished (KeptItem l) \<Longrightarrow>
          ItemSequence (KeptItem k) \<noteq> ItemSequence (KeptItem l)"
  shows "queue_ok d"
  unfolding queue_ok_def using assms by blast

lemma search_ok_less: "search_ok n i s \<Longrightarrow> m \<le> n \<Longrightarrow> search_ok m i s"
  by (auto simp: search_ok_def Let_def)

lemma search_ok_room:
  "search_ok n i s \<Longrightarrow> JobProcessed (KeptJob s) + m \<le> JobTotal (KeptJob s) \<Longrightarrow> search_ok m i s"
  unfolding search_ok_def Let_def by blast

lemma queue_ok_open:
  assumes q: "queue_ok d" and new: "row_of Searches i d = None"
    and ids: "length ids = n" "distinct ids" "0 < n"
    and fresh: "\<And>j s. row_of Searches j d = Some s \<Longrightarrow> set ids \<inter> set (KeptItemIDs s) = {}"
  shows "queue_ok (put_row Searches i
           \<lparr>KeptJob = new_job i game n t, KeptItemIDs = ids, KeptExpiresAt = e\<rparr> d)"
    (is "queue_ok (put_row Searches i ?s d)")
proof (rule queue_ok_intro)
  show "distinct (map fst (db_items (put_row Searches i ?s d)))"
    using q by (simp add: queue_ok_distinct)
  show "\<exists>s. row_of Searches (ItemSearchID (KeptItem k)) (put_row Searches i ?s d) = Some s \<and> item_ok s j k"
    if "row_of Items j (put_row Searches i ?s d) = Some k" for j k
  proof -
    from that have k: "row_of Items j d = Some k" by (simp add: coll_simps)
    then obtain s where "row_of Searches (ItemSearchID (KeptItem k)) d = Some s" "item_ok s j k"
      using queue_ok_item [OF q] by blast
    then show ?thesis using new by (auto simp: coll_simps)
  qed
  show "search_ok (waiting_in j (put_row Searches i ?s d)) j s"
    if j: "row_of Searches j (put_row Searches i ?s d) = Some s" for j s
  proof (cases "j = i")
    case True
    have "waits_for i k \<Longrightarrow> k \<notin> set (map snd (db_items d))" for k
      using queue_ok_mem [OF q, of k] queue_ok_item [OF q] new by (force simp: waits_for_def)
    then have "waiting_in i d = 0"
      by (auto simp: waiting_in_def filter_empty_conv)
    with True j ids show ?thesis
      by (simp add: coll_simps search_ok_def new_job_def Let_def terminal_def split: if_splits)
         auto
  next
    case False
    with j queue_ok_search [OF q, of j s] show ?thesis by (simp add: coll_simps)
  qed
  show "set (KeptItemIDs s) \<inter> set (KeptItemIDs t) = {}"
    if "row_of Searches j (put_row Searches i ?s d) = Some s"
      "row_of Searches l (put_row Searches i ?s d) = Some t" "j \<noteq> l" for j l s t
    using that fresh [of j] fresh [of l] queue_ok_disjoint [OF q, of j s l t]
    by (auto simp: coll_simps split: if_splits)
qed (use queue_ok_sequences [OF q] in \<open>auto simp: coll_simps\<close>)

lemma queue_ok_fill:
  assumes q: "queue_ok d" and s: "row_of Searches i d = Some s" and new: "row_of Items x d = None"
    and k: "item_ok s x k" "ItemSearchID (KeptItem k) = i" "unfinished (KeptItem k)"
    and room: "JobProcessed (KeptJob s) + waiting_in i d + 1 \<le> JobTotal (KeptJob s)"
  shows "queue_ok (put_row Items x k d)"
proof (rule queue_ok_intro)
  have "distinct (map fst (db_items d))" using q by (rule queue_ok_distinct)
  then show "distinct (map fst (db_items (put_row Items x k d)))"
    using items.distinct_put [of d x k] by simp
  show "\<exists>s. row_of Searches (ItemSearchID (KeptItem l)) (put_row Items x k d) = Some s \<and> item_ok s j l"
    if "row_of Items j (put_row Items x k d) = Some l" for j l
    using that s k queue_ok_item_ex [OF q, of j l] by (auto simp: coll_simps split: if_splits)
  show "search_ok (waiting_in j (put_row Items x k d)) j t"
    if j: "row_of Searches j (put_row Items x k d) = Some t" for j t
  proof -
    from j have t: "row_of Searches j d = Some t" by (simp add: coll_simps)
    then have ok: "search_ok (waiting_in j d) j t" by (rule queue_ok_search [OF q])
    show ?thesis
    proof (cases "j = i")
      case True
      with t s have "t = s" by simp
      from ok have "search_ok (waiting_in i d) i s" unfolding True \<open>t = s\<close> .
      then have "search_ok (waiting_in i d + 1) i s"
        by (rule search_ok_room) (use room in linarith)
      moreover have "waiting_in j (put_row Items x k d) = waiting_in i d + 1"
        using True k by (simp add: waiting_put_fresh [OF new] waits_for_def)
      ultimately show ?thesis using True \<open>t = s\<close> by simp
    next
      case False
      with k(2) ok show ?thesis by (simp add: waiting_put_fresh [OF new] waits_for_def)
    qed
  qed
  show "set (KeptItemIDs s) \<inter> set (KeptItemIDs t) = {}"
    if "row_of Searches j (put_row Items x k d) = Some s"
      "row_of Searches l (put_row Items x k d) = Some t" "j \<noteq> l" for j l s t
    using that queue_ok_disjoint [OF q, of j s l t] by (simp add: coll_simps)
  show "ItemSequence (KeptItem m) \<noteq> ItemSequence (KeptItem l)"
    if "row_of Items a (put_row Items x k d) = Some m" "row_of Items b (put_row Items x k d) = Some l"
      "a \<noteq> b" "ItemSearchID (KeptItem m) = ItemSearchID (KeptItem l)"
      "\<not> unfinished (KeptItem m)" "\<not> unfinished (KeptItem l)" for a b m l
    using that k(3) queue_ok_sequences [OF q, of a m b l]
    by (auto simp: coll_simps split: if_splits)
qed

lemma queue_ok_drop:
  assumes q: "queue_ok d"
  shows "queue_ok (drop_row Items x d)"
proof (rule queue_ok_intro)
  have "distinct (map fst (db_items d))" using q by (rule queue_ok_distinct)
  then show "distinct (map fst (db_items (drop_row Items x d)))"
    using items.distinct_drop [of d x] by simp
  show "search_ok (waiting_in j (drop_row Items x d)) j t"
    if j: "row_of Searches j (drop_row Items x d) = Some t" for j t
    using j queue_ok_search [OF q, of j t] waiting_drop [of j x d]
    by (auto simp: coll_simps intro: search_ok_less)
  show "set (KeptItemIDs s) \<inter> set (KeptItemIDs t) = {}"
    if "row_of Searches j (drop_row Items x d) = Some s"
      "row_of Searches l (drop_row Items x d) = Some t" "j \<noteq> l" for j l s t
    using that queue_ok_disjoint [OF q, of j s l t] by (simp add: coll_simps)
  show "\<exists>s. row_of Searches (ItemSearchID (KeptItem l)) (drop_row Items x d) = Some s \<and> item_ok s j l"
    if "row_of Items j (drop_row Items x d) = Some l" for j l
    using that queue_ok_item_ex [OF q, of j l] by (simp add: coll_simps split: if_splits)
qed (use queue_ok_sequences [OF q] in \<open>auto simp: coll_simps split: if_splits\<close>)

text \<open>Replacing one item and its search together.\<close>

lemma queue_ok_replace:
  assumes q: "queue_ok d" and k: "row_of Items x d = Some k" and s: "row_of Searches i d = Some s"
    and owner: "ItemSearchID (KeptItem k) = i" "ItemSearchID (KeptItem k') = i"
    and ids: "KeptItemIDs s' = KeptItemIDs s"
    and grows: "JobProcessed (KeptJob s) \<le> JobProcessed (KeptJob s')"
    and item: "item_ok s' x k'"
    and job: "search_ok (waiting_in i d - (if unfinished (KeptItem k) then 1 else 0)
                + (if unfinished (KeptItem k') then 1 else 0)) i s'"
    and seq: "unfinished (KeptItem k') \<or> JobProcessed (KeptJob s) < ItemSequence (KeptItem k')"
  shows "queue_ok (put_row Searches i s' (put_row Items x k' d))" (is "queue_ok ?d")
proof (rule queue_ok_intro)
  have dist: "distinct (map fst (db_items d))" using q by (rule queue_ok_distinct)
  then show "distinct (map fst (db_items ?d))"
    using items.distinct_put [of d x k'] by simp
  show "\<exists>s. row_of Searches (ItemSearchID (KeptItem l)) ?d = Some s \<and> item_ok s j l"
    if "row_of Items j ?d = Some l" for j l
  proof (cases "j = x")
    case True
    with that item owner show ?thesis by (auto simp: coll_simps)
  next
    case False
    with that have "row_of Items j d = Some l" by (simp add: coll_simps)
    then obtain t where t: "row_of Searches (ItemSearchID (KeptItem l)) d = Some t" "item_ok t j l"
      by (rule queue_ok_item [OF q])
    show ?thesis
    proof (cases "ItemSearchID (KeptItem l) = i")
      case True
      with t s ids grows show ?thesis by (auto simp: coll_simps item_ok_def)
    qed (use t in \<open>auto simp: coll_simps\<close>)
  qed
  show "search_ok (waiting_in j ?d) j t" if j: "row_of Searches j ?d = Some t" for j t
  proof (cases "j = i")
    case True
    with j job owner show ?thesis by (simp add: coll_simps waiting_put [OF dist k] waits_for_def)
  next
    case False
    with j queue_ok_search [OF q, of j t] owner show ?thesis
      by (simp add: coll_simps waiting_put [OF dist k] waits_for_def)
  qed
  show "set (KeptItemIDs t) \<inter> set (KeptItemIDs u) = {}"
    if "row_of Searches j ?d = Some t" "row_of Searches l ?d = Some u" "j \<noteq> l" for j l t u
    using that s ids queue_ok_disjoint [OF q, of j _ l] by (simp add: coll_simps split: if_splits)
  have below: "ItemSequence (KeptItem l) \<le> JobProcessed (KeptJob s)"
    if l: "row_of Items b d = Some l" "ItemSearchID (KeptItem l) = i" "\<not> unfinished (KeptItem l)" for b l
    using queue_ok_item [OF q l(1)] l s by (auto simp: item_ok_def)
  show "ItemSequence (KeptItem m) \<noteq> ItemSequence (KeptItem l)"
    if "row_of Items a ?d = Some m" "row_of Items b ?d = Some l"
      "a \<noteq> b" "ItemSearchID (KeptItem m) = ItemSearchID (KeptItem l)"
      "\<not> unfinished (KeptItem m)" "\<not> unfinished (KeptItem l)" for a b m l
  proof -
    consider "a = x" | "b = x" | "a \<noteq> x" "b \<noteq> x" by blast
    then show ?thesis
    proof cases
      case 1
      with that have "row_of Items b d = Some l" "m = k'" by (simp_all add: coll_simps)
      with that seq owner below [of b l] show ?thesis by auto
    next
      case 2
      with that have "row_of Items a d = Some m" "l = k'" by (simp_all add: coll_simps)
      with that seq owner below [of a m] show ?thesis by auto
    next
      case 3
      with that queue_ok_sequences [OF q, of a m b l] show ?thesis by (simp add: coll_simps)
    qed
  qed
qed

lemma queue_ok_put_search:
  assumes q: "queue_ok d" and s: "row_of Searches i d = Some s"
    and ids: "KeptItemIDs s' = KeptItemIDs s"
    and grows: "JobProcessed (KeptJob s) \<le> JobProcessed (KeptJob s')"
    and job: "search_ok (waiting_in i d) i s'"
  shows "queue_ok (put_row Searches i s' d)"
proof (rule queue_ok_intro)
  show "distinct (map fst (db_items (put_row Searches i s' d)))"
    using queue_ok_distinct [OF q] by simp
  show "\<exists>s. row_of Searches (ItemSearchID (KeptItem l)) (put_row Searches i s' d) = Some s \<and> item_ok s j l"
    if "row_of Items j (put_row Searches i s' d) = Some l" for j l
  proof -
    from that have "row_of Items j d = Some l" by (simp add: coll_simps)
    then obtain t where "row_of Searches (ItemSearchID (KeptItem l)) d = Some t" "item_ok t j l"
      by (rule queue_ok_item [OF q])
    with s ids grows show ?thesis by (auto simp: coll_simps item_ok_def)
  qed
  show "search_ok (waiting_in j (put_row Searches i s' d)) j t"
    if "row_of Searches j (put_row Searches i s' d) = Some t" for j t
    using that job queue_ok_search [OF q, of j t] by (auto simp: coll_simps split: if_splits)
  show "set (KeptItemIDs t) \<inter> set (KeptItemIDs u) = {}"
    if "row_of Searches j (put_row Searches i s' d) = Some t"
      "row_of Searches l (put_row Searches i s' d) = Some u" "j \<noteq> l" for j l t u
    using that s ids queue_ok_disjoint [OF q, of j _ l] by (simp add: coll_simps split: if_splits)
qed (use queue_ok_sequences [OF q] in \<open>auto simp: coll_simps\<close>)

lemma queue_ok_put_item:
  assumes q: "queue_ok d" and k: "row_of Items x d = Some k"
    and same: "ItemSearchID (KeptItem k') = ItemSearchID (KeptItem k)" "ItemID (KeptItem k') = x"
      "ItemSequence (KeptItem k') = ItemSequence (KeptItem k)"
      "unfinished (KeptItem k)" "unfinished (KeptItem k')"
  shows "queue_ok (put_row Items x k' d)"
proof (rule queue_ok_intro)
  have dist: "distinct (map fst (db_items d))" using q by (rule queue_ok_distinct)
  then show "distinct (map fst (db_items (put_row Items x k' d)))"
    using items.distinct_put [of d x k'] by simp
  show "\<exists>s. row_of Searches (ItemSearchID (KeptItem l)) (put_row Items x k' d) = Some s \<and> item_ok s j l"
    if "row_of Items j (put_row Items x k' d) = Some l" for j l
    using that same queue_ok_item_ex [OF q, of j l] queue_ok_item_ex [OF q k]
    by (simp add: coll_simps item_ok_def split: if_splits) metis
  show "search_ok (waiting_in j (put_row Items x k' d)) j t"
    if "row_of Searches j (put_row Items x k' d) = Some t" for j t
    using that same queue_ok_search [OF q, of j t]
    by (simp add: coll_simps waiting_put [OF dist k] waits_for_def)
  show "set (KeptItemIDs s) \<inter> set (KeptItemIDs t) = {}"
    if "row_of Searches j (put_row Items x k' d) = Some s"
      "row_of Searches l (put_row Items x k' d) = Some t" "j \<noteq> l" for j l s t
    using that queue_ok_disjoint [OF q, of j s l t] by (simp add: coll_simps)
  show "ItemSequence (KeptItem m) \<noteq> ItemSequence (KeptItem l)"
    if "row_of Items a (put_row Items x k' d) = Some m" "row_of Items b (put_row Items x k' d) = Some l"
      "a \<noteq> b" "ItemSearchID (KeptItem m) = ItemSearchID (KeptItem l)"
      "\<not> unfinished (KeptItem m)" "\<not> unfinished (KeptItem l)" for a b m l
    using that same queue_ok_sequences [OF q, of a m b l]
    by (auto simp: coll_simps split: if_splits)
qed

end
