(* ===== verification/QueueSystem.thy ===== *)
theory QueueSystem
  imports Queue
begin

text \<open>
  Reachability of the queue: every transaction of the search and item stores is one step,
  whatever it answers, and the invariant of Queue holds in every reachable state.  The
  state remembers the searches whose items are still to be written and the items handed to
  workers.
\<close>

type_synonym queue_state = "world \<times> (job \<times> create_input) list \<times> item list"

definition opened :: "failure + job \<times> bool \<Rightarrow> create_input \<Rightarrow> (job \<times> create_input) list" where
  "opened r input = (case r of Inr (job, True) \<Rightarrow> [(job, input)] | _ \<Rightarrow> [])"

definition taken :: "failure + item \<times> string \<Rightarrow> item list" where
  "taken r = (case r of Inr (it, _) \<Rightarrow> if ItemID it \<noteq> [] then [it] else [] | _ \<Rightarrow> [])"

inductive queue_step :: "text_env \<Rightarrow> queue_state \<Rightarrow> queue_state \<Rightarrow> bool" for env where
  Open: "openSearch ttl key hash input w = (r, w') \<Longrightarrow> InputCards input \<noteq> [] \<Longrightarrow>
    queue_step env (w, os, ws) (w', opened r input @ os, ws)"
| Fill: "(job, input) \<in> set os \<Longrightarrow> createItems env job input w = (r, w') \<Longrightarrow>
    queue_step env (w, os, ws) (w', remove1 (job, input) os, ws)"
| Cancel: "Store_CancelSearch ttl i key hash w = (r, w') \<Longrightarrow>
    queue_step env (w, os, ws) (w', os, ws)"
| Claim: "claimOnce owner lease w = (r, w') \<Longrightarrow>
    queue_step env (w, os, ws) (w', os, taken r @ ws)"
| Renew: "RenewItemLease i owner lease w = (r, w') \<Longrightarrow>
    queue_step env (w, os, ws) (w', os, ws)"
| Complete: "it \<in> set ws \<Longrightarrow>
    CompleteSearchItem (applyItemResult (it\<lparr>ItemFaults := faults\<rparr>) offers err) offers w = (r, w') \<Longrightarrow>
    queue_step env (w, os, ws) (w', os, ws)"
| Elsewhere: "follows w w' \<Longrightarrow> db_items (wdb w') = db_items (wdb w) \<Longrightarrow>
    db_searches (wdb w') = db_searches (wdb w) \<Longrightarrow>
    queue_step env (w, os, ws) (w', os, ws)"

text \<open>A fresh deployment: no searches, no items, distinct random draws, and a clock whose
  readings never fall back by a day.\<close>

definition steady :: "world \<Rightarrow> bool" where
  "steady w \<longleftrightarrow> (\<forall>m n. m \<le> n \<longrightarrow> clock w m < clock w n + doneParking)"

definition fresh_start :: "world \<Rightarrow> bool" where
  "fresh_start w \<longleftrightarrow> \<not> tx_open w \<and> db_items (wdb w) = [] \<and> db_searches (wdb w) = []
     \<and> inj (entropy w) \<and> steady w"

inductive reachable :: "text_env \<Rightarrow> queue_state \<Rightarrow> bool" for env where
  Start: "fresh_start w \<Longrightarrow> reachable env (w, [], [])"
| Step: "reachable env s \<Longrightarrow> queue_step env s t \<Longrightarrow> reachable env t"

section \<open>The invariant of the whole system\<close>

definition drawn :: "string \<Rightarrow> world \<Rightarrow> string \<Rightarrow> bool" where
  "drawn kind w x \<longleftrightarrow> (\<exists>m < draws w. x = build_id kind (entropy w m))"

definition ids_ok :: "world \<Rightarrow> bool" where
  "ids_ok w \<longleftrightarrow> (\<forall>i s. row_of Searches i (wdb w) = Some s \<longrightarrow>
     drawn ''search'' w i \<and> (\<forall>x \<in> set (KeptItemIDs s). drawn ''item'' w x))"

definition opening_ok :: "database \<Rightarrow> job \<times> create_input \<Rightarrow> bool" where
  "opening_ok d o1 \<longleftrightarrow>
     (\<exists>s. row_of Searches (JobID (fst o1)) d = Some s
        \<and> JobProcessed (KeptJob s) = 0
        \<and> length (KeptItemIDs s) = length (InputCards (snd o1)))
     \<and> (\<forall>x k. row_of Items x d = Some k \<longrightarrow> ItemSearchID (KeptItem k) \<noteq> JobID (fst o1))"

definition working_ok :: "database \<Rightarrow> item \<Rightarrow> bool" where
  "working_ok d it \<longleftrightarrow>
     (\<exists>s. row_of Searches (ItemSearchID it) d = Some s \<and> ItemID it \<in> set (KeptItemIDs s))"

definition system_ok :: "queue_state \<Rightarrow> bool" where
  "system_ok st \<longleftrightarrow> (case st of (w, os, ws) \<Rightarrow>
     queue_ok (wdb w) \<and> \<not> tx_open w \<and> inj (entropy w) \<and> steady w \<and> ids_ok w
     \<and> distinct (map (\<lambda>o1. JobID (fst o1)) os)
     \<and> (\<forall>o1 \<in> set os. opening_ok (wdb w) o1) \<and> (\<forall>it \<in> set ws. working_ok (wdb w) it))"

lemma drawn_follows: "drawn kind w x \<Longrightarrow> follows w w' \<Longrightarrow> drawn kind w' x"
  unfolding drawn_def follows_def by (metis less_le_trans)

lemma drawn_fresh:
  assumes "inj (entropy w)" and "drawn kind w x" and "draws w \<le> m"
  shows "x \<noteq> build_id kind (entropy w m)"
proof
  assume "x = build_id kind (entropy w m)"
  with assms(2) obtain k where "k < draws w" "build_id kind (entropy w k) = build_id kind (entropy w m)"
    by (auto simp: drawn_def)
  with assms(1,3) show False by (metis build_id_inj injD not_less)
qed

text \<open>What a step keeps when the searches keep their ids and the items their searches.\<close>

definition same_searches :: "database \<Rightarrow> database \<Rightarrow> bool" where
  "same_searches d d' \<longleftrightarrow>
     (\<forall>i. (row_of Searches i d = None \<longleftrightarrow> row_of Searches i d' = None)
        \<and> (\<forall>s s'. row_of Searches i d = Some s \<longrightarrow> row_of Searches i d' = Some s' \<longrightarrow>
              KeptItemIDs s' = KeptItemIDs s))"

definition keeps_searches :: "database \<Rightarrow> database \<Rightarrow> bool" where
  "keeps_searches d d' \<longleftrightarrow>
     (\<forall>i s. row_of Searches i d = Some s \<longrightarrow>
        (\<exists>s'. row_of Searches i d' = Some s' \<and> KeptItemIDs s' = KeptItemIDs s))"

lemma same_keeps: "same_searches d d' \<Longrightarrow> keeps_searches d d'"
  unfolding keeps_searches_def same_searches_def by (metis not_None_eq)

lemma keeps_searchesE:
  assumes "keeps_searches d d'" and "row_of Searches i d = Some s"
  obtains s' where "row_of Searches i d' = Some s'" "KeptItemIDs s' = KeptItemIDs s"
  using assms unfolding keeps_searches_def by blast

lemma same_searches_refl [simp]: "db_searches d' = db_searches d \<Longrightarrow> same_searches d d'"
  by (simp add: same_searches_def row_of_def)

lemma same_searches_put:
  "row_of Searches i d = Some s \<Longrightarrow> KeptItemIDs s' = KeptItemIDs s \<Longrightarrow>
   same_searches d (put_row Searches i s' d)"
  by (simp add: same_searches_def coll_simps)

lemma ids_ok_keep:
  assumes "ids_ok w" and "follows w w'" and "same_searches (wdb w) (wdb w')"
  shows "ids_ok w'"
  unfolding ids_ok_def
proof (intro allI impI)
  fix i s' assume s': "row_of Searches i (wdb w') = Some s'"
  with assms(3) obtain s where s: "row_of Searches i (wdb w) = Some s" "KeptItemIDs s' = KeptItemIDs s"
    unfolding same_searches_def by (metis not_None_eq option.distinct(1))
  with assms(1) have "drawn ''search'' w i" "\<forall>x \<in> set (KeptItemIDs s). drawn ''item'' w x"
    unfolding ids_ok_def by blast+
  with s(2) assms(2) show "drawn ''search'' w' i \<and> (\<forall>x \<in> set (KeptItemIDs s'). drawn ''item'' w' x)"
    using drawn_follows by auto
qed

lemma working_ok_keep: "working_ok d it \<Longrightarrow> keeps_searches d d' \<Longrightarrow> working_ok d' it"
  unfolding working_ok_def by (metis keeps_searchesE)

text \<open>No new items, and the searches that have none keep their count.\<close>

definition same_items :: "database \<Rightarrow> database \<Rightarrow> bool" where
  "same_items d d' \<longleftrightarrow>
     (\<forall>x k'. row_of Items x d' = Some k' \<longrightarrow>
        (\<exists>k. row_of Items x d = Some k \<and> ItemSearchID (KeptItem k') = ItemSearchID (KeptItem k)))
     \<and> (\<forall>i s s'. row_of Searches i d = Some s \<longrightarrow> row_of Searches i d' = Some s' \<longrightarrow>
          JobProcessed (KeptJob s') \<noteq> JobProcessed (KeptJob s) \<longrightarrow>
          (\<exists>x k. row_of Items x d = Some k \<and> ItemSearchID (KeptItem k) = i))"

lemma opening_ok_keep:
  assumes "opening_ok d o1" and "keeps_searches d d'" and "same_items d d'"
  shows "opening_ok d' o1"
proof -
  obtain s where s: "row_of Searches (JobID (fst o1)) d = Some s" "JobProcessed (KeptJob s) = 0"
      "length (KeptItemIDs s) = length (InputCards (snd o1))"
    and none: "\<And>x k. row_of Items x d = Some k \<Longrightarrow> ItemSearchID (KeptItem k) \<noteq> JobID (fst o1)"
    using assms(1) unfolding opening_ok_def by blast
  obtain s' where s': "row_of Searches (JobID (fst o1)) d' = Some s'" "KeptItemIDs s' = KeptItemIDs s"
    using keeps_searchesE [OF assms(2) s(1)] .
  have "JobProcessed (KeptJob s') = 0"
    using assms(3) s s' none unfolding same_items_def by metis
  moreover have "ItemSearchID (KeptItem k') \<noteq> JobID (fst o1)" if "row_of Items x d' = Some k'" for x k'
    using assms(3) that none unfolding same_items_def by metis
  ultimately show ?thesis using s s' unfolding opening_ok_def by auto
qed

lemma system_ok_keep:
  assumes ok: "system_ok (w, os, ws)" and f: "follows w w'" and "queue_ok (wdb w')"
    and ids: "ids_ok w'" and k: "keeps_searches (wdb w) (wdb w')" and it: "same_items (wdb w) (wdb w')"
  shows "system_ok (w', os, ws)"
proof -
  have "steady w'" "inj (entropy w')" "\<not> tx_open w'"
    using ok f by (simp_all add: system_ok_def follows_def steady_def)
  moreover have "\<forall>o1 \<in> set os. opening_ok (wdb w') o1"
    using ok opening_ok_keep [OF _ k it] by (simp add: system_ok_def)
  moreover have "\<forall>x \<in> set ws. working_ok (wdb w') x"
    using ok working_ok_keep [OF _ k] by (simp add: system_ok_def)
  ultimately show ?thesis using assms by (simp add: system_ok_def)
qed

lemma system_ok_change:
  assumes "system_ok (w, os, ws)" and "follows w w'" and "queue_ok (wdb w')"
    and "same_searches (wdb w) (wdb w')" and "same_items (wdb w) (wdb w')"
  shows "system_ok (w', os, ws)"
proof -
  have "ids_ok w" using assms(1) by (simp add: system_ok_def)
  then have "ids_ok w'" using assms(2,4) by (rule ids_ok_keep)
  with assms show ?thesis by (intro system_ok_keep [OF assms(1)]) (simp_all add: same_keeps)
qed

lemma system_ok_idle:
  assumes "system_ok (w, os, ws)" and "follows w w'"
    and "db_items (wdb w') = db_items (wdb w)" and "db_searches (wdb w') = db_searches (wdb w)"
  shows "system_ok (w', os, ws)"
proof (rule system_ok_change [OF assms(1,2)])
  show "queue_ok (wdb w')"
    using assms queue_ok_cong [of "wdb w'" "wdb w"] by (simp add: system_ok_def)
qed (use assms(3,4) in \<open>auto simp: same_items_def row_of_def\<close>)

lemma system_ok_parts:
  assumes "system_ok (w, os, ws)"
  shows "queue_ok (wdb w)" "\<not> tx_open w" "inj (entropy w)" "steady w" "ids_ok w"
    "distinct (map (\<lambda>o1. JobID (fst o1)) os)" "\<And>o1. o1 \<in> set os \<Longrightarrow> opening_ok (wdb w) o1"
    "\<And>it. it \<in> set ws \<Longrightarrow> working_ok (wdb w) it"
  using assms by (simp_all add: system_ok_def)

section \<open>Opening\<close>

lemma step_open:
  assumes ok: "system_ok (w, os, ws)" and run: "openSearch ttl key hash input w = (r, w')"
    and cards: "InputCards input \<noteq> []"
  shows "system_ok (w', opened r input @ os, ws)"
proof -
  note P = system_ok_parts [OF ok]
  have f: "follows w w'" using outsideD [OF outside_openSearch run P(2)] .
  have idle: ?thesis if "wdb w' = wdb w" "opened r input = []"
    using system_ok_idle [OF ok f] that by simp
  show ?thesis
  proof (cases r)
    case (Inl e)
    with run have "wdb w' = wdb w" using openSearch_Inl by blast
    with Inl idle show ?thesis by (simp add: opened_def)
  next
    case (Inr x)
    obtain job created where x: "x = (job, created)" by (cases x)
    note O = openSearch_Inr [OF run [unfolded Inr x]]
    show ?thesis
    proof (cases created)
      case False
      with O idle Inr x show ?thesis by (auto simp: opened_def)
    next
      case True
      let ?n = "length (InputCards input)"
      let ?i = "build_id ''search'' (entropy w (draws w))"
      let ?ids = "drawn_ids ''item'' (entropy w) (Suc (draws w)) ?n"
      from True O obtain t m where new: "row_of Searches ?i (wdb w) = None"
        and job: "job = new_job ?i (InputGame input) ?n t"
        and db: "wdb w' = put_row Requests (''create:'' @ key)
               \<lparr>RequestHash = hash, RequestResourceID = ?i, RequestExpiresAt = m + ttl\<rparr>
             (put_row Searches ?i \<lparr>KeptJob = job, KeptItemIDs = ?ids, KeptExpiresAt = m + ttl\<rparr>
               (wdb w))"
        and draws: "draws w' = draws w + Suc ?n"
        by (auto simp: Let_def)
      let ?s = "\<lparr>KeptJob = job, KeptItemIDs = ?ids, KeptExpiresAt = m + ttl\<rparr>"
      have rows: "row_of Searches j (wdb w') = (if j = ?i then Some ?s else row_of Searches j (wdb w))"
        "row_of Items j (wdb w') = row_of Items j (wdb w)" for j
        by (simp_all add: db coll_simps)
      have fresh: "set ?ids \<inter> set (KeptItemIDs s) = {}" if "row_of Searches j (wdb w) = Some s" for j s
      proof -
        have "y \<noteq> build_id ''item'' (entropy w k)" if "y \<in> set (KeptItemIDs s)" "draws w \<le> k" for y k
          using drawn_fresh [OF P(3), of "''item''" y k] that \<open>row_of Searches j (wdb w) = Some s\<close> P(5)
          unfolding ids_ok_def by blast
        note distinct_from = this
        show ?thesis
        proof (rule ccontr)
          assume "set ?ids \<inter> set (KeptItemIDs s) \<noteq> {}"
          then obtain k where "build_id ''item'' (entropy w k) \<in> set (KeptItemIDs s)"
              "Suc (draws w) \<le> k"
            by (auto simp: set_drawn_ids)
          with distinct_from [of "build_id ''item'' (entropy w k)" k] show False by simp
        qed
      qed
      have q: "queue_ok (put_row Searches ?i ?s (wdb w))"
        unfolding job using P(1) new
        by (rule queue_ok_open) (use cards fresh in \<open>auto simp: distinct_drawn_ids P(3)\<close>)
      have "queue_ok (wdb w')"
        unfolding db using q by (subst queue_ok_cong) simp_all
      moreover have "ids_ok w'"
        unfolding ids_ok_def
      proof (intro allI impI)
        fix j s assume js: "row_of Searches j (wdb w') = Some s"
        then have "j = ?i \<and> s = ?s \<or> row_of Searches j (wdb w) = Some s"
          by (cases "j = ?i") (simp_all add: rows(1))
        then consider "j = ?i" "s = ?s" | "row_of Searches j (wdb w) = Some s" by blast
        then show "drawn ''search'' w' j \<and> (\<forall>x \<in> set (KeptItemIDs s). drawn ''item'' w' x)"
        proof cases
          case 1
          have "entropy w' = entropy w" using f by (simp add: follows_def)
          then have new_ids: "drawn kind w' (build_id kind (entropy w k))"
            if "k < draws w + Suc ?n" for kind k
            using that draws unfolding drawn_def by auto
          have "drawn ''search'' w' j" unfolding 1 by (rule new_ids) simp
          moreover have "drawn ''item'' w' y" if "y \<in> set (KeptItemIDs s)" for y
          proof -
            from that 1 obtain k where "y = build_id ''item'' (entropy w k)" "k < draws w + Suc ?n"
              by (auto simp: set_drawn_ids)
            then show ?thesis using new_ids by simp
          qed
          ultimately show ?thesis by blast
        next
          case 2
          with P(5) f show ?thesis unfolding ids_ok_def using drawn_follows by blast
        qed
      qed
      moreover have "keeps_searches (wdb w) (wdb w')"
        using new by (auto simp: keeps_searches_def rows)
      moreover have "same_items (wdb w) (wdb w')"
        using new by (auto simp: same_items_def rows)
      ultimately have keep: "system_ok (w', os, ws)" by (rule system_ok_keep [OF ok f])
      have "opening_ok (wdb w') (job, input)"
        unfolding opening_ok_def
      proof (intro conjI allI impI)
        show "\<exists>s. row_of Searches (JobID (fst (job, input))) (wdb w') = Some s
            \<and> JobProcessed (KeptJob s) = 0
            \<and> length (KeptItemIDs s) = length (InputCards (snd (job, input)))"
          by (simp add: rows job new_job_def)
        fix x k assume "row_of Items x (wdb w') = Some k"
        then show "ItemSearchID (KeptItem k) \<noteq> JobID (fst (job, input))"
          using queue_ok_item_ex [OF P(1), of x k] new by (auto simp: rows job new_job_def)
      qed
      moreover have "JobID job \<notin> (\<lambda>o1. JobID (fst o1)) ` set os"
        using P(7) new by (force simp: opening_ok_def job new_job_def)
      ultimately show ?thesis
        using keep Inr x True by (simp add: system_ok_def opened_def)
    qed
  qed
qed

section \<open>Filling\<close>

definition pending_row :: "text_env \<Rightarrow> job \<Rightarrow> create_input \<Rightarrow> kept_search \<Rightarrow> nat \<Rightarrow> string \<times> kept_item" where
  "pending_row env job input s index =
     (KeptItemIDs s ! index,
      pending_item env job input (KeptItemIDs s) (KeptExpiresAt s) index)"

lemma pending_item_simps [simp]:
  "ItemID (KeptItem (pending_item env job input ids e n)) = ids ! n"
  "ItemSearchID (KeptItem (pending_item env job input ids e n)) = JobID job"
  "ItemSequence (KeptItem (pending_item env job input ids e n)) = 0"
  "ItemStatus (KeptItem (pending_item env job input ids e n)) = ItemPending"
  "unfinished (KeptItem (pending_item env job input ids e n))"
  "KeptDamaged (pending_item env job input ids e n) = False"
  by (simp_all add: pending_item_def Let_def unfinished_def)

lemma fill_rows:
  assumes q: "queue_ok d" and s: "row_of Searches (JobID job) d = Some s"
    and processed: "JobProcessed (KeptJob s) = 0"
    and none: "\<And>x k. row_of Items x d = Some k \<Longrightarrow> ItemSearchID (KeptItem k) \<noteq> JobID job"
    and n: "n \<le> length (KeptItemIDs s)"
  shows "let d' = put_rows Items (map (pending_row env job input s) [0 ..< n]) d in
         queue_ok d' \<and> waiting_in (JobID job) d' = int n \<and> db_searches d' = db_searches d
         \<and> (\<forall>x. x \<notin> set (take n (KeptItemIDs s)) \<longrightarrow> row_of Items x d' = row_of Items x d)
         \<and> (\<forall>x k. row_of Items x d' = Some k \<longrightarrow>
              ItemSearchID (KeptItem k) = JobID job \<or> row_of Items x d = Some k)"
  using n
proof (induction n)
  case 0
  have "waits_for (JobID job) k \<Longrightarrow> k \<notin> set (map snd (db_items d))" for k
    using queue_ok_mem [OF q, of k] none by (auto simp: waits_for_def)
  then have "waiting_in (JobID job) d = 0" by (auto simp: waiting_in_def filter_empty_conv)
  with q show ?case by simp
next
  case (Suc n)
  define d' where "d' = put_rows Items (map (pending_row env job input s) [0 ..< n]) d"
  define x where "x = KeptItemIDs s ! n"
  define k where "k = pending_item env job input (KeptItemIDs s) (KeptExpiresAt s) n"
  from Suc have IH: "queue_ok d'" "waiting_in (JobID job) d' = int n" "db_searches d' = db_searches d"
    "\<And>y. y \<notin> set (take n (KeptItemIDs s)) \<Longrightarrow> row_of Items y d' = row_of Items y d"
    "\<And>y l. row_of Items y d' = Some l \<Longrightarrow>
       ItemSearchID (KeptItem l) = JobID job \<or> row_of Items y d = Some l"
    by (simp_all add: Let_def d'_def)
  have next_db: "put_rows Items (map (pending_row env job input s) [0 ..< Suc n]) d = put_row Items x k d'"
    by (simp add: d'_def x_def k_def pending_row_def)
  have ok: "search_ok (waiting_in (JobID job) d) (JobID job) s" using q s by (rule queue_ok_search)
  then have ids: "distinct (KeptItemIDs s)" by (simp add: search_ok_def Let_def)
  have x: "x \<in> set (KeptItemIDs s)" using Suc.prems by (simp add: x_def)
  have "take (Suc n) (KeptItemIDs s) = take n (KeptItemIDs s) @ [x]"
    using Suc.prems by (simp add: x_def take_Suc_conv_app_nth)
  then have taken_x: "x \<notin> set (take n (KeptItemIDs s))"
    using distinct_take [OF ids, of "Suc n"] by simp
  have "row_of Items x d = None"
  proof (rule ccontr)
    assume "row_of Items x d \<noteq> None"
    then obtain l where l: "row_of Items x d = Some l" by blast
    then obtain t where t: "row_of Searches (ItemSearchID (KeptItem l)) d = Some t" "item_ok t x l"
      by (rule queue_ok_item [OF q])
    then have "x \<in> set (KeptItemIDs t)" by (simp add: item_ok_def)
    then have "ItemSearchID (KeptItem l) = JobID job"
      using queue_ok_owner [OF q t(1) s] x by blast
    with none l show False by blast
  qed
  with IH(4) taken_x have new: "row_of Items x d' = None" by simp
  have s': "row_of Searches (JobID job) d' = Some s" using s IH(3) by (simp add: row_of_def)
  have "queue_ok (put_row Items x k d')"
    using IH(1) s' new
  proof (rule queue_ok_fill)
    show "item_ok s x k" using x by (simp add: item_ok_def k_def x_def)
    show "JobProcessed (KeptJob s) + waiting_in (JobID job) d' + 1 \<le> JobTotal (KeptJob s)"
      using processed IH(2) Suc.prems ok by (simp add: search_ok_def Let_def)
  qed (simp_all add: k_def)
  moreover have "waiting_in (JobID job) (put_row Items x k d') = int (Suc n)"
    using IH(2) by (simp add: waiting_put_fresh [OF new] waits_for_def k_def)
  moreover have "take (Suc n) (KeptItemIDs s) = take n (KeptItemIDs s) @ [x]"
    using Suc.prems by (simp add: x_def take_Suc_conv_app_nth)
  ultimately show ?case
    using IH(3,4,5) unfolding next_db by (auto simp: coll_simps k_def Let_def)
qed

lemma step_fill:
  assumes ok: "system_ok (w, os, ws)" and mem: "(job, input) \<in> set os"
    and run: "createItems env job input w = (r, w')"
  shows "system_ok (w', remove1 (job, input) os, ws)"
proof -
  note P = system_ok_parts [OF ok]
  have f: "follows w w'" using soundD [OF sound_createItems run] .
  have dist: "distinct os" using P(6) by (simp add: distinct_map)
  have drop: "system_ok (w, remove1 (job, input) os, ws)"
    using ok dist by (auto simp: system_ok_def distinct_map set_remove1_eq intro: inj_on_subset)
  from run P(2) show ?thesis
  proof (cases rule: createItems_run)
    case 1
    then show ?thesis using system_ok_idle [OF drop f] by simp
  next
    case (2 s n)
    from P(7) [OF mem] 2(1) have o1: "JobProcessed (KeptJob s) = 0"
        "length (KeptItemIDs s) = length (InputCards input)"
        "\<And>x k. row_of Items x (wdb w) = Some k \<Longrightarrow> ItemSearchID (KeptItem k) \<noteq> JobID job"
      by (auto simp: opening_ok_def)
    have db: "wdb w' = put_rows Items (map (pending_row env job input s) [0 ..< n]) (wdb w)"
      using 2(3) by (simp add: pending_row_def [abs_def])
    have "n \<le> length (KeptItemIDs s)" using 2(2) o1(2) by simp
    from fill_rows [where env = env and input = input and n = n, OF P(1) 2(1) o1(1) _ this] o1(3)
    have filled: "queue_ok (wdb w') \<and> db_searches (wdb w') = db_searches (wdb w)
      \<and> (\<forall>x k. row_of Items x (wdb w') = Some k \<longrightarrow>
            ItemSearchID (KeptItem k) = JobID job \<or> row_of Items x (wdb w) = Some k)"
      unfolding db Let_def by blast
    have R: "queue_ok (wdb w')" "db_searches (wdb w') = db_searches (wdb w)"
      "\<And>x k. row_of Items x (wdb w') = Some k \<Longrightarrow>
        ItemSearchID (KeptItem k) = JobID job \<or> row_of Items x (wdb w) = Some k"
      using filled by blast+
    have same: "row_of Searches i (wdb w') = row_of Searches i (wdb w)" for i
      using R(2) by (simp add: row_of_def)
    have "ids_ok w'" by (rule ids_ok_keep [OF P(5) f]) (simp add: R(2))
    moreover have "opening_ok (wdb w') o2" if "o2 \<in> set (remove1 (job, input) os)" for o2
    proof -
      from that dist have o2: "o2 \<in> set os" "o2 \<noteq> (job, input)" by (simp_all add: set_remove1_eq)
      with P(6) mem have "JobID (fst o2) \<noteq> JobID job" by (auto simp: distinct_map inj_on_def)
      with P(7) [OF o2(1)] show ?thesis
        unfolding opening_ok_def same by (auto dest!: R(3))
    qed
    moreover have "working_ok (wdb w') it" if "it \<in> set ws" for it
      using P(8) [OF that] same by (simp add: working_ok_def)
    moreover have "steady w'" "inj (entropy w')" "\<not> tx_open w'"
      using P f by (simp_all add: follows_def steady_def)
    ultimately show ?thesis using drop R(1) by (simp add: system_ok_def)
  qed
qed

section \<open>Cancelling, claiming, renewing and completing\<close>

lemma cancelled_simps [simp]:
  "JobID (KeptJob (cancelled s n)) = JobID (KeptJob s)"
  "JobStatus (KeptJob (cancelled s n)) = JobCancelled"
  "JobTotal (KeptJob (cancelled s n)) = JobTotal (KeptJob s)"
  "JobProcessed (KeptJob (cancelled s n)) = JobProcessed (KeptJob s)"
  "JobFound (KeptJob (cancelled s n)) = JobFound (KeptJob s)"
  "JobNotFound (KeptJob (cancelled s n)) = JobNotFound (KeptJob s)"
  "JobErrors (KeptJob (cancelled s n)) = JobErrors (KeptJob s)"
  "JobFinishedAt (KeptJob (cancelled s n)) = Some n"
  "KeptItemIDs (cancelled s n) = KeptItemIDs s"
  by (simp_all add: cancelled_def)

lemma outside_CancelSearch: "outside (Store_CancelSearch ttl i key hash)"
  unfolding Store_CancelSearch_def saveRequest_def Let_def
  by (intro outside_map_failure outside_Transact sound_intros sound_cancelSearch)

lemma search_ok_cancelled:
  "search_ok n i s \<Longrightarrow> search_ok n i (cancelled s t)"
  unfolding search_ok_def Let_def terminal_def cancelled_simps by auto

lemma step_cancel:
  assumes ok: "system_ok (w, os, ws)" and run: "Store_CancelSearch ttl i key hash w = (r, w')"
  shows "system_ok (w', os, ws)"
proof -
  note P = system_ok_parts [OF ok]
  have f: "follows w w'" using outsideD [OF outside_CancelSearch run P(2)] .
  show ?thesis
  proof (cases r)
    case (Inl e)
    with run have "wdb w' = wdb w"
      by (auto simp: Store_CancelSearch_def go_io dest: Transact_Inl)
    then show ?thesis using system_ok_idle [OF ok f] by simp
  next
    case (Inr job)
    from Store_CancelSearch_Inr [OF run [unfolded Inr]]
    consider "wdb w' = wdb w"
      | s n where "row_of Searches i (wdb w) = Some s"
        "wdb w' = put_row Requests (''cancel:'' @ key)
               \<lparr>RequestHash = hash, RequestResourceID = JobID job, RequestExpiresAt = n + ttl\<rparr>
             (put_row Searches i (cancelled s n) (wdb w))"
      by blast
    then show ?thesis
    proof cases
      case 1
      then show ?thesis using system_ok_idle [OF ok f] by simp
    next
      case 2
      have "queue_ok (put_row Searches i (cancelled s n) (wdb w))"
        using queue_ok_search [OF P(1) 2(1)]
        by (intro queue_ok_put_search [OF P(1) 2(1)]) (simp_all add: search_ok_cancelled)
      then have "queue_ok (wdb w')" unfolding 2(2) by (subst queue_ok_cong) simp_all
      then show ?thesis
      proof (rule system_ok_change [OF ok f])
        show "same_searches (wdb w) (wdb w')"
          using same_searches_put [OF 2(1), of "cancelled s n"] unfolding 2(2)
          by (simp add: same_searches_def coll_simps)
        show "same_items (wdb w) (wdb w')"
          using 2(1) unfolding 2(2) by (auto simp: same_items_def coll_simps split: if_splits)
      qed
    qed
  qed
qed

lemma claimable_unfinished:
  assumes q: "queue_ok (wdb w)" and st: "steady w"
    and k: "k \<in> set (map snd (db_items (wdb w)))"
    and ready: "KeptAvailableAt k \<le> clock w m" and alive: "\<not> KeptItemExpiresAt k < clock w n"
    and mn: "m \<le> n"
  shows "unfinished (KeptItem k)"
proof (rule ccontr)
  assume "\<not> unfinished (KeptItem k)"
  moreover obtain s where "item_ok s (ItemID (KeptItem k)) k"
    using queue_ok_item_ex [OF q queue_ok_mem [OF q k]] by blast
  ultimately have "KeptAvailableAt k = KeptItemExpiresAt k + doneParking" by (simp add: item_ok_def)
  with ready alive have "clock w n + doneParking \<le> clock w m" by simp
  with st mn show False unfolding steady_def by fastforce
qed

text \<open>What a successful claim finds: an unfinished item of a search that is still open.\<close>

lemma claim_unfinished:
  assumes q: "queue_ok (wdb w)" and st: "steady w"
    and run: "claimOnce owner lease w = (Inr (it, d), w')" and id: "ItemID it \<noteq> []"
  obtains cand stored n where "row_of Items (ItemID it) (wdb w) = Some cand"
    "unfinished (KeptItem cand)" "it = KeptItem (leased cand owner (n + lease))"
    "row_of Searches (ItemSearchID it) (wdb w) = Some stored"
    "\<not> terminal (JobStatus (KeptJob stored))" "JobID (KeptJob stored) = ItemSearchID it"
    "wdb w' = put_row Searches (ItemSearchID it)
        (started stored (ItemOriginalName (KeptItem cand)) n)
       (put_row Items (ItemID it) (leased cand owner (n + lease)) (wdb w))"
  using run
proof (cases rule: claimOnce_Inr)
  case (claimed cand stored n)
  have row: "row_of Items (ItemID it) (wdb w) = Some cand"
    using queue_ok_mem [OF q claimed(1)] claimed(9) by simp
  have u: "unfinished (KeptItem cand)"
    using claimable_unfinished [OF q st claimed(1,2,5)] by simp
  have s: "search_ok (waiting_in (ItemSearchID it) (wdb w)) (ItemSearchID it) stored"
    using queue_ok_search [OF q claimed(7)] claimed(9) by simp
  have "1 \<le> waiting_in (ItemSearchID it) (wdb w)"
    using row u claimed(9) by (intro waiting_pos) (simp_all add: waits_for_def)
  then have "JobProcessed (KeptJob stored) < JobTotal (KeptJob stored)"
    using s by (simp add: search_ok_def Let_def)
  then have "\<not> terminal (JobStatus (KeptJob stored))"
    using s claimed(8) by (auto simp: search_ok_def Let_def terminal_def)
  with row u s claimed show thesis by (intro that) (simp_all add: search_ok_def Let_def)
next
  case (discarded cand)
  with id show thesis by (simp add: zero_item_def)
qed

lemma search_ok_started:
  "search_ok n i s \<Longrightarrow> 1 \<le> n \<Longrightarrow> \<not> terminal (JobStatus (KeptJob s)) \<Longrightarrow> search_ok n i (started s c t)"
  by (auto simp: search_ok_def Let_def terminal_def)

lemma same_searches_replace:
  "row_of Searches i d = Some s \<Longrightarrow> KeptItemIDs s' = KeptItemIDs s \<Longrightarrow>
   same_searches d (put_row Searches i s' (put_row Items x k d))"
  by (simp add: same_searches_def coll_simps)

lemma same_items_replace:
  "row_of Items x d = Some k \<Longrightarrow> ItemSearchID (KeptItem k') = ItemSearchID (KeptItem k) \<Longrightarrow>
   ItemSearchID (KeptItem k) = i \<Longrightarrow>
   same_items d (put_row Searches i s' (put_row Items x k' d))"
  by (auto simp: same_items_def coll_simps split: if_splits)

lemma step_claim:
  assumes ok: "system_ok (w, os, ws)" and run: "claimOnce owner lease w = (r, w')"
  shows "system_ok (w', os, taken r @ ws)"
proof -
  note P = system_ok_parts [OF ok]
  have f: "follows w w'" using outsideD [OF outside_claimOnce run P(2)] .
  consider (failed) e where "r = Inl e"
    | (dropped) it d where "r = Inr (it, d)" "ItemID it = []"
    | (claimed) it d where "r = Inr (it, d)" "ItemID it \<noteq> []"
    by (metis sum.exhaust surj_pair)
  then show ?thesis
  proof cases
    case failed
    with run have "wdb w' = wdb w" using claimOnce_Inl by blast
    with failed show ?thesis using system_ok_idle [OF ok f] by (simp add: taken_def)
  next
    case dropped
    have same: "queue_ok (wdb w') \<and> same_searches (wdb w) (wdb w') \<and> same_items (wdb w) (wdb w')"
      using run [unfolded dropped(1)]
    proof (cases rule: claimOnce_Inr)
      case (claimed cand stored n)
      have "ItemID (KeptItem cand) = []" using dropped(2) claimed(9) by simp
      then have "row_of Items [] (wdb w) = Some cand" using queue_ok_mem [OF P(1) claimed(1)] by simp
      then obtain s where s: "row_of Searches (ItemSearchID (KeptItem cand)) (wdb w) = Some s"
          "[] \<in> set (KeptItemIDs s)"
        using queue_ok_item_ex [OF P(1)] by (auto simp: item_ok_def)
      then have "drawn ''item'' w []" using P(5) unfolding ids_ok_def by blast
      then show ?thesis by (simp add: drawn_def build_id_def)
    next
      case (discarded cand)
      with queue_ok_drop [OF P(1), of d] show ?thesis
        by (auto simp: same_items_def same_searches_def coll_simps split: if_splits)
    qed
    with dropped show ?thesis using system_ok_change [OF ok f] by (simp add: taken_def)
  next
    case claimed
    from claim_unfinished [OF P(1,4) run [unfolded claimed(1)] claimed(2)]
    obtain cand stored n where c: "row_of Items (ItemID it) (wdb w) = Some cand"
      "unfinished (KeptItem cand)" "it = KeptItem (leased cand owner (n + lease))"
      "row_of Searches (ItemSearchID it) (wdb w) = Some stored"
      "\<not> terminal (JobStatus (KeptJob stored))" "JobID (KeptJob stored) = ItemSearchID it"
      "wdb w' = put_row Searches (ItemSearchID it)
          (started stored (ItemOriginalName (KeptItem cand)) n)
         (put_row Items (ItemID it) (leased cand owner (n + lease)) (wdb w))" .
    let ?k = "leased cand owner (n + lease)"
    let ?s = "started stored (ItemOriginalName (KeptItem cand)) n"
    have own: "ItemSearchID (KeptItem cand) = ItemSearchID it" using c(3) by simp
    have item: "item_ok stored (ItemID it) cand"
      using queue_ok_item_ex [OF P(1) c(1)] c(4) own by auto
    have wait: "1 \<le> waiting_in (ItemSearchID it) (wdb w)"
      using c(1,2) own by (intro waiting_pos) (simp_all add: waits_for_def)
    have "queue_ok (wdb w')"
      unfolding c(7) using P(1) c(1,4) own
    proof (rule queue_ok_replace)
      show "item_ok ?s (ItemID it) ?k"
        using item c(2) by (simp add: item_ok_def unfinished_def)
      show "search_ok (waiting_in (ItemSearchID it) (wdb w)
              - (if unfinished (KeptItem cand) then 1 else 0)
              + (if unfinished (KeptItem ?k) then 1 else 0)) (ItemSearchID it) ?s"
        using c(2,5) wait queue_ok_search [OF P(1) c(4)]
        by (simp add: search_ok_started unfinished_def)
    qed (use own in \<open>simp_all add: unfinished_def\<close>)
    moreover have "same_searches (wdb w) (wdb w')"
      unfolding c(7) using c(4) by (rule same_searches_replace) simp
    moreover have "same_items (wdb w) (wdb w')"
      unfolding c(7) using c(1) by (rule same_items_replace) (simp_all add: own)
    ultimately have "system_ok (w', os, ws)" by (rule system_ok_change [OF ok f])
    moreover have "working_ok (wdb w') it"
      using item c(4) unfolding working_ok_def c(7) by (simp add: coll_simps item_ok_def)
    ultimately show ?thesis using claimed by (simp add: system_ok_def taken_def)
  qed
qed

lemma step_renew:
  assumes ok: "system_ok (w, os, ws)" and run: "RenewItemLease i owner lease w = (r, w')"
  shows "system_ok (w', os, ws)"
proof -
  note P = system_ok_parts [OF ok]
  have f: "follows w w'" using outsideD [OF outside_RenewItemLease run P(2)] .
  show ?thesis
  proof (cases r)
    case (Inl e)
    with run have "wdb w' = wdb w" using atomicD [OF atomic_RenewItemLease] by blast
    then show ?thesis using system_ok_idle [OF ok f] by simp
  next
    case (Inr u)
    from run [unfolded Inr] P(2) obtain stored e where s: "row_of Items i (wdb w) = Some stored"
      "ItemStatus (KeptItem stored) = ItemRunning"
      "wdb w' = put_row Items i (stored\<lparr>KeptItem := (KeptItem stored)\<lparr>ItemLeaseUntil := Some e\<rparr>,
                                    KeptAvailableAt := e\<rparr>) (wdb w)"
      by (rule RenewItemLease_Inr) blast
    have "ItemID (KeptItem stored) = i"
      using queue_ok_item_ex [OF P(1) s(1)] by (auto simp: item_ok_def)
    then have "queue_ok (wdb w')"
      unfolding s(3) using s(2)
      by (intro queue_ok_put_item [OF P(1) s(1)]) (simp_all add: unfinished_def)
    then show ?thesis
      by (rule system_ok_change [OF ok f])
         (use s in \<open>auto simp: same_items_def same_searches_def coll_simps split: if_splits\<close>)
  qed
qed

lemma after_count_simps [simp]:
  "JobID (after_count j it n m) = JobID j"
  "JobTotal (after_count j it n m) = JobTotal j"
  "JobProcessed (after_count j it n m) = JobProcessed j + 1"
  by (simp_all add: after_count_def counted_def closed_def Let_def split: item_status.split)

lemma search_ok_counted:
  assumes ok: "search_ok waiting i s" and wait: "1 \<le> waiting"
    and st: "ItemStatus it \<in> {ItemFound, ItemNotFound, ItemSourceError}"
  shows "search_ok (waiting - 1) i (s\<lparr>KeptJob := after_count (KeptJob s) it n m\<rparr>)"
proof -
  have "JobProcessed (KeptJob s) < JobTotal (KeptJob s)"
    using ok wait by (simp add: search_ok_def Let_def)
  with ok wait st show ?thesis
    by (auto simp: search_ok_def Let_def after_count_def counted_def closed_def terminal_def)
qed

lemma settled_simps [simp]:
  "ItemID (settled it p) = ItemID it" "ItemSearchID (settled it p) = ItemSearchID it"
  "ItemStatus (settled it p) = ItemStatus it" "ItemSequence (settled it p) = p + 1"
  "ItemLeaseOwner (settled it p) = []"
  by (simp_all add: settled_def)

text \<open>Completing one item, whoever does it.\<close>

lemma complete_keeps:
  assumes ok: "system_ok (w, os, ws)" and work: "working_ok (wdb w) it"
    and st: "ItemStatus it \<in> {ItemFound, ItemNotFound, ItemSourceError}"
    and run: "CompleteSearchItem it offers w = (r, w')"
  shows "system_ok (w', os, ws)"
proof -
  note P = system_ok_parts [OF ok]
  have f: "follows w w'" using outsideD [OF outside_CompleteSearchItem run P(2)] .
  show ?thesis
  proof (cases r)
    case (Inl e)
    with run have "wdb w' = wdb w" using atomicD [OF atomic_CompleteSearchItem] by blast
    then show ?thesis using system_ok_idle [OF ok f] by simp
  next
    case (Inr u)
    let ?x = "ItemID it" and ?i = "ItemSearchID it"
    from run [unfolded Inr] obtain stored parent n m where c: "row_of Items ?x (wdb w) = Some stored"
      "ItemStatus (KeptItem stored) = ItemRunning" "row_of Searches ?i (wdb w) = Some parent"
      and db: "wdb w' =
       (let done = settled it (JobProcessed (KeptJob parent));
            job = after_count (KeptJob parent) done n m in
        put_row Searches (JobID job) (parent\<lparr>KeptJob := job\<rparr>)
         (put_row ItemOfferEntries ?x
            \<lparr>EntryOffers = offers, EntryExpiresAt = KeptItemExpiresAt stored, EntryIndexed = False\<rparr>
          (put_row Items ?x
             (stored\<lparr>KeptItem := done, KeptAvailableAt := KeptItemExpiresAt stored + doneParking\<rparr>)
             (wdb w))))"
      by (rule CompleteSearchItem_Inr) blast
    let ?done = "settled it (JobProcessed (KeptJob parent))"
    let ?k = "stored\<lparr>KeptItem := ?done, KeptAvailableAt := KeptItemExpiresAt stored + doneParking\<rparr>"
    let ?s = "parent\<lparr>KeptJob := after_count (KeptJob parent) ?done n m\<rparr>"
    have ids: "?x \<in> set (KeptItemIDs parent)" using work c(3) by (simp add: working_ok_def)
    obtain t where t: "row_of Searches (ItemSearchID (KeptItem stored)) (wdb w) = Some t"
        "?x \<in> set (KeptItemIDs t)"
      using queue_ok_item_ex [OF P(1) c(1)] by (auto simp: item_ok_def)
    have own: "ItemSearchID (KeptItem stored) = ?i"
      using queue_ok_owner [OF P(1) t(1) c(3) t(2) ids] .
    have unf: "unfinished (KeptItem stored)" "\<not> unfinished ?done"
      using c(2) st by (auto simp: unfinished_def)
    have wait: "1 \<le> waiting_in ?i (wdb w)"
      using c(1) own unf by (intro waiting_pos) (simp_all add: waits_for_def)
    have s: "search_ok (waiting_in ?i (wdb w)) ?i parent" using queue_ok_search [OF P(1) c(3)] .
    have id: "JobID (KeptJob parent) = ?i" using s by (simp add: search_ok_def Let_def)
    have p: "0 \<le> JobProcessed (KeptJob parent)" using s by (simp add: search_ok_def Let_def)
    have q: "queue_ok (put_row Searches ?i ?s (put_row Items ?x ?k (wdb w)))"
      using P(1) c(1,3) own
    proof (rule queue_ok_replace)
      show "item_ok ?s ?x ?k" using ids unf p by (simp add: item_ok_def)
      show "search_ok (waiting_in ?i (wdb w) - (if unfinished (KeptItem stored) then 1 else 0)
              + (if unfinished (KeptItem ?k) then 1 else 0)) ?i ?s"
        using search_ok_counted [OF s wait, of ?done n m] st unf by simp
    qed simp_all
    have tables: "db_items (wdb w') = db_items (put_row Searches ?i ?s (put_row Items ?x ?k (wdb w)))"
      "db_searches (wdb w') = db_searches (put_row Searches ?i ?s (put_row Items ?x ?k (wdb w)))"
      unfolding db Let_def by (simp_all add: id) (simp add: put_row_def)
    then have "queue_ok (wdb w')" using q queue_ok_cong by blast
    moreover have "same_searches (wdb w) (put_row Searches ?i ?s (put_row Items ?x ?k (wdb w)))"
      using c(3) by (rule same_searches_replace) simp
    then have "same_searches (wdb w) (wdb w')"
      using tables by (simp add: same_searches_def row_of_def)
    moreover have "same_items (wdb w) (put_row Searches ?i ?s (put_row Items ?x ?k (wdb w)))"
      using c(1) by (rule same_items_replace) (simp_all add: own)
    then have "same_items (wdb w) (wdb w')"
      using tables by (simp add: same_items_def row_of_def)
    ultimately show ?thesis by (rule system_ok_change [OF ok f])
  qed
qed

section \<open>Every reachable state\<close>

lemma step_keeps: "queue_step env s t \<Longrightarrow> system_ok s \<Longrightarrow> system_ok t"
proof (induction rule: queue_step.induct)
  case (Complete it ws faults offers err w r w' os)
  let ?it = "applyItemResult (it\<lparr>ItemFaults := faults\<rparr>) offers err"
  have "working_ok (wdb w) it" using Complete system_ok_parts(8) by blast
  then have "working_ok (wdb w) ?it" by (simp add: working_ok_def)
  then show ?case
    using Complete complete_keeps applyItemResult_finished by blast
qed (blast intro: step_open step_fill step_cancel step_claim step_renew system_ok_idle)+

lemma start_ok: "fresh_start w \<Longrightarrow> system_ok (w, [], [])"
  by (simp add: fresh_start_def system_ok_def queue_ok_empty ids_ok_def row_of_def)

lemma reachable_ok: "reachable env s \<Longrightarrow> system_ok s"
  by (induction rule: reachable.induct) (blast intro: start_ok step_keeps)+

end
