(* ===== verification/Demo.thy ===== *)
theory Demo
  imports QueueSystem
begin

text \<open>
  A concrete run of the queue: one search of two cards is opened and filled, its first item
  claimed and completed.  The witnesses of the queue's properties are read off this run.
\<close>

definition demo_input :: create_input where
  "demo_input = \<lparr>InputGame = GameMagic,
     InputCards = [\<lparr>CardInputName = ''Opt'', CardInputQuantity = 1\<rparr>,
                   \<lparr>CardInputName = ''Duress'', CardInputQuantity = 2\<rparr>],
     InputOptions = \<lparr>OptVerifyStock = False, OptMatch = MatchExact, OptKind = KindSingle\<rparr>\<rparr>"

text \<open>Each stage is a function of the one before, so that one evaluation runs them in order.\<close>

type_synonym 'a outcome = "(failure + 'a) \<times> world"

definition stage_open :: "world \<Rightarrow> (job \<times> bool) outcome" where
  "stage_open w = openSearch hour ''key'' ''hash'' demo_input w"

definition job_of :: "(job \<times> bool) outcome \<Rightarrow> job" where
  "job_of o1 = (case fst o1 of Inr (job, _) \<Rightarrow> job | Inl _ \<Rightarrow> new_job [] [] 0 0)"

definition stage_fill :: "(job \<times> bool) outcome \<Rightarrow> unit outcome" where
  "stage_fill o1 = createItems plain_env (job_of o1) demo_input (snd o1)"

definition stage_claim :: "unit outcome \<Rightarrow> (item \<times> string) outcome" where
  "stage_claim o1 = claimOnce ''worker'' minute (snd o1)"

definition item_of :: "(item \<times> string) outcome \<Rightarrow> item" where
  "item_of o1 = (case fst o1 of Inr (it, _) \<Rightarrow> it | Inl _ \<Rightarrow> zero_item)"

definition stage_complete :: "(item \<times> string) outcome \<Rightarrow> unit outcome" where
  "stage_complete o1 =
     CompleteSearchItem (applyItemResult ((item_of o1)\<lparr>ItemFaults := []\<rparr>) [] None) [] (snd o1)"

definition demo_opened where "demo_opened = stage_open (calm_world empty_db)"
definition demo_filled where "demo_filled = stage_fill demo_opened"
definition demo_claimed where "demo_claimed = stage_claim demo_filled"
definition demo_completed where "demo_completed = stage_complete demo_claimed"
definition demo_claimed_next where "demo_claimed_next = stage_claim demo_completed"
definition demo_done where "demo_done = stage_complete demo_claimed_next"

definition demo_job :: job where "demo_job = job_of demo_opened"
definition demo_item :: item where "demo_item = item_of demo_claimed"
definition demo_next :: item where "demo_next = item_of demo_claimed_next"

text \<open>The records the run leaves: the search, its two items and their ids.\<close>

definition demo_id :: string where "demo_id = build_id ''search'' []"
definition demo_first :: string where "demo_first = build_id ''item'' ''x''"
definition demo_second :: string where "demo_second = build_id ''item'' ''xx''"

definition search_at :: "'a outcome \<Rightarrow> kept_search option" where
  "search_at o1 = row_of Searches demo_id (wdb (snd o1))"

definition item_at :: "string \<Rightarrow> 'a outcome \<Rightarrow> kept_item option" where
  "item_at x o1 = row_of Items x (wdb (snd o1))"

definition has_status :: "item_status \<Rightarrow> kept_item option \<Rightarrow> bool" where
  "has_status st k = (case k of None \<Rightarrow> False
     | Some k \<Rightarrow> ItemStatus (KeptItem k) = st \<and> ItemSearchID (KeptItem k) = demo_id)"

definition has_job_status :: "job_status \<Rightarrow> kept_search option \<Rightarrow> bool" where
  "has_job_status st s = (case s of None \<Rightarrow> False | Some s \<Rightarrow> JobStatus (KeptJob s) = st)"

lemma demo_runs:
  "opened (fst demo_opened) demo_input = [(demo_job, demo_input)]
   \<and> taken (fst demo_claimed) = [demo_item] \<and> ItemID demo_item = demo_first
   \<and> taken (fst demo_claimed_next) = [demo_next] \<and> ItemID demo_next = demo_second
   \<and> has_job_status JobRunning (search_at demo_completed) \<and> has_job_status JobCompleted (search_at demo_done)
   \<and> has_status ItemNotFound (item_at demo_first demo_completed)
   \<and> has_status ItemNotFound (item_at demo_first demo_done)
   \<and> has_status ItemNotFound (item_at demo_second demo_done)"
proof -
  have "let a = stage_open (calm_world empty_db); b = stage_fill a; c = stage_claim b;
            d = stage_complete c; e = stage_claim d; f = stage_complete e
        in opened (fst a) demo_input = [(job_of a, demo_input)]
           \<and> taken (fst c) = [item_of c] \<and> ItemID (item_of c) = demo_first
           \<and> taken (fst e) = [item_of e] \<and> ItemID (item_of e) = demo_second
           \<and> has_job_status JobRunning (search_at d) \<and> has_job_status JobCompleted (search_at f)
           \<and> has_status ItemNotFound (item_at demo_first d)
           \<and> has_status ItemNotFound (item_at demo_first f)
           \<and> has_status ItemNotFound (item_at demo_second f)"
    by code_simp
  then show ?thesis
    unfolding Let_def demo_opened_def demo_filled_def demo_claimed_def demo_completed_def
      demo_claimed_next_def demo_done_def demo_job_def demo_item_def demo_next_def .
qed

lemma demo_start: "fresh_start (calm_world empty_db)"
proof -
  have "inj (\<lambda>n. replicate n CHR ''x'')" by (rule injI) (metis length_replicate)
  then show ?thesis
    by (simp add: fresh_start_def calm_world_def empty_db_def steady_def doneParking_def duration_defs)
qed

lemma reach0: "reachable plain_env (calm_world empty_db, [], [])"
  using demo_start by (rule Start)

lemma reach1: "reachable plain_env (snd demo_opened, [(demo_job, demo_input)], [])"
proof -
  have "openSearch hour ''key'' ''hash'' demo_input (calm_world empty_db) = (fst demo_opened, snd demo_opened)"
    by (simp add: demo_opened_def stage_open_def)
  then have "queue_step plain_env (calm_world empty_db, [], [])
          (snd demo_opened, opened (fst demo_opened) demo_input @ [], [])"
    by (rule Open) (simp add: demo_input_def)
  then show ?thesis using Step [OF reach0] demo_runs by simp
qed

lemma reach2: "reachable plain_env (snd demo_filled, [], [])"
proof -
  have run: "createItems plain_env demo_job demo_input (snd demo_opened) = (fst demo_filled, snd demo_filled)"
    by (simp add: demo_filled_def stage_fill_def demo_job_def)
  have "queue_step plain_env (snd demo_opened, [(demo_job, demo_input)], [])
          (snd demo_filled, remove1 (demo_job, demo_input) [(demo_job, demo_input)], [])"
    by (rule Fill [OF _ run]) simp
  then show ?thesis using Step [OF reach1] by simp
qed

lemma claim_step:
  "taken (fst (stage_claim o1)) = [it] \<Longrightarrow>
   queue_step plain_env (snd o1, [], ws) (snd (stage_claim o1), [], it # ws)"
  using Claim [of "''worker''" minute "snd o1" "fst (stage_claim o1)" "snd (stage_claim o1)" plain_env "[]" ws]
  by (simp add: stage_claim_def)

lemma complete_step:
  "item_of o1 \<in> set ws \<Longrightarrow>
   queue_step plain_env (snd o1, [], ws) (snd (stage_complete o1), [], ws)"
  using Complete [of "item_of o1" ws "[]" "[]" None "snd o1" "fst (stage_complete o1)"
      "snd (stage_complete o1)" plain_env "[]"]
  by (simp add: stage_complete_def)

lemma step3: "queue_step plain_env (snd demo_filled, [], []) (snd demo_claimed, [], [demo_item])"
  using claim_step [of demo_filled demo_item] demo_runs by (simp add: demo_claimed_def)

lemma reach3: "reachable plain_env (snd demo_claimed, [], [demo_item])"
  using reach2 step3 by (rule Step)

lemma step4: "queue_step plain_env (snd demo_claimed, [], [demo_item]) (snd demo_completed, [], [demo_item])"
  using complete_step [of demo_claimed "[demo_item]"] by (simp add: demo_completed_def demo_item_def)

lemma reach4: "reachable plain_env (snd demo_completed, [], [demo_item])"
  using reach3 step4 by (rule Step)

lemma step5: "queue_step plain_env (snd demo_completed, [], [demo_item])
    (snd demo_claimed_next, [], [demo_next, demo_item])"
  using claim_step [of demo_completed demo_next] demo_runs by (simp add: demo_claimed_next_def)

lemma reach5: "reachable plain_env (snd demo_claimed_next, [], [demo_next, demo_item])"
  using reach4 step5 by (rule Step)

lemma step6: "queue_step plain_env (snd demo_claimed_next, [], [demo_next, demo_item])
    (snd demo_done, [], [demo_next, demo_item])"
  using complete_step [of demo_claimed_next "[demo_next, demo_item]"]
  by (simp add: demo_done_def demo_next_def)

lemma reach6: "reachable plain_env (snd demo_done, [], [demo_next, demo_item])"
  using reach5 step6 by (rule Step)

end
