(* ===== verification/QueueProperties.thy ===== *)
theory QueueProperties
  imports Demo
begin

text \<open>
  What the queue promises in every reachable state, with concrete runs of the model that
  show each promise applies: counters that add up, one completion per item, terminal
  statuses that stay, and turns that only take work that is left.
\<close>

section \<open>One step seen from one search and from one item\<close>

lemma rows_unchanged:
  assumes "db_items (wdb w') = db_items (wdb w)" and "db_searches (wdb w') = db_searches (wdb w)"
  shows "row_of Items x (wdb w') = row_of Items x (wdb w)"
    "row_of Searches i (wdb w') = row_of Searches i (wdb w)"
  using assms by (simp_all add: row_of_def)

lemma open_rows:
  assumes run: "openSearch ttl key hash input w = (r, w')"
  shows "row_of Items x (wdb w') = row_of Items x (wdb w)"
    "row_of Searches i (wdb w) = Some s \<Longrightarrow> row_of Searches i (wdb w') = Some s"
proof -
  have "row_of Items x (wdb w') = row_of Items x (wdb w)
      \<and> (row_of Searches i (wdb w) = Some s \<longrightarrow> row_of Searches i (wdb w') = Some s)"
  proof (cases r)
    case (Inl e)
    with run show ?thesis using openSearch_Inl by fastforce
  next
    case (Inr x)
    obtain job created where x: "x = (job, created)" by (cases x)
    from openSearch_Inr [OF run [unfolded Inr x]] show ?thesis
      by (auto simp: Let_def coll_simps)
  qed
  then show "row_of Items x (wdb w') = row_of Items x (wdb w)"
    "row_of Searches i (wdb w) = Some s \<Longrightarrow> row_of Searches i (wdb w') = Some s" by blast+
qed

lemma row_of_put_rows_other:
  "x \<notin> fst ` set rows \<Longrightarrow> row_of Items x (put_rows Items rows d) = row_of Items x d"
proof -
  assume "x \<notin> fst ` set rows"
  then have "map_of (rev rows) x = None" by (simp add: map_of_eq_None_iff)
  then show ?thesis by (simp add: items.row_of_put_rows)
qed

lemma db_searches_put_rows [simp]: "db_searches (put_rows Items rows d) = db_searches d"
  by (induction rows arbitrary: d) simp_all

lemma fill_rows_kept:
  assumes ok: "system_ok (w, os, ws)" and mem: "(job, input) \<in> set os"
    and run: "createItems env job input w = (r, w')"
  shows "row_of Items x (wdb w) = Some k \<Longrightarrow> row_of Items x (wdb w') = Some k"
    "row_of Searches i (wdb w') = row_of Searches i (wdb w)"
proof -
  note P = system_ok_parts [OF ok]
  have "(row_of Items x (wdb w) = Some k \<longrightarrow> row_of Items x (wdb w') = Some k)
      \<and> row_of Searches i (wdb w') = row_of Searches i (wdb w)"
    using run P(2)
  proof (cases rule: createItems_run)
    case 1
    then show ?thesis by simp
  next
    case (2 s n)
    have "x \<notin> set (KeptItemIDs s)" if k: "row_of Items x (wdb w) = Some k"
    proof
      assume x: "x \<in> set (KeptItemIDs s)"
      obtain t where t: "row_of Searches (ItemSearchID (KeptItem k)) (wdb w) = Some t"
          "x \<in> set (KeptItemIDs t)"
        using queue_ok_item_ex [OF P(1) k] by (auto simp: item_ok_def)
      have "ItemSearchID (KeptItem k) = JobID job"
        using queue_ok_owner [OF P(1) t(1) 2(1) t(2) x] .
      with P(7) [OF mem] k show False by (auto simp: opening_ok_def)
    qed
    moreover have "n \<le> length (KeptItemIDs s)" using 2(1,2) P(7) [OF mem] by (auto simp: opening_ok_def)
    ultimately show ?thesis
      unfolding 2(3) by (auto simp: row_of_def [of Searches] intro!: row_of_put_rows_other [THEN trans])
  qed
  then show "row_of Items x (wdb w) = Some k \<Longrightarrow> row_of Items x (wdb w') = Some k"
    "row_of Searches i (wdb w') = row_of Searches i (wdb w)" by blast+
qed

lemma claim_idle_rows:
  assumes ok: "system_ok (w, os, ws)" and run: "claimOnce owner lease w = (r, w')" and none: "taken r = []"
  shows "row_of Searches i (wdb w') = row_of Searches i (wdb w)"
    "row_of Items x (wdb w') = row_of Items x (wdb w) \<or> row_of Items x (wdb w') = None"
proof -
  note P = system_ok_parts [OF ok]
  have "row_of Searches i (wdb w') = row_of Searches i (wdb w)
    \<and> (row_of Items x (wdb w') = row_of Items x (wdb w) \<or> row_of Items x (wdb w') = None)"
  proof (cases r)
    case (Inl e)
    then show ?thesis using run claimOnce_Inl by fastforce
  next
    case (Inr z)
    obtain it d where z: "z = (it, d)" by (cases z)
    from run Inr z have "claimOnce owner lease w = (Inr (it, d), w')" by simp
    then show ?thesis
    proof (cases rule: claimOnce_Inr)
      case (claimed cand stored n)
      have "ItemID (KeptItem cand) = []"
        using none Inr z claimed(9) by (simp add: taken_def split: if_splits)
      then have "row_of Items [] (wdb w) = Some cand" using queue_ok_mem [OF P(1) claimed(1)] by simp
      then obtain u where "row_of Searches (ItemSearchID (KeptItem cand)) (wdb w) = Some u"
          "[] \<in> set (KeptItemIDs u)"
        using queue_ok_item_ex [OF P(1)] by (auto simp: item_ok_def)
      then have "drawn ''item'' w []" using P(5) unfolding ids_ok_def by blast
      then show ?thesis by (simp add: drawn_def build_id_def)
    next
      case (discarded cand)
      show ?thesis
        unfolding discarded(4) by (simp add: items.row_of_drop row_of_other)
    qed
  qed
  then show "row_of Searches i (wdb w') = row_of Searches i (wdb w)"
    "row_of Items x (wdb w') = row_of Items x (wdb w) \<or> row_of Items x (wdb w') = None" by simp_all
qed

definition ended_as :: "kept_search \<Rightarrow> kept_search \<Rightarrow> bool" where
  "ended_as s s' \<longleftrightarrow> JobStatus (KeptJob s') = JobStatus (KeptJob s)
     \<and> JobFinishedAt (KeptJob s') = JobFinishedAt (KeptJob s)"

lemma complete_cases:
  assumes ok: "system_ok (w, os, ws)" and work: "working_ok (wdb w) it"
    and run: "CompleteSearchItem it offers w = (r, w')"
  obtains "wdb w' = wdb w" "\<And>u. r \<noteq> Inr u"
  | stored parent n m where "row_of Items (ItemID it) (wdb w) = Some stored"
    "ItemStatus (KeptItem stored) = ItemRunning" "ItemSearchID (KeptItem stored) = ItemSearchID it"
    "ItemLeaseOwner (KeptItem stored) = ItemLeaseOwner it"
    "row_of Searches (ItemSearchID it) (wdb w) = Some parent"
    "JobProcessed (KeptJob parent) < JobTotal (KeptJob parent)"
    "\<And>x. row_of Items x (wdb w') =
       (if x = ItemID it
        then Some (stored\<lparr>KeptItem := settled it (JobProcessed (KeptJob parent)),
                          KeptAvailableAt := KeptItemExpiresAt stored + doneParking\<rparr>)
        else row_of Items x (wdb w))"
    "\<And>i. row_of Searches i (wdb w') =
       (if i = ItemSearchID it
        then Some (parent\<lparr>KeptJob := after_count (KeptJob parent)
                    (settled it (JobProcessed (KeptJob parent))) n m\<rparr>)
        else row_of Searches i (wdb w))"
    "row_of ItemOfferEntries (ItemID it) (wdb w') =
       Some \<lparr>EntryOffers = offers, EntryExpiresAt = KeptItemExpiresAt stored, EntryIndexed = False\<rparr>"
    "r = Inr ()"
proof -
  note P = system_ok_parts [OF ok]
  show thesis
  proof (cases r)
    case (Inl e)
    with run have "wdb w' = wdb w" using atomicD [OF atomic_CompleteSearchItem] by blast
    with Inl show thesis using that(1) by simp
  next
    case (Inr u)
    from run [unfolded Inr] obtain stored parent n m where c: "row_of Items (ItemID it) (wdb w) = Some stored"
      "ItemLeaseOwner (KeptItem stored) = ItemLeaseOwner it"
      "ItemStatus (KeptItem stored) = ItemRunning"
      "row_of Searches (ItemSearchID it) (wdb w) = Some parent"
      and db: "wdb w' =
       (let done = settled it (JobProcessed (KeptJob parent));
            job = after_count (KeptJob parent) done n m in
        put_row Searches (JobID job) (parent\<lparr>KeptJob := job\<rparr>)
         (put_row ItemOfferEntries (ItemID it)
            \<lparr>EntryOffers = offers, EntryExpiresAt = KeptItemExpiresAt stored, EntryIndexed = False\<rparr>
          (put_row Items (ItemID it)
             (stored\<lparr>KeptItem := done, KeptAvailableAt := KeptItemExpiresAt stored + doneParking\<rparr>)
             (wdb w))))"
      by (rule CompleteSearchItem_Inr) blast
    obtain t where t: "row_of Searches (ItemSearchID (KeptItem stored)) (wdb w) = Some t"
        "ItemID it \<in> set (KeptItemIDs t)"
      using queue_ok_item_ex [OF P(1) c(1)] by (auto simp: item_ok_def)
    have own: "ItemSearchID (KeptItem stored) = ItemSearchID it"
      using queue_ok_owner [OF P(1) t(1) c(4) t(2)] work c(4) by (simp add: working_ok_def)
    have s: "search_ok (waiting_in (ItemSearchID it) (wdb w)) (ItemSearchID it) parent"
      using queue_ok_search [OF P(1) c(4)] .
    then have id: "JobID (KeptJob parent) = ItemSearchID it" by (simp add: search_ok_def Let_def)
    have "1 \<le> waiting_in (ItemSearchID it) (wdb w)"
      using c(3) own by (intro waiting_pos [OF c(1)]) (simp add: waits_for_def unfinished_def)
    with s have "JobProcessed (KeptJob parent) < JobTotal (KeptJob parent)"
      by (simp add: search_ok_def Let_def)
    with c own show thesis
      by (intro that(2) [of stored parent n m]) (simp_all add: db Let_def id coll_simps Inr)
  qed
qed

lemma step_ended:
  assumes step: "queue_step env (w, os, ws) (w', os', ws')" and ok: "system_ok (w, os, ws)"
    and s: "row_of Searches i (wdb w) = Some s" and t: "terminal (JobStatus (KeptJob s))"
  shows "\<exists>s'. row_of Searches i (wdb w') = Some s' \<and> ended_as s s'"
  using step
proof cases
  case (Open ttl key hash input r)
  then show ?thesis using open_rows(2) s by (auto simp: ended_as_def)
next
  case (Fill job input r)
  then show ?thesis using fill_rows_kept(2) ok s by (auto simp: ended_as_def)
next
  case (Cancel ttl j key hash r)
  show ?thesis
  proof (cases r)
    case (Inl e)
    with Cancel have "wdb w' = wdb w"
      by (auto simp: Store_CancelSearch_def go_io dest: Transact_Inl)
    with s show ?thesis by (simp add: ended_as_def)
  next
    case (Inr job)
    from Store_CancelSearch_Inr [OF Cancel(3) [unfolded Inr]] s t show ?thesis
      by (auto simp: coll_simps ended_as_def terminal_def)
  qed
next
  case (Claim owner lease r)
  note P = system_ok_parts [OF ok]
  show ?thesis
  proof (cases "\<exists>it d. r = Inr (it, d) \<and> ItemID it \<noteq> []")
    case True
    then obtain it d where r: "claimOnce owner lease w = (Inr (it, d), w')" "ItemID it \<noteq> []"
      using Claim by blast
    show ?thesis
      by (rule claim_unfinished [OF P(1,4) r]) (use s t in \<open>auto simp: coll_simps ended_as_def\<close>)
  next
    case False
    then have "taken r = []" by (auto simp: taken_def split: sum.splits)
    then have "row_of Searches i (wdb w') = Some s" using claim_idle_rows(1) [OF ok Claim(3)] s by simp
    then show ?thesis by (simp add: ended_as_def)
  qed
next
  case (Renew j owner lease r)
  have "row_of Searches i (wdb w') = Some s"
  proof (cases r)
    case (Inl e)
    then show ?thesis using Renew atomicD [OF atomic_RenewItemLease] s by metis
  next
    case (Inr u)
    from Renew(3) [unfolded Inr] system_ok_parts(2) [OF ok] show ?thesis
      by (rule RenewItemLease_Inr) (use s in \<open>simp add: coll_simps\<close>)
  qed
  then show ?thesis by (simp add: ended_as_def)
next
  case (Complete it faults offers err r)
  have "working_ok (wdb w) (applyItemResult (it\<lparr>ItemFaults := faults\<rparr>) offers err)"
    using system_ok_parts(8) [OF ok] Complete(3) by (simp add: working_ok_def)
  from ok this Complete(4) show ?thesis
  proof (cases rule: complete_cases)
    case 1
    with s show ?thesis by (simp add: ended_as_def)
  next
    case (2 stored parent n m)
    have "search_ok (waiting_in i (wdb w)) i s"
      using queue_ok_search [OF system_ok_parts(1) [OF ok] s] .
    with 2(5,6,8) s t show ?thesis
      by (auto simp: ended_as_def after_count_def counted_def Let_def search_ok_def terminal_def
          split: item_status.split)
  qed
next
  case Elsewhere
  then show ?thesis using rows_unchanged(2) [of w' w i] s by (simp add: ended_as_def)
qed

lemma step_frozen:
  assumes step: "queue_step env (w, os, ws) (w', os', ws')" and ok: "system_ok (w, os, ws)"
    and k: "row_of Items x (wdb w) = Some k" and fin: "\<not> unfinished (KeptItem k)"
  shows "row_of Items x (wdb w') = Some k \<or> row_of Items x (wdb w') = None"
  using step
proof cases
  case (Open ttl key hash input r)
  then show ?thesis using open_rows(1) k by metis
next
  case (Fill job input r)
  then show ?thesis using fill_rows_kept(1) ok k by blast
next
  case (Cancel ttl j key hash r)
  have "row_of Items x (wdb w') = row_of Items x (wdb w)"
  proof (cases r)
    case (Inl e)
    with Cancel show ?thesis by (auto simp: Store_CancelSearch_def go_io dest: Transact_Inl)
  next
    case (Inr job)
    from Store_CancelSearch_Inr [OF Cancel(3) [unfolded Inr]] show ?thesis by (auto simp: coll_simps)
  qed
  with k show ?thesis by simp
next
  case (Claim owner lease r)
  show ?thesis
  proof (cases "taken r = []")
    case True
    with claim_idle_rows(2) [OF ok Claim(3) True] k show ?thesis by metis
  next
    case False
    then obtain it d where "r = Inr (it, d)" "ItemID it \<noteq> []"
      by (auto simp: taken_def split: sum.splits prod.splits if_splits)
    note r = Claim(3) [unfolded this(1)] this(2)
    show ?thesis
      by (rule claim_unfinished [OF system_ok_parts(1,4) [OF ok] r])
         (use k fin in \<open>auto simp: coll_simps\<close>)
  qed
next
  case (Renew j owner lease r)
  show ?thesis
  proof (cases r)
    case (Inl e)
    then show ?thesis using Renew atomicD [OF atomic_RenewItemLease] k by metis
  next
    case (Inr u)
    from Renew(3) [unfolded Inr] system_ok_parts(2) [OF ok]
    obtain stored e where st: "row_of Items j (wdb w) = Some stored"
      "ItemStatus (KeptItem stored) = ItemRunning"
      "wdb w' = put_row Items j (stored\<lparr>KeptItem := (KeptItem stored)\<lparr>ItemLeaseUntil := Some e\<rparr>,
                                    KeptAvailableAt := e\<rparr>) (wdb w)"
      by (rule RenewItemLease_Inr) blast
    have "x \<noteq> j" using st(1,2) k fin by (auto simp: unfinished_def)
    then have "row_of Items x (wdb w') = row_of Items x (wdb w)"
      unfolding st(3) by (simp add: items.row_of_put)
    with k show ?thesis by simp
  qed
next
  case (Complete it faults offers err r)
  have "working_ok (wdb w) (applyItemResult (it\<lparr>ItemFaults := faults\<rparr>) offers err)"
    using system_ok_parts(8) [OF ok] Complete(3) by (simp add: working_ok_def)
  from ok this Complete(4) show ?thesis
  proof (cases rule: complete_cases)
    case 1
    with k show ?thesis by simp
  next
    case (2 stored parent n m)
    have "x \<noteq> ItemID it" using 2(1,2) k fin by (auto simp: unfinished_def)
    with 2(7) [of x] k show ?thesis by simp
  qed
next
  case Elsewhere
  then show ?thesis using rows_unchanged(1) [of w' w x] k by simp
qed

section \<open>The promises\<close>

text \<open>C1 In every state the queue can reach from a fresh deployment, the counters of a search
  add up (processed = found + not found + errors), the processed items and the ones still
  waiting never exceed its total, and it is completed exactly when every card was processed:
  a completed search has nothing left to work on, and one that processed everything is
  completed or was cancelled.\<close>
theorem reachable_counts:
  assumes "reachable env (w, os, ws)" and "row_of Searches i (wdb w) = Some s"
  shows "JobProcessed (KeptJob s) = JobFound (KeptJob s) + JobNotFound (KeptJob s) + JobErrors (KeptJob s)
    \<and> JobProcessed (KeptJob s) + waiting_in i (wdb w) \<le> JobTotal (KeptJob s)
    \<and> (JobStatus (KeptJob s) = JobCompleted \<or> JobStatus (KeptJob s) = JobCompletedWithErrors
        \<longleftrightarrow> JobProcessed (KeptJob s) = JobTotal (KeptJob s) \<and> JobStatus (KeptJob s) \<noteq> JobCancelled)
    \<and> (JobStatus (KeptJob s) = JobCompleted \<longrightarrow> JobErrors (KeptJob s) = 0 \<and> waiting_in i (wdb w) = 0)"
proof -
  define n where "n = waiting_in i (wdb w)"
  have "search_ok n i s"
    using reachable_ok [OF assms(1)] assms(2) system_ok_parts(1) queue_ok_search
    unfolding n_def by blast
  moreover have "0 \<le> n" by (simp add: n_def)
  ultimately show ?thesis
    unfolding search_ok_def Let_def terminal_def n_def [symmetric] by auto
qed

theorem reachable_counts_witness:
  "\<exists>s. row_of Searches demo_id (wdb (snd demo_done)) = Some s
     \<and> JobProcessed (KeptJob s) = JobFound (KeptJob s) + JobNotFound (KeptJob s) + JobErrors (KeptJob s)
     \<and> JobProcessed (KeptJob s) = JobTotal (KeptJob s) \<and> waiting_in demo_id (wdb (snd demo_done)) = 0"
proof -
  obtain s where s: "row_of Searches demo_id (wdb (snd demo_done)) = Some s"
      "JobStatus (KeptJob s) = JobCompleted"
    using demo_runs by (auto simp: has_job_status_def search_at_def split: option.splits)
  with reachable_counts [OF reach6 s(1)] show ?thesis by simp
qed

text \<open>C2 A turn never takes work that is already done: in every reachable state, an item that
  \<open>claimOnce\<close> hands out was pending or running, and its search was neither completed nor
  cancelled.\<close>
theorem claims_only_open_work:
  assumes "reachable env (w, os, ws)"
    and "claimOnce owner lease w = (Inr (it, d), w')" and "ItemID it \<noteq> []"
  shows "\<exists>k s. row_of Items (ItemID it) (wdb w) = Some k \<and> unfinished (KeptItem k)
    \<and> row_of Searches (ItemSearchID it) (wdb w) = Some s
    \<and> JobStatus (KeptJob s) \<notin> {JobCompleted, JobCompletedWithErrors, JobCancelled}"
proof -
  note P = system_ok_parts [OF reachable_ok [OF assms(1)]]
  show ?thesis
    by (rule claim_unfinished [OF P(1,4) assms(2,3)]) (auto simp: terminal_def)
qed

theorem claims_only_open_work_witness:
  "ItemID demo_next = demo_second
   \<and> (\<exists>k. row_of Items (ItemID demo_next) (wdb (snd demo_completed)) = Some k \<and> unfinished (KeptItem k))"
proof -
  obtain d where "claimOnce ''worker'' minute (snd demo_completed) = (Inr (demo_next, d), snd demo_claimed_next)"
    using demo_runs
    by (cases "demo_claimed_next")
       (auto simp: taken_def demo_claimed_next_def stage_claim_def split: sum.splits if_splits)
  moreover have "ItemID demo_next \<noteq> []" using demo_runs by (simp add: demo_second_def build_id_def)
  ultimately have "\<exists>k. row_of Items (ItemID demo_next) (wdb (snd demo_completed)) = Some k
      \<and> unfinished (KeptItem k)"
    using claims_only_open_work [OF reach4] by blast
  with demo_runs show ?thesis by simp
qed

text \<open>C3 A search that completed or was cancelled keeps its status and the moment it finished,
  whatever happens next in the queue.\<close>
theorem terminal_status_stays:
  assumes "reachable env (w, os, ws)" and "queue_step env (w, os, ws) (w', os', ws')"
    and "row_of Searches i (wdb w) = Some s"
    and "JobStatus (KeptJob s) \<in> {JobCompleted, JobCompletedWithErrors, JobCancelled}"
  shows "\<exists>s'. row_of Searches i (wdb w') = Some s'
    \<and> JobStatus (KeptJob s') = JobStatus (KeptJob s)
    \<and> JobFinishedAt (KeptJob s') = JobFinishedAt (KeptJob s)"
  using step_ended [OF assms(2) reachable_ok [OF assms(1)] assms(3)] assms(4)
  by (simp add: ended_as_def terminal_def)

theorem terminal_status_stays_witness:
  "\<exists>s'. row_of Searches demo_id (wdb (snd demo_done)) = Some s' \<and> JobStatus (KeptJob s') = JobCompleted"
proof -
  obtain s where s: "row_of Searches demo_id (wdb (snd demo_done)) = Some s"
      "JobStatus (KeptJob s) = JobCompleted"
    using demo_runs by (auto simp: has_job_status_def search_at_def split: option.splits)
  have "queue_step plain_env (snd demo_done, [], [demo_next, demo_item]) (snd demo_done, [], [demo_next, demo_item])"
    by (rule Elsewhere) simp_all
  from terminal_status_stays [OF reach6 this s(1)] s(2) show ?thesis by auto
qed

text \<open>C4 An item is completed at most once: once finished, its record, with the place it took
  among the results, stays as it is until the queue discards it.\<close>
theorem finished_item_frozen:
  assumes "reachable env (w, os, ws)" and "queue_step env (w, os, ws) (w', os', ws')"
    and "row_of Items x (wdb w) = Some k"
    and "ItemStatus (KeptItem k) \<in> {ItemFound, ItemNotFound, ItemSourceError}"
  shows "row_of Items x (wdb w') = Some k \<or> row_of Items x (wdb w') = None"
proof -
  have "\<not> unfinished (KeptItem k)" using assms(4) by (auto simp: unfinished_def)
  then show ?thesis
    by (rule step_frozen [OF assms(2) reachable_ok [OF assms(1)] assms(3)])
qed

theorem finished_item_frozen_witness:
  "\<exists>k. row_of Items demo_first (wdb (snd demo_completed)) = Some k
     \<and> (row_of Items demo_first (wdb (snd demo_claimed_next)) = Some k
        \<or> row_of Items demo_first (wdb (snd demo_claimed_next)) = None)"
proof -
  obtain k where k: "row_of Items demo_first (wdb (snd demo_completed)) = Some k"
      "ItemStatus (KeptItem k) = ItemNotFound"
    using demo_runs by (auto simp: has_status_def item_at_def split: option.splits)
  from finished_item_frozen [OF reach4 step5 k(1)] k show ?thesis by auto
qed

text \<open>C5 The results of one search carry distinct places: two finished items of the same search
  never share a completion sequence, and every sequence lies between 1 and the number of
  processed items.\<close>
theorem result_places_distinct:
  assumes "reachable env (w, os, ws)"
    and "row_of Items x (wdb w) = Some k" and "\<not> unfinished (KeptItem k)"
    and "row_of Items y (wdb w) = Some l" and "\<not> unfinished (KeptItem l)"
    and "x \<noteq> y" and "ItemSearchID (KeptItem k) = ItemSearchID (KeptItem l)"
  shows "ItemSequence (KeptItem k) \<noteq> ItemSequence (KeptItem l)
    \<and> (\<exists>s. row_of Searches (ItemSearchID (KeptItem k)) (wdb w) = Some s
         \<and> 1 \<le> ItemSequence (KeptItem k) \<and> ItemSequence (KeptItem k) \<le> JobProcessed (KeptJob s))"
proof -
  note P = system_ok_parts [OF reachable_ok [OF assms(1)]]
  have "ItemSequence (KeptItem k) \<noteq> ItemSequence (KeptItem l)"
    using queue_ok_sequences [OF P(1) assms(2,4,6,7,3,5)] .
  then show ?thesis
    using queue_ok_item_ex [OF P(1) assms(2)] assms(3) by (auto simp: item_ok_def)
qed

theorem result_places_distinct_witness:
  "\<exists>k l. row_of Items demo_first (wdb (snd demo_done)) = Some k
     \<and> row_of Items demo_second (wdb (snd demo_done)) = Some l
     \<and> ItemSequence (KeptItem k) \<noteq> ItemSequence (KeptItem l)"
proof -
  obtain k where k: "row_of Items demo_first (wdb (snd demo_done)) = Some k"
      "\<not> unfinished (KeptItem k)" "ItemSearchID (KeptItem k) = demo_id"
    using demo_runs by (auto simp: has_status_def item_at_def unfinished_def split: option.splits)
  obtain l where l: "row_of Items demo_second (wdb (snd demo_done)) = Some l"
      "\<not> unfinished (KeptItem l)" "ItemSearchID (KeptItem l) = demo_id"
    using demo_runs by (auto simp: has_status_def item_at_def unfinished_def split: option.splits)
  have "demo_first \<noteq> demo_second"
    using build_id_inj [of "''item''" "''x''" "''xx''"] by (auto simp: demo_first_def demo_second_def)
  with result_places_distinct [OF reach6 k(1,2) l(1,2)] k l show ?thesis by auto
qed

end
