(* ===== verification/QueueSpec.thy ===== *)
theory QueueSpec
  imports QueueProperties
begin

text \<open>
  What the queue promises, without stores, leases or time: a board with one tally per
  search.  Searches are announced, their cards reported one by one, and a search that has
  cards left may be called off.  The searches of the two collections, as SearchStore and
  ItemStore keep them, implement the board.
\<close>

section \<open>The board\<close>

record tally =
  TallyTotal :: int
  TallyFound :: int
  TallyNotFound :: int
  TallyErrors :: int
  TallyCalledOff :: bool

type_synonym board = "string \<rightharpoonup> tally"

definition cards_left :: "tally \<Rightarrow> int" where
  "cards_left t = TallyTotal t - (TallyFound t + TallyNotFound t + TallyErrors t)"

definition new_tally :: "int \<Rightarrow> tally" where
  "new_tally n = \<lparr>TallyTotal = n, TallyFound = 0, TallyNotFound = 0, TallyErrors = 0, TallyCalledOff = False\<rparr>"

inductive board_step :: "board \<Rightarrow> board \<Rightarrow> bool" where
  stay: "board_step b b"
| announce: "b i = None \<Longrightarrow> 0 < n \<Longrightarrow> board_step b (b(i \<mapsto> new_tally n))"
| report_found: "b i = Some t \<Longrightarrow> 0 < cards_left t \<Longrightarrow>
    board_step b (b(i \<mapsto> t\<lparr>TallyFound := TallyFound t + 1\<rparr>))"
| report_missing: "b i = Some t \<Longrightarrow> 0 < cards_left t \<Longrightarrow>
    board_step b (b(i \<mapsto> t\<lparr>TallyNotFound := TallyNotFound t + 1\<rparr>))"
| report_error: "b i = Some t \<Longrightarrow> 0 < cards_left t \<Longrightarrow>
    board_step b (b(i \<mapsto> t\<lparr>TallyErrors := TallyErrors t + 1\<rparr>))"
| call_off: "b i = Some t \<Longrightarrow> 0 < cards_left t \<Longrightarrow> \<not> TallyCalledOff t \<Longrightarrow>
    board_step b (b(i \<mapsto> t\<lparr>TallyCalledOff := True\<rparr>))"

text \<open>The status a tally stands for, once there is one to tell.\<close>

definition ended_status :: "tally \<Rightarrow> job_status option" where
  "ended_status t =
     (if TallyCalledOff t then Some JobCancelled
      else if cards_left t = 0 then Some (if 0 < TallyErrors t then JobCompletedWithErrors else JobCompleted)
      else None)"

section \<open>The searches as a board\<close>

definition tally_of :: "kept_search \<Rightarrow> tally" where
  "tally_of s = (let j = KeptJob s in
     \<lparr>TallyTotal = JobTotal j, TallyFound = JobFound j, TallyNotFound = JobNotFound j,
      TallyErrors = JobErrors j, TallyCalledOff = (JobStatus j = JobCancelled)\<rparr>)"

definition board_of :: "database \<Rightarrow> board" where
  "board_of d i = map_option tally_of (row_of Searches i d)"

lemma board_of_same: "(\<And>i. row_of Searches i d' = row_of Searches i d) \<Longrightarrow> board_of d' = board_of d"
  by (simp add: board_of_def fun_eq_iff)

lemma board_of_put [simp]: "board_of (put_row Searches i s d) = (board_of d)(i \<mapsto> tally_of s)"
  by (auto simp: board_of_def fun_eq_iff coll_simps)

lemma board_of_put_other [simp]:
  "board_of (put_row Items x k d) = board_of d" "board_of (put_row Requests x r d) = board_of d"
  "board_of (put_row ItemOfferEntries x e d) = board_of d"
  by (simp_all add: board_of_def fun_eq_iff coll_simps)

lemma search_left: "search_ok n i s \<Longrightarrow> cards_left (tally_of s) = JobTotal (KeptJob s) - JobProcessed (KeptJob s)"
  by (simp add: search_ok_def Let_def tally_of_def cards_left_def)

lemma tally_new: "tally_of \<lparr>KeptJob = new_job i g n t, KeptItemIDs = ids, KeptExpiresAt = e\<rparr> = new_tally (int n)"
  by (simp add: tally_of_def new_tally_def new_job_def)

lemma tally_started: "JobStatus (KeptJob s) \<noteq> JobCancelled \<Longrightarrow> tally_of (started s c n) = tally_of s"
  by (simp add: tally_of_def Let_def started_def)

lemma tally_cancelled: "tally_of (cancelled s n) = (tally_of s)\<lparr>TallyCalledOff := True\<rparr>"
  by (simp add: tally_of_def Let_def cancelled_def)

lemma tally_counted:
  "tally_of (s\<lparr>KeptJob := after_count (KeptJob s) it n m\<rparr>) =
     (case ItemStatus it of
        ItemFound \<Rightarrow> (tally_of s)\<lparr>TallyFound := TallyFound (tally_of s) + 1\<rparr>
      | ItemNotFound \<Rightarrow> (tally_of s)\<lparr>TallyNotFound := TallyNotFound (tally_of s) + 1\<rparr>
      | ItemSourceError \<Rightarrow> (tally_of s)\<lparr>TallyErrors := TallyErrors (tally_of s) + 1\<rparr>
      | _ \<Rightarrow> tally_of s)"
  by (auto simp: tally_of_def Let_def after_count_def counted_def closed_def split: item_status.split)

lemma search_ended:
  "search_ok n i s \<Longrightarrow>
   ended_status (tally_of s) =
     (if terminal (JobStatus (KeptJob s)) then Some (JobStatus (KeptJob s)) else None)"
  by (auto simp: search_ok_def Let_def ended_status_def tally_of_def cards_left_def terminal_def)

section \<open>Every step of the queue is a step of the board\<close>

lemma unended_left:
  "search_ok n i s \<Longrightarrow> \<not> terminal (JobStatus (KeptJob s)) \<Longrightarrow> 0 \<le> n \<Longrightarrow> 0 < cards_left (tally_of s)"
  by (auto simp: search_left search_ok_def Let_def)

lemma open_board:
  assumes run: "openSearch ttl key hash input w = (r, w')" and cards: "InputCards input \<noteq> []"
  shows "board_step (board_of (wdb w)) (board_of (wdb w'))"
proof (cases r)
  case (Inl e)
  with run have "wdb w' = wdb w" using openSearch_Inl by blast
  then show ?thesis using stay by simp
next
  case (Inr x)
  obtain job created where x: "x = (job, created)" by (cases x)
  from openSearch_Inr [OF run [unfolded Inr x]] show ?thesis
  proof (elim disjE conjE exE)
    assume "wdb w' = wdb w"
    then show ?thesis using stay by simp
  next
    fix n m
    assume "let i = build_id ''search'' (entropy w (draws w));
           ids = drawn_ids ''item'' (entropy w) (Suc (draws w)) (length (InputCards input))
         in row_of Searches i (wdb w) = None
          \<and> job = new_job i (InputGame input) (length (InputCards input)) n
          \<and> wdb w' = put_row Requests (''create:'' @ key)
               \<lparr>RequestHash = hash, RequestResourceID = i, RequestExpiresAt = m + ttl\<rparr>
             (put_row Searches i \<lparr>KeptJob = job, KeptItemIDs = ids, KeptExpiresAt = m + ttl\<rparr>
               (wdb w))
          \<and> draws w' = draws w + Suc (length (InputCards input))"
    then have db: "row_of Searches (build_id ''search'' (entropy w (draws w))) (wdb w) = None"
      "board_of (wdb w') = (board_of (wdb w))(build_id ''search'' (entropy w (draws w)) \<mapsto>
         new_tally (int (length (InputCards input))))"
      by (simp_all add: Let_def tally_new)
    from db(1) have "board_of (wdb w) (build_id ''search'' (entropy w (draws w))) = None"
      by (simp add: board_of_def)
    then show ?thesis unfolding db(2) by (rule announce) (simp add: cards)
  qed
qed

lemma cancel_board:
  assumes ok: "queue_ok (wdb w)" and run: "Store_CancelSearch ttl i key hash w = (r, w')"
  shows "board_step (board_of (wdb w)) (board_of (wdb w'))"
proof (cases r)
  case (Inl e)
  with run have "wdb w' = wdb w" by (auto simp: Store_CancelSearch_def go_io dest: Transact_Inl)
  then show ?thesis using stay by simp
next
  case (Inr job)
  from Store_CancelSearch_Inr [OF run [unfolded Inr]] show ?thesis
  proof (elim disjE conjE exE)
    assume "wdb w' = wdb w"
    then show ?thesis using stay by simp
  next
    fix s n
    assume s: "row_of Searches i (wdb w) = Some s" "JobStatus (KeptJob s) \<in> {JobQueued, JobRunning}"
      and db: "wdb w' = put_row Requests (''cancel:'' @ key)
               \<lparr>RequestHash = hash, RequestResourceID = JobID job, RequestExpiresAt = n + ttl\<rparr>
             (put_row Searches i (cancelled s n) (wdb w))"
    have "0 < cards_left (tally_of s)"
      using unended_left [OF queue_ok_search [OF ok s(1)]] s(2) by (auto simp: terminal_def)
    moreover have "\<not> TallyCalledOff (tally_of s)" using s(2) by (auto simp: tally_of_def Let_def)
    moreover have "board_of (wdb w) i = Some (tally_of s)" using s(1) by (simp add: board_of_def)
    ultimately show ?thesis unfolding db using call_off by (simp add: tally_cancelled)
  qed
qed

lemma claim_board:
  assumes ok: "system_ok (w, os, ws)" and run: "claimOnce owner lease w = (r, w')"
  shows "board_of (wdb w') = board_of (wdb w)"
proof (cases "taken r = []")
  case True
  show ?thesis by (rule board_of_same) (rule claim_idle_rows(1) [OF ok run True])
next
  case False
  then obtain it d where "r = Inr (it, d)" "ItemID it \<noteq> []"
    by (auto simp: taken_def split: sum.splits prod.splits if_splits)
  note r = run [unfolded this(1)] this(2)
  show ?thesis
  proof (rule claim_unfinished [OF system_ok_parts(1,4) [OF ok] r])
    fix cand stored n
    assume s: "row_of Searches (ItemSearchID it) (wdb w) = Some stored"
      "\<not> terminal (JobStatus (KeptJob stored))"
      and db: "wdb w' = put_row Searches (ItemSearchID it)
          (started stored (ItemOriginalName (KeptItem cand)) n)
         (put_row Items (ItemID it) (leased cand owner (n + lease)) (wdb w))"
    have "board_of (wdb w) (ItemSearchID it) = Some (tally_of stored)" using s(1) by (simp add: board_of_def)
    moreover have "tally_of (started stored (ItemOriginalName (KeptItem cand)) n) = tally_of stored"
      using s(2) by (intro tally_started) (auto simp: terminal_def)
    ultimately show ?thesis unfolding db by (simp add: fun_upd_idem)
  qed
qed

lemma renew_board:
  assumes tx: "\<not> tx_open w" and run: "RenewItemLease x owner lease w = (r, w')"
  shows "board_of (wdb w') = board_of (wdb w)"
proof (cases r)
  case (Inl e)
  with run have "wdb w' = wdb w" using atomicD [OF atomic_RenewItemLease] by blast
  then show ?thesis by simp
next
  case (Inr u)
  from run [unfolded Inr] tx show ?thesis by (rule RenewItemLease_Inr) simp
qed

lemma complete_board:
  assumes ok: "system_ok (w, os, ws)" and work: "working_ok (wdb w) it"
    and st: "ItemStatus it \<in> {ItemFound, ItemNotFound, ItemSourceError}"
    and run: "CompleteSearchItem it offers w = (r, w')"
  shows "board_step (board_of (wdb w)) (board_of (wdb w'))"
  using ok work run
proof (cases rule: complete_cases)
  case 1
  then show ?thesis using stay by simp
next
  case (2 stored parent n m)
  let ?i = "ItemSearchID it" and ?b = "board_of (wdb w)"
  have at: "?b ?i = Some (tally_of parent)" using 2(5) by (simp add: board_of_def)
  have left: "0 < cards_left (tally_of parent)"
    using search_left [OF queue_ok_search [OF system_ok_parts(1) [OF ok] 2(5)]] 2(6) by simp
  have "board_of (wdb w') = ?b(?i \<mapsto> tally_of (parent\<lparr>KeptJob := after_count (KeptJob parent)
                    (settled it (JobProcessed (KeptJob parent))) n m\<rparr>))"
    using 2(8) by (auto simp: board_of_def fun_eq_iff)
  with st at left show ?thesis
    unfolding tally_counted
    by (auto intro: report_found report_missing report_error)
qed

lemma step_board:
  assumes ok: "system_ok (w, os, ws)" and step: "queue_step env (w, os, ws) (w', os', ws')"
  shows "board_step (board_of (wdb w)) (board_of (wdb w'))"
proof -
  note P = system_ok_parts [OF ok]
  show ?thesis using step
  proof cases
    case (Open ttl key hash input r)
    then show ?thesis using open_board by blast
  next
    case (Fill job input r)
    have "board_of (wdb w') = board_of (wdb w)"
      by (rule board_of_same) (rule fill_rows_kept(2) [OF ok Fill(3,4)])
    then show ?thesis using stay by simp
  next
    case (Cancel ttl j key hash r)
    then show ?thesis using cancel_board [OF P(1)] by blast
  next
    case (Claim owner lease r)
    then show ?thesis using claim_board [OF ok] stay by metis
  next
    case (Renew x owner lease r)
    then show ?thesis using renew_board [OF P(2)] stay by metis
  next
    case (Complete it faults offers err r)
    have "working_ok (wdb w) (applyItemResult (it\<lparr>ItemFaults := faults\<rparr>) offers err)"
      using P(8) [OF Complete(3)] by (simp add: working_ok_def)
    from complete_board [OF ok this applyItemResult_finished Complete(4)] show ?thesis .
  next
    case Elsewhere
    have "board_of (wdb w') = board_of (wdb w)"
      by (rule board_of_same) (rule rows_unchanged(2) [OF Elsewhere(4,5)])
    then show ?thesis using stay by simp
  qed
qed

lemma board_tells_end:
  assumes ok: "queue_ok d" and s: "row_of Searches i d = Some s"
  shows "board_of d i = Some (tally_of s)
     \<and> ended_status (tally_of s) =
         (if JobFinishedAt (KeptJob s) \<noteq> None then Some (JobStatus (KeptJob s)) else None)"
proof -
  note ok = queue_ok_search [OF ok s]
  have "(JobFinishedAt (KeptJob s) \<noteq> None) = terminal (JobStatus (KeptJob s))"
    using ok by (simp add: search_ok_def Let_def)
  with s search_ended [OF ok] show ?thesis by (simp add: board_of_def)
qed

text \<open>C37 The queue implements its board: from any reachable state, every transaction of the two
  stores, whatever it answers, is one step of the board (a search announced, one card
  reported while cards are left, a search called off while cards are left, or nothing at
  all), and in the state it leaves, a search has ended exactly when its tally says so, with
  the status the tally stands for.\<close>
theorem queue_implements_board:
  assumes "reachable env (w, os, ws)" and step: "queue_step env (w, os, ws) (w', os', ws')"
  shows "board_step (board_of (wdb w)) (board_of (wdb w'))
    \<and> (\<forall>i s. row_of Searches i (wdb w') = Some s \<longrightarrow>
         board_of (wdb w') i = Some (tally_of s)
         \<and> ended_status (tally_of s) =
             (if JobFinishedAt (KeptJob s) \<noteq> None then Some (JobStatus (KeptJob s)) else None))"
proof -
  have ok: "system_ok (w, os, ws)" using assms(1) by (rule reachable_ok)
  have "queue_ok (wdb w')" using step_keeps [OF step ok] by (simp add: system_ok_def)
  with step_board [OF ok step] board_tells_end show ?thesis by blast
qed

theorem queue_implements_board_witness:
  "board_step (board_of (wdb (snd demo_claimed))) (board_of (wdb (snd demo_completed)))"
  by (rule queue_implements_board [OF reach3 step4, THEN conjunct1])

end
