(* ===== verification/Prices.thy ===== *)
theory Prices
  imports CardNames "HOL-Library.Product_Lexorder" "HOL-Library.List_Lexorder"
begin

text \<open>
  The price half of internal/model/offer.go and internal/model/units.go: validation,
  de-duplication, the choice of the offers whose stock is checked, the flag on suspicious
  prices, the decimal arithmetic under them, and the units a storefront page declares.
  The lemmas relate the textual price order to the cents the prices denote, and bound what
  the suspicion test can flag.
\<close>

section \<open>Formatting numbers\<close>

fun nat_digits :: "nat \<Rightarrow> string" where
  "nat_digits n =
     (if n < 10 then [char_of (48 + n)] else nat_digits (n div 10) @ [char_of (48 + n mod 10)])"

declare nat_digits.simps [simp del]

definition Itoa :: "int \<Rightarrow> string" where
  "Itoa n = (if n < 0 then CHR ''-'' # nat_digits (nat (- n)) else nat_digits (nat n))"

section \<open>Addresses\<close>

text \<open>
  What the program reads of a parsed URL.  \<open>url.Parse\<close> and \<open>url.ParseRequestURI\<close> are
  arguments: every statement holds whatever they accept.
\<close>

record url =
  URLScheme :: string
  URLHost :: string

record url_parser =
  parse_url :: "string \<Rightarrow> url option"
  parse_request_uri :: "string \<Rightarrow> url option"

definition ValidateOffer :: "url_parser \<Rightarrow> offer \<Rightarrow> failure + unit" where
  "ValidateOffer net it =
     (let link = parse_request_uri net (OfferURL it);
          valid = OfferStore it \<noteq> [] \<and> OfferSource it \<noteq> [] \<and> OfferPriceAmount it \<noteq> []
                  \<and> link \<noteq> None
      in case link of
           None \<Rightarrow> Inl ErrInvalidOffer
         | Some l \<Rightarrow> if \<not> valid \<or> URLScheme l = [] \<or> URLHost l = []
                     then Inl ErrInvalidOffer else Inr ())"

section \<open>De-duplication\<close>

definition dedup_key :: "offer \<Rightarrow> string" where
  "dedup_key it = Join [OfferStore it, OfferURL it, OfferVariantID it] ''|''"

fun dedup_from :: "string list \<Rightarrow> offer list \<Rightarrow> offer list" where
  "dedup_from seen [] = []"
| "dedup_from seen (it # items) =
     (if dedup_key it \<in> set seen then dedup_from seen items
      else it # dedup_from (dedup_key it # seen) items)"

definition DeduplicateOffers :: "offer list \<Rightarrow> offer list" where
  "DeduplicateOffers items = dedup_from [] items"

section \<open>Decimal prices\<close>

fun Compare :: "string \<Rightarrow> string \<Rightarrow> int" where
  "Compare [] [] = 0"
| "Compare [] (b # bs) = - 1"
| "Compare (a # as) [] = 1"
| "Compare (a # as) (b # bs) =
     (if byte a < byte b then - 1 else if byte b < byte a then 1 else Compare as bs)"

definition read_fraction :: "string option \<Rightarrow> string" where
  "read_fraction part = (case part of None \<Rightarrow> ''00'' | Some f \<Rightarrow> take 2 (f @ ''00''))"

definition normalizeDecimal :: "string \<Rightarrow> string" where
  "normalizeDecimal v =
     (let (whole0, part) = SplitTwo v CHR ''.'';
          whole = TrimLeft whole0 ''0''
      in (if whole = [] then ''0'' else whole) @ read_fraction part)"

definition compareDecimal :: "string \<Rightarrow> string \<Rightarrow> int" where
  "compareDecimal left right =
     (let left = normalizeDecimal left; right = normalizeDecimal right in
      if length left \<noteq> length right then (if length left < length right then - 1 else 1)
      else Compare left right)"

definition parseCents :: "string \<Rightarrow> failure + int" where
  "parseCents v =
     (let (whole, part) = SplitTwo v CHR ''.'' in
      case Atoi whole of
        None \<Rightarrow> Inl ErrInvalidOffer
      | Some w \<Rightarrow>
          if w < 0 then Inl ErrInvalidOffer
          else (case Atoi (read_fraction part) of
                  None \<Rightarrow> Inl ErrInvalidOffer
                | Some cents \<Rightarrow> Inr (wrap64 (w * 100 + cents))))"

section \<open>Choosing the offers to check\<close>

text \<open>\<open>sort.SliceStable\<close> with a strict order: insertion keeps equals in place.\<close>

fun insert_by :: "('a \<Rightarrow> 'a \<Rightarrow> bool) \<Rightarrow> 'a \<Rightarrow> 'a list \<Rightarrow> 'a list" where
  "insert_by lt x [] = [x]"
| "insert_by lt x (y # ys) = (if lt y x then y # insert_by lt x ys else x # y # ys)"

definition stable_sort :: "('a \<Rightarrow> 'a \<Rightarrow> bool) \<Rightarrow> 'a list \<Rightarrow> 'a list" where
  "stable_sort lt xs = foldr (insert_by lt) xs []"

definition filterTrusted :: "offer list \<Rightarrow> offer list" where
  "filterTrusted items = filter (\<lambda>it. \<not> OfferSuspicious it) items"

definition SelectStockOffers :: "offer list \<Rightarrow> nat \<Rightarrow> offer list" where
  "SelectStockOffers items limit =
     (let result = filterTrusted (stable_sort
             (\<lambda>a b. compareDecimal (OfferPriceAmount a) (OfferPriceAmount b) < 0) items)
      in if limit < length result then take limit result else result)"

section \<open>Suspicious prices\<close>

type_synonym price_group = "string \<times> string"

definition price_group_of :: "text_env \<Rightarrow> card_query \<Rightarrow> offer \<Rightarrow> price_group" where
  "price_group_of env q it = (PriceGroupOf env q it, OfferPriceCurrency it)"

fun group_prices ::
  "text_env \<Rightarrow> card_query \<Rightarrow> offer list \<Rightarrow> (price_group \<times> int list) list \<Rightarrow> (price_group \<times> int list) list"
where
  "group_prices env q [] groups = groups"
| "group_prices env q (it # items) groups =
     (case parseCents (OfferPriceAmount it) of
        Inl _ \<Rightarrow> group_prices env q items groups
      | Inr cents \<Rightarrow>
          (let peers = price_group_of env q it;
               prices = (case map_of groups peers of None \<Rightarrow> [] | Some ps \<Rightarrow> ps)
           in group_prices env q items (AList.update peers (prices @ [cents]) groups)))"

definition groupOfferPrices ::
  "text_env \<Rightarrow> offer list \<Rightarrow> card_query \<Rightarrow> (price_group \<times> int list) list" where
  "groupOfferPrices env items q = group_prices env q items []"

definition median_of :: "int list \<Rightarrow> int" where
  "median_of prices = sort prices ! (length prices div 2)"

definition findPriceMedians ::
  "(price_group \<times> int list) list \<Rightarrow> (price_group \<times> int) list" where
  "findPriceMedians groups = map (\<lambda>(g, prices). (g, median_of prices)) groups"

definition suspicion_reason :: "int \<Rightarrow> string" where
  "suspicion_reason percent = ''price_below_'' @ Itoa percent @ ''_percent_median''"

definition priced_low :: "text_env \<Rightarrow> (price_group \<times> int) list \<Rightarrow> int \<Rightarrow> card_query \<Rightarrow> offer \<Rightarrow> bool" where
  "priced_low env medians percent q it =
     (let median = (case map_of medians (price_group_of env q it) of None \<Rightarrow> 0 | Some m \<Rightarrow> m)
      in case parseCents (OfferPriceAmount it) of
           Inl _ \<Rightarrow> False
         | Inr cents \<Rightarrow> 0 < median \<and> wrap64 (cents * 100) < wrap64 (median * percent))"

definition applySuspicious ::
  "text_env \<Rightarrow> offer list \<Rightarrow> (price_group \<times> int) list \<Rightarrow> int \<Rightarrow> card_query \<Rightarrow> offer list" where
  "applySuspicious env items medians percent q =
     map (\<lambda>it. if priced_low env medians percent q it
               then it\<lparr>OfferSuspicious := True, OfferSuspiciousReason := suspicion_reason percent\<rparr>
               else it) items"

definition MarkSuspicious :: "text_env \<Rightarrow> offer list \<Rightarrow> int \<Rightarrow> card_query \<Rightarrow> offer list" where
  "MarkSuspicious env items percent q =
     (let groups = groupOfferPrices env items q; medians = findPriceMedians groups
      in applySuspicious env items medians percent q)"

section \<open>Declared units\<close>

text \<open>
  Case-insensitive matching of a lower-case ASCII word, with the folds Unicode adds: the
  long s (U+017F) for s and the Kelvin sign (U+212A) for k.
\<close>

fun strip_fold :: "string \<Rightarrow> string \<Rightarrow> string option" where
  "strip_fold [] s = Some s"
| "strip_fold (p # ps) s =
     (case s of
        [] \<Rightarrow> None
      | c # r \<Rightarrow>
          if lower_byte c = p then strip_fold ps r
          else if p = CHR ''s'' \<and> prefix [CHR 0xC5, CHR 0xBF] s then strip_fold ps (drop 2 s)
          else if p = CHR ''k'' \<and> prefix [CHR 0xE2, CHR 0x84, CHR 0xAA] s
               then strip_fold ps (drop 3 s)
          else None)"

definition regex_space :: "char \<Rightarrow> bool" where
  "regex_space c \<longleftrightarrow> byte c \<in> {9, 10, 12, 13, 32}"

definition unit_words :: "string list" where
  "unit_words = [''unidade'', ''disponible'', ''en stock'']"

definition units_after :: "string \<Rightarrow> bool" where
  "units_after s \<longleftrightarrow>
     (let rest = dropWhile regex_space s
      in list_ex (\<lambda>w. strip_fold w rest \<noteq> None) unit_words)"

text \<open>The captured digits of a match at the head: the longest of one to four that works.\<close>

definition match_units :: "string \<Rightarrow> string option" where
  "match_units s =
     (let run = length (takeWhile is_digit s)
      in map_option (\<lambda>k. take k s)
           (find (\<lambda>k. k \<le> run \<and> units_after (drop k s)) [4, 3, 2, 1 :: nat]))"

fun find_units :: "string \<Rightarrow> string option" where
  "find_units [] = None"
| "find_units (c # s) =
     (case match_units (c # s) of Some d \<Rightarrow> Some d | None \<Rightarrow> find_units s)"

definition CountDeclaredUnits :: "string \<Rightarrow> int option" where
  "CountDeclaredUnits data =
     (case find_units data of None \<Rightarrow> None | Some d \<Rightarrow> Atoi d)"

section \<open>De-duplication keeps the first of each key\<close>

lemma dedup_from_set:
  "dedup_key ` set (dedup_from seen items) = dedup_key ` set items - set seen"
proof (induction items arbitrary: seen)
  case (Cons it items)
  then show ?case by (cases "dedup_key it \<in> set seen") (simp_all add: insert_Diff_if, blast)
qed simp

lemma dedup_from_distinct: "distinct (map dedup_key (dedup_from seen items))"
proof (induction items arbitrary: seen)
  case (Cons it items)
  then show ?case by (simp add: dedup_from_set)
qed simp

lemma dedup_from_first:
  "it \<in> set (dedup_from seen items) \<Longrightarrow>
   find (\<lambda>x. dedup_key x = dedup_key it) items = Some it \<and> dedup_key it \<notin> set seen"
proof (induction items arbitrary: seen)
  case (Cons a items)
  consider "it \<in> set (dedup_from seen items)" "dedup_key a \<in> set seen"
    | "it = a" "dedup_key a \<notin> set seen"
    | "it \<in> set (dedup_from (dedup_key a # seen) items)" "dedup_key a \<notin> set seen"
    using Cons.prems by (auto split: if_splits)
  then show ?case
  proof cases
    case 1 with Cons.IH [of seen] show ?thesis by auto
  next
    case 3 with Cons.IH [of "dedup_key a # seen"] show ?thesis by auto
  qed simp
qed simp

lemma dedup_from_subseq: "subseq (dedup_from seen items) items"
  by (induction items arbitrary: seen) auto

lemma dedup_from_id:
  "distinct (map dedup_key items) \<Longrightarrow> dedup_key ` set items \<inter> set seen = {} \<Longrightarrow>
   dedup_from seen items = items"
  by (induction items arbitrary: seen) auto

section \<open>Digits denote numbers\<close>

lemma foldl_digits:
  "foldl (\<lambda>n c. 10 * n + digit_value c) n s
   = n * 10 ^ length s + foldl (\<lambda>n c. 10 * n + digit_value c) 0 s"
proof (induction s rule: rev_induct)
  case (snoc c s)
  have "foldl (\<lambda>n c. 10 * n + digit_value c) n (s @ [c])
      = 10 * (n * 10 ^ length s + foldl (\<lambda>n c. 10 * n + digit_value c) 0 s) + digit_value c"
    by (simp only: foldl_append foldl.simps snoc.IH)
  then show ?case by (simp add: distrib_left)
qed simp

lemma digits_value_Nil [simp]: "digits_value [] = 0"
  by (simp add: digits_value_def)

lemma digits_value_Cons: "digits_value (c # s) = digit_value c * 10 ^ length s + digits_value s"
  using foldl_digits [of "digit_value c" s] by (simp add: digits_value_def)

lemma digits_value_append: "digits_value (a @ b) = digits_value a * 10 ^ length b + digits_value b"
  using foldl_digits [of "digits_value a" b] by (simp add: digits_value_def)

lemma digit_value_bounds: "is_digit c \<Longrightarrow> 0 \<le> digit_value c \<and> digit_value c \<le> 9"
  by (auto simp: is_digit_def digit_value_def)

lemma digits_value_bounds:
  "list_all is_digit s \<Longrightarrow> 0 \<le> digits_value s \<and> digits_value s < 10 ^ length s"
proof (induction s)
  case (Cons c s)
  then have "0 \<le> digit_value c" "digit_value c \<le> 9" and s: "0 \<le> digits_value s"
      "digits_value s < 10 ^ length s"
    using digit_value_bounds by auto
  then have "digit_value c * 10 ^ length s \<le> 9 * 10 ^ length s"
    by (intro mult_right_mono) auto
  moreover have "0 \<le> digit_value c * 10 ^ length s" using \<open>0 \<le> digit_value c\<close> by simp
  ultimately have "0 \<le> digit_value c * 10 ^ length s + digits_value s"
    and "digit_value c * 10 ^ length s + digits_value s < 10 * 10 ^ length s"
    using s by linarith+
  then show ?case by (simp add: digits_value_Cons)
qed simp

lemma digits_value_TrimLeft: "digits_value (TrimLeft s ''0'') = digits_value s"
  by (induction s) (auto simp: TrimLeft_def digits_value_Cons digit_value_def byte_def)

lemma Compare_digits:
  "length a = length b \<Longrightarrow> list_all is_digit a \<Longrightarrow> list_all is_digit b \<Longrightarrow>
   Compare a b < 0 \<longleftrightarrow> digits_value a < digits_value b"
proof (induction a b rule: Compare.induct)
  case (4 a as b bs)
  then have len: "length as = length bs" and a: "0 \<le> digits_value as" "digits_value as < 10 ^ length bs"
    and b: "0 \<le> digits_value bs" "digits_value bs < 10 ^ length bs"
    using digits_value_bounds [of as] digits_value_bounds [of bs] by auto
  have step: "x * 10 ^ length bs + u < y * 10 ^ length bs + v"
    if "x < y" "0 \<le> u" "u < 10 ^ length bs" "0 \<le> v" for x y u v :: int
  proof -
    have "(x + 1) * 10 ^ length bs \<le> y * 10 ^ length bs"
      using that(1) by (intro mult_right_mono) auto
    with that show ?thesis by (simp add: algebra_simps)
  qed
  consider "byte a < byte b" | "byte b < byte a" | "byte a = byte b" by linarith
  then show ?case
  proof cases
    case 1
    then have "digit_value a < digit_value b" by (simp add: digit_value_def)
    from step [OF this a b(1)] 1 len show ?thesis by (simp add: digits_value_Cons)
  next
    case 2
    then have "digit_value b < digit_value a" by (simp add: digit_value_def)
    from step [OF this b a(1)] 2 len show ?thesis by (simp add: digits_value_Cons)
  next
    case 3
    then have "digit_value a = digit_value b" by (simp add: digit_value_def)
    with 3 4 len show ?thesis by (simp add: digits_value_Cons)
  qed
qed simp_all

section \<open>Decimal prices in cents\<close>

text \<open>A price as the stores write it: digits, and digits after at most one point.\<close>

definition decimal_digits :: "string \<Rightarrow> bool" where
  "decimal_digits v =
     (let (whole, part) = SplitTwo v CHR ''.'' in
      whole \<noteq> [] \<and> list_all is_digit whole
      \<and> (case part of None \<Rightarrow> True | Some f \<Rightarrow> list_all is_digit f))"

definition price_cents :: "string \<Rightarrow> int" where
  "price_cents v =
     (let (whole, part) = SplitTwo v CHR ''.'' in
      digits_value whole * 100 + digits_value (read_fraction part))"

lemma read_fraction_digits:
  "(case part of None \<Rightarrow> True | Some f \<Rightarrow> list_all is_digit f) \<Longrightarrow>
   list_all is_digit (read_fraction part) \<and> length (read_fraction part) = 2"
proof -
  assume p: "case part of None \<Rightarrow> True | Some f \<Rightarrow> list_all is_digit f"
  have z: "list_all is_digit ''00''" by (simp add: is_digit_def byte_def)
  show ?thesis
  proof (cases part)
    case (Some f)
    then have "list_all is_digit (f @ ''00'')" using p z by simp
    then have "list_all is_digit (take 2 (f @ ''00''))"
      by (metis append_take_drop_id list_all_append)
    with Some show ?thesis by (simp add: read_fraction_def)
  qed (use z in \<open>simp add: read_fraction_def\<close>)
qed

lemma decimal_cases:
  assumes "decimal_digits v"
  obtains whole part where "SplitTwo v CHR ''.'' = (whole, part)" "whole \<noteq> []" "list_all is_digit whole"
    "list_all is_digit (read_fraction part)" "length (read_fraction part) = 2"
    "price_cents v = digits_value whole * 100 + digits_value (read_fraction part)"
  using assms read_fraction_digits
  by (auto simp: decimal_digits_def price_cents_def split: prod.splits)

lemma price_cents_nonneg: "decimal_digits v \<Longrightarrow> 0 \<le> price_cents v"
  by (erule decimal_cases) (use digits_value_bounds in auto)

lemma list_all_dropWhile: "list_all P s \<Longrightarrow> list_all P (dropWhile Q s)"
  by (induction s) auto

lemma normalizeDecimal_props:
  assumes "decimal_digits v"
  shows "list_all is_digit (normalizeDecimal v)" and "3 \<le> length (normalizeDecimal v)"
    and "digits_value (normalizeDecimal v) = price_cents v"
    and "length (normalizeDecimal v) = 3 \<or> 10 ^ (length (normalizeDecimal v) - 1) \<le> price_cents v"
proof -
  obtain whole part where s: "SplitTwo v CHR ''.'' = (whole, part)" and w: "list_all is_digit whole"
    and f: "list_all is_digit (read_fraction part)" "length (read_fraction part) = 2"
    and p: "price_cents v = digits_value whole * 100 + digits_value (read_fraction part)"
    using assms by (rule decimal_cases)
  define t where "t = TrimLeft whole ''0''"
  define u where "u = (if t = [] then ''0'' else t)"
  have n: "normalizeDecimal v = u @ read_fraction part"
    by (simp add: normalizeDecimal_def s u_def t_def)
  have t: "list_all is_digit t" using w by (simp add: t_def TrimLeft_def list_all_dropWhile)
  have tv: "digits_value t = digits_value whole" by (simp add: t_def digits_value_TrimLeft)
  have u: "list_all is_digit u" "u \<noteq> []" using t by (auto simp: u_def is_digit_def byte_def)
  have uv: "digits_value u = digits_value whole"
    using tv by (auto simp: u_def digits_value_Cons digit_value_def byte_def)
  show "list_all is_digit (normalizeDecimal v)" using u f by (simp add: n)
  show "3 \<le> length (normalizeDecimal v)" using u f by (cases u) (simp_all add: n)
  show val: "digits_value (normalizeDecimal v) = price_cents v"
    by (simp add: n digits_value_append f p uv)
  show "length (normalizeDecimal v) = 3 \<or> 10 ^ (length (normalizeDecimal v) - 1) \<le> price_cents v"
  proof (cases t)
    case Nil
    then show ?thesis using f by (simp add: n u_def)
  next
    case (Cons c r)
    then have "c \<notin> set ''0''"
      using hd_dropWhile [of "\<lambda>c. c \<in> set ''0''" whole] by (simp add: t_def TrimLeft_def)
    moreover have "c = CHR ''0''" if "byte c = 48"
    proof -
      have "c = char_of (byte c)" by (simp add: byte_def)
      also have "\<dots> = CHR ''0''" unfolding that by code_simp
      finally show ?thesis .
    qed
    ultimately have "1 \<le> digit_value c"
      using t Cons by (cases "byte c = 48") (auto simp: digit_value_def is_digit_def)
    then have "1 * 10 ^ length r \<le> digit_value c * 10 ^ length r" by (intro mult_right_mono) auto
    moreover have "0 \<le> digits_value r" using t Cons digits_value_bounds by auto
    moreover have "digits_value whole = digit_value c * 10 ^ length r + digits_value r"
      using tv Cons by (simp add: digits_value_Cons)
    ultimately have "10 ^ length r \<le> digits_value whole" by linarith
    moreover have "0 \<le> digits_value (read_fraction part)" using f digits_value_bounds by auto
    ultimately have "10 ^ length r * 100 \<le> price_cents v" using p by linarith
    moreover have "length (normalizeDecimal v) - 1 = length r + 2" using Cons f by (simp add: n u_def)
    ultimately show ?thesis by (simp add: power_add)
  qed
qed

lemma compareDecimal_cents:
  assumes a: "decimal_digits a" and b: "decimal_digits b"
  shows "compareDecimal a b < 0 \<longleftrightarrow> price_cents a < price_cents b"
proof -
  let ?a = "normalizeDecimal a" and ?b = "normalizeDecimal b"
  note A = normalizeDecimal_props [OF a] and B = normalizeDecimal_props [OF b]
  have shorter: "price_cents x < price_cents y"
    if x: "decimal_digits x" and y: "decimal_digits y"
      and len: "length (normalizeDecimal x) < length (normalizeDecimal y)" for x y
  proof -
    note X = normalizeDecimal_props [OF x] and Y = normalizeDecimal_props [OF y]
    have "price_cents x < 10 ^ length (normalizeDecimal x)"
      using digits_value_bounds [OF X(1)] X(3) by simp
    also have "\<dots> \<le> 10 ^ (length (normalizeDecimal y) - 1)"
      using len by (intro power_increasing) auto
    also have "\<dots> \<le> price_cents y" using X(2) Y(4) len by auto
    finally show ?thesis .
  qed
  consider "length ?a < length ?b" | "length ?b < length ?a" | "length ?a = length ?b" by linarith
  then show ?thesis
  proof cases
    case 1 with shorter [OF a b] show ?thesis by (simp add: compareDecimal_def)
  next
    case 2 with shorter [OF b a] show ?thesis by (simp add: compareDecimal_def)
  next
    case 3
    with Compare_digits [OF 3 A(1) B(1)] A(3) B(3) show ?thesis by (simp add: compareDecimal_def)
  qed
qed

lemma Atoi_digits:
  assumes "list_all is_digit s" and "s \<noteq> []"
  shows "Atoi s = (if digits_value s \<le> max_int64 then Some (digits_value s) else None)"
proof -
  obtain c r where s: "s = c # r" using assms(2) by (cases s) auto
  have "c \<noteq> CHR ''-''" "c \<noteq> CHR ''+''" using assms(1) by (auto simp: s is_digit_def byte_def)
  then have "Atoi s = (if fits64 (digits_value s) then Some (digits_value s) else None)"
    using assms by (simp add: Atoi_def s)
  moreover have "0 \<le> digits_value s" using digits_value_bounds assms(1) by blast
  ultimately show ?thesis by (simp add: int64_defs)
qed

lemma parseCents_exact:
  assumes v: "decimal_digits v" and fits: "price_cents v \<le> max_int64"
  shows "parseCents v = Inr (price_cents v)"
proof -
  obtain whole part where s: "SplitTwo v CHR ''.'' = (whole, part)" "whole \<noteq> []" "list_all is_digit whole"
    and f: "list_all is_digit (read_fraction part)" "length (read_fraction part) = 2"
    and p: "price_cents v = digits_value whole * 100 + digits_value (read_fraction part)"
    using v by (rule decimal_cases)
  have w: "0 \<le> digits_value whole" and c: "0 \<le> digits_value (read_fraction part)"
      "digits_value (read_fraction part) < 100"
    using digits_value_bounds [OF s(3)] digits_value_bounds [OF f(1)] f(2) by auto
  have "Atoi whole = Some (digits_value whole)"
    using fits p w c s by (subst Atoi_digits) (auto simp: max_int64_def)
  moreover have "Atoi (read_fraction part) = Some (digits_value (read_fraction part))"
    using f c by (subst Atoi_digits) (auto simp: max_int64_def)
  ultimately show ?thesis
    using s(1) w fits price_cents_nonneg [OF v]
    by (simp add: parseCents_def p [symmetric]) (simp add: int64_defs)
qed

section \<open>The offers whose stock is checked\<close>

text \<open>The key \<open>compareDecimal\<close> sorts by, for any text.\<close>

definition decimal_key :: "string \<Rightarrow> nat \<times> nat list" where
  "decimal_key v = (length (normalizeDecimal v), map byte (normalizeDecimal v))"

lemma Compare_lex: "Compare a b < 0 \<longleftrightarrow> map byte a < map byte b"
  by (induction a b rule: Compare.induct) auto

lemma compareDecimal_key: "compareDecimal a b < 0 \<longleftrightarrow> decimal_key a < decimal_key b"
  by (auto simp: compareDecimal_def decimal_key_def Let_def Compare_lex less_prod_def')

lemma insert_by_insort:
  "(\<And>a b. lt a b \<longleftrightarrow> f a < (f b :: 'k::linorder)) \<Longrightarrow> insert_by lt x ys = insort_key f x ys"
  by (induction ys) (auto simp: not_less)

lemma stable_sort_key:
  "(\<And>a b. lt a b \<longleftrightarrow> f a < (f b :: 'k::linorder)) \<Longrightarrow> stable_sort lt xs = sort_key f xs"
  by (induction xs) (simp_all add: stable_sort_def sort_key_def insert_by_insort)

lemma SelectStockOffers_eq:
  "SelectStockOffers items limit =
   take limit (filterTrusted (sort_key (\<lambda>it. decimal_key (OfferPriceAmount it)) items))"
proof -
  have "stable_sort (\<lambda>a b. compareDecimal (OfferPriceAmount a) (OfferPriceAmount b) < 0) items
      = sort_key (\<lambda>it. decimal_key (OfferPriceAmount it)) items"
    by (rule stable_sort_key) (rule compareDecimal_key)
  then show ?thesis by (simp add: SelectStockOffers_def Let_def)
qed

lemma selected_trusted:
  "x \<in> set (SelectStockOffers items limit) \<Longrightarrow> x \<in> set items \<and> \<not> OfferSuspicious x"
  by (auto simp: SelectStockOffers_eq filterTrusted_def dest: in_set_takeD)

lemma selected_cheapest:
  assumes x: "x \<in> set (SelectStockOffers items limit)"
    and y: "y \<in> set items" "\<not> OfferSuspicious y" "y \<notin> set (SelectStockOffers items limit)"
  shows "\<not> compareDecimal (OfferPriceAmount y) (OfferPriceAmount x) < 0"
proof -
  let ?f = "\<lambda>it. decimal_key (OfferPriceAmount it)"
  let ?s = "sort_key ?f (filter (\<lambda>it. \<not> OfferSuspicious it) items)"
  have sel: "SelectStockOffers items limit = take limit ?s"
    by (simp add: SelectStockOffers_eq filterTrusted_def filter_sort)
  have "y \<in> set ?s" using y by simp
  then have "y \<in> set (take limit ?s) \<or> y \<in> set (drop limit ?s)"
    by (metis Un_iff append_take_drop_id set_append)
  then have "?f x \<le> ?f y" using x y(3) sort_key_take_le [of x limit ?f] by (auto simp: sel)
  then show ?thesis by (simp add: compareDecimal_key not_less)
qed

section \<open>Suspicious prices\<close>

text \<open>The prices that compare with a group, in the order of the offers.\<close>

definition peer_price :: "text_env \<Rightarrow> card_query \<Rightarrow> price_group \<Rightarrow> offer \<Rightarrow> int option" where
  "peer_price env q g it =
     (if price_group_of env q it = g
      then (case parseCents (OfferPriceAmount it) of Inr c \<Rightarrow> Some c | Inl _ \<Rightarrow> None) else None)"

definition peer_prices :: "text_env \<Rightarrow> card_query \<Rightarrow> price_group \<Rightarrow> offer list \<Rightarrow> int list" where
  "peer_prices env q g items = List.map_filter (peer_price env q g) items"

lemma peer_prices_simps [simp]:
  "peer_prices env q g [] = []"
  "peer_prices env q g (it # items) =
     (case peer_price env q g it of None \<Rightarrow> [] | Some c \<Rightarrow> [c]) @ peer_prices env q g items"
  by (simp_all add: peer_prices_def map_filter_simps split: option.splits)

lemma group_prices_lookup:
  "map_of (group_prices env q items groups) g =
   (case map_of groups g of
      Some ps \<Rightarrow> Some (ps @ peer_prices env q g items)
    | None \<Rightarrow> if peer_prices env q g items = [] then None else Some (peer_prices env q g items))"
proof (induction items arbitrary: groups)
  case (Cons it items)
  show ?case
  proof (cases "parseCents (OfferPriceAmount it)")
    case Inl
    then have "peer_price env q g it = None" by (simp add: peer_price_def)
    with Inl Cons show ?thesis by (simp split: option.splits)
  next
    case (Inr c)
    show ?thesis
      by (cases "price_group_of env q it = g")
         (simp_all add: Inr Cons.IH Let_def peer_price_def map_of_alist_update split: option.splits)
  qed
qed (simp split: option.splits)

lemma map_of_findPriceMedians:
  "map_of (findPriceMedians groups) g = map_option median_of (map_of groups g)"
  by (induction groups) (auto simp: findPriceMedians_def)

lemma priced_low_iff:
  "priced_low env (findPriceMedians (groupOfferPrices env items q)) percent q it \<longleftrightarrow>
   (\<exists>c. parseCents (OfferPriceAmount it) = Inr c
      \<and> peer_prices env q (price_group_of env q it) items \<noteq> []
      \<and> 0 < median_of (peer_prices env q (price_group_of env q it) items)
      \<and> wrap64 (c * 100)
        < wrap64 (median_of (peer_prices env q (price_group_of env q it) items) * percent))"
  by (auto simp: priced_low_def map_of_findPriceMedians groupOfferPrices_def group_prices_lookup
      Let_def split: sum.splits)

lemma below_median_count:
  "length (filter (\<lambda>x. x < median_of xs) xs) \<le> length xs div 2"
proof (cases "xs = []")
  case False
  let ?s = "sort xs" and ?k = "length xs div 2"
  have k: "?k < length ?s" using False by (cases xs) auto
  have "length (filter (\<lambda>x. x < median_of xs) xs) = length (filter (\<lambda>x. x < ?s ! ?k) ?s)"
    unfolding median_of_def by (metis filter_sort length_sort)
  also have "\<dots> = length (filter (\<lambda>x. x < ?s ! ?k) (take ?k ?s @ drop ?k ?s))"
    by simp
  also have "\<dots> = length (filter (\<lambda>x. x < ?s ! ?k) (take ?k ?s))
      + length (filter (\<lambda>x. x < ?s ! ?k) (drop ?k ?s))"
    unfolding filter_append length_append ..
  also have "filter (\<lambda>x. x < ?s ! ?k) (drop ?k ?s) = []"
    by (auto simp: filter_empty_conv in_set_conv_nth sorted_nth_mono not_less)
  also have "length (filter (\<lambda>x. x < ?s ! ?k) (take ?k ?s)) + length ([] :: int list) \<le> ?k"
    using length_filter_le [of "\<lambda>x. x < ?s ! ?k" "take ?k ?s"] by simp
  finally show ?thesis .
qed simp

lemma median_mem: "xs \<noteq> [] \<Longrightarrow> median_of xs \<in> set xs"
  unfolding median_of_def by (metis length_greater_0_conv length_sort nth_mem set_sort div_less_dividend one_less_numeral_iff semiring_norm(76))

lemma flagged_le_below:
  "(\<And>it c. it \<in> set items \<Longrightarrow> peer_price env q g it = Some c \<Longrightarrow> P it \<Longrightarrow> c < m) \<Longrightarrow>
   length (filter (\<lambda>it. peer_price env q g it \<noteq> None \<and> P it) items)
   \<le> length (filter (\<lambda>c. c < m) (peer_prices env q g items))"
proof (induction items)
  case (Cons it items)
  then have "length (filter (\<lambda>it. peer_price env q g it \<noteq> None \<and> P it) items)
      \<le> length (filter (\<lambda>c. c < m) (peer_prices env q g items))" by auto
  with Cons.prems [of it] show ?case by (auto split: option.splits)
qed simp

lemma peer_prices_mem:
  "c \<in> set (peer_prices env q g items) \<Longrightarrow>
   \<exists>it \<in> set items. parseCents (OfferPriceAmount it) = Inr c"
  by (induction items) (auto simp: peer_price_def split: option.splits if_splits sum.splits)

lemma priced_low_peer:
  assumes low: "priced_low env (findPriceMedians (groupOfferPrices env items q)) percent q it"
    and percent: "0 \<le> percent" "percent \<le> 100"
    and small: "\<And>it c. it \<in> set items \<Longrightarrow> parseCents (OfferPriceAmount it) = Inr c \<Longrightarrow>
      0 \<le> c \<and> c * 100 \<le> max_int64"
    and it: "it \<in> set items" "price_group_of env q it = g"
  shows "\<exists>c. peer_price env q g it = Some c \<and> c < median_of (peer_prices env q g items)"
proof -
  let ?ps = "peer_prices env q g items"
  obtain c where c: "parseCents (OfferPriceAmount it) = Inr c" "?ps \<noteq> []" "0 < median_of ?ps"
      "wrap64 (c * 100) < wrap64 (median_of ?ps * percent)"
    using low it(2) unfolding priced_low_iff by auto
  have "median_of ?ps \<in> set ?ps" using c(2) by (rule median_mem)
  then obtain jt where jt: "jt \<in> set items" "parseCents (OfferPriceAmount jt) = Inr (median_of ?ps)"
    using peer_prices_mem by blast
  have m: "median_of ?ps * percent \<le> median_of ?ps * 100"
    using percent c(3) by (intro mult_left_mono) auto
  have "0 \<le> median_of ?ps * percent" using percent c(3) by simp
  then have "wrap64 (c * 100) = c * 100" "wrap64 (median_of ?ps * percent) = median_of ?ps * percent"
    using small [OF it(1) c(1)] small [OF jt] m by (auto intro!: wrap64_id simp: int64_defs)
  with c(4) m have "c * 100 < median_of ?ps * 100" by linarith
  with c(1) it(2) show ?thesis by (simp add: peer_price_def)
qed

lemma flagged_minority_of_group:
  assumes "0 \<le> percent" "percent \<le> 100"
    and "\<And>it c. it \<in> set items \<Longrightarrow> parseCents (OfferPriceAmount it) = Inr c \<Longrightarrow>
      0 \<le> c \<and> c * 100 \<le> max_int64"
  shows "length (filter (\<lambda>it. price_group_of env q it = g \<and>
            priced_low env (findPriceMedians (groupOfferPrices env items q)) percent q it) items)
         \<le> length (peer_prices env q g items) div 2"
proof -
  let ?low = "\<lambda>it. price_group_of env q it = g \<and>
            priced_low env (findPriceMedians (groupOfferPrices env items q)) percent q it"
  have peer: "\<exists>c. peer_price env q g it = Some c \<and> c < median_of (peer_prices env q g items)"
    if "it \<in> set items" "?low it" for it
    by (rule priced_low_peer [where percent = percent]) (use that assms in auto)
  have "filter ?low items = filter (\<lambda>it. peer_price env q g it \<noteq> None \<and> ?low it) items"
    by (rule filter_cong [OF refl]) (use peer in auto)
  also have "length \<dots> \<le> length (filter (\<lambda>c. c < median_of (peer_prices env q g items))
                                 (peer_prices env q g items))"
    by (rule flagged_le_below) (use peer in fastforce)
  also have "\<dots> \<le> length (peer_prices env q g items) div 2" by (rule below_median_count)
  finally show ?thesis .
qed

section \<open>Properties of prices\<close>

text \<open>C35 Prices order as amounts: two prices written as decimal digits (any number of leading zeros,
  any number of decimals, of which two count) compare as their numbers of cents do, and when
  those fit in 64 bits they are what \<open>parseCents\<close> answers.\<close>
theorem prices_order_as_cents:
  assumes "decimal_digits a" "decimal_digits b"
  shows "(compareDecimal a b < 0 \<longleftrightarrow> price_cents a < price_cents b)
    \<and> (price_cents a \<le> max_int64 \<longrightarrow> parseCents a = Inr (price_cents a))"
  using compareDecimal_cents [OF assms] parseCents_exact [OF assms(1)] by blast

theorem prices_order_as_cents_witness:
  "compareDecimal ''0990'' ''1990.5'' < 0 \<and> parseCents ''0990'' = Inr 99000
   \<and> price_cents ''1990.5'' = 199050"
proof -
  have d: "decimal_digits ''0990''" "decimal_digits ''1990.5''" by code_simp+
  have c: "price_cents ''0990'' = 99000" "price_cents ''1990.5'' = 199050" by code_simp+
  from prices_order_as_cents [OF d] c show ?thesis by (simp add: max_int64_def)
qed

text \<open>De-duplication keeps the first offer of every store, address and variant and drops the
  rest: the answer is a subsequence of the offers, no two of its offers share a key, every
  key of an offer is the key of a kept one, each kept offer is the first of its key, and a
  list without repeated keys comes back as it is.\<close>
theorem dedup_keeps_first:
  "subseq (DeduplicateOffers items) items
   \<and> distinct (map dedup_key (DeduplicateOffers items))
   \<and> dedup_key ` set (DeduplicateOffers items) = dedup_key ` set items
   \<and> (\<forall>it \<in> set (DeduplicateOffers items). find (\<lambda>x. dedup_key x = dedup_key it) items = Some it)
   \<and> (distinct (map dedup_key items) \<longrightarrow> DeduplicateOffers items = items)"
  using dedup_from_subseq [of "[]" items] dedup_from_distinct [of "[]" items]
    dedup_from_set [of "[]" items] dedup_from_first [of _ "[]" items] dedup_from_id [of items "[]"]
  by (simp add: DeduplicateOffers_def)

theorem dedup_keeps_first_witness:
  "DeduplicateOffers [zero_offer\<lparr>OfferURL := ''u'', OfferPriceAmount := ''1''\<rparr>,
       zero_offer\<lparr>OfferURL := ''u'', OfferPriceAmount := ''2''\<rparr>]
     = [zero_offer\<lparr>OfferURL := ''u'', OfferPriceAmount := ''1''\<rparr>]
   \<and> DeduplicateOffers [zero_offer] = [zero_offer]"
proof -
  have "distinct (map dedup_key [zero_offer])" by simp
  then have "DeduplicateOffers [zero_offer] = [zero_offer]"
    using dedup_keeps_first [of "[zero_offer]"] by blast
  moreover have "DeduplicateOffers [zero_offer\<lparr>OfferURL := ''u'', OfferPriceAmount := ''1''\<rparr>,
       zero_offer\<lparr>OfferURL := ''u'', OfferPriceAmount := ''2''\<rparr>]
     = [zero_offer\<lparr>OfferURL := ''u'', OfferPriceAmount := ''1''\<rparr>]"
    by (simp add: DeduplicateOffers_def dedup_key_def)
  ultimately show ?thesis by blast
qed

text \<open>The offers whose stock is checked are the cheapest trusted ones: at most the limit, none of
  them marked suspicious, and no trusted offer left out is cheaper than one that was taken.\<close>
theorem stock_offers_cheapest:
  "length (SelectStockOffers items limit) \<le> limit
   \<and> (\<forall>x \<in> set (SelectStockOffers items limit). x \<in> set items \<and> \<not> OfferSuspicious x)
   \<and> (\<forall>x \<in> set (SelectStockOffers items limit). \<forall>y \<in> set items.
        \<not> OfferSuspicious y \<longrightarrow> y \<notin> set (SelectStockOffers items limit) \<longrightarrow>
        \<not> compareDecimal (OfferPriceAmount y) (OfferPriceAmount x) < 0)
   \<and> length (SelectStockOffers items limit) = min limit (length (filter (\<lambda>it. \<not> OfferSuspicious it) items))"
proof (intro conjI ballI impI)
  show "length (SelectStockOffers items limit) \<le> limit" by (simp add: SelectStockOffers_eq)
  show "length (SelectStockOffers items limit) = min limit (length (filter (\<lambda>it. \<not> OfferSuspicious it) items))"
    by (simp add: SelectStockOffers_eq filterTrusted_def filter_sort)
qed (use selected_trusted selected_cheapest in blast)+

theorem stock_offers_cheapest_witness:
  "SelectStockOffers [zero_offer\<lparr>OfferPriceAmount := ''900''\<rparr>, zero_offer\<lparr>OfferPriceAmount := ''1000''\<rparr>,
      zero_offer\<lparr>OfferPriceAmount := ''5'', OfferSuspicious := True\<rparr>] 1
     = [zero_offer\<lparr>OfferPriceAmount := ''900''\<rparr>]
   \<and> \<not> compareDecimal ''1000'' ''900'' < 0"
proof -
  let ?a = "zero_offer\<lparr>OfferPriceAmount := ''900''\<rparr>" and ?b = "zero_offer\<lparr>OfferPriceAmount := ''1000''\<rparr>"
  let ?items = "[?a, ?b, zero_offer\<lparr>OfferPriceAmount := ''5'', OfferSuspicious := True\<rparr>]"
  have sel: "SelectStockOffers ?items 1 = [?a]" by code_simp
  have "?a \<in> set (SelectStockOffers ?items 1)" "?b \<in> set ?items" "\<not> OfferSuspicious ?b"
      "?b \<notin> set (SelectStockOffers ?items 1)"
    unfolding sel by (simp_all add: zero_offer_def)
  then have "\<not> compareDecimal (OfferPriceAmount ?b) (OfferPriceAmount ?a) < 0"
    using stock_offers_cheapest [of ?items 1] by blast
  with sel show ?thesis by simp
qed

text \<open>A suspicious price is a minority: with a percentage of at most 100 and prices whose
  hundredfold fits in 64 bits, marking changes nothing but the two suspicion fields, and of
  the offers of one card and currency it marks at most half.\<close>
theorem suspicious_are_minority:
  assumes "0 \<le> percent" "percent \<le> 100"
    and "\<forall>it \<in> set items. \<forall>c. parseCents (OfferPriceAmount it) = Inr c \<longrightarrow> 0 \<le> c \<and> c * 100 \<le> max_int64"
    and "\<forall>it \<in> set items. \<not> OfferSuspicious it"
  shows "map (\<lambda>it. it\<lparr>OfferSuspicious := False, OfferSuspiciousReason := []\<rparr>) (MarkSuspicious env items percent q)
      = map (\<lambda>it. it\<lparr>OfferSuspicious := False, OfferSuspiciousReason := []\<rparr>) items
    \<and> 2 * length (filter (\<lambda>it. price_group_of env q it = g \<and> OfferSuspicious it) (MarkSuspicious env items percent q))
      \<le> length (filter (\<lambda>it. price_group_of env q it = g) items)"
proof
  let ?low = "priced_low env (findPriceMedians (groupOfferPrices env items q)) percent q"
  let ?mark = "\<lambda>it. if ?low it then it\<lparr>OfferSuspicious := True, OfferSuspiciousReason := suspicion_reason percent\<rparr> else it"
  have marked: "MarkSuspicious env items percent q = map ?mark items"
    by (simp add: MarkSuspicious_def applySuspicious_def Let_def)
  show "map (\<lambda>it. it\<lparr>OfferSuspicious := False, OfferSuspiciousReason := []\<rparr>) (MarkSuspicious env items percent q)
      = map (\<lambda>it. it\<lparr>OfferSuspicious := False, OfferSuspiciousReason := []\<rparr>) items"
    by (simp add: marked)
  have group: "price_group_of env q (?mark it) = price_group_of env q it" for it
    by (simp add: price_group_of_def PriceGroupOf_def)
  have "length (filter (\<lambda>it. price_group_of env q it = g \<and> OfferSuspicious it) (map ?mark items))
      = length (filter (\<lambda>it. price_group_of env q it = g \<and> ?low it) items)"
    unfolding filter_map length_map o_def group
    by (rule arg_cong [of _ _ length], rule filter_cong [OF refl]) (use assms(4) in auto)
  also have "\<dots> \<le> length (peer_prices env q g items) div 2"
    using assms(1-3) by (intro flagged_minority_of_group) auto
  finally have half: "length (filter (\<lambda>it. price_group_of env q it = g \<and> OfferSuspicious it)
      (MarkSuspicious env items percent q)) \<le> length (peer_prices env q g items) div 2"
    unfolding marked .
  have "length (peer_prices env q g items) \<le> length (filter (\<lambda>it. price_group_of env q it = g) items)"
    by (induction items) (auto simp: peer_price_def split: option.splits)
  with half show "2 * length (filter (\<lambda>it. price_group_of env q it = g \<and> OfferSuspicious it)
      (MarkSuspicious env items percent q)) \<le> length (filter (\<lambda>it. price_group_of env q it = g) items)"
    by linarith
qed

theorem suspicious_are_minority_witness:
  "map OfferSuspicious (MarkSuspicious plain_env
      [zero_offer\<lparr>OfferPriceAmount := ''1000''\<rparr>, zero_offer\<lparr>OfferPriceAmount := ''900''\<rparr>,
       zero_offer\<lparr>OfferPriceAmount := ''100''\<rparr>] 50
      \<lparr>QueryName = ''opt'', QueryMatch = MatchExact, QueryKind = KindSingle\<rparr>) = [False, False, True]
   \<and> 2 * length (filter (\<lambda>it. price_group_of plain_env
        \<lparr>QueryName = ''opt'', QueryMatch = MatchExact, QueryKind = KindSingle\<rparr> it = (''opt'', []) \<and> OfferSuspicious it)
      (MarkSuspicious plain_env
      [zero_offer\<lparr>OfferPriceAmount := ''1000''\<rparr>, zero_offer\<lparr>OfferPriceAmount := ''900''\<rparr>,
       zero_offer\<lparr>OfferPriceAmount := ''100''\<rparr>] 50
      \<lparr>QueryName = ''opt'', QueryMatch = MatchExact, QueryKind = KindSingle\<rparr>)) \<le> 3"
proof -
  let ?items = "[zero_offer\<lparr>OfferPriceAmount := ''1000''\<rparr>, zero_offer\<lparr>OfferPriceAmount := ''900''\<rparr>,
       zero_offer\<lparr>OfferPriceAmount := ''100''\<rparr>]"
  let ?q = "\<lparr>QueryName = ''opt'', QueryMatch = MatchExact, QueryKind = KindSingle\<rparr>"
  have cents: "parseCents ''1000'' = Inr 100000" "parseCents ''900'' = Inr 90000" "parseCents ''100'' = Inr 10000"
    by code_simp+
  have "2 * length (filter (\<lambda>it. price_group_of plain_env ?q it = (''opt'', []) \<and> OfferSuspicious it)
      (MarkSuspicious plain_env ?items 50 ?q)) \<le> length (filter (\<lambda>it. price_group_of plain_env ?q it = (''opt'', [])) ?items)"
    by (rule conjunct2 [OF suspicious_are_minority]) (auto simp: cents max_int64_def zero_offer_def)
  also have "\<dots> \<le> length ?items" by (rule length_filter_le)
  finally have "2 * length (filter (\<lambda>it. price_group_of plain_env ?q it = (''opt'', []) \<and> OfferSuspicious it)
      (MarkSuspicious plain_env ?items 50 ?q)) \<le> 3" by simp
  moreover have "map OfferSuspicious (MarkSuspicious plain_env ?items 50 ?q) = [False, False, True]" by code_simp
  ultimately show ?thesis by blast
qed

end
