(* ===== verification/SourceClient.thy ===== *)
theory SourceClient
  imports Prices Effects
begin

text \<open>
  internal/source/client.go: one HTTP call to a store behind its traffic gate, and the
  retries around it.  The HTTP client and \<open>http.ParseTime\<close> are arguments; the gate is the
  interface the source store implements.  Logging is left out.
\<close>

definition retryAfterCeiling :: duration where "retryAfterCeiling = 30 * second"
definition bodyCapFallback :: int where "bodyCapFallback = 16777216"
definition bodyHint :: nat where "bodyHint = 120"

text \<open>
  The reply to one request: its status, its Retry-After header, its body and the failure
  that cut the body short, if one did.
\<close>

record http_reply =
  ReplyStatus :: int
  ReplyRetryAfter :: string
  ReplyBody :: string
  ReplyBroken :: "failure option"

record http_request =
  RequestTarget :: string
  RequestHeaders :: "(string \<times> string) list"

record traffic_gate =
  GateAwait :: "string \<Rightarrow> unit io"
  GateRecord :: "string \<Rightarrow> duration \<Rightarrow> failure option \<Rightarrow> unit io"

record client =
  ClientSend :: "http_request \<Rightarrow> http_reply io"
  ClientGate :: "traffic_gate option"
  ClientUserAgent :: string
  ClientMaxAttempts :: int
  ClientBaseDelay :: duration
  ClientMaxBodyBytes :: int
  ClientStorefront :: bool

record fetch_env =
  ParseHTTPTime :: "string \<Rightarrow> time option"
  ContextDeadline :: "time option"
  ParseAddress :: "string \<Rightarrow> url option"

section \<open>Errors\<close>

definition Throttled :: "failure option \<Rightarrow> bool" where
  "Throttled e = (case e of Some (StatusError code _) \<Rightarrow> code = 429 | _ \<Rightarrow> False)"

definition CanRetry :: "failure \<Rightarrow> bool" where
  "CanRetry e = (case e of
       ErrCircuitOpen _ \<Rightarrow> False
     | StatusError code _ \<Rightarrow> code = 429 \<or> 500 \<le> code
     | _ \<Rightarrow> True)"

text \<open>The ellipsis of a cut hint, in UTF-8.\<close>

definition readBodyHint :: "string \<Rightarrow> string" where
  "readBodyHint body =
     (let hint = Join (Fields body) '' ''
      in if length hint \<le> bodyHint then hint
         else take bodyHint hint @ [CHR 0xE2, CHR 0x80, CHR 0xA6])"

definition StatusError_Error :: "int \<Rightarrow> string \<Rightarrow> string" where
  "StatusError_Error code body =
     (let hint = readBodyHint body
      in if hint = [] then ''source returned HTTP '' @ Itoa code
         else ''source returned HTTP '' @ Itoa code @ '': '' @ hint)"

section \<open>Waiting\<close>

definition ParseRetryAfter :: "fetch_env \<Rightarrow> string \<Rightarrow> duration io" where
  "ParseRetryAfter env v =
     (case Atoi v of
        Some seconds \<Rightarrow>
          if 0 \<le> seconds then return_io (wrap64 (seconds * second))
          else (case ParseHTTPTime env v of
                  None \<Rightarrow> return_io 0
                | Some date \<Rightarrow> bind_io now (\<lambda>n. return_io (max (date - n) 0)))
      | None \<Rightarrow>
          (case ParseHTTPTime env v of
             None \<Rightarrow> return_io 0
           | Some date \<Rightarrow> bind_io now (\<lambda>n. return_io (max (date - n) 0))))"

definition canWaitRetry :: "fetch_env \<Rightarrow> duration \<Rightarrow> bool io" where
  "canWaitRetry env retry =
     (if retryAfterCeiling < retry then return_io False
      else case ContextDeadline env of
             None \<Rightarrow> return_io True
           | Some deadline \<Rightarrow> bind_io now (\<lambda>n. return_io (retry < deadline - n)))"

text \<open>\<open>rand.Int64N(m)\<close>: some number from 0 to m - 1, read off drawn bytes.\<close>

definition random_below :: "int \<Rightarrow> int io" where
  "random_below m =
     bind_io draw (\<lambda>s. return_io (foldl (\<lambda>n c. 256 * n + int (byte c)) 0 s mod m))"

definition waitRetry :: "duration \<Rightarrow> duration \<Rightarrow> nat \<Rightarrow> unit io" where
  "waitRetry retry base attempt =
     (if retry \<le> 0
      then let factor = wrap64 (2 ^ (attempt - 1)) in
           bind_io (random_below (max base millisecond)) (\<lambda>jitter.
             nap (wrap64 (wrap64 (base * factor) + jitter)))
      else nap retry)"

section \<open>One call\<close>

definition bodyCap :: "client \<Rightarrow> int" where
  "bodyCap c = (if ClientMaxBodyBytes c < 1 then bodyCapFallback else ClientMaxBodyBytes c)"

definition build_request :: "client \<Rightarrow> fetch_env \<Rightarrow> string \<Rightarrow> http_request" where
  "build_request c env target =
     \<lparr>RequestTarget = target,
      RequestHeaders =
        [(''Accept'', ''application/json, text/html;q=0.9''), (''User-Agent'', ClientUserAgent c)]
        @ (case ParseAddress env target of
             Some u \<Rightarrow> if ClientStorefront c
                       then [(''X-Requested-With'', ''XMLHttpRequest''),
                             (''Referer'', URLScheme u @ ''://'' @ URLHost u @ ''/'')] else []
           | None \<Rightarrow> [])\<rparr>"

text \<open>The body or the failure, and the wait the store asked for.\<close>

definition sendRequest :: "client \<Rightarrow> fetch_env \<Rightarrow> string \<Rightarrow> ((failure + string) \<times> duration) io" where
  "sendRequest c env target =
     (if ParseAddress env target = None then return_io (Inl (Failure target), 0)
      else bind_io (try_io (ClientSend c (build_request c env target))) (\<lambda>r.
        case r of
          Inl e \<Rightarrow> return_io (Inl e, 0)
        | Inr reply \<Rightarrow>
            bind_io (ParseRetryAfter env (ReplyRetryAfter reply)) (\<lambda>retry.
              if ReplyStatus reply < 200 \<or> 300 \<le> ReplyStatus reply
              then return_io (Inl (StatusError (ReplyStatus reply) (take 1024 (ReplyBody reply))), retry)
              else case ReplyBroken reply of
                     Some e \<Rightarrow> return_io (Inl e, retry)
                   | None \<Rightarrow> return_io (Inr (take (nat (bodyCap c)) (ReplyBody reply)), retry))))"

definition failure_of :: "failure + 'a \<Rightarrow> failure option" where
  "failure_of r = (case r of Inl e \<Rightarrow> Some e | Inr _ \<Rightarrow> None)"

definition gate_await :: "client \<Rightarrow> string \<Rightarrow> unit io" where
  "gate_await c domain = (case ClientGate c of None \<Rightarrow> return_io () | Some g \<Rightarrow> GateAwait g domain)"

definition gate_record :: "client \<Rightarrow> string \<Rightarrow> duration \<Rightarrow> failure option \<Rightarrow> unit io" where
  "gate_record c domain latency err =
     (case ClientGate c of None \<Rightarrow> return_io ()
      | Some g \<Rightarrow> bind_io (try_io (GateRecord g domain latency err)) (\<lambda>_. return_io ()))"

definition fetchAttempt ::
  "client \<Rightarrow> fetch_env \<Rightarrow> string \<Rightarrow> string \<Rightarrow> ((failure + string) \<times> duration) io" where
  "fetchAttempt c env domain target =
     bind_io (try_io (gate_await c domain)) (\<lambda>r.
       case r of
         Inl e \<Rightarrow> return_io (Inl e, 0)
       | Inr _ \<Rightarrow>
           bind_io now (\<lambda>started.
           bind_io (sendRequest c env target) (\<lambda>(data, retry).
           bind_io now (\<lambda>ended.
           bind_io (gate_record c domain (ended - started) (failure_of data)) (\<lambda>_.
             return_io (data, retry))))))"

section \<open>The retries\<close>

fun fetch_from :: "client \<Rightarrow> fetch_env \<Rightarrow> string \<Rightarrow> string \<Rightarrow> nat \<Rightarrow> nat \<Rightarrow> string io" where
  "fetch_from c env domain target attempt 0 = return_io []"
| "fetch_from c env domain target attempt (Suc left) =
     bind_io (fetchAttempt c env domain target) (\<lambda>(data, retryAfter).
       case data of
         Inr d \<Rightarrow> return_io d
       | Inl e \<Rightarrow>
           if \<not> CanRetry e \<or> left = 0 then fail_io e
           else bind_io (canWaitRetry env retryAfter) (\<lambda>fits.
                  if \<not> fits then fail_io e
                  else bind_io (waitRetry retryAfter (ClientBaseDelay c) attempt) (\<lambda>_.
                         fetch_from c env domain target (Suc attempt) left)))"

definition FetchSource :: "client \<Rightarrow> fetch_env \<Rightarrow> string \<Rightarrow> string \<Rightarrow> string io" where
  "FetchSource c env domain target = fetch_from c env domain target 1 (nat (ClientMaxAttempts c))"

definition FetchStorefront :: "client \<Rightarrow> fetch_env \<Rightarrow> string \<Rightarrow> string \<Rightarrow> string io" where
  "FetchStorefront c env domain target =
     FetchSource (c\<lparr>ClientStorefront := True\<rparr>) env domain target"

section \<open>How long the client waits\<close>

text \<open>The waits a run adds, and that a call does not wait by itself.\<close>

definition waits :: "world \<Rightarrow> world \<Rightarrow> duration list \<Rightarrow> bool" where
  "waits w w' ds \<longleftrightarrow> naps w' = naps w @ ds"

definition no_naps :: "'a io \<Rightarrow> bool" where
  "no_naps m \<longleftrightarrow> (\<forall>w. naps (snd (m w)) = naps w)"

lemma no_napsD: "no_naps m \<Longrightarrow> m w = (r, w') \<Longrightarrow> naps w' = naps w"
  by (metis no_naps_def snd_conv)

lemma no_naps_prims [simp]:
  "no_naps (return_io x)" "no_naps (fail_io e)" "no_naps now" "no_naps draw"
  by (simp_all add: no_naps_def run_simps)

lemma no_naps_bind [intro]:
  assumes "no_naps m" and "\<And>x. no_naps (f x)"
  shows "no_naps (bind_io m f)"
  unfolding no_naps_def
proof
  fix w
  obtain r w1 where m: "m w = (r, w1)" by (cases "m w")
  then have "naps w1 = naps w" using assms(1) no_napsD by blast
  then show "naps (snd (bind_io m f w)) = naps w"
    using assms(2) m by (cases r) (auto simp: bind_io_def no_naps_def)
qed

lemma no_naps_try [simp]: "no_naps m \<Longrightarrow> no_naps (try_io m)"
  by (simp add: no_naps_def try_io_def split_beta)

lemma no_naps_branches:
  "no_naps a \<Longrightarrow> no_naps b \<Longrightarrow> no_naps (if c then a else b)"
  "no_naps n \<Longrightarrow> (\<And>x. no_naps (s x)) \<Longrightarrow> no_naps (case o1 of None \<Rightarrow> n | Some x \<Rightarrow> s x)"
  "(\<And>e. no_naps (l e)) \<Longrightarrow> (\<And>x. no_naps (r x)) \<Longrightarrow>
   no_naps (case o2 of Inl e \<Rightarrow> l e | Inr x \<Rightarrow> r x)"
  "(\<And>x y. no_naps (q x y)) \<Longrightarrow> no_naps (case o3 of (x, y) \<Rightarrow> q x y)"
  by (simp_all split: option.split sum.split prod.split)

definition quiet_client :: "client \<Rightarrow> bool" where
  "quiet_client c \<longleftrightarrow> (\<forall>q. no_naps (ClientSend c q))
     \<and> (\<forall>g. ClientGate c = Some g \<longrightarrow> (\<forall>d. no_naps (GateAwait g d))
          \<and> (\<forall>d l e. no_naps (GateRecord g d l e)))"

lemma fetchAttempt_no_naps:
  assumes "quiet_client c"
  shows "no_naps (fetchAttempt c env domain target)"
proof -
  have "no_naps (gate_await c domain)" "no_naps (gate_record c domain l e)" for l e
    using assms by (auto simp: gate_await_def gate_record_def quiet_client_def split: option.split)
  moreover have "no_naps (ParseRetryAfter env v)" for v
    unfolding ParseRetryAfter_def by (intro no_naps_branches no_naps_bind) simp_all
  then have "no_naps (sendRequest c env target)"
    using assms unfolding sendRequest_def quiet_client_def
    by (intro no_naps_branches no_naps_bind no_naps_try) simp_all
  ultimately show ?thesis
    unfolding fetchAttempt_def by (intro no_naps_branches no_naps_bind no_naps_try) simp_all
qed

definition longest_wait :: "duration \<Rightarrow> nat \<Rightarrow> duration" where
  "longest_wait base n = max retryAfterCeiling (base * 2 ^ n + max base millisecond)"

lemma random_below_run:
  assumes "random_below m w = (r, w')" and "0 < m"
  obtains j where "r = Inr j" "0 \<le> j" "j < m" "naps w' = naps w"
  using assms that
  by (auto simp: random_below_def run_simps split: prod.splits)

lemma waitRetry_naps:
  assumes run: "waitRetry retry base attempt w = (r, w')"
    and retry: "retry \<le> retryAfterCeiling" and base: "0 \<le> base"
    and fits: "base * 2 ^ n + max base millisecond \<le> max_int64" "2 ^ n \<le> max_int64"
    and n: "attempt - 1 \<le> n"
  shows "\<exists>ds. naps w' = naps w @ ds \<and> length ds \<le> 1 \<and> (\<forall>d \<in> set ds. 0 \<le> d \<and> d \<le> longest_wait base n)"
proof -
  have nap_run: "\<exists>ds. naps w' = naps w0 @ ds \<and> (ds = [] \<or> ds = [d])" if "nap d w0 = (q, w')" for d q w0
    using that
    by (auto simp: nap_def bind_io_def map_failure_def call_backend_def split: option.splits prod.splits sum.splits)
  show ?thesis
  proof (cases "retry \<le> 0")
    case False
    with run have "nap retry w = (r, w')" by (simp add: waitRetry_def)
    then obtain ds where "naps w' = naps w @ ds" "ds = [] \<or> ds = [retry]" using nap_run by blast
    with False retry show ?thesis by (intro exI [of _ ds]) (auto simp: longest_wait_def)
  next
    case True
    let ?m = "max base millisecond"
    have m: "0 < ?m" by (simp add: duration_defs)
    obtain q w1 where rb: "random_below ?m w = (q, w1)" by (cases "random_below ?m w")
    then obtain j where j: "q = Inr j" "0 \<le> j" "j < ?m" "naps w1 = naps w"
      using m by (rule random_below_run)
    have p: "2 ^ (attempt - 1) \<le> (2 :: int) ^ n" using n by (intro power_increasing) simp_all
    then have f: "wrap64 (2 ^ (attempt - 1)) = 2 ^ (attempt - 1)"
    proof (intro wrap64_id)
      have "(0 :: int) \<le> 2 ^ (attempt - 1)" by simp
      moreover have "(2 :: int) ^ (attempt - 1) \<le> max_int64" using p fits(2) by (rule order_trans)
      ultimately show "fits64 (2 ^ (attempt - 1))" unfolding fits64_def min_int64_def by linarith
    qed
    have le: "base * 2 ^ (attempt - 1) \<le> base * 2 ^ n" using p base by (rule mult_left_mono)
    have nn: "0 \<le> base * 2 ^ (attempt - 1)" using base by simp
    have e: "wrap64 (base * 2 ^ (attempt - 1)) = base * 2 ^ (attempt - 1)"
      using le nn fits(1) m by (intro wrap64_id) (simp add: fits64_def min_int64_def)
    let ?d = "base * 2 ^ (attempt - 1) + j"
    have d: "0 \<le> ?d" "?d \<le> base * 2 ^ n + ?m" using le nn j by linarith+
    have "wrap64 ?d = ?d" using d fits(1) by (intro wrap64_id) (simp add: fits64_def min_int64_def)
    with run True rb j(1) f e have "nap ?d w1 = (r, w')" by (simp add: waitRetry_def bind_io_def Let_def)
    then obtain ds where "naps w' = naps w1 @ ds" "ds = [] \<or> ds = [?d]" using nap_run by blast
    with d j(4) show ?thesis by (intro exI [of _ ds]) (auto simp: longest_wait_def)
  qed
qed

lemma canWaitRetry_True:
  "canWaitRetry env retry w = (Inr True, w') \<Longrightarrow> retry \<le> retryAfterCeiling \<and> naps w' = naps w"
  by (auto simp: canWaitRetry_def go_io split: if_splits option.splits)

lemma canWaitRetry_no_naps [simp]: "no_naps (canWaitRetry env retry)"
  unfolding canWaitRetry_def by (intro no_naps_branches no_naps_bind) simp_all

lemma fetch_from_naps:
  assumes "quiet_client c" and "0 \<le> ClientBaseDelay c"
    and "ClientBaseDelay c * 2 ^ n + max (ClientBaseDelay c) millisecond \<le> max_int64" "2 ^ n \<le> max_int64"
    and "1 \<le> attempt" "attempt + left \<le> n + 3"
    and "fetch_from c env domain target attempt left w = (r, w')"
  shows "\<exists>ds. naps w' = naps w @ ds \<and> length ds \<le> left - 1
    \<and> (\<forall>d \<in> set ds. 0 \<le> d \<and> d \<le> longest_wait (ClientBaseDelay c) n)"
  using assms(5-)
proof (induction left arbitrary: attempt w)
  case 0
  then show ?case by (simp add: return_io_def)
next
  case (Suc left)
  obtain q w1 where fa: "fetchAttempt c env domain target w = (q, w1)"
    by (cases "fetchAttempt c env domain target w")
  have n1: "naps w1 = naps w" using no_napsD [OF fetchAttempt_no_naps [OF assms(1)] fa] .
  show ?case
  proof (cases "\<exists>e ra. q = Inr (Inl e, ra) \<and> CanRetry e \<and> left \<noteq> 0")
    case False
    with Suc.prems(3) fa have "w' = w1"
      by (auto simp: bind_io_def fail_io_def return_io_def split: sum.splits prod.splits if_splits)
    with n1 show ?thesis by simp
  next
    case True
    then obtain e ra where q: "q = Inr (Inl e, ra)" "CanRetry e" "left \<noteq> 0" by blast
    obtain b w2 where cw: "canWaitRetry env ra w1 = (b, w2)" by (cases "canWaitRetry env ra w1")
    have n2: "naps w2 = naps w" using no_napsD [OF canWaitRetry_no_naps cw] n1 by simp
    show ?thesis
    proof (cases "b = Inr True")
      case False
      with Suc.prems(3) fa q cw have "w' = w2"
        by (auto simp: bind_io_def fail_io_def split: sum.splits)
      with n2 show ?thesis by simp
    next
      case b: True
      obtain u w3 where wr: "waitRetry ra (ClientBaseDelay c) attempt w2 = (u, w3)"
        by (cases "waitRetry ra (ClientBaseDelay c) attempt w2")
      have "ra \<le> retryAfterCeiling" using canWaitRetry_True cw b by blast
      moreover have "attempt - 1 \<le> n" using Suc.prems q(3) by simp
      ultimately obtain ds where ds: "naps w3 = naps w2 @ ds" "length ds \<le> 1"
          "\<forall>d \<in> set ds. 0 \<le> d \<and> d \<le> longest_wait (ClientBaseDelay c) n"
        using waitRetry_naps [OF wr _ assms(2,3,4)] by blast
      show ?thesis
      proof (cases u)
        case (Inl f)
        with Suc.prems(3) fa q cw b wr have "w' = w3" by (simp add: bind_io_def)
        with ds n2 q(3) show ?thesis by (intro exI [of _ ds]) auto
      next
        case (Inr z)
        with Suc.prems(3) fa q cw b wr
        have "fetch_from c env domain target (Suc attempt) left w3 = (r, w')" by (simp add: bind_io_def)
        then obtain es where "naps w' = naps w3 @ es" "length es \<le> left - 1"
            "\<forall>d \<in> set es. 0 \<le> d \<and> d \<le> longest_wait (ClientBaseDelay c) n"
          using Suc.IH [of "Suc attempt" w3] Suc.prems by auto
        with ds n2 q(3) show ?thesis by (intro exI [of _ "ds @ es"]) auto
      qed
    qed
  qed
qed


definition down_client :: client where
  "down_client = \<lparr>ClientSend = (\<lambda>_. return_io \<lparr>ReplyStatus = 503, ReplyRetryAfter = ''7'',
       ReplyBody = ''maintenance'', ReplyBroken = None\<rparr>),
     ClientGate = None, ClientUserAgent = ''muchi'', ClientMaxAttempts = 3,
     ClientBaseDelay = second, ClientMaxBodyBytes = 0, ClientStorefront = False\<rparr>"

definition demo_fetch_env :: fetch_env where
  "demo_fetch_env = \<lparr>ParseHTTPTime = (\<lambda>_. None), ContextDeadline = None,
     ParseAddress = (\<lambda>_. Some \<lparr>URLScheme = ''https'', URLHost = ''store.cl''\<rparr>)\<rparr>"


text \<open>A store that refused for good is not asked again: when an attempt fails with an open
  circuit or a status that is neither 429 nor 5xx, the fetch ends with that failure and
  nothing more happens.\<close>
theorem refusal_ends_fetch:
  assumes "1 \<le> ClientMaxAttempts c"
    and "fetchAttempt c env domain target w = (Inr (Inl e, wait), w1)"
    and "(\<exists>t. e = ErrCircuitOpen t) \<or> (\<exists>code body. e = StatusError code body \<and> code \<noteq> 429 \<and> code < 500)"
  shows "FetchSource c env domain target w = (Inl e, w1)"
proof -
  obtain k where "nat (ClientMaxAttempts c) = Suc k"
    using assms(1) by (metis Suc_nat_eq_nat_zadd1 add.commute diff_add_cancel diff_ge_0_iff_ge)
  moreover have "\<not> CanRetry e" using assms(3) by (auto simp: CanRetry_def)
  ultimately show ?thesis
    using assms(2) by (simp add: FetchSource_def bind_io_def fail_io_def)
qed

definition lost_client :: client where
  "lost_client = down_client\<lparr>ClientSend := (\<lambda>_. return_io \<lparr>ReplyStatus = 404, ReplyRetryAfter = [],
       ReplyBody = ''lost'', ReplyBroken = None\<rparr>)\<rparr>"

theorem refusal_ends_fetch_witness:
  "\<exists>w1. FetchSource lost_client demo_fetch_env ''store.cl'' ''/'' (calm_world empty_db)
     = (Inl (StatusError 404 ''lost''), w1)"
proof -
  have "fst (fetchAttempt lost_client demo_fetch_env ''store.cl'' ''/'' (calm_world empty_db))
      = Inr (Inl (StatusError 404 ''lost''), 0)" by code_simp
  then obtain w1 where
    "fetchAttempt lost_client demo_fetch_env ''store.cl'' ''/'' (calm_world empty_db)
      = (Inr (Inl (StatusError 404 ''lost''), 0), w1)" by (metis prod.collapse)
  from refusal_ends_fetch [OF _ this] show ?thesis by (auto simp: lost_client_def down_client_def)
qed

text \<open>A Retry-After in seconds is read exactly up to 9223372036 seconds; one second more
  overflows 64 bits, and the wait it reads as is negative, which the client then takes for no
  Retry-After at all.\<close>
theorem retry_after_seconds:
  assumes "Atoi v = Some s" and "0 \<le> s"
  shows "ParseRetryAfter env v w = (Inr (wrap64 (s * second)), w)
    \<and> (wrap64 (s * second) = s * second \<longleftrightarrow> s \<le> 9223372036)
    \<and> wrap64 (9223372037 * second) < 0"
proof -
  have w: "wrap64 (s * second) = s * second" if "s \<le> 9223372036"
  proof -
    have "s * 1000000000 \<le> 9223372036 * 1000000000" using that by (intro mult_right_mono) simp_all
    with assms(2) show ?thesis by (intro wrap64_id) (simp add: int64_defs duration_defs)
  qed
  moreover have "s \<le> 9223372036" if "wrap64 (s * second) = s * second"
  proof (rule ccontr)
    assume "\<not> s \<le> 9223372036"
    then have "9223372037 * 1000000000 \<le> s * 1000000000" by (intro mult_right_mono) simp_all
    then have "\<not> fits64 (s * second)" by (simp add: int64_defs duration_defs)
    with that show False using wrap64_fits by metis
  qed
  moreover have "wrap64 (9223372037 * second) < 0" by code_simp
  ultimately show ?thesis using assms by (auto simp: ParseRetryAfter_def return_io_def)
qed

theorem retry_after_seconds_witness:
  "ParseRetryAfter demo_fetch_env ''30'' (calm_world empty_db) = (Inr (30 * second), calm_world empty_db)"
proof -
  have "Atoi ''30'' = Some 30" by code_simp
  from retry_after_seconds [OF this] show ?thesis by simp
qed

end
