(* ===== verification/SourceStore.thy ===== *)
theory SourceStore
  imports SearchStore SourceClient
begin

text \<open>
  internal/repositories/source_store.go: the traffic gate of the sources.  It spaces the
  calls to one domain, holds a domain that answered 429, counts the falls in a row and opens
  the circuit of a domain that keeps falling.
\<close>

definition sourcePacing :: duration where "sourcePacing = 250 * millisecond"
definition throttleCooldown :: duration where "throttleCooldown = 30 * second"
definition circuitThreshold :: int where "circuitThreshold = 5"
definition circuitCooldown :: duration where "circuitCooldown = minute"
definition circuitCeiling :: duration where "circuitCeiling = hour"

record source_store =
  StorePacing :: duration
  StoreCooldown :: duration

definition pace :: "source_store \<Rightarrow> duration" where
  "pace b = (if StorePacing b \<le> 0 then sourcePacing else StorePacing b)"

definition cool :: "source_store \<Rightarrow> duration" where
  "cool b = (if StoreCooldown b \<le> 0 then throttleCooldown else StoreCooldown b)"

section \<open>Health\<close>

definition CheckHealth :: "unit io" where
  "CheckHealth =
     bind_io (try_io (Get Health ''ping'')) (\<lambda>r.
       case r of
         Inr _ \<Rightarrow> return_io ()
       | Inl e \<Rightarrow> if e = ErrMissing then return_io () else fail_io e)"

definition source_query :: "(source_health, nat list) query" where
  "source_query = \<lparr>QueryFilters = [], QueryOrderBy = Some (\<lambda>h. map byte (HealthSource h)), QueryLimit = 0\<rparr>"

definition ListSourceHealth :: "source_health list io" where
  "ListSourceHealth = ListRecords SourceHealth source_query"

definition fresh_health :: "string \<Rightarrow> source_health" where
  "fresh_health domain = \<lparr>HealthSource = domain, HealthPlatform = [], HealthEnabled = False,
     HealthEstimatedMs = 0, HealthLastSuccess = None, HealthLastFailure = None,
     HealthFailures = 0, HealthLatencyMs = 0, HealthOpenUntil = None\<rparr>"

definition loadSource :: "string \<Rightarrow> source_health io" where
  "loadSource domain =
     bind_io (try_io (Get SourceHealth domain)) (\<lambda>r.
       case r of Inl _ \<Rightarrow> return_io (fresh_health domain) | Inr h \<Rightarrow> return_io h)"

definition circuitWait :: "int \<Rightarrow> duration" where
  "circuitWait failures =
     (let wait = wrap64 (circuitCooldown * 2 ^ nat (min (failures - circuitThreshold) 16))
      in min wait circuitCeiling)"

definition Milliseconds :: "duration \<Rightarrow> int" where
  "Milliseconds d = (if d < 0 then - ((- d) div millisecond) else d div millisecond)"

definition updateSource :: "source_health \<Rightarrow> duration \<Rightarrow> failure option \<Rightarrow> source_health io" where
  "updateSource health latency sourceErr =
     bind_io now (\<lambda>n.
       let health = health\<lparr>HealthLatencyMs := Milliseconds latency\<rparr> in
       return_io (
         if sourceErr = None
         then health\<lparr>HealthLastSuccess := Some n, HealthFailures := 0, HealthOpenUntil := None\<rparr>
         else let health = health\<lparr>HealthLastFailure := Some n\<rparr> in
              if Throttled sourceErr then health
              else let health = health\<lparr>HealthFailures := HealthFailures health + 1\<rparr> in
                   if circuitThreshold \<le> HealthFailures health
                   then health\<lparr>HealthOpenUntil := Some (n + circuitWait (HealthFailures health))\<rparr>
                   else health))"

section \<open>Traffic\<close>

definition next_allowed :: "string \<Rightarrow> time \<Rightarrow> time io" where
  "next_allowed domain earliest =
     bind_io (try_io (Get Traffic domain)) (\<lambda>r.
       return_io (case r of
           Inr lease \<Rightarrow> if earliest < NextAllowedAt lease then NextAllowedAt lease else earliest
         | Inl _ \<Rightarrow> earliest))"

definition delaySource :: "string \<Rightarrow> duration \<Rightarrow> unit io" where
  "delaySource domain wait =
     Transact (
       bind_io now (\<lambda>n.
       bind_io (next_allowed domain (n + wait)) (\<lambda>allowed.
         Save Traffic domain \<lparr>NextAllowedAt = allowed\<rparr>)))"

definition reserveTraffic :: "source_store \<Rightarrow> string \<Rightarrow> time io" where
  "reserveTraffic b domain =
     Transact (
       bind_io now (\<lambda>n.
       bind_io (next_allowed domain n) (\<lambda>allowed.
       bind_io (Save Traffic domain \<lparr>NextAllowedAt = allowed + pace b\<rparr>) (\<lambda>_.
         return_io allowed))))"

definition waitUntil :: "time \<Rightarrow> unit io" where
  "waitUntil target =
     bind_io now (\<lambda>n. let wait = target - n in if wait \<le> 0 then return_io () else nap wait)"

definition AwaitSource :: "source_store \<Rightarrow> string \<Rightarrow> unit io" where
  "AwaitSource b domain =
     bind_io (loadSource domain) (\<lambda>health.
     bind_io (case HealthOpenUntil health of
                None \<Rightarrow> return_io False
              | Some t \<Rightarrow> bind_io now (\<lambda>n. return_io (n < t))) (\<lambda>open1.
       if open1 then fail_io (ErrCircuitOpen (the (HealthOpenUntil health)))
       else bind_io (reserveTraffic b domain) (\<lambda>allowed. waitUntil allowed)))"

definition RecordSource :: "source_store \<Rightarrow> string \<Rightarrow> duration \<Rightarrow> failure option \<Rightarrow> unit io" where
  "RecordSource b domain latency sourceErr =
     bind_io (if Throttled sourceErr
              then bind_io (try_io (delaySource domain (cool b))) (\<lambda>_. return_io ())
              else return_io ()) (\<lambda>_.
       Transact (
         bind_io (loadSource domain) (\<lambda>health.
         bind_io (updateSource health latency sourceErr) (\<lambda>updated.
           Save SourceHealth domain updated))))"

definition store_gate :: "source_store \<Rightarrow> traffic_gate" where
  "store_gate b = \<lparr>GateAwait = AwaitSource b, GateRecord = RecordSource b\<rparr>"

section \<open>What the operations do\<close>

lemma next_allowed_Inr:
  "next_allowed domain earliest w = (Inr a, w') \<Longrightarrow>
   wdb w' = wdb w \<and> earliest \<le> a
   \<and> (outage w (calls w) = None \<and> \<not> (tx_open w \<and> tx_wrote w) \<longrightarrow>
        a = (case row_of Traffic domain (wdb w) of
               None \<Rightarrow> earliest | Some l \<Rightarrow> max earliest (NextAllowedAt l)))"
  by (auto simp: next_allowed_def go_io max_def split: option.splits if_splits)

lemma sound_next_allowed [sound_intros]: "sound (next_allowed domain e)"
  unfolding next_allowed_def by (intro sound_intros)

lemma sound_loadSource [sound_intros]: "sound (loadSource domain)"
  unfolding loadSource_def by (intro sound_intros)

lemma sound_updateSource [sound_intros]: "sound (updateSource h l e)"
  unfolding updateSource_def Let_def by (intro sound_intros)

lemma outside_reserveTraffic: "outside (reserveTraffic b domain)"
  unfolding reserveTraffic_def by (intro outside_Transact sound_intros)

lemma outside_delaySource: "outside (delaySource domain wait)"
  unfolding delaySource_def by (intro outside_Transact sound_intros)

definition lease_after :: "database \<Rightarrow> string \<Rightarrow> time \<Rightarrow> time" where
  "lease_after d domain earliest =
     (case row_of Traffic domain d of None \<Rightarrow> earliest | Some l \<Rightarrow> max earliest (NextAllowedAt l))"

lemma reserveTraffic_Inr:
  assumes "reserveTraffic b domain w = (Inr a, w')" and "outage w (calls w) = None"
  shows "a = lease_after (wdb w) domain (clock w (ticks w))"
    "wdb w' = put_row Traffic domain \<lparr>NextAllowedAt = a + pace b\<rparr> (wdb w)"
proof -
  from assms(1) obtain w1 where run: "bind_io now (\<lambda>n.
       bind_io (next_allowed domain n) (\<lambda>allowed.
       bind_io (Save Traffic domain \<lparr>NextAllowedAt = allowed + pace b\<rparr>) (\<lambda>_.
         return_io allowed))) (begin_tx w) = (Inr a, w1)" and w': "wdb w' = wdb w1"
    unfolding reserveTraffic_def by (rule Transact_Inr) simp
  then show "a = lease_after (wdb w) domain (clock w (ticks w))"
    "wdb w' = put_row Traffic domain \<lparr>NextAllowedAt = a + pace b\<rparr> (wdb w)"
    using assms(2) by (auto simp: go_io lease_after_def dest!: next_allowed_Inr)
qed

lemma reserveTraffic_Inl: "reserveTraffic b domain w = (Inl e, w') \<Longrightarrow> wdb w' = wdb w"
  unfolding reserveTraffic_def by (rule Transact_Inl)

lemma delaySource_Inr:
  assumes "delaySource domain wait w = (Inr u, w')" and "outage w (calls w) = None"
  shows "wdb w' = put_row Traffic domain
     \<lparr>NextAllowedAt = lease_after (wdb w) domain (clock w (ticks w) + wait)\<rparr> (wdb w)"
proof -
  from assms(1) obtain w1 where run: "bind_io now (\<lambda>n.
       bind_io (next_allowed domain (n + wait)) (\<lambda>allowed.
         Save Traffic domain \<lparr>NextAllowedAt = allowed\<rparr>)) (begin_tx w) = (Inr u, w1)"
    and w': "wdb w' = wdb w1"
    unfolding delaySource_def by (rule Transact_Inr) simp
  then show ?thesis
    using assms(2) by (auto simp: go_io lease_after_def dest!: next_allowed_Inr)
qed

lemma delaySource_Inl: "delaySource domain wait w = (Inl e, w') \<Longrightarrow> wdb w' = wdb w"
  unfolding delaySource_def by (rule Transact_Inl)

section \<open>Spacing\<close>

text \<open>
  The traffic toward one domain: any caller reserves a turn or delays the domain, for this
  domain or another, and the rest of the program leaves its lease alone.  The lease has to
  be readable when a turn is taken; the write and the commit may fail.  The list is the
  turns granted to the domain.
\<close>

inductive traffic_run :: "source_store \<Rightarrow> string \<Rightarrow> world \<Rightarrow> time list \<Rightarrow> world \<Rightarrow> bool"
  for b domain where
  Quiet: "traffic_run b domain w [] w"
| Reserve: "traffic_run b domain w gs w1 \<Longrightarrow> reserveTraffic b d w1 = (r, w2) \<Longrightarrow>
    outage w1 (calls w1) = None \<Longrightarrow>
    traffic_run b domain w (gs @ (case r of Inr a \<Rightarrow> if d = domain then [a] else [] | Inl _ \<Rightarrow> [])) w2"
| Delay: "traffic_run b domain w gs w1 \<Longrightarrow> delaySource d wait w1 = (r, w2) \<Longrightarrow>
    outage w1 (calls w1) = None \<Longrightarrow> traffic_run b domain w gs w2"
| Aside: "traffic_run b domain w gs w1 \<Longrightarrow>
    row_of Traffic domain (wdb w2) = row_of Traffic domain (wdb w1) \<Longrightarrow>
    traffic_run b domain w gs w2"

definition lease_at :: "world \<Rightarrow> string \<Rightarrow> time \<Rightarrow> bool" where
  "lease_at w domain t \<longleftrightarrow> (\<exists>l. row_of Traffic domain (wdb w) = Some l \<and> t \<le> NextAllowedAt l)"

lemma reserve_lease:
  assumes "reserveTraffic b d w = (r, w')" and "outage w (calls w) = None" and "lease_at w domain t"
  shows "lease_at w' domain t \<and> (\<forall>a. r = Inr a \<longrightarrow> d = domain \<longrightarrow> t \<le> a)"
proof (cases r)
  case (Inl e)
  with assms(1) have "wdb w' = wdb w" using reserveTraffic_Inl by blast
  with Inl assms(3) show ?thesis by (simp add: lease_at_def)
next
  case (Inr a)
  note R = reserveTraffic_Inr [OF assms(1) [unfolded Inr] assms(2)]
  have "t \<le> a" if "d = domain"
    using assms(3) that unfolding R(1) by (auto simp: lease_at_def lease_after_def)
  moreover have "0 \<le> pace b" by (simp add: pace_def sourcePacing_def duration_defs)
  ultimately show ?thesis using Inr assms(3) R(2) by (auto simp: lease_at_def coll_simps)
qed

lemma delay_lease:
  assumes "delaySource d wait w = (r, w')" and "outage w (calls w) = None" and "lease_at w domain t"
  shows "lease_at w' domain t"
proof (cases r)
  case (Inl e)
  with assms(1) have "wdb w' = wdb w" using delaySource_Inl by blast
  with assms(3) show ?thesis by (simp add: lease_at_def)
next
  case (Inr u)
  show ?thesis
    using assms(3) delaySource_Inr [OF assms(1) [unfolded Inr] assms(2)]
    by (auto simp: lease_at_def coll_simps lease_after_def)
qed

lemma traffic_run_lease:
  "traffic_run b domain w gs w' \<Longrightarrow> lease_at w domain t \<Longrightarrow>
   lease_at w' domain t \<and> (\<forall>g \<in> set gs. t \<le> g)"
proof (induction rule: traffic_run.induct)
  case (Reserve w gs w1 d r w2)
  with reserve_lease [OF Reserve.hyps(2,3), of domain t] show ?case by (auto split: sum.splits)
next
  case (Delay w gs w1 d wait r w2)
  with delay_lease [OF Delay.hyps(2,3), of domain t] show ?case by simp
qed (auto simp: lease_at_def)

lemma traffic_run_spaced:
  "traffic_run b domain w gs w' \<Longrightarrow>
   sorted_wrt (\<lambda>x y. x + pace b \<le> y) gs \<and> (\<forall>g \<in> set gs. lease_at w' domain (g + pace b))"
proof (induction rule: traffic_run.induct)
  case (Reserve w gs w1 d r w2)
  have keep: "lease_at w2 domain (g + pace b)" if "g \<in> set gs" for g
    using reserve_lease [OF Reserve.hyps(2,3)] Reserve.IH that by blast
  show ?case
  proof (cases "\<exists>a. r = Inr a \<and> d = domain")
    case False
    with Reserve.IH keep show ?thesis by (auto split: sum.splits)
  next
    case True
    then obtain a where a: "r = Inr a" "d = domain" by blast
    have "g + pace b \<le> a" if "g \<in> set gs" for g
      using reserve_lease [OF Reserve.hyps(2,3)] Reserve.IH that a by blast
    moreover have "lease_at w2 domain (a + pace b)"
      using reserveTraffic_Inr(2) [OF Reserve.hyps(2) [unfolded a(1)] Reserve.hyps(3)] a(2)
      by (simp add: lease_at_def coll_simps)
    ultimately show ?thesis using Reserve.IH keep a by (auto simp: sorted_wrt_append)
  qed
next
  case (Delay w gs w1 d wait r w2)
  then show ?case using delay_lease [OF Delay.hyps(2,3)] by blast
qed (auto simp: lease_at_def)


definition default_store :: source_store where
  "default_store = \<lparr>StorePacing = 0, StoreCooldown = 0\<rparr>"

lemma reserve_demo:
  "fst (reserveTraffic default_store ''store.cl'' (calm_world empty_db)) = Inr 0"
  "fst (reserveTraffic default_store ''store.cl''
     (snd (reserveTraffic default_store ''store.cl'' (calm_world empty_db)))) = Inr (250 * millisecond)"
  by code_simp+


text \<open>A throttled domain is left alone: once \<open>RecordSource\<close> has delayed a domain that answered
  429, no turn is granted to it before the cooldown has passed since then, and a second delay
  never shortens the wait of the first.\<close>
theorem throttle_holds_domain:
  assumes "delaySource domain wait w = (Inr u, w1)" and "outage w (calls w) = None"
    and "traffic_run b domain w1 turns w2" and "turn \<in> set turns"
  shows "clock w (ticks w) + wait \<le> turn
    \<and> (\<forall>l. row_of Traffic domain (wdb w) = Some l \<longrightarrow> NextAllowedAt l \<le> turn)"
proof -
  let ?t = "lease_after (wdb w) domain (clock w (ticks w) + wait)"
  have "lease_at w1 domain ?t"
    using delaySource_Inr [OF assms(1,2)] by (simp add: lease_at_def coll_simps)
  from traffic_run_lease [OF assms(3) this] assms(4) have "?t \<le> turn" by blast
  then show ?thesis by (auto simp: lease_after_def split: option.splits)
qed

theorem throttle_holds_domain_witness:
  "\<exists>w1 w2. delaySource ''store.cl'' throttleCooldown (calm_world empty_db) = (Inr (), w1)
     \<and> traffic_run default_store ''store.cl'' w1 [throttleCooldown] w2
     \<and> clock (calm_world empty_db) (ticks (calm_world empty_db)) + throttleCooldown \<le> throttleCooldown"
proof -
  let ?w = "calm_world empty_db"
  let ?one = "delaySource ''store.cl'' throttleCooldown ?w"
  let ?two = "reserveTraffic default_store ''store.cl'' (snd ?one)"
  have v: "fst ?one = Inr ()" "fst ?two = Inr throttleCooldown" by code_simp+
  then have one: "?one = (Inr (), snd ?one)" by (metis prod.collapse)
  have "follows ?w (snd ?one)" using outsideD [OF outside_delaySource one] by simp
  then have out: "outage (snd ?one) (calls (snd ?one)) = None"
    by (simp add: follows_def calm_world_def)
  have run: "traffic_run default_store ''store.cl'' (snd ?one) [throttleCooldown] (snd ?two)"
    using Reserve [OF Quiet surjective_pairing out, of default_store "''store.cl''" "''store.cl''"]
    by (simp add: v(2))
  have "outage ?w (calls ?w) = None" by (simp add: calm_world_def)
  from throttle_holds_domain [OF one this run, of throttleCooldown] one run show ?thesis by auto
qed

section \<open>The circuit\<close>

lemma circuitWait_eq:
  assumes "circuitThreshold \<le> f"
  shows "circuitWait f = min (minute * 2 ^ nat (min (f - 5) 16)) hour"
proof -
  define p where "p = (2 :: int) ^ nat (min (f - 5) 16)"
  have "p \<le> 2 ^ 16" unfolding p_def by (intro power_increasing) auto
  moreover have "0 \<le> p" by (simp add: p_def)
  ultimately have "fits64 (minute * p)" by (simp add: int64_defs duration_defs)
  then have "fits64 (minute * 2 ^ nat (min (f - 5) 16))" by (simp add: p_def)
  then show ?thesis by (simp add: circuitWait_def circuitCooldown_def circuitCeiling_def circuitThreshold_def)
qed

text \<open>The circuit of a falling store stays open for one minute at the fifth fall in a row and
  twice as long with each further fall, up to one hour from the eleventh on; the shift never
  overflows, however many falls there were.\<close>
theorem circuit_wait_doubles:
  assumes "5 \<le> f"
  shows "circuitWait f = (if f \<le> 10 then minute * 2 ^ nat (f - 5) else hour)
    \<and> minute \<le> circuitWait f \<and> circuitWait f \<le> hour \<and> circuitWait f \<le> circuitWait (f + 1)"
proof -
  have eq: "circuitWait g = (if g \<le> 10 then minute * 2 ^ nat (g - 5) else hour)" if "5 \<le> g" for g
  proof (cases "g \<le> 10")
    case True
    then have "(2 :: int) ^ nat (g - 5) \<le> 2 ^ 5" by (intro power_increasing) auto
    then have "minute * 2 ^ nat (g - 5) \<le> hour" by (simp add: duration_defs)
    with True that show ?thesis by (simp add: circuitWait_eq circuitThreshold_def min_def)
  next
    case False
    then have "(2 :: int) ^ 6 \<le> 2 ^ nat (min (g - 5) 16)" by (intro power_increasing) auto
    then have "hour \<le> minute * 2 ^ nat (min (g - 5) 16)" by (simp add: duration_defs)
    with False that show ?thesis by (simp add: circuitWait_eq circuitThreshold_def min_def)
  qed
  have one: "(1 :: int) \<le> 2 ^ n" for n by simp
  have bound: "minute \<le> circuitWait g \<and> circuitWait g \<le> hour" if "5 \<le> g" for g
    using that one [of "nat (min (g - 5) 16)"]
    by (simp add: circuitWait_eq circuitThreshold_def min_def duration_defs)
  have "circuitWait f \<le> circuitWait (f + 1)"
  proof (cases "f \<le> 9")
    case True
    have "(2 :: int) ^ nat (f - 5) \<le> 2 ^ nat (f + 1 - 5)" using assms by (intro power_increasing) auto
    with True assms show ?thesis by (simp add: eq duration_defs)
  next
    case False
    then have "circuitWait (f + 1) = hour" using assms by (simp add: eq)
    with bound [OF assms] show ?thesis by simp
  qed
  with eq [OF assms] bound [OF assms] show ?thesis by simp
qed

theorem circuit_wait_doubles_witness: "circuitWait 7 = 4 * minute"
proof -
  have "circuitWait 7 = (if (7 :: int) \<le> 10 then minute * 2 ^ nat (7 - 5) else hour)"
    using circuit_wait_doubles [of 7] by simp
  then show ?thesis by simp
qed

text \<open>While its circuit is open a source is not asked and reserves no turn: \<open>AwaitSource\<close> fails
  with the open circuit and leaves the database as it was.\<close>
theorem open_circuit_refuses:
  assumes "calm w" and "\<not> tx_open w" and "row_of SourceHealth domain (wdb w) = Some h"
    and "HealthOpenUntil h = Some t" and "clock w (ticks w) < t"
  shows "\<exists>w'. AwaitSource b domain w = (Inl (ErrCircuitOpen t), w') \<and> wdb w' = wdb w \<and> naps w' = naps w"
  using assms by (simp add: AwaitSource_def loadSource_def run_simps calm_Get)

definition fallen :: source_health where
  "fallen = (fresh_health ''store.cl'')\<lparr>HealthFailures := 5, HealthOpenUntil := Some minute\<rparr>"

theorem open_circuit_refuses_witness:
  "\<exists>w'. AwaitSource default_store ''store.cl'' (calm_world (put_row SourceHealth ''store.cl'' fallen empty_db))
     = (Inl (ErrCircuitOpen minute), w')"
  using open_circuit_refuses [of "calm_world (put_row SourceHealth ''store.cl'' fallen empty_db)"
      "''store.cl''" fallen minute default_store]
  by (auto simp: coll_simps fallen_def duration_defs)

text \<open>What a source's answer does to its health: a success clears the falls and closes the
  circuit; a 429 changes neither, however many arrive; any other failure counts one more fall
  and, from the fifth in a row on, opens the circuit for the wait of that many falls.\<close>
theorem health_update:
  assumes "updateSource h latency err w = (r, w')"
  shows "\<exists>h'. r = Inr h' \<and> HealthSource h' = HealthSource h
    \<and> (err = None \<longrightarrow> HealthFailures h' = 0 \<and> HealthOpenUntil h' = None
          \<and> HealthLastSuccess h' = Some (clock w (ticks w)))
    \<and> (Throttled err \<longrightarrow> HealthFailures h' = HealthFailures h \<and> HealthOpenUntil h' = HealthOpenUntil h)
    \<and> (err \<noteq> None \<and> \<not> Throttled err \<longrightarrow> HealthFailures h' = HealthFailures h + 1
          \<and> HealthOpenUntil h' = (if 4 \<le> HealthFailures h
                 then Some (clock w (ticks w) + circuitWait (HealthFailures h + 1))
                 else HealthOpenUntil h))"
  using assms
  by (auto simp: updateSource_def Let_def run_simps circuitThreshold_def Throttled_def)

theorem health_update_witness:
  "\<exists>h' w'. updateSource (fresh_health ''store.cl'') 0 None (calm_world empty_db) = (Inr h', w')
     \<and> HealthFailures h' = 0"
proof -
  obtain r w' where run: "updateSource (fresh_health ''store.cl'') 0 None (calm_world empty_db) = (r, w')"
    by (metis prod.collapse)
  from health_update [OF run] run show ?thesis by auto
qed

end
