(* ===== verification/Prints.thy ===== *)
theory Prints
  imports CardNames "HOL-Library.AList"
begin

text \<open>
  internal/cardmetadata/prints.go: which printing of a card a store title names.  The regular
  expression splits a title into words of letters, digits and the star; what is a letter or
  a digit outside ASCII is an argument.
\<close>

record print =
  PrintEdition :: string
  PrintEditionName :: string
  PrintCollectorNumber :: string
  PrintImage :: string

record print_index =
  IndexExact :: "(string \<times> string) list"
  IndexEditions :: "(string \<times> string) list"

definition Index_Empty :: "print_index \<Rightarrow> bool" where
  "Index_Empty p \<longleftrightarrow> IndexEditions p = []"

section \<open>Indexing\<close>

text \<open>One name of one printing: its pair is overwritten, its edition keeps the first image.\<close>

definition index_edition :: "string \<Rightarrow> string \<Rightarrow> string \<Rightarrow> print_index \<Rightarrow> print_index" where
  "index_edition number pic edition p =
     (if edition = [] then p
      else p\<lparr>IndexExact := AList.update (edition @ '':'' @ number) pic (IndexExact p),
             IndexEditions := (if map_of (IndexEditions p) edition = None
                               then AList.update edition pic (IndexEditions p)
                               else IndexEditions p)\<rparr>)"

definition index_print :: "text_env \<Rightarrow> print \<Rightarrow> print_index \<Rightarrow> print_index" where
  "index_print env one p =
     (let number = ToLower env (PrintCollectorNumber one) in
      if number = [] \<or> PrintImage one = [] then p
      else index_edition number (PrintImage one) (ToLower env (PrintEditionName one))
             (index_edition number (PrintImage one) (ToLower env (PrintEdition one)) p))"

definition IndexPrints :: "text_env \<Rightarrow> print list \<Rightarrow> print_index" where
  "IndexPrints env prints =
     foldl (\<lambda>p one. index_print env one p) \<lparr>IndexExact = [], IndexEditions = []\<rparr> prints"

section \<open>The words of a title\<close>

record word_env =
  word_text :: text_env
  letter_rune :: "string \<Rightarrow> bool"

definition star :: string where "star = [CHR 0xE2, CHR 0x98, CHR 0x85]"

definition word_rune :: "word_env \<Rightarrow> string \<Rightarrow> bool" where
  "word_rune we r \<longleftrightarrow>
     (case r of [c] \<Rightarrow> isWordByte c | _ \<Rightarrow> r = star \<or> letter_rune we r)"

fun words_of :: "(string \<Rightarrow> bool) \<Rightarrow> string \<Rightarrow> string list \<Rightarrow> string list" where
  "words_of ok cur [] = (if cur = [] then [] else [cur])"
| "words_of ok cur (r # rs) =
     (if ok r then words_of ok (cur @ r) rs
      else if cur = [] then words_of ok [] rs
      else cur # words_of ok [] rs)"

definition titleWords :: "word_env \<Rightarrow> string \<Rightarrow> string list" where
  "titleWords we title = words_of (word_rune we) [] (runes title)"

section \<open>The edition and the image\<close>

definition longestEditionName :: nat where "longestEditionName = 6"

text \<open>The runs of the title's words the loops visit, the longest first, each length from the left.\<close>

definition runs_of :: "string list \<Rightarrow> nat \<Rightarrow> string list" where
  "runs_of words n = map (\<lambda>start. Join (take n (drop start words)) '' '') [0 ..< Suc (length words) - n]"

definition candidates :: "string list \<Rightarrow> string list" where
  "candidates words = concat (map (runs_of words) (rev [1 ..< Suc longestEditionName]))"

definition longestEdition :: "string list \<Rightarrow> (string \<times> string) list \<Rightarrow> string" where
  "longestEdition words editions =
     (case find (\<lambda>c. map_of editions c \<noteq> None) (candidates words) of None \<Rightarrow> [] | Some c \<Rightarrow> c)"

definition ImageFor :: "word_env \<Rightarrow> print_index \<Rightarrow> string \<Rightarrow> string \<Rightarrow> string" where
  "ImageFor we p title name =
     (let env = word_text we;
          words = titleWords we (TrimPrefix (ToLower env title) (ToLower env name));
          edition = longestEdition words (IndexEditions p)
      in if edition = [] then []
         else case find (\<lambda>w. lookup_string (IndexExact p) (edition @ '':'' @ w) \<noteq> []) words of
                Some w \<Rightarrow> lookup_string (IndexExact p) (edition @ '':'' @ w)
              | None \<Rightarrow> lookup_string (IndexEditions p) edition)"

section \<open>What the index holds\<close>

text \<open>The names a usable printing is indexed under.\<close>

definition names_of :: "text_env \<Rightarrow> print \<Rightarrow> string set" where
  "names_of env one =
     (if ToLower env (PrintCollectorNumber one) = [] \<or> PrintImage one = [] then {}
      else {ToLower env (PrintEdition one), ToLower env (PrintEditionName one)} - {[]})"

definition pair_of :: "text_env \<Rightarrow> print \<Rightarrow> string \<Rightarrow> string" where
  "pair_of env one e = e @ '':'' @ ToLower env (PrintCollectorNumber one)"

definition indexed_by :: "text_env \<Rightarrow> print list \<Rightarrow> print_index \<Rightarrow> bool" where
  "indexed_by env prints p \<longleftrightarrow>
     (\<forall>k v. map_of (IndexExact p) k = Some v \<longrightarrow>
        (\<exists>one \<in> set prints. \<exists>e \<in> names_of env one. k = pair_of env one e \<and> v = PrintImage one))
   \<and> (\<forall>e v. map_of (IndexEditions p) e = Some v \<longrightarrow>
        (\<exists>one \<in> set prints. e \<in> names_of env one \<and> v = PrintImage one))
   \<and> (\<forall>one \<in> set prints. \<forall>e \<in> names_of env one.
        map_of (IndexEditions p) e \<noteq> None \<and> map_of (IndexExact p) (pair_of env one e) \<noteq> None)"

lemma index_edition_lookup:
  "map_of (IndexExact (index_edition number pic e p)) k =
     (if e \<noteq> [] \<and> k = e @ '':'' @ number then Some pic else map_of (IndexExact p) k)"
  "map_of (IndexEditions (index_edition number pic e p)) k =
     (if e \<noteq> [] \<and> k = e \<and> map_of (IndexEditions p) e = None then Some pic
      else map_of (IndexEditions p) k)"
  by (auto simp: index_edition_def map_of_alist_update)

lemma indexed_by_step:
  assumes "indexed_by env prints p"
  shows "indexed_by env (prints @ [one]) (index_print env one p)"
proof (cases "ToLower env (PrintCollectorNumber one) = [] \<or> PrintImage one = []")
  case True
  then have "names_of env one = {}" "index_print env one p = p"
    by (auto simp: names_of_def index_print_def Let_def)
  with assms show ?thesis by (auto simp: indexed_by_def)
next
  case False
  let ?p = "index_print env one p"
  have names: "names_of env one = {ToLower env (PrintEdition one), ToLower env (PrintEditionName one)} - {[]}"
    using False by (simp add: names_of_def)
  have exact: "map_of (IndexExact ?p) k =
      (if \<exists>e \<in> names_of env one. k = pair_of env one e then Some (PrintImage one)
       else map_of (IndexExact p) k)" for k
    using False by (auto simp: index_print_def Let_def index_edition_lookup names pair_of_def)
  have editions: "map_of (IndexEditions ?p) e =
      (if e \<in> names_of env one \<and> map_of (IndexEditions p) e = None then Some (PrintImage one)
       else map_of (IndexEditions p) e)" for e
    using False by (auto simp: index_print_def Let_def index_edition_lookup names)
  show ?thesis
    unfolding indexed_by_def
  proof (intro conjI allI impI ballI)
    fix k v assume "map_of (IndexExact ?p) k = Some v"
    with assms show "\<exists>x \<in> set (prints @ [one]). \<exists>e \<in> names_of env x.
        k = pair_of env x e \<and> v = PrintImage x"
      by (auto simp: exact indexed_by_def split: if_splits)
  next
    fix e v assume "map_of (IndexEditions ?p) e = Some v"
    with assms show "\<exists>x \<in> set (prints @ [one]). e \<in> names_of env x \<and> v = PrintImage x"
      by (auto simp: editions indexed_by_def split: if_splits)
  next
    fix x e assume "x \<in> set (prints @ [one])" "e \<in> names_of env x"
    with assms show "map_of (IndexEditions ?p) e \<noteq> None"
      and "map_of (IndexExact ?p) (pair_of env x e) \<noteq> None"
      by (auto simp: editions exact indexed_by_def)
  qed
qed

lemma IndexPrints_indexed: "indexed_by env prints (IndexPrints env prints)"
proof (induction prints rule: rev_induct)
  case Nil
  then show ?case by (simp add: indexed_by_def IndexPrints_def)
next
  case (snoc one prints)
  then show ?case using indexed_by_step [OF snoc.IH] by (simp add: IndexPrints_def)
qed

section \<open>Words hold no separator\<close>

lemma rune_len_bytes:
  "c \<in> set (take (rune_len s) s) \<Longrightarrow> rune_len s = 1 \<or> 128 \<le> byte c"
proof (cases s)
  case (Cons a t)
  assume c: "c \<in> set (take (rune_len s) s)"
  have second: "second_ok x b \<Longrightarrow> 128 \<le> byte b" for x b
    by (simp add: second_ok_def is_cont_def split: if_splits)
  have cont: "is_cont b \<Longrightarrow> 128 \<le> byte b" for b by (simp add: is_cont_def)
  consider "byte a < 128" | "128 \<le> byte a" "byte a < 224" | "224 \<le> byte a" "byte a \<le> 239"
    | "239 < byte a" by linarith
  then show ?thesis
  proof cases
    case 1
    with Cons show ?thesis by simp
  next
    case 2
    with Cons c show ?thesis
      by (cases t) (auto simp: Let_def dest: cont split: if_splits)
  next
    case 3
    with Cons c show ?thesis
      by (auto simp: Let_def dest: cont second split: if_splits list.splits)
  next
    case 4
    with Cons c show ?thesis
      by (auto simp: Let_def dest: cont second split: if_splits list.splits)
  qed
qed simp

lemma runes_bytes: "r \<in> set (runes s) \<Longrightarrow> (\<exists>c. r = [c]) \<or> (\<forall>c \<in> set r. 128 \<le> byte c)"
proof (induction s rule: runes.induct)
  case (2 c s)
  let ?n = "rune_len (c # s)"
  show ?case
  proof (cases "?n = 0")
    case True
    with 2(3) consider "r = rune_error" | "r \<in> set (runes s)"
      by (auto simp: runes.simps(2) simp del: rune_len.simps)
    then show ?thesis
    proof cases
      case 1
      then show ?thesis by (auto simp: rune_error_def byte_def)
    next
      case 2
      with "2.IH"(1) True show ?thesis by blast
    qed
  next
    case False
    with 2(3) consider "r = take ?n (c # s)" | "r \<in> set (runes (drop ?n (c # s)))"
      by (auto simp: runes.simps(2) simp del: rune_len.simps)
    then show ?thesis
    proof cases
      case 1
      show ?thesis
      proof (cases "?n = 1")
        case True
        with 1 show ?thesis by (simp del: rune_len.simps)
      next
        case False
        with 1 rune_len_bytes [of _ "c # s"] show ?thesis by blast
      qed
    next
      case 2
      with "2.IH"(2) False show ?thesis by blast
    qed
  qed
qed simp

lemma words_of_chars:
  assumes "\<And>r c. r \<in> set rs \<Longrightarrow> ok r \<Longrightarrow> c \<in> set r \<Longrightarrow> P c" and "\<And>c. c \<in> set cur \<Longrightarrow> P c"
    and "w \<in> set (words_of ok cur rs)" and "c \<in> set w"
  shows "P c"
  using assms
proof (induction ok cur rs rule: words_of.induct)
  case (2 ok cur r rs)
  show ?case
  proof (cases "ok r")
    case True
    with 2(4,5,6,7) 2(1) [OF True] show ?thesis by auto
  next
    case False
    with 2(4,5,6,7) 2(2) [OF False] 2(3) [OF False] show ?thesis by (auto split: if_splits)
  qed
qed (auto split: if_splits)

lemma titleWords_no_colon: "w \<in> set (titleWords we title) \<Longrightarrow> CHR '':'' \<notin> set w"
proof -
  assume w: "w \<in> set (titleWords we title)"
  have "c \<noteq> CHR '':''" if "r \<in> set (runes title)" "word_rune we r" "c \<in> set r" for r c
    using runes_bytes [OF that(1)] that(2,3)
    by (auto simp: word_rune_def isWordByte_def byte_def)
  then show ?thesis using words_of_chars [of "runes title" "word_rune we" "\<lambda>c. c \<noteq> CHR '':''" "[]" w]
      w by (auto simp: titleWords_def)
qed

lemma Join_members: "c \<in> set (Join ws sep) \<Longrightarrow> (\<exists>w \<in> set ws. c \<in> set w) \<or> c \<in> set sep"
  by (induction ws sep rule: Join.induct) auto

lemma candidates_mem:
  "e \<in> set (candidates words) \<longleftrightarrow>
   (\<exists>n start. 1 \<le> n \<and> n \<le> longestEditionName \<and> start + n \<le> length words
      \<and> e = Join (take n (drop start words)) '' '')"
proof -
  have "set (candidates words) = (\<Union>n \<in> {1 ..< Suc longestEditionName}.
      (\<lambda>start. Join (take n (drop start words)) '' '') ` {0 ..< Suc (length words) - n})"
    by (simp add: candidates_def runs_of_def del: upt_Suc)
  moreover have "start + n \<le> length words \<longleftrightarrow> start < Suc (length words) - n" for n start
    by linarith
  ultimately show ?thesis
    by (simp only: UN_iff image_iff Bex_def atLeastLessThan_iff less_Suc_eq_le) blast
qed

lemma candidate_no_colon:
  assumes "e \<in> set (candidates (titleWords we title))"
  shows "CHR '':'' \<notin> set e"
proof
  assume "CHR '':'' \<in> set e"
  with assms obtain n start where "CHR '':'' \<in> set (Join (take n (drop start (titleWords we title))) '' '')"
    by (auto simp: candidates_mem)
  from Join_members [OF this] obtain w where "w \<in> set (take n (drop start (titleWords we title)))" "CHR '':'' \<in> set w"
    by auto
  then show False using titleWords_no_colon by (metis in_set_dropD in_set_takeD)
qed

lemma colon_split:
  assumes "e @ CHR '':'' # n = a @ CHR '':'' # w" and "CHR '':'' \<notin> set a" "CHR '':'' \<notin> set w"
  shows "e = a \<and> n = w"
  using assms by (auto simp: append_eq_append_conv2 Cons_eq_append_conv append_eq_Cons_conv)

section \<open>The answered image\<close>

lemma longestEdition_longest:
  assumes "longestEdition words editions = e" and "e \<noteq> []"
  obtains n start where "1 \<le> n" "n \<le> longestEditionName" "start + n \<le> length words"
    "e = Join (take n (drop start words)) '' ''" "map_of editions e \<noteq> None"
    "\<And>m s. n < m \<Longrightarrow> m \<le> longestEditionName \<Longrightarrow> s + m \<le> length words \<Longrightarrow>
       map_of editions (Join (take m (drop s words)) '' '') = None"
proof -
  let ?known = "\<lambda>c. map_of editions c \<noteq> None"
  from assms have find: "find ?known (candidates words) = Some e"
    by (simp add: longestEdition_def split: option.splits)
  then have known: "?known e" by (auto simp: find_Some_iff)
  have "\<exists>n. 1 \<le> n \<and> n \<le> k \<and> e \<in> set (runs_of words n)
      \<and> (\<forall>m s. n < m \<longrightarrow> m \<le> k \<longrightarrow> s + m \<le> length words \<longrightarrow>
            \<not> ?known (Join (take m (drop s words)) '' ''))"
    if "find ?known (concat (map (runs_of words) (rev [1 ..< Suc k]))) = Some e" for k
    using that
  proof (induction k)
    case (Suc k)
    have split: "concat (map (runs_of words) (rev [1 ..< Suc (Suc k)]))
        = runs_of words (Suc k) @ concat (map (runs_of words) (rev [1 ..< Suc k]))" by simp
    show ?case
    proof (cases "find ?known (runs_of words (Suc k))")
      case None
      with Suc.prems have "find ?known (concat (map (runs_of words) (rev [1 ..< Suc k]))) = Some e"
        unfolding split find_append by simp
      from Suc.IH [OF this] obtain n where n: "1 \<le> n" "n \<le> k" "e \<in> set (runs_of words n)"
          "\<forall>m s. n < m \<longrightarrow> m \<le> k \<longrightarrow> s + m \<le> length words \<longrightarrow>
             \<not> ?known (Join (take m (drop s words)) '' '')" by blast
      have "\<not> ?known (Join (take (Suc k) (drop s words)) '' '')" if "s + Suc k \<le> length words" for s
        using None that by (auto simp: find_None_iff runs_of_def)
      with n have "\<forall>m s. n < m \<longrightarrow> m \<le> Suc k \<longrightarrow> s + m \<le> length words \<longrightarrow>
             \<not> ?known (Join (take m (drop s words)) '' '')"
        by (metis le_Suc_eq)
      with n show ?thesis by (metis le_SucI)
    next
      case (Some x)
      with Suc.prems have "x = e" unfolding split find_append by simp
      with Some have "e \<in> set (runs_of words (Suc k))" by (auto simp: find_Some_iff)
      then show ?thesis by (intro exI [of _ "Suc k"]) simp
    qed
  qed simp
  from this [OF find [unfolded candidates_def]] obtain n where n: "1 \<le> n" "n \<le> longestEditionName"
      "e \<in> set (runs_of words n)"
      "\<forall>m s. n < m \<longrightarrow> m \<le> longestEditionName \<longrightarrow> s + m \<le> length words \<longrightarrow>
          \<not> ?known (Join (take m (drop s words)) '' '')" by blast
  from n(3) obtain start where "start < Suc (length words) - n" "e = Join (take n (drop start words)) '' ''"
    by (auto simp: runs_of_def simp del: upt_Suc)
  with n known show thesis by (intro that [of n start]) auto
qed

lemma named_image_ne: "a \<in> names_of env one \<Longrightarrow> PrintImage one \<noteq> []"
  by (auto simp: names_of_def split: if_splits)

lemma exact_hit:
  assumes "indexed_by env prints p" and "CHR '':'' \<notin> set e" "CHR '':'' \<notin> set w"
    and "lookup_string (IndexExact p) (e @ '':'' @ w) \<noteq> []"
  obtains one where "one \<in> set prints" "e \<in> names_of env one"
    "ToLower env (PrintCollectorNumber one) = w"
    "lookup_string (IndexExact p) (e @ '':'' @ w) = PrintImage one"
proof -
  from assms(4) obtain v where v: "map_of (IndexExact p) (e @ '':'' @ w) = Some v"
    by (auto simp: lookup_string_def split: option.splits)
  with assms(1) obtain one a where one: "one \<in> set prints" "a \<in> names_of env one"
      "e @ '':'' @ w = pair_of env one a" "v = PrintImage one"
    unfolding indexed_by_def by blast
  have "a = e \<and> ToLower env (PrintCollectorNumber one) = w"
    using colon_split [of a "ToLower env (PrintCollectorNumber one)" e w] one(3) assms(2,3)
    by (simp add: pair_of_def)
  with one v that show thesis by (auto simp: lookup_string_def)
qed

lemma exact_complete:
  assumes "indexed_by env prints p" and "two \<in> set prints" "e \<in> names_of env two"
  shows "lookup_string (IndexExact p) (e @ '':'' @ ToLower env (PrintCollectorNumber two)) \<noteq> []"
proof -
  from assms obtain v where v: "map_of (IndexExact p) (pair_of env two e) = Some v"
    unfolding indexed_by_def by blast
  with assms(1) obtain x a where "a \<in> names_of env x" "v = PrintImage x"
    unfolding indexed_by_def by blast
  with named_image_ne v show ?thesis by (auto simp: lookup_string_def pair_of_def)
qed

text \<open>The image answered for an edition known to the index.\<close>

lemma answered_image:
  assumes index: "indexed_by env prints p" and known: "map_of (IndexEditions p) e \<noteq> None"
    and colon: "CHR '':'' \<notin> set e" "\<And>w. w \<in> set words \<Longrightarrow> CHR '':'' \<notin> set w"
    and img: "img = (case find (\<lambda>w. lookup_string (IndexExact p) (e @ '':'' @ w) \<noteq> []) words of
                Some w \<Rightarrow> lookup_string (IndexExact p) (e @ '':'' @ w)
              | None \<Rightarrow> lookup_string (IndexEditions p) e)"
  shows "\<exists>one \<in> set prints. e \<in> names_of env one \<and> PrintImage one = img
    \<and> ((\<exists>two \<in> set prints. e \<in> names_of env two \<and> ToLower env (PrintCollectorNumber two) \<in> set words) \<longrightarrow>
         ToLower env (PrintCollectorNumber one) \<in> set words)"
proof (cases "find (\<lambda>w. lookup_string (IndexExact p) (e @ '':'' @ w) \<noteq> []) words")
  case (Some w)
  then have w: "w \<in> set words" "lookup_string (IndexExact p) (e @ '':'' @ w) \<noteq> []"
    by (auto simp: find_Some_iff)
  obtain one where "one \<in> set prints" "e \<in> names_of env one"
      "ToLower env (PrintCollectorNumber one) = w"
      "lookup_string (IndexExact p) (e @ '':'' @ w) = PrintImage one"
    by (rule exact_hit [OF index colon(1) colon(2) [OF w(1)] w(2)])
  with img Some w(1) show ?thesis by auto
next
  case None
  from known index obtain one where "one \<in> set prints" "e \<in> names_of env one"
      "map_of (IndexEditions p) e = Some (PrintImage one)"
    unfolding indexed_by_def by blast
  moreover have "ToLower env (PrintCollectorNumber two) \<notin> set words"
    if "two \<in> set prints" "e \<in> names_of env two" for two
    using exact_complete [OF index that] None by (auto simp: find_None_iff)
  ultimately show ?thesis using img None by (auto simp: lookup_string_def)
qed

text \<open>The picture an offer gets is that of a printing its title names: when \<open>ImageFor\<close>
  answers an image, some listed printing carries it, and the code or the name of that
  printing's edition is a run of up to six words of the title, no longer run of which names
  an edition of the card; and when some listed printing of that edition has a word of the
  title for its collector number, the answered one does too.\<close>
theorem image_names_printing:
  assumes img: "ImageFor we (IndexPrints (word_text we) prints) title name = img" "img \<noteq> []"
    and words: "words = titleWords we (TrimPrefix (ToLower (word_text we) title) (ToLower (word_text we) name))"
  shows "\<exists>one \<in> set prints. \<exists>e \<in> names_of (word_text we) one. PrintImage one = img
    \<and> (\<exists>n start. 1 \<le> n \<and> n \<le> longestEditionName \<and> start + n \<le> length words
          \<and> e = Join (take n (drop start words)) '' ''
          \<and> (\<forall>m s. n < m \<longrightarrow> m \<le> longestEditionName \<longrightarrow> s + m \<le> length words \<longrightarrow>
               (\<forall>other \<in> set prints. Join (take m (drop s words)) '' '' \<notin> names_of (word_text we) other)))
    \<and> ((\<exists>two \<in> set prints. e \<in> names_of (word_text we) two
            \<and> ToLower (word_text we) (PrintCollectorNumber two) \<in> set words) \<longrightarrow>
         ToLower (word_text we) (PrintCollectorNumber one) \<in> set words)"
proof -
  let ?env = "word_text we" and ?p = "IndexPrints (word_text we) prints"
  let ?e = "longestEdition words (IndexEditions ?p)"
  note index = IndexPrints_indexed [of ?env prints]
  have e: "?e \<noteq> []" using img by (auto simp: ImageFor_def words)
  from longestEdition_longest [OF refl e] obtain n start where n: "1 \<le> n" "n \<le> longestEditionName"
      "start + n \<le> length words" "?e = Join (take n (drop start words)) '' ''"
    and known: "map_of (IndexEditions ?p) ?e \<noteq> None"
    and longest: "\<And>m s. n < m \<Longrightarrow> m \<le> longestEditionName \<Longrightarrow> s + m \<le> length words \<Longrightarrow>
       map_of (IndexEditions ?p) (Join (take m (drop s words)) '' '') = None" by blast
  have none: "Join (take m (drop s words)) '' '' \<notin> names_of ?env other"
    if "n < m" "m \<le> longestEditionName" "s + m \<le> length words" "other \<in> set prints" for m s other
    using longest [OF that(1-3)] index that(4) unfolding indexed_by_def by blast
  have colon: "CHR '':'' \<notin> set ?e" "\<And>w. w \<in> set words \<Longrightarrow> CHR '':'' \<notin> set w"
    using candidate_no_colon [of ?e we] n titleWords_no_colon by (auto simp: words candidates_mem)
  have "img = (case find (\<lambda>w. lookup_string (IndexExact ?p) (?e @ '':'' @ w) \<noteq> []) words of
                Some w \<Rightarrow> lookup_string (IndexExact ?p) (?e @ '':'' @ w)
              | None \<Rightarrow> lookup_string (IndexEditions ?p) ?e)"
    unfolding img(1) [symmetric] ImageFor_def Let_def words [symmetric]
    by (rule if_not_P) (rule e)
  from answered_image [OF index known colon this] n none show ?thesis by blast
qed

definition plain_words :: word_env where
  "plain_words = \<lparr>word_text = plain_env, letter_rune = (\<lambda>r. False)\<rparr>"

definition demo_prints :: "print list" where
  "demo_prints =
     [\<lparr>PrintEdition = ''c20'', PrintEditionName = ''commander 2020'', PrintCollectorNumber = ''1'', PrintImage = ''A''\<rparr>,
      \<lparr>PrintEdition = ''c20'', PrintEditionName = ''commander 2020'', PrintCollectorNumber = ''263'', PrintImage = ''B''\<rparr>]"

theorem image_names_printing_witness:
  "ImageFor plain_words (IndexPrints plain_env demo_prints) ''Sol Ring [C20] #263'' ''Sol Ring'' = ''B''
   \<and> (\<exists>one \<in> set demo_prints. PrintImage one = ''B''
        \<and> ToLower plain_env (PrintCollectorNumber one) \<in> {''c20'', ''263''})"
proof -
  have img: "ImageFor plain_words (IndexPrints (word_text plain_words) demo_prints)
      ''Sol Ring [C20] #263'' ''Sol Ring'' = ''B''" by code_simp
  have words: "[''c20'', ''263''] = titleWords plain_words
      (TrimPrefix (ToLower (word_text plain_words) ''Sol Ring [C20] #263'')
         (ToLower (word_text plain_words) ''Sol Ring''))" by code_simp
  have two: "\<exists>two \<in> set demo_prints. ToLower plain_env (PrintCollectorNumber two) = ''263''"
    by code_simp
  have names: "\<forall>one \<in> set demo_prints. names_of plain_env one = {''c20'', ''commander 2020''}"
    by code_simp
  have env: "word_text plain_words = plain_env" by (simp add: plain_words_def)
  from image_names_printing [OF img _ words] obtain one e where
      one: "one \<in> set demo_prints" "e \<in> names_of plain_env one" "PrintImage one = ''B''"
      "(\<exists>two \<in> set demo_prints. e \<in> names_of plain_env two
          \<and> ToLower plain_env (PrintCollectorNumber two) \<in> set [''c20'', ''263'']) \<longrightarrow>
       ToLower plain_env (PrintCollectorNumber one) \<in> set [''c20'', ''263'']"
    unfolding env by blast
  from two obtain two where "two \<in> set demo_prints" "ToLower plain_env (PrintCollectorNumber two) = ''263''"
    by blast
  moreover from this one names have "e \<in> names_of plain_env two" by metis
  ultimately have "ToLower plain_env (PrintCollectorNumber one) \<in> {''c20'', ''263''}" using one(4) by auto
  with one img env show ?thesis by auto
qed

end
