(* ===== verification/CardCatalog.thy ===== *)
theory CardCatalog
  imports Effects Prints
begin

text \<open>
  internal/cardmetadata (the Scryfall client) and internal/search/card_service.go: metadata,
  name completion and canonical names of one card.  The fetcher, the JSON decoder and the
  \<open>%q\<close> verb of fmt are arguments.
\<close>

record metadata_request =
  MetaReqName :: string
  MetaReqLanguage :: string
  MetaReqEdition :: string
  MetaReqFoil :: bool

record metadata =
  MetaName :: string
  MetaPrintedName :: string
  MetaEdition :: string
  MetaImage :: string
  MetaURL :: string

definition zero_metadata :: metadata where
  "zero_metadata = \<lparr>MetaName = [], MetaPrintedName = [], MetaEdition = [], MetaImage = [], MetaURL = []\<rparr>"

datatype scryfall_card = ScryfallCard
  (CardName: string) (CardPrintedName: string) (CardSet: string) (CardSetName: string)
  (CardCollectorNumber: string) (CardScryfallURL: string)
  (CardImageURIs: "(string \<times> string) list") (CardFaces: "scryfall_card list")

record scryfall =
  ScryFetch :: "string \<Rightarrow> string \<Rightarrow> string io"
  ScryBaseURL :: string
  ScryDecodeList :: "string \<Rightarrow> failure + scryfall_card list"
  ScryDecodeCard :: "string \<Rightarrow> failure + scryfall_card"
  ScryQuote :: "string \<Rightarrow> string"
  ScryText :: text_env

definition scryfallDomain :: string where "scryfallDomain = ''api.scryfall.com''"
definition defaultLanguage :: string where "defaultLanguage = ''en''"
definition autocompleteLimit :: nat where "autocompleteLimit = 3"

section \<open>Requests\<close>

text \<open>\<open>url.Values.Encode\<close> on keys given in their sorted order, one value each.\<close>

definition hex_upper :: "nat \<Rightarrow> char" where
  "hex_upper n = (if n < 10 then char_of (48 + n) else char_of (55 + n))"

definition QueryEscape :: "string \<Rightarrow> string" where
  "QueryEscape s = concat (map (\<lambda>c.
     if isWordByte c \<or> c \<in> set ''-_.~'' then [c]
     else if c = CHR '' '' then ''+''
     else [CHR ''%'', hex_upper (byte c div 16), hex_upper (byte c mod 16)]) s)"

definition Encode :: "(string \<times> string) list \<Rightarrow> string" where
  "Encode values = Join (map (\<lambda>(k, v). QueryEscape k @ ''='' @ QueryEscape v) values) ''&''"

definition Scryfall_fetch :: "scryfall \<Rightarrow> string \<Rightarrow> (string \<times> string) list \<Rightarrow> string io" where
  "Scryfall_fetch s path query =
     (let base = (if ScryBaseURL s = [] then ''https://api.scryfall.com'' else ScryBaseURL s)
      in ScryFetch s scryfallDomain (base @ path @ ''?'' @ Encode query))"

definition metadataOf :: "scryfall_card \<Rightarrow> metadata" where
  "metadataOf c =
     (let images = (case CardImageURIs c of
                      [] \<Rightarrow> (case CardFaces c of [] \<Rightarrow> [] | face # _ \<Rightarrow> CardImageURIs face)
                    | uris \<Rightarrow> uris);
          pic = lookup_string images ''normal'';
          pic = (if pic = [] then lookup_string images ''large'' else pic);
          pic = (if pic = [] then lookup_string images ''small'' else pic)
      in \<lparr>MetaName = CardName c, MetaPrintedName = CardPrintedName c, MetaEdition = CardSet c,
          MetaImage = pic, MetaURL = CardScryfallURL c\<rparr>)"

text \<open>\<open>json.Unmarshal\<close>: the decoded value, or its error.\<close>

definition from_sum :: "failure + 'a \<Rightarrow> 'a io" where
  "from_sum r = (case r of Inl e \<Rightarrow> fail_io e | Inr x \<Rightarrow> return_io x)"

section \<open>Metadata\<close>

definition onlyCard :: "scryfall \<Rightarrow> string \<Rightarrow> (string \<times> string) list \<Rightarrow> scryfall_card option io" where
  "onlyCard s path query =
     bind_io (Scryfall_fetch s path query) (\<lambda>body.
     bind_io (from_sum (ScryDecodeList s body)) (\<lambda>cards.
       return_io (case cards of [c] \<Rightarrow> Some c | _ \<Rightarrow> None)))"

definition firstCard :: "scryfall \<Rightarrow> string \<Rightarrow> (string \<times> string) list \<Rightarrow> scryfall_card option io" where
  "firstCard s path query =
     bind_io (Scryfall_fetch s path query) (\<lambda>body.
       if path = ''/cards/search''
       then bind_io (from_sum (ScryDecodeList s body)) (\<lambda>cards.
              return_io (case cards of [] \<Rightarrow> None | c # _ \<Rightarrow> Some c))
       else bind_io (from_sum (ScryDecodeCard s body)) (\<lambda>c. return_io (Some c)))"

definition metadata_or_none :: "scryfall_card option \<Rightarrow> metadata" where
  "metadata_or_none c = (case c of None \<Rightarrow> zero_metadata | Some c \<Rightarrow> metadataOf c)"

definition language_query :: "scryfall \<Rightarrow> string \<Rightarrow> string \<Rightarrow> string" where
  "language_query s language name = ''lang:'' @ language @ '' '' @ ScryQuote s name"

definition artFromSearch :: "scryfall \<Rightarrow> metadata_request \<Rightarrow> metadata io" where
  "artFromSearch s request =
     bind_io (firstCard s ''/cards/search''
        [(''include_multilingual'', ''true''),
         (''q'', language_query s (MetaReqLanguage request) (MetaReqName request)),
         (''unique'', ''cards'')]) (\<lambda>c. return_io (metadata_or_none c))"

definition edition_query :: "scryfall \<Rightarrow> metadata_request \<Rightarrow> string" where
  "edition_query s request =
     ''!'' @ ScryQuote s (MetaReqName request) @ '' set:'' @ MetaReqEdition request
     @ (if MetaReqFoil request then '' is:foil'' else [])"

definition findArt :: "scryfall \<Rightarrow> metadata_request \<Rightarrow> metadata io" where
  "findArt s request =
     bind_io (if MetaReqEdition request = [] then return_io (Inr None)
              else try_io (onlyCard s ''/cards/search''
                     [(''q'', edition_query s request), (''unique'', ''prints'')])) (\<lambda>named.
       case named of
         Inr (Some c) \<Rightarrow> return_io (metadataOf c)
       | _ \<Rightarrow>
           if MetaReqLanguage request \<noteq> [] then artFromSearch s request
           else bind_io (firstCard s ''/cards/named'' [(''fuzzy'', MetaReqName request)]) (\<lambda>c.
                  return_io (metadata_or_none c)))"

definition Scryfall_CardMetadata :: "scryfall \<Rightarrow> metadata_request \<Rightarrow> metadata io" where
  "Scryfall_CardMetadata s request = findArt s request"

section \<open>Completing a name\<close>

fun pick_names :: "string list \<Rightarrow> scryfall_card list \<Rightarrow> string list" where
  "pick_names names [] = names"
| "pick_names names (c # cards) =
     (let name = (if CardPrintedName c = [] then CardName c else CardPrintedName c);
          names = (if name \<noteq> [] \<and> name \<notin> set names then names @ [name] else names)
      in if length names = autocompleteLimit then names else pick_names names cards)"

definition Scryfall_Autocomplete :: "scryfall \<Rightarrow> string \<Rightarrow> string \<Rightarrow> string list io" where
  "Scryfall_Autocomplete s text language =
     (if text = [] then return_io []
      else let language = (if language = [] then defaultLanguage else language) in
        bind_io (Scryfall_fetch s ''/cards/search''
           [(''include_multilingual'', ''true''), (''q'', language_query s language text),
            (''unique'', ''cards'')]) (\<lambda>body.
        bind_io (from_sum (ScryDecodeList s body)) (\<lambda>cards. return_io (pick_names [] cards))))"

section \<open>The canonical name\<close>

definition missingAsNotFound :: "failure \<Rightarrow> failure" where
  "missingAsNotFound e =
     (case e of StatusError code _ \<Rightarrow> if code = 404 then ErrCatalogCardNotFound else e | _ \<Rightarrow> e)"

definition canonicalNamed :: "scryfall \<Rightarrow> string \<Rightarrow> string io" where
  "canonicalNamed s name =
     bind_io (map_failure missingAsNotFound (Scryfall_fetch s ''/cards/named'' [(''fuzzy'', name)]))
       (\<lambda>body. case ScryDecodeCard s body of
          Inl _ \<Rightarrow> fail_io ErrCatalogCardNotFound
        | Inr c \<Rightarrow> if CardName c = [] then fail_io ErrCatalogCardNotFound else return_io (CardName c))"

definition canonicalInLanguage :: "scryfall \<Rightarrow> string \<Rightarrow> string \<Rightarrow> string io" where
  "canonicalInLanguage s name language =
     bind_io (map_failure missingAsNotFound (Scryfall_fetch s ''/cards/search''
        [(''include_multilingual'', ''true''), (''order'', ''released''),
         (''q'', language_query s language name)]))
       (\<lambda>body. case ScryDecodeList s body of
          Inl _ \<Rightarrow> fail_io ErrCatalogCardNotFound
        | Inr [] \<Rightarrow> fail_io ErrCatalogCardNotFound
        | Inr (c # _) \<Rightarrow>
            if CardName c = [] then fail_io ErrCatalogCardNotFound else return_io (CardName c))"

definition Scryfall_CanonicalName :: "scryfall \<Rightarrow> string \<Rightarrow> string \<Rightarrow> string io" where
  "Scryfall_CanonicalName s name language =
     (if language = [] then canonicalNamed s name else canonicalInLanguage s name language)"

section \<open>Printings\<close>

definition print_of :: "text_env \<Rightarrow> scryfall_card \<Rightarrow> print option" where
  "print_of env c =
     (let meta = metadataOf c in
      if MetaImage meta = [] then None
      else Some \<lparr>PrintEdition = ToLower env (CardSet c), PrintEditionName = ToLower env (CardSetName c),
                 PrintCollectorNumber = ToLower env (CardCollectorNumber c),
                 PrintImage = MetaImage meta\<rparr>)"

definition Scryfall_CardPrints :: "scryfall \<Rightarrow> string \<Rightarrow> print list io" where
  "Scryfall_CardPrints s name =
     bind_io (Scryfall_fetch s ''/cards/search''
        [(''q'', ''!'' @ ScryQuote s name), (''unique'', ''prints'')]) (\<lambda>body.
     bind_io (from_sum (ScryDecodeList s body)) (\<lambda>cards.
       return_io (List.map_filter (print_of (ScryText s)) cards)))"

section \<open>The card service (internal/search/card_service.go)\<close>

record card_service =
  SvcMetadata :: "(game \<times> (metadata_request \<Rightarrow> metadata io)) list"
  SvcAutocomplete :: "(game \<times> (string \<Rightarrow> string \<Rightarrow> string list io)) list"
  SvcNames :: "(game \<times> (string \<Rightarrow> string \<Rightarrow> string io)) list"
  SvcLanguages :: "(game \<times> string list) list"

definition checkLanguage :: "card_service \<Rightarrow> game \<Rightarrow> string \<Rightarrow> unit io" where
  "checkLanguage s game language =
     (case map_of (SvcLanguages s) game of
        None \<Rightarrow> return_io ()
      | Some declared \<Rightarrow>
          if language = [] \<or> language \<in> set declared then return_io ()
          else fail_io ErrUnsupportedLanguage)"

definition ReadCardMetadata :: "card_service \<Rightarrow> game \<Rightarrow> metadata_request \<Rightarrow> metadata io" where
  "ReadCardMetadata s game request =
     (case map_of (SvcMetadata s) game of
        None \<Rightarrow> fail_io ErrNoCardMetadata
      | Some provider \<Rightarrow>
          let request = request\<lparr>MetaReqName := TrimSpace (MetaReqName request)\<rparr> in
          if MetaReqName request = [] then fail_io ErrNoCardName
          else bind_io (checkLanguage s game (MetaReqLanguage request)) (\<lambda>_. provider request))"

definition SuggestCardNames :: "card_service \<Rightarrow> game \<Rightarrow> string \<Rightarrow> string \<Rightarrow> string list io" where
  "SuggestCardNames s game name language =
     (case map_of (SvcAutocomplete s) game of
        None \<Rightarrow> fail_io ErrNoAutocomplete
      | Some provider \<Rightarrow>
          let name = TrimSpace name in
          if name = [] then fail_io ErrNoCardName
          else bind_io (checkLanguage s game language) (\<lambda>_. provider name language))"

definition ResolveCardName :: "card_service \<Rightarrow> game \<Rightarrow> string \<Rightarrow> string \<Rightarrow> string io" where
  "ResolveCardName s game name language =
     (case map_of (SvcNames s) game of
        None \<Rightarrow> fail_io ErrNoCardNames
      | Some provider \<Rightarrow>
          let name = TrimSpace name in
          if name = [] then fail_io ErrNoCardName
          else bind_io (checkLanguage s game language) (\<lambda>_.
                 map_failure (\<lambda>e. if e = ErrCatalogCardNotFound then ErrCardNotFound else e)
                   (provider name language)))"

section \<open>Suggestions\<close>

text \<open>The members of a list in the order of their first appearance, after some that came before.\<close>

definition first_seen :: "'a list \<Rightarrow> 'a list \<Rightarrow> 'a list" where
  "first_seen before xs = foldl (\<lambda>acc x. if x \<in> set acc then acc else acc @ [x]) before xs"

lemma first_seen_simps [simp]:
  "first_seen before [] = before"
  "first_seen before (x # xs) = first_seen (if x \<in> set before then before else before @ [x]) xs"
  by (simp_all add: first_seen_def)

lemma first_seen_extends: "\<exists>more. first_seen before xs = before @ more"
proof (induction xs arbitrary: before)
  case (Cons x xs)
  show ?case
  proof (cases "x \<in> set before")
    case False
    obtain more where "first_seen (before @ [x]) xs = (before @ [x]) @ more" using Cons.IH by blast
    with False show ?thesis by simp
  qed (use Cons.IH in simp)
qed simp

lemma first_seen_distinct: "distinct before \<Longrightarrow> distinct (first_seen before xs)"
  by (induction xs arbitrary: before) auto

lemma first_seen_set: "set (first_seen before xs) = set before \<union> set xs"
  by (induction xs arbitrary: before) auto

definition shown_name :: "scryfall_card \<Rightarrow> string" where
  "shown_name c = (if CardPrintedName c = [] then CardName c else CardPrintedName c)"

lemma pick_names_eq:
  "length names < autocompleteLimit \<Longrightarrow>
   pick_names names cards = take autocompleteLimit (first_seen names (filter (\<lambda>n. n \<noteq> []) (map shown_name cards)))"
proof (induction names cards rule: pick_names.induct)
  case (2 names c cards)
  let ?rest = "filter (\<lambda>n. n \<noteq> []) (map shown_name cards)"
  define names2 where "names2 = (if shown_name c \<noteq> [] \<and> shown_name c \<notin> set names
      then names @ [shown_name c] else names)"
  have step: "pick_names names (c # cards)
      = (if length names2 = autocompleteLimit then names2 else pick_names names2 cards)"
    by (simp add: names2_def shown_name_def Let_def)
  have spec: "first_seen names (filter (\<lambda>n. n \<noteq> []) (map shown_name (c # cards))) = first_seen names2 ?rest"
    by (simp add: names2_def)
  show ?case
  proof (cases "length names2 = autocompleteLimit")
    case True
    obtain more where "first_seen names2 ?rest = names2 @ more" using first_seen_extends by blast
    with True show ?thesis unfolding step spec by simp
  next
    case False
    moreover have "length names2 \<le> Suc (length names)" by (simp add: names2_def)
    ultimately have "length names2 < autocompleteLimit" using 2(2) by linarith
    then have "pick_names names2 cards = take autocompleteLimit (first_seen names2 ?rest)"
      by (intro 2(1) [of "shown_name c"]) (use False in \<open>simp_all add: names2_def shown_name_def\<close>)
    with False show ?thesis unfolding step spec by simp
  qed
qed simp

text \<open>A completer of names answers few of them, no two alike and none blank.\<close>

locale name_completer =
  fixes complete :: "string \<Rightarrow> string \<Rightarrow> string list io"
  assumes completed: "complete typed language w = (Inr names, w') \<Longrightarrow>
    length names \<le> autocompleteLimit \<and> distinct names \<and> [] \<notin> set names"
begin

lemma suggested:
  assumes "map_of (SvcAutocomplete s) game = Some complete"
    and "SuggestCardNames s game name language w = (Inr names, w')"
  shows "TrimSpace name \<noteq> [] \<and> complete (TrimSpace name) language w = (Inr names, w')
    \<and> length names \<le> autocompleteLimit \<and> distinct names \<and> [] \<notin> set names"
proof -
  from assms have "TrimSpace name \<noteq> [] \<and> complete (TrimSpace name) language w = (Inr names, w')"
    by (auto simp: SuggestCardNames_def checkLanguage_def Let_def go_io split: if_splits option.splits)
  with completed show ?thesis by blast
qed

end

lemma from_sum_run [go_io]: "from_sum r w = (a, w') \<longleftrightarrow> r = a \<and> w' = w"
  by (cases r) (auto simp: from_sum_def go_io)

interpretation scryfall_completer: name_completer "Scryfall_Autocomplete s"
proof
  fix typed language w names w'
  assume "Scryfall_Autocomplete s typed language w = (Inr names, w')"
  then have "names = [] \<or> (\<exists>cards. names = pick_names [] cards)"
    by (auto simp: Scryfall_Autocomplete_def Let_def go_io split: if_splits)
  then show "length names \<le> autocompleteLimit \<and> distinct names \<and> [] \<notin> set names"
  proof
    assume "\<exists>cards. names = pick_names [] cards"
    then obtain cards where "names = take autocompleteLimit
        (first_seen [] (filter (\<lambda>n. n \<noteq> []) (map shown_name cards)))"
      by (auto simp: pick_names_eq autocompleteLimit_def)
    then show ?thesis
      by (auto simp: first_seen_distinct first_seen_set dest!: in_set_takeD)
  qed simp
qed

text \<open>Suggestions are few, distinct and never blank: for a game completed by Scryfall an answer
  is the first three printed (or, without one, canonical) names of the cards the catalogue
  listed, without repetitions and in the order they were listed, and it was asked for a
  trimmed, non-empty text.\<close>
theorem suggestions_are_first_names:
  assumes "map_of (SvcAutocomplete s) game = Some (Scryfall_Autocomplete sc)"
    and "SuggestCardNames s game name language w = (Inr names, w')"
  shows "length names \<le> 3 \<and> distinct names \<and> [] \<notin> set names
    \<and> (\<exists>target body cards. ScryFetch sc ''api.scryfall.com'' target w = (Inr body, w')
         \<and> ScryDecodeList sc body = Inr cards
         \<and> names = take 3 (first_seen [] (filter (\<lambda>n. n \<noteq> []) (map shown_name cards))))"
proof -
  note S = scryfall_completer.suggested [OF assms]
  then have "\<exists>target body cards. ScryFetch sc ''api.scryfall.com'' target w = (Inr body, w')
         \<and> ScryDecodeList sc body = Inr cards \<and> names = pick_names [] cards"
    by (clarsimp simp: Scryfall_Autocomplete_def Scryfall_fetch_def scryfallDomain_def Let_def go_io) blast
  with S show ?thesis by (auto simp: pick_names_eq autocompleteLimit_def)
qed

definition demo_card :: "string \<Rightarrow> string \<Rightarrow> scryfall_card" where
  "demo_card name printed = ScryfallCard name printed ''c20'' ''Commander 2020'' ''1'' [] [(''normal'', ''A'')] []"

definition demo_scryfall :: scryfall where
  "demo_scryfall = \<lparr>ScryFetch = (\<lambda>d t. return_io t), ScryBaseURL = [],
     ScryDecodeList = (\<lambda>b. Inr [demo_card ''Opt'' ''Optar'', demo_card ''Opt'' ''Optar'', demo_card ''Optimus'' []]),
     ScryDecodeCard = (\<lambda>b. Inr (demo_card ''Opt'' [])), ScryQuote = (\<lambda>s. s), ScryText = plain_env\<rparr>"

definition demo_cards :: card_service where
  "demo_cards = \<lparr>SvcMetadata = [], SvcAutocomplete = [(GameMagic, Scryfall_Autocomplete demo_scryfall)],
     SvcNames = [(GameMagic, Scryfall_CanonicalName demo_scryfall)], SvcLanguages = [(GameMagic, [''es''])]\<rparr>"

theorem suggestions_are_first_names_witness:
  "fst (SuggestCardNames demo_cards GameMagic '' opt'' ''es'' (calm_world empty_db))
     = Inr [''Optar'', ''Optimus''] \<and> distinct [''Optar'', ''Optimus'']"
proof -
  have game: "map_of (SvcAutocomplete demo_cards) GameMagic = Some (Scryfall_Autocomplete demo_scryfall)"
    by (simp add: demo_cards_def)
  have fst: "fst (SuggestCardNames demo_cards GameMagic '' opt'' ''es'' (calm_world empty_db))
      = Inr [''Optar'', ''Optimus'']" by code_simp
  then obtain w' where "SuggestCardNames demo_cards GameMagic '' opt'' ''es'' (calm_world empty_db)
      = (Inr [''Optar'', ''Optimus''], w')" by (metis prod.collapse)
  from suggestions_are_first_names [OF game this] fst show ?thesis by blast
qed

section \<open>Canonical names\<close>

text \<open>A catalogue of names never answers a blank one.\<close>

locale name_catalog =
  fixes resolve :: "string \<Rightarrow> string \<Rightarrow> string io"
  assumes named: "resolve name language w = (Inr c, w') \<Longrightarrow> c \<noteq> []"
begin

lemma resolved:
  assumes "map_of (SvcNames s) game = Some resolve"
    and "ResolveCardName s game name language w = (Inr c, w')"
  shows "TrimSpace name \<noteq> [] \<and> c \<noteq> []"
  using assms named
  by (auto simp: ResolveCardName_def checkLanguage_def Let_def go_io split: if_splits option.splits)

end

lemma Scryfall_CanonicalName_runs:
  assumes "Scryfall_CanonicalName s name language w = (r, w')"
  shows "\<exists>target x. ScryFetch s ''api.scryfall.com'' target w = (x, w')
    \<and> (case x of
         Inl e \<Rightarrow> r = Inl (missingAsNotFound e)
       | Inr body \<Rightarrow> r = Inl ErrCatalogCardNotFound \<or> (\<exists>c. r = Inr c \<and> c \<noteq> []))"
proof -
  obtain target k where run: "bind_io (map_failure missingAsNotFound (ScryFetch s ''api.scryfall.com'' target)) k w = (r, w')"
    and k: "\<And>body w1. k body w1 = (Inl ErrCatalogCardNotFound, w1) \<or> (\<exists>c. k body w1 = (Inr c, w1) \<and> c \<noteq> [])"
  proof (cases "language = []")
    case True
    with assms that show thesis
      by (fastforce simp: Scryfall_CanonicalName_def canonicalNamed_def Scryfall_fetch_def
          scryfallDomain_def Let_def return_io_def fail_io_def split: sum.splits)
  next
    case False
    with assms that show thesis
      by (fastforce simp: Scryfall_CanonicalName_def canonicalInLanguage_def Scryfall_fetch_def
          scryfallDomain_def Let_def return_io_def fail_io_def split: sum.splits list.splits)
  qed
  obtain x w1 where x: "ScryFetch s ''api.scryfall.com'' target w = (x, w1)" by (cases "ScryFetch s ''api.scryfall.com'' target w")
  show ?thesis
  proof (cases x)
    case (Inl e)
    with run x show ?thesis by (intro exI [of _ target] exI [of _ x]) (auto simp: bind_io_def map_failure_def)
  next
    case (Inr body)
    with run x k [of body w1] show ?thesis
      by (intro exI [of _ target] exI [of _ x]) (auto simp: bind_io_def map_failure_def)
  qed
qed

interpretation scryfall_catalog: name_catalog "Scryfall_CanonicalName s"
  by unfold_locales (fastforce dest: Scryfall_CanonicalName_runs split: sum.splits)

lemma ResolveCardName_asks:
  assumes game: "map_of (SvcNames s) game = Some provider"
    and run: "ResolveCardName s game name language w = (r, w')"
    and name: "TrimSpace name \<noteq> []" and ok: "checkLanguage s game language w = (Inr (), w)"
  obtains a where "provider (TrimSpace name) language w = (a, w')"
    "r = (case a of Inl e \<Rightarrow> Inl (if e = ErrCatalogCardNotFound then ErrCardNotFound else e) | Inr c \<Rightarrow> Inr c)"
  using run game name ok
  by (cases "provider (TrimSpace name) language w")
     (auto simp: ResolveCardName_def bind_io_def map_failure_def split: sum.splits)

lemma checkLanguage_cases:
  "checkLanguage s game language w =
     (if \<exists>declared. map_of (SvcLanguages s) game = Some declared \<and> language \<noteq> [] \<and> language \<notin> set declared
      then (Inl ErrUnsupportedLanguage, w) else (Inr (), w))"
  by (auto simp: checkLanguage_def run_simps split: option.split)

lemma catalog_reply:
  assumes "case x of Inl e \<Rightarrow> a = Inl (missingAsNotFound e)
           | Inr body \<Rightarrow> a = Inl ErrCatalogCardNotFound \<or> (\<exists>c. a = Inr c \<and> c \<noteq> [])"
    and "r = (case a of Inl e \<Rightarrow> Inl (if e = ErrCatalogCardNotFound then ErrCardNotFound else e) | Inr c \<Rightarrow> Inr c)"
  shows "case x of
        Inl e \<Rightarrow> r = Inl (if e = ErrCatalogCardNotFound \<or> (\<exists>b. e = StatusError 404 b) then ErrCardNotFound else e)
      | Inr body \<Rightarrow> r = Inl ErrCardNotFound \<or> (\<exists>c. r = Inr c \<and> c \<noteq> [])"
  using assms by (auto simp: missingAsNotFound_def split: sum.splits failure.splits if_splits)

text \<open>What resolving a name answers, for a game served by Scryfall: a canonical name is never
  blank; a blank request or an undeclared language is refused before the catalogue is asked;
  a 404 of the catalogue, a reply that cannot be read and a reply that names no card all come
  back as \<open>ErrCardNotFound\<close>, and every other failure of the call as it came.\<close>
theorem resolve_card_name:
  assumes game: "map_of (SvcNames s) game = Some (Scryfall_CanonicalName sc)"
    and run: "ResolveCardName s game name language w = (r, w')"
  shows "if TrimSpace name = [] then r = Inl ErrNoCardName \<and> w' = w
    else if \<exists>declared. map_of (SvcLanguages s) game = Some declared \<and> language \<noteq> [] \<and> language \<notin> set declared
    then r = Inl ErrUnsupportedLanguage \<and> w' = w
    else \<exists>target reply. ScryFetch sc ''api.scryfall.com'' target w = (reply, w')
      \<and> (case reply of
           Inl e \<Rightarrow> r = Inl (if e = ErrCatalogCardNotFound \<or> (\<exists>b. e = StatusError 404 b)
                            then ErrCardNotFound else e)
         | Inr body \<Rightarrow> r = Inl ErrCardNotFound \<or> (\<exists>c. r = Inr c \<and> c \<noteq> []))"
proof (cases "TrimSpace name = []")
  case True
  with run game show ?thesis by (simp add: ResolveCardName_def fail_io_def)
next
  case name: False
  show ?thesis
  proof (cases "\<exists>declared. map_of (SvcLanguages s) game = Some declared \<and> language \<noteq> [] \<and> language \<notin> set declared")
    case True
    with run game name show ?thesis
      by (simp add: ResolveCardName_def bind_io_def checkLanguage_cases)
  next
    case False
    then have "checkLanguage s game language w = (Inr (), w)" by (simp add: checkLanguage_cases)
    from ResolveCardName_asks [OF game run name this] obtain a where
        a: "Scryfall_CanonicalName sc (TrimSpace name) language w = (a, w')"
        "r = (case a of Inl e \<Rightarrow> Inl (if e = ErrCatalogCardNotFound then ErrCardNotFound else e) | Inr c \<Rightarrow> Inr c)"
      by blast
    from Scryfall_CanonicalName_runs [OF a(1)] catalog_reply [OF _ a(2)] show ?thesis
      unfolding if_not_P [OF name] if_not_P [OF False] by blast
  qed
qed

theorem resolve_card_name_witness:
  "\<exists>w'. ResolveCardName demo_cards GameMagic ''optar '' ''es'' (calm_world empty_db) = (Inr ''Opt'', w')
     \<and> (\<exists>target body. ScryFetch demo_scryfall ''api.scryfall.com'' target (calm_world empty_db) = (Inr body, w'))"
proof -
  have game: "map_of (SvcNames demo_cards) GameMagic = Some (Scryfall_CanonicalName demo_scryfall)"
    by (simp add: demo_cards_def)
  have "fst (ResolveCardName demo_cards GameMagic ''optar '' ''es'' (calm_world empty_db)) = Inr ''Opt''"
    by code_simp
  then obtain w' where run: "ResolveCardName demo_cards GameMagic ''optar '' ''es'' (calm_world empty_db)
      = (Inr ''Opt'', w')" by (metis prod.collapse)
  have "TrimSpace ''optar '' \<noteq> []" by code_simp
  moreover have "map_of (SvcLanguages demo_cards) GameMagic = Some [''es'']" by (simp add: demo_cards_def)
  ultimately obtain target reply where
      reply: "ScryFetch demo_scryfall ''api.scryfall.com'' target (calm_world empty_db) = (reply, w')"
    and cases: "case reply of
           Inl e \<Rightarrow> Inr ''Opt'' = (Inl (if e = ErrCatalogCardNotFound \<or> (\<exists>b. e = StatusError 404 b)
                            then ErrCardNotFound else e) :: failure + string)
         | Inr body \<Rightarrow> Inr ''Opt'' = (Inl ErrCardNotFound :: failure + string)
             \<or> (\<exists>c. (Inr ''Opt'' :: failure + string) = Inr c \<and> c \<noteq> [])"
    using resolve_card_name [OF game run] by auto
  from cases obtain body where "reply = Inr body" by (cases reply) simp_all
  with reply run show ?thesis by blast
qed

end
