(* ===== verification/OrderStore.thy ===== *)
theory OrderStore
  imports SearchStore
begin

text \<open>
  internal/repositories/order_store.go and internal/orders/releaser.go: orders are placed
  under an idempotency key and move between statuses, each move guarded inside the update
  that writes it.
\<close>

definition mapOrderError :: "failure \<Rightarrow> failure" where
  "mapOrderError e = (if e = ErrMissing then ErrOrderNotFound else e)"

definition placed_order :: "order \<Rightarrow> string \<Rightarrow> time \<Rightarrow> order" where
  "placed_order o1 i n = o1\<lparr>OrderID := i, OrderCreatedAt := n, OrderUpdatedAt := n\<rparr>"

definition Store_CreateOrder :: "duration \<Rightarrow> string \<Rightarrow> string \<Rightarrow> order \<Rightarrow> order io" where
  "Store_CreateOrder ttl key hash o1 =
     map_failure mapSearchError (Transact (
       bind_io (readRequest ''place-order'' key) (\<lambda>(stored, found).
         if found
         then if RequestHash stored \<noteq> hash then fail_io ErrConflict
              else map_failure mapOrderError (Get Orders (RequestResourceID stored))
         else bind_io now (\<lambda>n.
              bind_io (buildID ''order'') (\<lambda>i.
                let placed = placed_order o1 i n in
                bind_io (Create Orders i placed) (\<lambda>_.
                bind_io (saveRequest ''place-order'' key
                   \<lparr>RequestHash = hash, RequestResourceID = i, RequestExpiresAt = n + ttl\<rparr>)
                  (\<lambda>_. return_io placed)))))))"

definition Store_GetOrder :: "string \<Rightarrow> order io" where
  "Store_GetOrder i = map_failure mapOrderError (Get Orders i)"

definition store_order_query :: "string \<Rightarrow> string \<Rightarrow> (order, time) query" where
  "store_order_query domain storeOrder =
     \<lparr>QueryFilters = [\<lambda>o1. OrderDomain o1 = domain, \<lambda>o1. OrderStoreOrder o1 = storeOrder],
      QueryOrderBy = None, QueryLimit = 1\<rparr>"

definition FindOrderByStoreOrder :: "string \<Rightarrow> string \<Rightarrow> order io" where
  "FindOrderByStoreOrder domain storeOrder =
     bind_io (ListRecords Orders (store_order_query domain storeOrder)) (\<lambda>found.
       case found of [] \<Rightarrow> fail_io ErrOrderNotFound | o1 # _ \<Rightarrow> return_io o1)"

definition move_order :: "order_status \<Rightarrow> order_status \<Rightarrow> order \<Rightarrow> order io" where
  "move_order from_status to_status o1 =
     (if OrderStatus o1 \<noteq> from_status then fail_io ErrOrderConflict
      else bind_io now (\<lambda>n. return_io (o1\<lparr>OrderStatus := to_status, OrderUpdatedAt := n\<rparr>)))"

definition MoveOrderStatus :: "string \<Rightarrow> order_status \<Rightarrow> order_status \<Rightarrow> order io" where
  "MoveOrderStatus i from_status to_status =
     map_failure mapOrderError (Update Orders i (move_order from_status to_status))"

definition report_order :: "string \<Rightarrow> order \<Rightarrow> order io" where
  "report_order storeOrder o1 =
     (if OrderStatus o1 \<noteq> OrderLinked then fail_io ErrOrderConflict
      else bind_io now (\<lambda>n. return_io (o1\<lparr>OrderStatus := OrderReported,
             OrderStoreOrder := storeOrder, OrderUpdatedAt := n\<rparr>)))"

definition Store_ReportOrder :: "string \<Rightarrow> string \<Rightarrow> order io" where
  "Store_ReportOrder i storeOrder =
     map_failure mapOrderError (Update Orders i (report_order storeOrder))"

definition stale_query :: "time \<Rightarrow> int \<Rightarrow> (order, time) query" where
  "stale_query cutoff limit =
     \<lparr>QueryFilters = [\<lambda>o1. OrderStatus o1 = OrderPending, \<lambda>o1. OrderUpdatedAt o1 \<le> cutoff],
      QueryOrderBy = Some OrderUpdatedAt, QueryLimit = limit\<rparr>"

text \<open>The loop over the stale orders: the number released, and the failure that stopped it.\<close>

fun release_orders :: "order list \<Rightarrow> nat \<Rightarrow> (nat \<times> failure option) io" where
  "release_orders [] released = return_io (released, None)"
| "release_orders (o1 # rest) released =
     bind_io (try_io (MoveOrderStatus (OrderID o1) OrderPending OrderReleased)) (\<lambda>r.
       case r of
         Inr _ \<Rightarrow> release_orders rest (Suc released)
       | Inl e \<Rightarrow> if e = ErrOrderConflict then release_orders rest released
                  else return_io (released, Some e))"

definition ReleaseExpiredOrders :: "duration \<Rightarrow> int \<Rightarrow> (nat \<times> failure option) io" where
  "ReleaseExpiredOrders olderThan limit =
     bind_io now (\<lambda>n.
     bind_io (ListRecords Orders (stale_query (n - olderThan) limit)) (\<lambda>stale.
       release_orders stale 0))"

section \<open>The releaser (internal/orders/releaser.go)\<close>

record releaser =
  MaxAge :: duration
  MaxReleases :: int

definition ReleaseOrders :: "releaser \<Rightarrow> nat io" where
  "ReleaseOrders r =
     (let limit = (if MaxReleases r \<le> 0 then 50 else MaxReleases r);
          age = (if MaxAge r \<le> 0 then 24 * hour else MaxAge r)
      in bind_io (ReleaseExpiredOrders age limit) (\<lambda>(released, err).
           case err of Some e \<Rightarrow> fail_io e | None \<Rightarrow> return_io released))"

section \<open>What the operations do\<close>

lemma mapOrderError_simps [simp]:
  "mapOrderError (Failure s) = Failure s" "mapOrderError ErrOrderConflict = ErrOrderConflict"
  "mapOrderError ErrMissing = ErrOrderNotFound"
  by (simp_all add: mapOrderError_def)

lemma move_order_Inr:
  "move_order f g o1 w = (Inr o2, w') \<longleftrightarrow>
   OrderStatus o1 = f \<and> o2 = o1\<lparr>OrderStatus := g, OrderUpdatedAt := clock w (ticks w)\<rparr>
   \<and> w' = w\<lparr>ticks := Suc (ticks w)\<rparr>"
  by (auto simp: move_order_def go_io)

lemma reads_only_move_order [simp]: "reads_only (move_order f g o1)"
  unfolding move_order_def by (intro reads_intros) simp_all

lemma sound_move_order [sound_intros]: "sound (move_order f g o1)"
  unfolding move_order_def by (intro sound_intros)

lemma reads_only_report_order [simp]: "reads_only (report_order n o1)"
  unfolding report_order_def by (intro reads_intros) simp_all

lemma MoveOrderStatus_Inr:
  assumes "MoveOrderStatus i f g w = (Inr o2, w')" and "\<not> tx_open w"
  obtains o1 n where "row_of Orders i (wdb w) = Some o1" "OrderStatus o1 = f"
    "o2 = o1\<lparr>OrderStatus := g, OrderUpdatedAt := n\<rparr>" "wdb w' = put_row Orders i o2 (wdb w)"
proof -
  from assms(1) have "Update Orders i (move_order f g) w = (Inr o2, w')"
    by (simp add: MoveOrderStatus_def go_io)
  then obtain x w1 w2 where "row_of Orders i (wdb w) = Some x"
      "move_order f g x w1 = (Inr o2, w2)" "wdb w' = put_row Orders i o2 (wdb w)"
    by (rule Update_Inr [OF _ assms(2)]) auto
  then show thesis using that by (auto simp: move_order_Inr)
qed

lemma report_order_Inr:
  "report_order num o1 w = (Inr o2, w') \<longleftrightarrow>
   OrderStatus o1 = OrderLinked \<and> o2 = o1\<lparr>OrderStatus := OrderReported, OrderStoreOrder := num,
     OrderUpdatedAt := clock w (ticks w)\<rparr> \<and> w' = w\<lparr>ticks := Suc (ticks w)\<rparr>"
  by (auto simp: report_order_def go_io)

lemma Store_ReportOrder_Inr:
  assumes "Store_ReportOrder i num w = (Inr o2, w')" and "\<not> tx_open w"
  obtains o1 n where "row_of Orders i (wdb w) = Some o1" "OrderStatus o1 = OrderLinked"
    "o2 = o1\<lparr>OrderStatus := OrderReported, OrderStoreOrder := num, OrderUpdatedAt := n\<rparr>"
    "wdb w' = put_row Orders i o2 (wdb w)"
proof -
  from assms(1) have "Update Orders i (report_order num) w = (Inr o2, w')"
    by (simp add: Store_ReportOrder_def go_io)
  then obtain x w1 w2 where "row_of Orders i (wdb w) = Some x"
      "report_order num x w1 = (Inr o2, w2)" "wdb w' = put_row Orders i o2 (wdb w)"
    by (rule Update_Inr [OF _ assms(2)]) auto
  then show thesis using that by (auto simp: report_order_Inr)
qed

lemma atomic_MoveOrderStatus: "atomic (MoveOrderStatus i f g)"
  unfolding MoveOrderStatus_def by (intro atomic_map_failure atomic_Update) simp

lemma atomic_Store_ReportOrder: "atomic (Store_ReportOrder i num)"
  unfolding Store_ReportOrder_def by (intro atomic_map_failure atomic_Update) simp

lemma sound_MoveOrderStatus [sound_intros]: "sound (MoveOrderStatus i f g)"
  unfolding MoveOrderStatus_def by (intro sound_intros)

section \<open>How one order can move\<close>

text \<open>
  An order as a later state shows it: the same identity, and a status reached by the moves
  the program makes.
\<close>

inductive order_move :: "order_status \<Rightarrow> order_status \<Rightarrow> bool" where
  confirmed: "order_move OrderPending OrderConfirmed"
| released: "order_move OrderPending OrderReleased"
| reported: "order_move OrderLinked OrderReported"

inductive_simps order_move_simps: "order_move a b"

definition order_after :: "order \<Rightarrow> order \<Rightarrow> bool" where
  "order_after o1 o2 \<longleftrightarrow>
     OrderID o2 = OrderID o1 \<and> OrderSearchID o2 = OrderSearchID o1 \<and> OrderDomain o2 = OrderDomain o1
     \<and> OrderLines o2 = OrderLines o1 \<and> OrderCreatedAt o2 = OrderCreatedAt o1
     \<and> OrderPaymentURL o2 = OrderPaymentURL o1
     \<and> (OrderStatus o2 = OrderStatus o1 \<or> order_move (OrderStatus o1) (OrderStatus o2))
     \<and> (OrderStoreOrder o2 = OrderStoreOrder o1 \<or> OrderStatus o2 = OrderReported)"

definition orders_advance :: "database \<Rightarrow> database \<Rightarrow> bool" where
  "orders_advance d d' \<longleftrightarrow>
     (\<forall>i o1. row_of Orders i d = Some o1 \<longrightarrow> (\<exists>o2. row_of Orders i d' = Some o2 \<and> order_after o1 o2))"

lemma order_after_refl [simp]: "order_after o1 o1"
  by (simp add: order_after_def)

lemma orders_advance_refl [simp]: "orders_advance d d"
  by (auto simp: orders_advance_def)

lemma orders_advance_same: "db_orders d' = db_orders d \<Longrightarrow> orders_advance d d'"
  by (auto simp: orders_advance_def row_of_def)

lemma orders_advance_put:
  "row_of Orders i d = Some o1 \<Longrightarrow> order_after o1 o2 \<Longrightarrow> orders_advance d (put_row Orders i o2 d)"
  by (auto simp: orders_advance_def coll_simps)

lemma MoveOrderStatus_advances:
  assumes "MoveOrderStatus i OrderPending g w = (r, w')" and "\<not> tx_open w"
    and "g = OrderConfirmed \<or> g = OrderReleased"
  shows "orders_advance (wdb w) (wdb w')"
proof (cases r)
  case (Inl e)
  with assms(1) have "wdb w' = wdb w" using atomicD [OF atomic_MoveOrderStatus] by blast
  then show ?thesis by simp
next
  case (Inr o2)
  from assms(1) [unfolded Inr] assms(2) show ?thesis
    by (rule MoveOrderStatus_Inr)
       (use assms(3) in \<open>auto intro!: orders_advance_put simp: order_after_def order_move_simps\<close>)
qed

lemma Store_ReportOrder_advances:
  assumes "Store_ReportOrder i num w = (r, w')" and "\<not> tx_open w"
  shows "orders_advance (wdb w) (wdb w')"
proof (cases r)
  case (Inl e)
  with assms(1) have "wdb w' = wdb w" using atomicD [OF atomic_Store_ReportOrder] by blast
  then show ?thesis by simp
next
  case (Inr o2)
  from assms(1) [unfolded Inr] assms(2) show ?thesis
    by (rule Store_ReportOrder_Inr)
       (auto intro!: orders_advance_put simp: order_after_def order_move_simps)
qed

text \<open>An order that is confirmed, released or reported has nowhere left to go.\<close>

definition order_settled :: "order_status \<Rightarrow> bool" where
  "order_settled st \<longleftrightarrow> st = OrderConfirmed \<or> st = OrderReleased \<or> st = OrderReported"

lemma order_after_trans: "order_after a b \<Longrightarrow> order_after b c \<Longrightarrow> order_after a c"
  unfolding order_after_def order_move_simps by auto

lemma orders_advance_trans: "orders_advance a b \<Longrightarrow> orders_advance b c \<Longrightarrow> orders_advance a c"
  unfolding orders_advance_def by (meson order_after_trans)

lemma order_after_settled: "order_after a b \<Longrightarrow> order_settled (OrderStatus a) \<Longrightarrow> OrderStatus b = OrderStatus a"
  by (auto simp: order_after_def order_move_simps order_settled_def)

section \<open>Placing\<close>

lemma Store_CreateOrder_Inr:
  assumes "Store_CreateOrder ttl key hash o1 w = (Inr placed, w')"
  shows "(wdb w' = wdb w \<and> (\<exists>req. row_of Requests (''place-order:'' @ key) (wdb w) = Some req
            \<and> RequestHash req = hash
            \<and> row_of Orders (RequestResourceID req) (wdb w) = Some placed))
    \<or> (\<exists>n. let i = build_id ''order'' (entropy w (draws w)) in
          row_of Orders i (wdb w) = None \<and> placed = placed_order o1 i n
          \<and> wdb w' = put_row Requests (''place-order:'' @ key)
               \<lparr>RequestHash = hash, RequestResourceID = i, RequestExpiresAt = n + ttl\<rparr>
             (put_row Orders i placed (wdb w)))"
proof -
  let ?body = "\<lambda>(stored, found).
         if found
         then if RequestHash stored \<noteq> hash then fail_io ErrConflict
              else map_failure mapOrderError (Get Orders (RequestResourceID stored))
         else bind_io now (\<lambda>n.
              bind_io (buildID ''order'') (\<lambda>i.
                let placed = placed_order o1 i n in
                bind_io (Create Orders i placed) (\<lambda>_.
                bind_io (saveRequest ''place-order'' key
                   \<lparr>RequestHash = hash, RequestResourceID = i, RequestExpiresAt = n + ttl\<rparr>)
                  (\<lambda>_. return_io placed))))"
  have "Transact (bind_io (readRequest ''place-order'' key) ?body) w = (Inr placed, w')"
    using assms by (simp add: Store_CreateOrder_def go_io)
  then obtain w1 where run: "bind_io (readRequest ''place-order'' key) ?body (begin_tx w) = (Inr placed, w1)"
    and doom: "\<not> tx_doomed w1" and w': "wdb w' = wdb w1"
    by (rule Transact_Inr) simp
  then obtain stored found w2 where req: "readRequest ''place-order'' key (begin_tx w) = (Inr (stored, found), w2)"
    and body: "?body (stored, found) w2 = (Inr placed, w1)"
    by (auto simp: go_io)
  note R = readRequest_Inr [OF req]
  show ?thesis
  proof (cases found)
    case True
    with body R w' show ?thesis by (auto simp: go_io split: if_splits)
  next
    case False
    have w2: "wdb w2 = wdb w" "entropy w2 = entropy w" "draws w2 = draws w" "\<not> tx_doomed w2"
      using R(1,4) by simp_all
    from False body w2 doom show ?thesis
      unfolding w' by (auto simp: go_io saveRequest_def Let_def split: if_splits)
  qed
qed

lemma Store_CreateOrder_advances:
  assumes "Store_CreateOrder ttl key hash o1 w = (r, w')"
  shows "orders_advance (wdb w) (wdb w')"
proof (cases r)
  case (Inl e)
  with assms have "wdb w' = wdb w" by (auto simp: Store_CreateOrder_def go_io dest: Transact_Inl)
  then show ?thesis by simp
next
  case (Inr placed)
  from Store_CreateOrder_Inr [OF assms [unfolded Inr]] show ?thesis
    by (auto simp: orders_advance_def Let_def coll_simps)
qed

section \<open>Releasing\<close>

lemma outside_MoveOrderStatus:
  "MoveOrderStatus i f g w = (r, w') \<Longrightarrow> \<not> tx_open w \<Longrightarrow> \<not> tx_open w'"
  using soundD [OF sound_MoveOrderStatus] by (auto simp: follows_def)

lemma MoveOrderStatus_one:
  assumes "MoveOrderStatus i OrderPending OrderReleased w = (r, w')" and "\<not> tx_open w"
  shows "row_of Orders j (wdb w') =
     (case r of Inl e \<Rightarrow> row_of Orders j (wdb w)
      | Inr o2 \<Rightarrow> if j = i then Some o2 else row_of Orders j (wdb w))
   \<and> (\<forall>o2. r = Inr o2 \<longrightarrow> (\<exists>o1. row_of Orders i (wdb w) = Some o1 \<and> OrderStatus o1 = OrderPending
        \<and> OrderStatus o2 = OrderReleased))"
proof (cases r)
  case (Inl e)
  with assms(1) have "wdb w' = wdb w" using atomicD [OF atomic_MoveOrderStatus] by blast
  with Inl show ?thesis by simp
next
  case (Inr o2)
  from assms(1) [unfolded Inr] assms(2) show ?thesis
    by (rule MoveOrderStatus_Inr) (auto simp: Inr coll_simps)
qed

definition newly_released :: "database \<Rightarrow> database \<Rightarrow> string set" where
  "newly_released d d' = {i. \<exists>o1 o2. row_of Orders i d = Some o1 \<and> OrderStatus o1 = OrderPending
     \<and> row_of Orders i d' = Some o2 \<and> OrderStatus o2 = OrderReleased}"

definition untouched :: "database \<Rightarrow> database \<Rightarrow> string \<Rightarrow> bool" where
  "untouched d d' i \<longleftrightarrow> row_of Orders i d' = row_of Orders i d"

lemma release_orders_run:
  assumes "release_orders os n w = (Inr (m, err), w')" and "\<not> tx_open w"
  shows "n \<le> m \<and> m \<le> n + length os \<and> card (newly_released (wdb w) (wdb w')) = m - n
    \<and> finite (newly_released (wdb w) (wdb w'))
    \<and> newly_released (wdb w) (wdb w') \<subseteq> OrderID ` set os
    \<and> (\<forall>i. i \<notin> newly_released (wdb w) (wdb w') \<longrightarrow> untouched (wdb w) (wdb w') i)"
  using assms
proof (induction os arbitrary: n w)
  case Nil
  then have "wdb w' = wdb w" "m = n" by (auto simp: go_io)
  moreover have "newly_released d d = {}" for d by (auto simp: newly_released_def)
  ultimately show ?case by (simp add: untouched_def)
next
  case (Cons o1 os)
  obtain r w1 where mv: "MoveOrderStatus (OrderID o1) OrderPending OrderReleased w = (r, w1)"
    by (cases "MoveOrderStatus (OrderID o1) OrderPending OrderReleased w")
  note rows = MoveOrderStatus_one [OF mv Cons.prems(2)]
  have open1: "\<not> tx_open w1" using outside_MoveOrderStatus [OF mv Cons.prems(2)] .
  show ?case
  proof (cases r)
    case (Inl e)
    then have same: "row_of Orders j (wdb w1) = row_of Orders j (wdb w)" for j using rows by simp
    have nr: "newly_released (wdb w1) d = newly_released (wdb w) d"
      "untouched (wdb w1) d = untouched (wdb w) d" for d
      by (auto simp: newly_released_def untouched_def same fun_eq_iff)
    show ?thesis
    proof (cases "e = ErrOrderConflict")
      case True
      with Cons.prems(1) mv Inl have "release_orders os n w1 = (Inr (m, err), w')"
        by (simp add: bind_io_def try_io_def)
      from Cons.IH [OF this open1] show ?thesis unfolding nr by auto
    next
      case False
      with Cons.prems(1) mv Inl have "m = n" "w' = w1"
        by (simp_all add: bind_io_def try_io_def return_io_def)
      moreover have "newly_released (wdb w) (wdb w1) = {}"
        by (auto simp: newly_released_def same)
      ultimately show ?thesis by (simp add: untouched_def same)
    qed
  next
    case (Inr o2)
    let ?i = "OrderID o1"
    from Cons.prems(1) mv Inr have "release_orders os (Suc n) w1 = (Inr (m, err), w')"
      by (simp add: bind_io_def try_io_def)
    note IH = Cons.IH [OF this open1]
    from rows Inr obtain o0 where o0: "row_of Orders ?i (wdb w) = Some o0" "OrderStatus o0 = OrderPending"
      "OrderStatus o2 = OrderReleased" by auto
    have at: "row_of Orders j (wdb w1) = (if j = ?i then Some o2 else row_of Orders j (wdb w))" for j
      using rows Inr by simp
    let ?A = "newly_released (wdb w1) (wdb w')"
    have notin: "?i \<notin> ?A" using at o0 by (auto simp: newly_released_def)
    then have keep: "row_of Orders ?i (wdb w') = Some o2" using IH at by (simp add: untouched_def)
    have A: "newly_released (wdb w) (wdb w') = insert ?i ?A"
      using notin keep o0 at by (auto simp: newly_released_def split: if_splits)
    show ?thesis unfolding A using IH notin at keep by (auto simp: untouched_def)
  qed
qed

section \<open>The life of an order\<close>

text \<open>
  The calls the program makes on the order collection: a webhook confirms or releases a
  pending order (internal/search/order_service.go), a sweep releases the expired ones, a
  buyer reports a linked one, and new ones are placed.
\<close>

inductive order_step :: "world \<Rightarrow> world \<Rightarrow> bool" where
  Place: "Store_CreateOrder ttl key hash o1 w = (r, w') \<Longrightarrow> \<not> tx_open w \<Longrightarrow> order_step w w'"
| Webhook: "MoveOrderStatus i OrderPending target w = (r, w') \<Longrightarrow> \<not> tx_open w \<Longrightarrow>
    target = OrderConfirmed \<or> target = OrderReleased \<Longrightarrow> order_step w w'"
| Report: "Store_ReportOrder i num w = (r, w') \<Longrightarrow> \<not> tx_open w \<Longrightarrow> order_step w w'"
| Sweep: "ReleaseOrders rel w = (r, w') \<Longrightarrow> \<not> tx_open w \<Longrightarrow> order_step w w'"

lemma release_orders_total:
  "\<exists>m err w'. release_orders os n w = (Inr (m, err), w')"
proof (induction os arbitrary: n w)
  case (Cons o1 os)
  obtain r w1 where mv: "MoveOrderStatus (OrderID o1) OrderPending OrderReleased w = (r, w1)"
    by (cases "MoveOrderStatus (OrderID o1) OrderPending OrderReleased w")
  then show ?case
    using Cons.IH [of n w1] Cons.IH [of "Suc n" w1]
    by (cases r) (auto simp: bind_io_def try_io_def return_io_def)
qed (simp add: return_io_def)

lemma release_orders_advances:
  "release_orders os n w = (r, w') \<Longrightarrow> \<not> tx_open w \<Longrightarrow> orders_advance (wdb w) (wdb w')"
proof (induction os arbitrary: n w)
  case (Cons o1 os)
  obtain s w1 where mv: "MoveOrderStatus (OrderID o1) OrderPending OrderReleased w = (s, w1)"
    by (cases "MoveOrderStatus (OrderID o1) OrderPending OrderReleased w")
  have "orders_advance (wdb w) (wdb w1)"
    using mv Cons.prems(2) by (rule MoveOrderStatus_advances) simp
  moreover have "\<not> tx_open w1" using outside_MoveOrderStatus [OF mv Cons.prems(2)] .
  moreover have "w' = w1 \<or> (\<exists>m. release_orders os m w1 = (r, w'))"
    using Cons.prems(1) mv
    by (cases s) (auto simp: bind_io_def try_io_def return_io_def split: if_splits)
  ultimately show ?case
    using Cons.IH [of _ w1] orders_advance_trans by blast
qed (simp add: return_io_def)

lemma ReleaseExpiredOrders_advances:
  assumes "ReleaseExpiredOrders age limit w = (r, w')" and "\<not> tx_open w"
  shows "orders_advance (wdb w) (wdb w')"
proof -
  let ?q = "stale_query (clock w (ticks w) - age) limit"
  obtain l w1 where l: "ListRecords Orders ?q (w\<lparr>ticks := Suc (ticks w)\<rparr>) = (l, w1)"
    by (cases "ListRecords Orders ?q (w\<lparr>ticks := Suc (ticks w)\<rparr>)")
  have w1: "wdb w1 = wdb w" "\<not> tx_open w1"
    using reads_onlyD [OF reads_only_List l] soundD [OF sound_List l] assms(2)
    by (simp_all add: follows_def)
  show ?thesis
  proof (cases l)
    case (Inl e)
    with l assms(1) have "w' = w1"
      by (simp add: ReleaseExpiredOrders_def bind_io_def now_def)
    with w1 show ?thesis by simp
  next
    case (Inr stale)
    with l assms(1) have "release_orders stale 0 w1 = (r, w')"
      by (simp add: ReleaseExpiredOrders_def bind_io_def now_def)
    then show ?thesis using release_orders_advances [of stale 0 w1 r w'] w1 by simp
  qed
qed

lemma ReleaseOrders_inner:
  assumes "ReleaseOrders rel w = (r, w')" and "\<not> tx_open w"
  shows "orders_advance (wdb w) (wdb w')"
proof -
  define limit where "limit = (if MaxReleases rel \<le> 0 then 50 else MaxReleases rel)"
  define age where "age = (if MaxAge rel \<le> 0 then 24 * hour else MaxAge rel)"
  obtain q w1 where q: "ReleaseExpiredOrders age limit w = (q, w1)"
    by (cases "ReleaseExpiredOrders age limit w")
  have "w' = w1"
    using assms(1) q
    by (auto simp: ReleaseOrders_def limit_def [symmetric] age_def [symmetric] Let_def bind_io_def
        fail_io_def return_io_def split: sum.splits option.splits prod.splits)
  then show ?thesis using ReleaseExpiredOrders_advances [OF q assms(2)] by simp
qed

lemma order_step_advances: "order_step w w' \<Longrightarrow> orders_advance (wdb w) (wdb w')"
proof (induction rule: order_step.induct)
  case Place then show ?case using Store_CreateOrder_advances by blast
next
  case Webhook then show ?case using MoveOrderStatus_advances by blast
next
  case Report then show ?case using Store_ReportOrder_advances by blast
next
  case Sweep then show ?case using ReleaseOrders_inner by blast
qed

lemma order_steps_advance: "order_step\<^sup>*\<^sup>* w w' \<Longrightarrow> orders_advance (wdb w) (wdb w')"
  by (induction rule: rtranclp_induct) (auto intro: order_step_advances orders_advance_trans)


definition demo_order :: order where
  "demo_order = \<lparr>OrderID = ''order_1'', OrderSearchID = ''search_1'', OrderStore = ''Store'',
     OrderDomain = ''store.cl'', OrderLines = [], OrderStatus = OrderPending,
     OrderStoreOrder = ''42'', OrderPaymentURL = [], OrderCreatedAt = 0, OrderUpdatedAt = 0\<rparr>"

definition order_world :: world where
  "order_world = calm_world (put_row Orders ''order_1'' demo_order empty_db)"


text \<open>C12 A sweep frees exactly the orders it counts: the number \<open>ReleaseExpiredOrders\<close> answers
  is the number of orders that went from pending to released, it never exceeds the limit,
  each of them was last updated at or before the cutoff, and every other order is as it
  was.\<close>
theorem sweep_releases_expired:
  assumes run: "ReleaseExpiredOrders olderThan limit w = (Inr (released, err), w')"
    and w: "\<not> tx_open w" and limit: "0 < limit"
    and keyed: "\<And>i o1. row_of Orders i (wdb w) = Some o1 \<Longrightarrow> OrderID o1 = i"
    and dist: "distinct (map fst (db_orders (wdb w)))"
  shows "card (newly_released (wdb w) (wdb w')) = released \<and> int released \<le> limit
    \<and> (\<forall>i \<in> newly_released (wdb w) (wdb w').
         \<exists>o1. row_of Orders i (wdb w) = Some o1
            \<and> OrderUpdatedAt o1 \<le> clock w (ticks w) - olderThan)
    \<and> (\<forall>i. i \<notin> newly_released (wdb w) (wdb w') \<longrightarrow>
         row_of Orders i (wdb w') = row_of Orders i (wdb w))"
proof -
  let ?cut = "clock w (ticks w) - olderThan"
  let ?stale = "run_query (stale_query ?cut limit) (map snd (db_orders (wdb w)))"
  let ?new = "newly_released (wdb w) (wdb w')"
  from run obtain w1 where rel: "release_orders ?stale 0 w1 = (Inr (released, err), w')"
    and w1: "wdb w1 = wdb w" "\<not> tx_open w1"
    using w by (auto simp: ReleaseExpiredOrders_def go_io)
  from release_orders_run [OF rel w1(2)] have R:
    "released \<le> length ?stale" "card ?new = released" "?new \<subseteq> OrderID ` set ?stale"
    "\<And>i. i \<notin> ?new \<Longrightarrow> row_of Orders i (wdb w') = row_of Orders i (wdb w)"
    by (simp_all add: w1 untouched_def)
  have q: "?stale = take (nat limit) (sort_key OrderUpdatedAt (filter
      (\<lambda>o1. OrderStatus o1 = OrderPending \<and> OrderUpdatedAt o1 \<le> ?cut) (map snd (db_orders (wdb w)))))"
    using limit by (simp add: run_query_def stale_query_def)
  have "length ?stale \<le> nat limit" unfolding q by simp
  then have "int released \<le> limit" using R(1) limit by linarith
  moreover have "\<exists>o1. row_of Orders i (wdb w) = Some o1 \<and> OrderUpdatedAt o1 \<le> ?cut" if "i \<in> ?new" for i
  proof -
    from that R(3) obtain o1 where o1: "o1 \<in> set ?stale" "OrderID o1 = i" by blast
    from o1(1) have m: "o1 \<in> set (map snd (db_orders (wdb w)))" "OrderUpdatedAt o1 \<le> ?cut"
      unfolding q by (auto dest: in_set_takeD)
    obtain j where "row_of Orders j (wdb w) = Some o1"
      using m(1) snd_map_of [OF dist] by (auto simp: row_of_def)
    with keyed o1(2) m(2) show ?thesis by blast
  qed
  ultimately show ?thesis using R by blast
qed

theorem sweep_releases_expired_witness:
  "\<exists>n err w'. ReleaseExpiredOrders 0 10 order_world = (Inr (n, err), w')
     \<and> card (newly_released (wdb order_world) (wdb w')) = n \<and> n = 1"
proof -
  have "case fst (ReleaseExpiredOrders 0 10 order_world) of Inr (n, _) \<Rightarrow> n = 1 | Inl _ \<Rightarrow> False"
    by code_simp
  then obtain err w' where run: "ReleaseExpiredOrders 0 10 order_world = (Inr (1, err), w')"
    by (cases "ReleaseExpiredOrders 0 10 order_world") (auto split: sum.splits)
  have rows: "db_orders (wdb order_world) = [(''order_1'', demo_order)]"
    by (simp add: order_world_def put_row_def empty_db_def)
  have "card (newly_released (wdb order_world) (wdb w')) = 1"
  proof (rule sweep_releases_expired [OF run, THEN conjunct1])
    show "\<not> tx_open order_world" by (simp add: order_world_def)
    show "OrderID o1 = i" if "row_of Orders i (wdb order_world) = Some o1" for i o1
      using that by (auto simp: row_of_def rows demo_order_def split: if_splits)
  qed (simp_all add: rows)
  with run show ?thesis by blast
qed



end
