(* ===== verification/OfferStore.thy ===== *)
theory OfferStore
  imports SearchStore
begin

text \<open>
  internal/repositories/offer_store.go: offers cached under a key, and each one readable by
  its own id through a snapshot that lives as long as the entry that carried it.
\<close>

definition snapshotsOf :: "offer list \<Rightarrow> time \<Rightarrow> (string \<times> snapshot) list" where
  "snapshotsOf offers expiresAt =
     List.map_filter (\<lambda>o1. if OfferID o1 \<noteq> []
       then Some (OfferID o1, \<lparr>SnapshotOffer = o1, SnapshotExpiresAt = expiresAt\<rparr>) else None) offers"

text \<open>The ids whose kept snapshot is alive, one clock reading per record; the last reading of
  an id counts.\<close>

fun alive_ids :: "(string \<times> snapshot) list \<Rightarrow> (string \<times> bool) list \<Rightarrow> (string \<times> bool) list io" where
  "alive_ids [] alive = return_io alive"
| "alive_ids ((i, s) # kept) alive =
     bind_io now (\<lambda>n. alive_ids kept (AList.update i (n < SnapshotExpiresAt s) alive))"

definition indexMissingOffers :: "offer list \<Rightarrow> time \<Rightarrow> unit io" where
  "indexMissingOffers offers expiresAt =
     (let snapshots = snapshotsOf offers expiresAt in
      bind_io (GetMany Offers (map fst snapshots)) (\<lambda>kept.
      bind_io (alive_ids kept []) (\<lambda>alive.
        SaveMany Offers (filter (\<lambda>s. map_of alive (fst s) \<noteq> Some True) snapshots))))"

definition markIndexed :: "string \<Rightarrow> unit io" where
  "markIndexed key =
     bind_io (Update OfferCache key (\<lambda>e. return_io (e\<lparr>EntryIndexed := True\<rparr>))) (\<lambda>_. return_io ())"

definition LoadOffers :: "string \<Rightarrow> (offer list \<times> bool) io" where
  "LoadOffers key =
     bind_io (try_io (Get OfferCache key)) (\<lambda>r.
       case r of
         Inl e \<Rightarrow> if e = ErrMissing then return_io ([], False) else fail_io e
       | Inr e \<Rightarrow>
           bind_io (lapsed (EntryExpiresAt e)) (\<lambda>gone.
             if gone then return_io ([], False)
             else if \<not> EntryIndexed e
             then bind_io (indexMissingOffers (EntryOffers e) (EntryExpiresAt e)) (\<lambda>_.
                  bind_io (markIndexed key) (\<lambda>_. return_io (EntryOffers e, True)))
             else return_io (EntryOffers e, True)))"

definition SaveOffers :: "string \<Rightarrow> offer list \<Rightarrow> duration \<Rightarrow> unit io" where
  "SaveOffers key offers ttl =
     bind_io now (\<lambda>n.
       let expiresAt = n + ttl in
       bind_io (Save OfferCache key
          \<lparr>EntryOffers = offers, EntryExpiresAt = expiresAt, EntryIndexed = False\<rparr>) (\<lambda>_.
       bind_io (SaveMany Offers (snapshotsOf offers expiresAt)) (\<lambda>_.
         markIndexed key)))"

definition Store_GetOffer :: "string \<Rightarrow> offer io" where
  "Store_GetOffer i =
     bind_io (try_io (Get Offers i)) (\<lambda>r.
       case r of
         Inl e \<Rightarrow> if e = ErrMissing then fail_io ErrNotFound else fail_io e
       | Inr s \<Rightarrow>
           bind_io now (\<lambda>n.
             if \<not> n < SnapshotExpiresAt s then fail_io ErrNotFound
             else if OfferID (SnapshotOffer s) \<noteq> i then fail_io ErrNotFound
             else return_io (SnapshotOffer s)))"

definition DropOffers :: "string \<Rightarrow> unit io" where
  "DropOffers key = Delete OfferCache key"

section \<open>Snapshots\<close>

lemma snapshotsOf_simps [simp]:
  "snapshotsOf [] e = []"
  "snapshotsOf (o1 # os) e =
     (if OfferID o1 = [] then snapshotsOf os e
      else (OfferID o1, \<lparr>SnapshotOffer = o1, SnapshotExpiresAt = e\<rparr>) # snapshotsOf os e)"
  by (simp_all add: snapshotsOf_def map_filter_simps)

lemma snapshotsOf_keys: "(i, s) \<in> set (snapshotsOf os e) \<Longrightarrow>
   OfferID (SnapshotOffer s) = i \<and> SnapshotExpiresAt s = e \<and> SnapshotOffer s \<in> set os \<and> i \<noteq> []"
  by (induction os) (auto split: if_splits)

lemma snapshotsOf_mem: "o1 \<in> set os \<Longrightarrow> OfferID o1 \<noteq> [] \<Longrightarrow> OfferID o1 \<in> fst ` set (snapshotsOf os e)"
  by (induction os) auto

text \<open>The offer a list of snapshots leaves under an id: the last one with that id.\<close>

definition last_offer :: "offer list \<Rightarrow> string \<Rightarrow> offer option" where
  "last_offer os i = find (\<lambda>o1. OfferID o1 = i) (rev os)"

lemma map_of_rev_snapshots:
  "i \<noteq> [] \<Longrightarrow> map_of (rev (snapshotsOf os e)) i =
     map_option (\<lambda>o1. \<lparr>SnapshotOffer = o1, SnapshotExpiresAt = e\<rparr>) (last_offer os i)"
proof (induction os)
  case (Cons o1 os)
  then show ?case
    by (auto simp: last_offer_def find_append map_add_def split: option.splits)
qed (simp add: last_offer_def)

section \<open>Saving and loading\<close>

lemma sound_markIndexed [sound_intros]: "sound (markIndexed key)"
  unfolding markIndexed_def by (intro sound_intros)

lemma markIndexed_Inr:
  assumes "markIndexed key w = (Inr u, w')" and "\<not> tx_open w"
  obtains e where "row_of OfferCache key (wdb w) = Some e"
    "wdb w' = put_row OfferCache key (e\<lparr>EntryIndexed := True\<rparr>) (wdb w)"
proof -
  from assms(1) obtain v where "Update OfferCache key (\<lambda>e. return_io (e\<lparr>EntryIndexed := True\<rparr>)) w = (Inr v, w')"
    by (auto simp: markIndexed_def go_io)
  then obtain x w1 w2 where "row_of OfferCache key (wdb w) = Some x"
      "return_io (x\<lparr>EntryIndexed := True\<rparr>) w1 = (Inr v, w2)" "wdb w' = put_row OfferCache key v (wdb w)"
    by (rule Update_Inr [OF _ assms(2)]) auto
  then show thesis using that by (auto simp: return_io_def)
qed

lemma row_of_put_rows_offers:
  "row_of OfferCache x (put_rows Offers rows d) = row_of OfferCache x d"
  by (induction rows arbitrary: d) (simp_all add: coll_simps)

text \<open>A save that succeeds leaves the entry, marked indexed, and every snapshot.\<close>

lemma SaveOffers_Inr:
  assumes run: "SaveOffers key os ttl w = (Inr u, w')" and w: "\<not> tx_open w"
  shows "wdb w' = put_row OfferCache key
      \<lparr>EntryOffers = os, EntryExpiresAt = clock w (ticks w) + ttl, EntryIndexed = True\<rparr>
     (put_rows Offers (snapshotsOf os (clock w (ticks w) + ttl))
       (put_row OfferCache key
         \<lparr>EntryOffers = os, EntryExpiresAt = clock w (ticks w) + ttl, EntryIndexed = False\<rparr> (wdb w)))"
proof -
  let ?e = "clock w (ticks w) + ttl"
  from run obtain w1 w2 where one: "Save OfferCache key
          \<lparr>EntryOffers = os, EntryExpiresAt = ?e, EntryIndexed = False\<rparr> (w\<lparr>ticks := Suc (ticks w)\<rparr>) = (Inr (), w1)"
    and many: "SaveMany Offers (snapshotsOf os ?e) w1 = (Inr (), w2)"
    and mark: "markIndexed key w2 = (Inr u, w')"
    unfolding SaveOffers_def Let_def bind_io_Inr now_run by auto
  have f1: "\<not> tx_open w1" using soundD [OF sound_Save one] w by (simp add: follows_def)
  have d1: "wdb w1 = put_row OfferCache key
         \<lparr>EntryOffers = os, EntryExpiresAt = ?e, EntryIndexed = False\<rparr> (wdb w)"
    using one by (simp add: go_io)
  from many f1 have d2: "wdb w2 = put_rows Offers (snapshotsOf os ?e) (wdb w1)"
    by (rule SaveMany_prefix) simp
  have f2: "\<not> tx_open w2" using soundD [OF sound_SaveMany many] f1 by (simp add: follows_def)
  from mark f2 obtain e where "row_of OfferCache key (wdb w2) = Some e"
      "wdb w' = put_row OfferCache key (e\<lparr>EntryIndexed := True\<rparr>) (wdb w2)"
    by (rule markIndexed_Inr)
  then show ?thesis unfolding d2 d1 row_of_put_rows_offers by (auto simp: coll_simps)
qed

lemma alive_ids_run:
  "alive_ids kept alive w = (Inr alive', w') \<Longrightarrow>
   wdb w' = wdb w \<and> tx_open w' = tx_open w
   \<and> (\<forall>i. map_of alive' i = Some True \<longrightarrow>
        map_of alive i = Some True \<or> (\<exists>s n. (i, s) \<in> set kept \<and> clock w n < SnapshotExpiresAt s))"
proof (induction kept alive arbitrary: w rule: alive_ids.induct)
  case (2 i s kept alive)
  let ?w = "w\<lparr>ticks := Suc (ticks w)\<rparr>"
  from 2(2) have "alive_ids kept (AList.update i (clock w (ticks w) < SnapshotExpiresAt s) alive) ?w
      = (Inr alive', w')"
    by (simp add: run_simps)
  from 2(1) [OF this] show ?case by (auto simp: map_of_alist_update split: if_splits)
qed (auto simp: return_io_def)

lemma read_batches_Inr:
  "read_batches t gs w = (Inr rows, w') \<Longrightarrow>
   rows = concat (map (\<lambda>g. found_rows t g (wdb w)) gs) \<and> wdb w' = wdb w \<and> tx_open w' = tx_open w"
proof (induction gs arbitrary: w rows)
  case (Cons g gs)
  then obtain r w1 where "read_batches t gs (w\<lparr>calls := Suc (calls w)\<rparr>) = (Inr r, w')"
      "rows = found_rows t g (wdb w) @ r"
    by (auto simp: go_io split: option.splits)
  with Cons.IH [OF this(1)] show ?case by simp
qed (simp add: return_io_def)

lemma found_rows_mem: "(i, s) \<in> set (found_rows t ids d) \<Longrightarrow> i \<in> set ids \<and> row_of t i d = Some s"
  by (auto simp: found_rows_def List.map_filter_def split: option.splits)

lemma GetMany_Inr:
  assumes "GetMany t ids w = (Inr rows, w')"
  shows "wdb w' = wdb w" "tx_open w' = tx_open w" "(i, s) \<in> set rows \<Longrightarrow> row_of t i (wdb w) = Some s"
  using read_batches_Inr [OF assms [unfolded GetMany_def]] found_rows_mem by fastforce+

text \<open>What indexing leaves under the id of an offer of the entry.\<close>

definition readable :: "world \<Rightarrow> database \<Rightarrow> offer list \<Rightarrow> time \<Rightarrow> string \<Rightarrow> bool" where
  "readable w d os e i \<longleftrightarrow>
     (\<exists>s. row_of Offers i d = Some s
        \<and> (SnapshotExpiresAt s = e \<and> last_offer os i = Some (SnapshotOffer s)
           \<or> row_of Offers i (wdb w) = Some s \<and> (\<exists>n. clock w n < SnapshotExpiresAt s)))"

lemma map_of_filter_key:
  "P i \<Longrightarrow> map_of (filter (\<lambda>s. P (fst s)) xs) i = map_of xs i"
  "\<not> P i \<Longrightarrow> map_of (filter (\<lambda>s. P (fst s)) xs) i = None"
  by (induction xs) auto

lemma indexMissingOffers_Inr:
  assumes run: "indexMissingOffers os e w = (Inr u, w')" and w: "\<not> tx_open w"
    and o1: "o1 \<in> set os" "OfferID o1 \<noteq> []"
  shows "readable w (wdb w') os e (OfferID o1)" "row_of OfferCache k (wdb w') = row_of OfferCache k (wdb w)"
    "\<not> tx_open w'"
proof -
  let ?snaps = "snapshotsOf os e" and ?i = "OfferID o1"
  from run obtain kept w1 alive w2 where get: "GetMany Offers (map fst ?snaps) w = (Inr kept, w1)"
    and al: "alive_ids kept [] w1 = (Inr alive, w2)"
    and many: "SaveMany Offers (filter (\<lambda>s. map_of alive (fst s) \<noteq> Some True) ?snaps) w2 = (Inr u, w')"
    by (auto simp: indexMissingOffers_def Let_def go_io)
  note G = GetMany_Inr [OF get] and A = alive_ids_run [OF al]
  have w2: "\<not> tx_open w2" using A G(2) w by simp
  have clk: "clock w1 = clock w"
  proof -
    have "sound (read_batches Offers gs)" for gs
      by (induction gs) (simp_all add: sound_intros)
    then have "sound (GetMany Offers (map fst ?snaps))" by (simp add: GetMany_def)
    from soundD [OF this get] show ?thesis by (simp add: follows_def)
  qed
  let ?P = "\<lambda>j. map_of alive j \<noteq> Some True"
  from many w2 have db: "wdb w' = put_rows Offers (filter (\<lambda>s. ?P (fst s)) ?snaps) (wdb w2)"
    by (rule SaveMany_prefix) simp
  have old: "wdb w2 = wdb w" using A G(1) by simp
  have row: "row_of Offers ?i (wdb w') =
      (case map_of (rev (filter (\<lambda>s. ?P (fst s)) ?snaps)) ?i of
         Some v \<Rightarrow> Some v | None \<Rightarrow> row_of Offers ?i (wdb w))"
    unfolding db old by (rule offers.row_of_put_rows)
  have rev: "rev (filter (\<lambda>s. ?P (fst s)) ?snaps) = filter (\<lambda>s. ?P (fst s)) (rev ?snaps)"
    by (simp add: rev_filter)
  show "readable w (wdb w') os e ?i"
  proof (cases "?P ?i")
    case True
    then have "map_of (rev (filter (\<lambda>s. ?P (fst s)) ?snaps)) ?i = map_of (rev ?snaps) ?i"
      unfolding rev by (rule map_of_filter_key(1))
    also have "\<dots> = map_option (\<lambda>o1. \<lparr>SnapshotOffer = o1, SnapshotExpiresAt = e\<rparr>) (last_offer os ?i)"
      using o1(2) by (rule map_of_rev_snapshots)
    finally have "map_of (rev (filter (\<lambda>s. ?P (fst s)) ?snaps)) ?i
        = map_option (\<lambda>o1. \<lparr>SnapshotOffer = o1, SnapshotExpiresAt = e\<rparr>) (last_offer os ?i)" .
    moreover obtain o2 where "last_offer os ?i = Some o2"
      using o1(1) by (cases "last_offer os ?i") (auto simp: last_offer_def find_None_iff)
    ultimately show ?thesis by (simp add: readable_def row)
  next
    case False
    then have "map_of (rev (filter (\<lambda>s. ?P (fst s)) ?snaps)) ?i = None"
      unfolding rev by (rule map_of_filter_key(2))
    moreover from False A obtain s n where "(?i, s) \<in> set kept" "clock w1 n < SnapshotExpiresAt s" by auto
    ultimately show ?thesis using G(3) clk by (auto simp: readable_def row)
  qed
  show "row_of OfferCache k (wdb w') = row_of OfferCache k (wdb w)"
    unfolding db old by (rule row_of_put_rows_offers)
  show "\<not> tx_open w'" using soundD [OF sound_SaveMany many] w2 by (simp add: follows_def)
qed

text \<open>Until its expiry a saved entry is loaded as it was saved.\<close>

lemma load_after_save:
  assumes run: "SaveOffers key os ttl w = (Inr u, w1)" and w: "\<not> tx_open w"
    and later: "calm w2" "\<not> tx_open w2" "wdb w2 = wdb w1" "clock w2 (ticks w2) \<le> clock w (ticks w) + ttl"
  shows "\<exists>w3. LoadOffers key w2 = (Inr (os, True), w3) \<and> wdb w3 = wdb w2"
proof -
  have "row_of OfferCache key (wdb w2)
      = Some \<lparr>EntryOffers = os, EntryExpiresAt = clock w (ticks w) + ttl, EntryIndexed = True\<rparr>"
    using SaveOffers_Inr [OF run w] later(3) by (simp add: coll_simps)
  with later(1,2,4) show ?thesis by (simp add: LoadOffers_def lapsed_def run_simps calm_Get)
qed


definition demo_offer :: offer where
  "demo_offer = zero_offer\<lparr>OfferID := ''offer_1'', OfferCardName := ''Opt'', OfferPriceAmount := ''500''\<rparr>"


text \<open>Loading repairs an interrupted save: when a load answers an entry that was not indexed
  yet, afterwards the entry is marked indexed and every offer of it that has an id is
  readable, either through a snapshot that expires with the entry or through the live one
  that was already there, which is left as it was.\<close>
theorem load_repairs_index:
  assumes run: "LoadOffers key w = (Inr (os, True), w')" and w: "\<not> tx_open w"
    and e: "row_of OfferCache key (wdb w) = Some e" "\<not> EntryIndexed e"
    and o1: "o1 \<in> set os" "OfferID o1 \<noteq> []"
  shows "os = EntryOffers e
    \<and> row_of OfferCache key (wdb w') = Some (e\<lparr>EntryIndexed := True\<rparr>)
    \<and> (\<exists>s. row_of Offers (OfferID o1) (wdb w') = Some s
         \<and> (SnapshotExpiresAt s = EntryExpiresAt e
              \<and> last_offer os (OfferID o1) = Some (SnapshotOffer s)
            \<or> row_of Offers (OfferID o1) (wdb w) = Some s \<and> (\<exists>n. clock w n < SnapshotExpiresAt s)))"
proof -
  let ?w1 = "w\<lparr>calls := Suc (calls w), ticks := Suc (ticks w)\<rparr>"
  from run e obtain u1 w2 u2 where os: "os = EntryOffers e"
    and index: "indexMissingOffers (EntryOffers e) (EntryExpiresAt e) ?w1 = (Inr u1, w2)"
    and mark: "markIndexed key w2 = (Inr u2, w')"
    by (auto simp: LoadOffers_def go_io split: if_splits)
  have tx: "\<not> tx_open ?w1" using w by simp
  note I = indexMissingOffers_Inr [OF index tx, of o1] o1
  from mark I(3) os o1 obtain e2 where e2: "row_of OfferCache key (wdb w2) = Some e2"
      "wdb w' = put_row OfferCache key (e2\<lparr>EntryIndexed := True\<rparr>) (wdb w2)"
    by (metis markIndexed_Inr)
  have "e2 = e" using I(2) [of key] e2(1) e(1) os o1 by simp
  moreover have "readable ?w1 (wdb w2) (EntryOffers e) (EntryExpiresAt e) (OfferID o1)"
    using I(1) os o1 by simp
  ultimately show ?thesis using os e2 by (simp add: readable_def coll_simps)
qed

theorem load_repairs_index_witness:
  "\<exists>w'. LoadOffers ''k'' (calm_world (put_row OfferCache ''k''
        \<lparr>EntryOffers = [demo_offer], EntryExpiresAt = hour, EntryIndexed = False\<rparr> empty_db))
       = (Inr ([demo_offer], True), w')
     \<and> (\<exists>s. row_of Offers ''offer_1'' (wdb w') = Some s)"
proof -
  let ?e = "\<lparr>EntryOffers = [demo_offer], EntryExpiresAt = hour, EntryIndexed = False\<rparr>"
  let ?w = "calm_world (put_row OfferCache ''k'' ?e empty_db)"
  have "fst (LoadOffers ''k'' ?w) = Inr ([demo_offer], True)" by code_simp
  then obtain w' where run: "LoadOffers ''k'' ?w = (Inr ([demo_offer], True), w')" by (metis prod.collapse)
  have e: "row_of OfferCache ''k'' (wdb ?w) = Some ?e" by (simp add: coll_simps)
  have id: "OfferID demo_offer = ''offer_1''" by (simp add: demo_offer_def)
  from load_repairs_index [OF run _ e, of demo_offer] run show ?thesis by (auto simp: id)
qed

end
