(* ===== verification/OfferSearch.thy ===== *)
theory OfferSearch
  imports OfferStore Prices Prints
begin

text \<open>
  internal/search/offer_service.go, offer_shaping.go and offer_sources.go: one question for
  the offers of a card, asked of the provider and the stores of its game, cached and shaped.

  A source may answer offers and fail at once, so \<open>FindOffers\<close> is a plain state function that
  returns both.  The goroutines of \<open>querySources\<close> write one slot each; the model runs them in
  the order of the list, which is one of their schedules.  A goroutine whose context ends
  before its turn fails with \<open>ContextDone\<close>.  What a failure reads as (\<open>Error()\<close>), the host of
  an address and the Unicode tables are arguments.
\<close>

section \<open>The ports of the service (internal/search/ports.go)\<close>

record offer_source =
  SourceName :: string
  FindOffers :: "card_query \<Rightarrow> world \<Rightarrow> (offer list \<times> failure option) \<times> world"

record offer_cache =
  CacheLoad :: "string \<Rightarrow> (offer list \<times> bool) io"
  CacheSave :: "string \<Rightarrow> offer list \<Rightarrow> duration \<Rightarrow> unit io"

record search_env =
  EnvWords :: word_env
  EnvHostname :: "string \<Rightarrow> string option"
  EnvErrorText :: "failure \<Rightarrow> string"

definition env_text :: "search_env \<Rightarrow> text_env" where
  "env_text env = word_text (EnvWords env)"

record offer_service =
  SvcProviders :: "(game \<times> offer_source) list"
  SvcSources :: "offer_source list"
  SvcSourcesByGame :: "(game \<times> offer_source list) list"
  SvcCache :: "offer_cache option"
  SvcOffers :: "(string \<Rightarrow> offer io) option"
  SvcCacheNamespace :: string
  SvcCacheTTL :: duration
  SvcEmptyCacheTTL :: duration
  SvcSuspiciousPercent :: int
  SvcStoreLocations :: "(string \<times> string list) list"
  SvcSetsByGame :: "(game \<times> string list io option) list"
  SvcPrintsByGame :: "(game \<times> (string \<Rightarrow> print list io) option) list"
  SvcSinglesOnly :: "(string \<times> bool) list"
  SvcSealedOnly :: "(string \<times> bool) list"

text \<open>Reading Go maps: the zero value for a missing key.\<close>

definition marked :: "(string \<times> bool) list \<Rightarrow> string \<Rightarrow> bool" where
  "marked m k \<longleftrightarrow> map_of m k = Some True"

definition lookup_list :: "(string \<times> 'a list) list \<Rightarrow> string \<Rightarrow> 'a list" where
  "lookup_list m k = (case map_of m k of None \<Rightarrow> [] | Some xs \<Rightarrow> xs)"

definition run_state :: "(world \<Rightarrow> 'a \<times> world) \<Rightarrow> 'a io" where
  "run_state f w = (case f w of (x, w') \<Rightarrow> (Inr x, w'))"

section \<open>Asking the sources (internal/search/offer_sources.go)\<close>

definition await_turn :: "unit io" where
  "await_turn = map_failure (\<lambda>_. ContextDone) call_backend"

definition querySource :: "offer_source \<Rightarrow> card_query \<Rightarrow> (offer list \<times> failure option) io" where
  "querySource s q =
     bind_io (try_io await_turn) (\<lambda>r.
       case r of Inl e \<Rightarrow> return_io ([], Some e) | Inr _ \<Rightarrow> run_state (FindOffers s q))"

fun ask_sources :: "offer_source list \<Rightarrow> card_query \<Rightarrow> (offer list \<times> failure option) list io" where
  "ask_sources [] q = return_io []"
| "ask_sources (s # ss) q =
     bind_io (querySource s q) (\<lambda>r. bind_io (ask_sources ss q) (\<lambda>rs. return_io (r # rs)))"

definition fault_of :: "search_env \<Rightarrow> string \<Rightarrow> failure \<Rightarrow> source_fault" where
  "fault_of env name e = \<lparr>FaultSource = name, FaultReason = EnvErrorText env e\<rparr>"

fun combine_from ::
  "search_env \<Rightarrow> offer_source list \<Rightarrow> (offer list \<times> failure option) list \<Rightarrow>
   offer list \<Rightarrow> source_fault list \<Rightarrow> failure option \<Rightarrow> offer list \<times> source_fault list \<times> failure option"
where
  "combine_from env (s # ss) ((items, err) # rs) result faults lastErr =
     (case err of
        None \<Rightarrow> combine_from env ss rs (result @ items) faults lastErr
      | Some e \<Rightarrow> combine_from env ss rs (result @ items) (faults @ [fault_of env (SourceName s) e]) (Some e))"
| "combine_from env _ _ result faults lastErr = (result, faults, lastErr)"

definition combineSources ::
  "search_env \<Rightarrow> offer_source list \<Rightarrow> (offer list \<times> failure option) list \<Rightarrow>
   offer list \<times> source_fault list \<times> failure option" where
  "combineSources env sources results = combine_from env sources results [] [] None"

definition direct_host :: "search_env \<Rightarrow> offer_source \<Rightarrow> failure option \<Rightarrow> string option" where
  "direct_host env s err =
     (let name = ToLower (env_text env) (SourceName s) in
      if err = None \<and> Contains name ''.'' \<and> \<not> ContainsAny name '':/''
      then Some (TrimPrefix name ''www.'') else None)"

definition readDirectHosts ::
  "search_env \<Rightarrow> offer_source list \<Rightarrow> (offer list \<times> failure option) list \<Rightarrow> string list" where
  "readDirectHosts env sources results =
     List.map_filter (\<lambda>(s, r). direct_host env s (snd r)) (zip sources results)"

definition querySources ::
  "search_env \<Rightarrow> offer_source list \<Rightarrow> card_query \<Rightarrow>
   (offer list \<times> source_fault list \<times> string list \<times> failure option) io" where
  "querySources env sources q =
     bind_io (ask_sources sources q) (\<lambda>results.
       let (items, faults, err) = combineSources env sources results
       in return_io (items, faults, readDirectHosts env sources results, err))"

definition readOfferHost :: "search_env \<Rightarrow> offer \<Rightarrow> string" where
  "readOfferHost env it =
     (case EnvHostname env (OfferURL it) of
        None \<Rightarrow> [] | Some host \<Rightarrow> TrimPrefix (ToLower (env_text env) host) ''www.'')"

definition preferDirectOffers :: "search_env \<Rightarrow> offer list \<Rightarrow> string list \<Rightarrow> offer list" where
  "preferDirectOffers env items direct = filter (\<lambda>it. readOfferHost env it \<notin> set direct) items"

definition queryGameSources ::
  "search_env \<Rightarrow> offer_source option \<Rightarrow> offer_source list \<Rightarrow> card_query \<Rightarrow>
   (offer list \<times> source_fault list \<times> failure option) io" where
  "queryGameSources env provider sources q =
     bind_io (case provider of
                None \<Rightarrow> return_io ([], [], None)
              | Some p \<Rightarrow> bind_io (run_state (FindOffers p q)) (\<lambda>(found, err).
                  return_io (case err of
                      None \<Rightarrow> (found, [], None)
                    | Some e \<Rightarrow> (found, [fault_of env (SourceName p) e], Some e)))) (\<lambda>(items, faults, lastErr).
     if sources = [] then return_io (items, faults, lastErr)
     else bind_io (querySources env sources q) (\<lambda>(found, storeFaults, direct, err).
            return_io (preferDirectOffers env items direct @ found, faults @ storeFaults,
                       (case err of None \<Rightarrow> lastErr | Some e \<Rightarrow> Some e))))"

section \<open>Shaping the answer (internal/search/offer_shaping.go)\<close>

definition settleQuery :: "card_query \<Rightarrow> card_query" where
  "settleQuery q =
     (let q = (if QueryKind q = [] then q\<lparr>QueryKind := KindSingle\<rparr> else q)
      in if QueryMatch q = [] then q\<lparr>QueryMatch := MatchExact\<rparr> else q)"

definition nameKinds :: "offer list \<Rightarrow> product_kind \<Rightarrow> offer list" where
  "nameKinds items kind =
     (let kind = (if kind = [] then KindSingle else kind)
      in map (\<lambda>it. it\<lparr>OfferKind := kind\<rparr>) items)"

definition keepSources :: "offer_source list \<Rightarrow> (string \<times> bool) list \<Rightarrow> offer_source list" where
  "keepSources sources excluded =
     (if excluded = [] then sources else filter (\<lambda>s. \<not> marked excluded (SourceName s)) sources)"

definition names_any_set :: "search_env \<Rightarrow> string list \<Rightarrow> offer \<Rightarrow> bool" where
  "names_any_set env sets it \<longleftrightarrow>
     NamesSet (env_text env) (OfferCardName it) sets \<or> NamesSet (env_text env) (OfferEdition it) sets"

definition keepGameSealed ::
  "search_env \<Rightarrow> offer_service \<Rightarrow> game \<Rightarrow> card_query \<Rightarrow> offer list \<Rightarrow> offer list io" where
  "keepGameSealed env s game q items =
     (case map_of (SvcSetsByGame s) game of
        Some (Some library) \<Rightarrow>
          if \<not> Sealed q \<or> items = [] then return_io items
          else bind_io (try_io library) (\<lambda>r.
                 case r of
                   Inl _ \<Rightarrow> return_io items
                 | Inr sets \<Rightarrow> return_io (if sets = [] then items else filter (names_any_set env sets) items))
      | _ \<Rightarrow> return_io items)"

definition store_locations :: "offer_service \<Rightarrow> offer \<Rightarrow> string list" where
  "store_locations s it =
     (let locations = lookup_list (SvcStoreLocations s) (OfferSource it)
      in if locations = [] then lookup_list (SvcStoreLocations s) (OfferStore it) else locations)"

definition applyStoreLocations :: "offer_service \<Rightarrow> offer list \<Rightarrow> offer list" where
  "applyStoreLocations s items = map (\<lambda>it. it\<lparr>OfferLocations := store_locations s it\<rparr>) items"

definition readOfferTitle :: "offer \<Rightarrow> string" where
  "readOfferTitle it =
     (let title = lookup_string (OfferMetadata it) ''title''
      in if title \<noteq> [] then title else OfferCardName it)"

definition anyImageMissing :: "offer list \<Rightarrow> bool" where
  "anyImageMissing items = list_ex (\<lambda>it. OfferImage it = []) items"

definition applyPrintImages ::
  "search_env \<Rightarrow> offer_service \<Rightarrow> game \<Rightarrow> card_query \<Rightarrow> offer list \<Rightarrow> offer list io" where
  "applyPrintImages env s game q items =
     (case map_of (SvcPrintsByGame s) game of
        Some (Some library) \<Rightarrow>
          if Sealed q \<or> \<not> anyImageMissing items then return_io items
          else bind_io (try_io (library (QueryName q))) (\<lambda>r.
                 case r of
                   Inl _ \<Rightarrow> return_io items
                 | Inr prints \<Rightarrow>
                     let index = IndexPrints (env_text env) prints in
                     return_io (if Index_Empty index then items
                       else map (\<lambda>it. if OfferImage it = []
                              then it\<lparr>OfferImage := ImageFor (EnvWords env) index (readOfferTitle it) (QueryName q)\<rparr>
                              else it) items))
      | _ \<Rightarrow> return_io items)"

section \<open>The service (internal/search/offer_service.go)\<close>

definition validGame :: "game \<Rightarrow> bool" where
  "validGame game \<longleftrightarrow> game = GameMagic \<or> game = GamePokemon \<or> game = GameYuGiOh \<or> game = GameOnePiece
     \<or> game = GameDigimon \<or> game = GameRiftbound \<or> game = GameMitos"

definition cache_key :: "search_env \<Rightarrow> offer_service \<Rightarrow> game \<Rightarrow> card_query \<Rightarrow> string" where
  "cache_key env s game q =
     SvcCacheNamespace s @ game @ '':'' @ QueryKind q @ '':'' @ QueryMatch q @ '':''
     @ NormalizeCard (env_text env) (QueryName q)"

definition loadOfferCache :: "offer_service \<Rightarrow> string \<Rightarrow> (offer list \<times> bool) io" where
  "loadOfferCache s key =
     (case SvcCache s of
        None \<Rightarrow> return_io ([], False)
      | Some c \<Rightarrow> bind_io (try_io (CacheLoad c key)) (\<lambda>r.
          return_io (case r of Inl _ \<Rightarrow> ([], False) | Inr (items, found) \<Rightarrow> (items, found))))"

definition saveOfferCache :: "offer_service \<Rightarrow> string \<Rightarrow> offer list \<Rightarrow> unit io" where
  "saveOfferCache s key items =
     (case SvcCache s of
        None \<Rightarrow> return_io ()
      | Some c \<Rightarrow>
          let ttl = (if items = [] then SvcEmptyCacheTTL s else SvcCacheTTL s) in
          bind_io (try_io (CacheSave c key items ttl)) (\<lambda>_. return_io ()))"

text \<open>The sources one question asks: the provider of the game and its stores, less the marked ones.\<close>

definition game_sources :: "offer_service \<Rightarrow> game \<Rightarrow> offer_source list" where
  "game_sources s game =
     (let sources = lookup_list (SvcSourcesByGame s) game
      in if sources = [] then SvcSources s else sources)"

definition excluded_by :: "offer_service \<Rightarrow> card_query \<Rightarrow> (string \<times> bool) list" where
  "excluded_by s q = (if Sealed q then SvcSinglesOnly s else SvcSealedOnly s)"

definition asked_provider :: "offer_service \<Rightarrow> game \<Rightarrow> card_query \<Rightarrow> offer_source option" where
  "asked_provider s game q =
     (case map_of (SvcProviders s) game of
        None \<Rightarrow> None
      | Some p \<Rightarrow> if marked (excluded_by s q) (SourceName p) then None else Some p)"

definition shape_offers ::
  "search_env \<Rightarrow> offer_service \<Rightarrow> game \<Rightarrow> card_query \<Rightarrow> offer list \<Rightarrow> offer list io" where
  "shape_offers env s game q items =
     bind_io (keepGameSealed env s game q
                (NameCards (env_text env) (nameKinds (DeduplicateOffers items) (QueryKind q)))) (\<lambda>items.
     bind_io (applyPrintImages env s game q (applyStoreLocations s items)) (\<lambda>items.
       return_io (MarkSuspicious (env_text env) items (SvcSuspiciousPercent s) q)))"

definition collectOffers ::
  "search_env \<Rightarrow> offer_service \<Rightarrow> game \<Rightarrow> card_query \<Rightarrow>
   (offer list \<times> source_fault list \<times> failure option) io" where
  "collectOffers env s game q0 =
     (let q = settleQuery q0; key = cache_key env s game q in
      bind_io (loadOfferCache s key) (\<lambda>(items, found).
        if found then return_io (items, [], None)
        else let sources = game_sources s game in
          if map_of (SvcProviders s) game = None \<and> sources = []
          then return_io ([], [], Some ErrInvalid)
          else bind_io (queryGameSources env (asked_provider s game q)
                          (keepSources sources (excluded_by s q)) q) (\<lambda>(items, faults, err).
               if err \<noteq> None \<and> items = [] then return_io ([], faults, err)
               else bind_io (shape_offers env s game q items) (\<lambda>items.
                    bind_io (if err = None then saveOfferCache s key items else return_io ()) (\<lambda>_.
                      return_io (items, faults, None))))))"

definition FindCardOffers ::
  "search_env \<Rightarrow> offer_service \<Rightarrow> game \<Rightarrow> card_query \<Rightarrow>
   (offer list \<times> source_fault list \<times> failure option) io" where
  "FindCardOffers env s game q =
     (let q = q\<lparr>QueryName := TrimSpace (QueryName q)\<rparr>
      in if QueryName q = [] \<or> \<not> validGame game then return_io ([], [], Some ErrInvalid)
         else collectOffers env s game q)"

definition Service_GetOffer :: "offer_service \<Rightarrow> string \<Rightarrow> offer io" where
  "Service_GetOffer s i =
     (case SvcOffers s of
        None \<Rightarrow> fail_io ErrInvalid
      | Some get \<Rightarrow> if TrimSpace i = [] then fail_io ErrInvalid else get i)"

section \<open>What a question asks\<close>

definition faults_of :: "search_env \<Rightarrow> offer_source list \<Rightarrow> (offer list \<times> failure option) list \<Rightarrow> source_fault list" where
  "faults_of env sources results =
     List.map_filter (\<lambda>(s, r). map_option (fault_of env (SourceName s)) (snd r)) (zip sources results)"

lemma faults_of_simps [simp]:
  "faults_of env [] rs = []" "faults_of env ss [] = []"
  "faults_of env (s # ss) (r # rs) =
     (case snd r of None \<Rightarrow> [] | Some e \<Rightarrow> [fault_of env (SourceName s) e]) @ faults_of env ss rs"
  by (simp_all add: faults_of_def map_filter_simps split: option.split)

definition last_failure :: "(offer list \<times> failure option) list \<Rightarrow> failure option" where
  "last_failure rs = foldl (\<lambda>a r. case snd r of None \<Rightarrow> a | Some e \<Rightarrow> Some e) None rs"

lemma last_failure_from:
  "foldl (\<lambda>a r. case snd r of None \<Rightarrow> a | Some e \<Rightarrow> Some e) a rs
   = (case last_failure rs of None \<Rightarrow> a | Some e \<Rightarrow> Some e)"
proof (induction rs rule: rev_induct)
  case (snoc r rs)
  then show ?case by (simp add: last_failure_def split: option.split)
qed (simp add: last_failure_def)

lemma last_failure_Nil [simp]: "last_failure [] = None"
  by (simp add: last_failure_def)

lemma last_failure_Cons [simp]:
  "last_failure (r # rs) = (case last_failure rs of None \<Rightarrow> snd r | Some e \<Rightarrow> Some e)"
proof -
  have "last_failure (r # rs) =
    foldl (\<lambda>a r. case snd r of None \<Rightarrow> a | Some e \<Rightarrow> Some e) (snd r) rs"
    unfolding last_failure_def by (cases "snd r") simp_all
  then show ?thesis by (simp only: last_failure_from)
qed

lemma combine_from_eq:
  "length ss = length rs \<Longrightarrow>
   combine_from env ss rs result faults lastErr =
     (result @ concat (map fst rs), faults @ faults_of env ss rs,
      (case last_failure rs of None \<Rightarrow> lastErr | Some e \<Rightarrow> Some e))"
proof (induction ss arbitrary: rs result faults lastErr)
  case (Cons s ss)
  then obtain items err rs' where rs: "rs = (items, err) # rs'" "length ss = length rs'"
    by (cases rs) auto
  from Cons.IH [OF rs(2)] show ?case by (simp add: rs(1) split: option.split)
qed simp

lemma ask_sources_length: "ask_sources ss q w = (Inr rs, w') \<Longrightarrow> length rs = length ss"
  by (induction ss arbitrary: w rs) (auto simp: go_io)

lemma querySource_total: "\<exists>r w1. querySource s q w = (Inr r, w1)"
  by (cases "await_turn w"; cases "FindOffers s q (snd (await_turn w))")
     (auto simp: querySource_def bind_io_def try_io_def return_io_def run_state_def split: sum.split)

lemma ask_sources_total: "\<exists>rs w1. ask_sources ss q w = (Inr rs, w1)"
proof (induction ss arbitrary: w)
  case (Cons s ss)
  obtain r w1 where "querySource s q w = (Inr r, w1)" using querySource_total by blast
  moreover obtain rs w2 where "ask_sources ss q w1 = (Inr rs, w2)" using Cons by blast
  ultimately show ?case by (simp add: bind_io_def return_io_def)
qed (simp add: return_io_def)

lemma fault_count: "length ss = length rs \<Longrightarrow> faults_of env ss rs = [] \<longleftrightarrow> last_failure rs = None"
proof (induction ss arbitrary: rs)
  case (Cons s ss)
  then obtain r rs' where "rs = r # rs'" by (cases rs) auto
  with Cons show ?case by (auto split: option.splits)
qed simp

definition provider_reply :: "offer_source option \<Rightarrow> card_query \<Rightarrow> world \<Rightarrow> (offer list \<times> failure option) \<times> world" where
  "provider_reply p q w = (case p of None \<Rightarrow> (([], None), w) | Some p \<Rightarrow> FindOffers p q w)"

definition provider_faults :: "search_env \<Rightarrow> offer_source option \<Rightarrow> failure option \<Rightarrow> source_fault list" where
  "provider_faults env p err =
     (case (p, err) of (Some p, Some e) \<Rightarrow> [fault_of env (SourceName p) e] | _ \<Rightarrow> [])"

lemma queryGameSources_eq:
  assumes reply: "provider_reply p q w = ((found, perr), w1)"
    and asked: "ask_sources sources q w1 = (Inr rs, w2)"
  shows "queryGameSources env p sources q w =
    (Inr (preferDirectOffers env found (readDirectHosts env sources rs) @ concat (map fst rs),
          provider_faults env p perr @ faults_of env sources rs,
          (case last_failure rs of None \<Rightarrow> perr | Some e \<Rightarrow> Some e)), w2)"
proof -
  have len: "length rs = length sources" by (rule ask_sources_length [OF asked])
  have first: "(case p of
                None \<Rightarrow> return_io ([], [], None)
              | Some p \<Rightarrow> bind_io (run_state (FindOffers p q)) (\<lambda>(found, err).
                  return_io (case err of
                      None \<Rightarrow> (found, [], None)
                    | Some e \<Rightarrow> (found, [fault_of env (SourceName p) e], Some e)))) w
      = (Inr (found, provider_faults env p perr, perr), w1)"
    using reply
    by (auto simp: provider_reply_def provider_faults_def bind_io_def run_state_def return_io_def
        split: option.splits prod.splits)
  show ?thesis
  proof (cases "sources = []")
    case True
    with asked have "rs = []" "w2 = w1" by (simp_all add: return_io_def)
    with first True show ?thesis
      by (simp add: queryGameSources_def bind_io_def return_io_def preferDirectOffers_def
          readDirectHosts_def map_filter_simps)
  next
    case False
    with first asked len show ?thesis
      by (simp add: queryGameSources_def querySources_def bind_io_def return_io_def
          combineSources_def combine_from_eq split: option.split)
  qed
qed

lemma provider_reply_total: "\<exists>found perr w1. provider_reply p q w = ((found, perr), w1)"
  by (metis prod.collapse)

lemma provider_reply_None: "provider_reply p q w = ((found, perr), w1) \<Longrightarrow> p = None \<longrightarrow> perr = None"
  by (auto simp: provider_reply_def)

lemma no_fault_iff:
  assumes "length sources = length rs" and "p = None \<longrightarrow> perr = None"
  shows "((case last_failure rs of None \<Rightarrow> perr | Some e \<Rightarrow> Some e) = None)
      = (provider_faults env p perr @ faults_of env sources rs = [])"
proof -
  have "provider_faults env p perr = [] \<longleftrightarrow> perr = None"
    using assms(2) by (auto simp: provider_faults_def split: option.split)
  then show ?thesis using fault_count [of sources rs env] assms(1) by (auto split: option.split)
qed

lemma queryGameSources_faults:
  "\<exists>items faults err w'. queryGameSources env p sources q w = (Inr (items, faults, err), w')
     \<and> (err = None) = (faults = [])"
proof -
  obtain found perr w1 where reply: "provider_reply p q w = ((found, perr), w1)"
    using provider_reply_total by blast
  obtain rs w2 where asked: "ask_sources sources q w1 = (Inr rs, w2)" using ask_sources_total by blast
  show ?thesis
    by (rule exI, rule exI, rule exI, rule exI, rule conjI, rule queryGameSources_eq [OF reply asked],
        rule no_fault_iff [OF ask_sources_length [OF asked, symmetric] provider_reply_None [OF reply], where env = env])
qed

text \<open>A partial answer names what is missing: one question asks the provider and every source
  once; the faults name, in order, exactly those that failed, with their reason; the question
  reports a failure exactly when some source failed; and the answer holds everything the
  sources sent, and of the provider's offers those whose store did not answer directly.\<close>
theorem faults_name_failed_sources:
  "\<exists>found perr w1 rs w2. provider_reply p q w = ((found, perr), w1)
    \<and> ask_sources sources q w1 = (Inr rs, w2) \<and> length rs = length sources
    \<and> (\<exists>items faults err. queryGameSources env p sources q w = (Inr (items, faults, err), w2)
        \<and> faults = provider_faults env p perr @ faults_of env sources rs
        \<and> (err = None) = (faults = [])
        \<and> items = filter (\<lambda>it. readOfferHost env it \<notin> set (readDirectHosts env sources rs)) found
                  @ concat (map fst rs))"
proof -
  obtain found perr w1 where reply: "provider_reply p q w = ((found, perr), w1)"
    using provider_reply_total by blast
  obtain rs w2 where asked: "ask_sources sources q w1 = (Inr rs, w2)" using ask_sources_total by blast
  note len = ask_sources_length [OF asked]
  note run = queryGameSources_eq [OF reply asked, of env, unfolded preferDirectOffers_def]
    no_fault_iff [OF len [symmetric] provider_reply_None [OF reply], where env = env]
  show ?thesis by (rule exI, rule exI, rule exI, rule exI, rule exI, intro conjI, rule reply, rule asked,
    rule len, intro exI conjI, rule run(1), rule refl, rule run(2), rule refl)
qed

section \<open>What is cached\<close>

lemma loadOfferCache_total: "\<exists>items found w1. loadOfferCache s k w = (Inr (items, found), w1)"
proof (cases "SvcCache s")
  case (Some c)
  moreover obtain r w1 where "CacheLoad c k w = (r, w1)" by fastforce
  ultimately show ?thesis
    by (cases r) (auto simp: loadOfferCache_def bind_io_def try_io_def return_io_def)
qed (auto simp: loadOfferCache_def return_io_def)

text \<open>C39 A partial answer is never cached: whenever the answer to a question misses a source,
  the answer, the failure and everything left behind are the same whatever saving to the
  cache would do.\<close>
theorem partial_answer_not_cached:
  assumes run: "FindCardOffers env s game q w = (Inr (items, faults, err), w')"
    and partial: "faults \<noteq> []"
  shows "FindCardOffers env (s\<lparr>SvcCache := map_option (\<lambda>c. c\<lparr>CacheSave := save\<rparr>) (SvcCache s)\<rparr>) game q w
    = (Inr (items, faults, err), w')"
proof -
  let ?s = "s\<lparr>SvcCache := map_option (\<lambda>c. c\<lparr>CacheSave := save\<rparr>) (SvcCache s)\<rparr>"
  have load: "loadOfferCache ?s k = loadOfferCache s k" for k
    by (simp add: loadOfferCache_def split: option.split)
  have parts: "cache_key env ?s g r = cache_key env s g r" "game_sources ?s g = game_sources s g"
      "asked_provider ?s g r = asked_provider s g r" "excluded_by ?s r = excluded_by s r"
      "shape_offers env ?s g r its = shape_offers env s g r its" for g r its
    by (simp_all add: cache_key_def game_sources_def asked_provider_def excluded_by_def shape_offers_def
        keepGameSealed_def applyPrintImages_def applyStoreLocations_def store_locations_def
        cong: option.case_cong if_cong)
  have "collectOffers env ?s game r w = (Inr (items, faults, err), w')"
    if "collectOffers env s game r w = (Inr (items, faults, err), w')" for r
  proof -
    let ?q = "settleQuery r"
    obtain its0 fnd w1 where L: "loadOfferCache s (cache_key env s game ?q) w = (Inr (its0, fnd), w1)"
      using loadOfferCache_total by blast
    obtain its fs e w2 where Q: "queryGameSources env (asked_provider s game ?q)
          (keepSources (game_sources s game) (excluded_by s ?q)) ?q w1 = (Inr (its, fs, e), w2)"
      and e: "(e = None) = (fs = [])"
      using queryGameSources_faults by blast
    have "e \<noteq> None" and "\<not> fnd" using that partial e
      by (auto simp: collectOffers_def Let_def bind_io_def L Q return_io_def split: if_splits sum.splits prod.splits)
    then obtain y where y: "e = Some y" "\<not> fnd" by auto
    obtain x w3 where "shape_offers env s game ?q its w2 = (x, w3)" by fastforce
    with that show ?thesis
      by (cases x) (auto simp: collectOffers_def Let_def bind_io_def L Q y load parts return_io_def split: if_splits)
  qed
  then show ?thesis using run by (auto simp: FindCardOffers_def Let_def)
qed

text \<open>A cache in front of the sources: what was saved under a key is loaded again while it is
  alive.  The service relies on no more than this.\<close>

locale answer_cache =
  fixes cache :: offer_cache
    and ready :: "world \<Rightarrow> bool"
    and alive :: "world \<Rightarrow> world \<Rightarrow> world \<Rightarrow> duration \<Rightarrow> bool"
  assumes load_saved:
    "CacheSave cache k os ttl w = (Inr u, w1) \<Longrightarrow> ready w \<Longrightarrow> alive w w1 w2 ttl \<Longrightarrow>
     \<exists>w3. CacheLoad cache k w2 = (Inr (os, True), w3)"
begin

lemma answered_from_cache:
  assumes "SvcCache s = Some cache" and name: "TrimSpace (QueryName q) \<noteq> []" "validGame game"
    and "CacheSave cache (cache_key env s game (settleQuery (q\<lparr>QueryName := TrimSpace (QueryName q)\<rparr>))) os ttl w
      = (Inr u, w1)" (is "CacheSave cache ?k os ttl w = _")
    and "ready w" "alive w w1 w2 ttl"
  shows "\<exists>w3. CacheLoad cache ?k w2 = (Inr (os, True), w3)
     \<and> FindCardOffers env s game q w2 = (Inr (os, [], None), w3)"
proof -
  obtain w3 where "CacheLoad cache ?k w2 = (Inr (os, True), w3)" using load_saved assms(4-6) by blast
  with assms(1) name show ?thesis
    by (simp add: FindCardOffers_def collectOffers_def loadOfferCache_def Let_def bind_io_def try_io_def
        return_io_def)
qed

end

definition repository_cache :: offer_cache where
  "repository_cache = \<lparr>CacheLoad = LoadOffers, CacheSave = SaveOffers\<rparr>"

definition still_kept :: "world \<Rightarrow> world \<Rightarrow> world \<Rightarrow> duration \<Rightarrow> bool" where
  "still_kept w w1 w2 ttl \<longleftrightarrow> calm w2 \<and> \<not> tx_open w2 \<and> wdb w2 = wdb w1
     \<and> clock w2 (ticks w2) \<le> clock w (ticks w) + ttl"

interpretation kept_answers: answer_cache repository_cache "\<lambda>w. \<not> tx_open w" still_kept
proof
  fix k os ttl w u w1 w2
  assume "CacheSave repository_cache k os ttl w = (Inr u, w1)" "\<not> tx_open w" "still_kept w w1 w2 ttl"
  then show "\<exists>w3. CacheLoad repository_cache k w2 = (Inr (os, True), w3)"
    using load_after_save [of k os ttl w u w1 w2] by (auto simp: repository_cache_def still_kept_def)
qed

text \<open>A question asked again is answered from the cache: once the answer to a question was
  saved, and until it expires, the question with the same key (the same game, kind and match
  mode, and a card name that levels the same) answers exactly the saved offers, without fault
  or failure, and does nothing but that one load: no source is asked.\<close>
theorem repeated_question_from_cache:
  assumes "SvcCache s = Some repository_cache"
    and "TrimSpace (QueryName q) \<noteq> []" "validGame game"
    and "SaveOffers key os ttl w = (Inr u, w1)" "\<not> tx_open w"
    and "key = cache_key env s game (settleQuery (q\<lparr>QueryName := TrimSpace (QueryName q)\<rparr>))"
    and "calm w2" "\<not> tx_open w2" "wdb w2 = wdb w1" "clock w2 (ticks w2) \<le> clock w (ticks w) + ttl"
  shows "\<exists>w3. LoadOffers key w2 = (Inr (os, True), w3)
     \<and> FindCardOffers env s game q w2 = (Inr (os, [], None), w3)"
  using kept_answers.answered_from_cache [of s q game env os ttl w u w1 w2] assms
  by (simp add: repository_cache_def still_kept_def)

text \<open>A service with one source that answers an offer and fails.\<close>

definition demo_query :: card_query where
  "demo_query = \<lparr>QueryName = '' Opt'', QueryMatch = MatchExact, QueryKind = []\<rparr>"

definition demo_search :: search_env where
  "demo_search = \<lparr>EnvWords = plain_words, EnvHostname = (\<lambda>_. None), EnvErrorText = (\<lambda>_. ''boom'')\<rparr>"

definition half_source :: offer_source where
  "half_source = \<lparr>SourceName = ''shop.cl'', FindOffers = (\<lambda>_ w. (([demo_offer], Some (Failure ''boom'')), w))\<rparr>"

definition demo_service :: offer_service where
  "demo_service = \<lparr>SvcProviders = [], SvcSources = [half_source], SvcSourcesByGame = [],
     SvcCache = Some repository_cache, SvcOffers = None, SvcCacheNamespace = [], SvcCacheTTL = hour,
     SvcEmptyCacheTTL = minute, SvcSuspiciousPercent = 50, SvcStoreLocations = [], SvcSetsByGame = [],
     SvcPrintsByGame = [], SvcSinglesOnly = [], SvcSealedOnly = []\<rparr>"

theorem partial_answer_not_cached_witness:
  "\<exists>items w'. FindCardOffers demo_search demo_service GameMagic demo_query (calm_world empty_db)
       = (Inr (items, [\<lparr>FaultSource = ''shop.cl'', FaultReason = ''boom''\<rparr>], None), w')
     \<and> FindCardOffers demo_search (demo_service\<lparr>SvcCache := map_option
         (\<lambda>c. c\<lparr>CacheSave := \<lambda>_ _ _. fail_io ErrMissing\<rparr>) (SvcCache demo_service)\<rparr>)
         GameMagic demo_query (calm_world empty_db)
       = (Inr (items, [\<lparr>FaultSource = ''shop.cl'', FaultReason = ''boom''\<rparr>], None), w')"
proof -
  let ?run = "FindCardOffers demo_search demo_service GameMagic demo_query (calm_world empty_db)"
  have "case fst ?run of Inl _ \<Rightarrow> False | Inr (items, faults, err) \<Rightarrow>
      faults = [\<lparr>FaultSource = ''shop.cl'', FaultReason = ''boom''\<rparr>] \<and> err = None" by code_simp
  then obtain items w' where
    run: "?run = (Inr (items, [\<lparr>FaultSource = ''shop.cl'', FaultReason = ''boom''\<rparr>], None), w')"
    by (cases ?run) (auto split: sum.splits)
  show ?thesis
    by (rule exI, rule exI, rule conjI, rule run, rule partial_answer_not_cached [OF run]) simp
qed

theorem repeated_question_from_cache_witness:
  "\<exists>w1 w3. SaveOffers ''magic:single:exact:opt'' [demo_offer] hour (calm_world empty_db) = (Inr (), w1)
     \<and> FindCardOffers demo_search demo_service GameMagic demo_query (calm_world (wdb w1))
       = (Inr ([demo_offer], [], None), w3)"
proof -
  let ?k = "''magic:single:exact:opt''"
  have "fst (SaveOffers ?k [demo_offer] hour (calm_world empty_db)) = Inr ()" by code_simp
  then obtain w1 where run: "SaveOffers ?k [demo_offer] hour (calm_world empty_db) = (Inr (), w1)"
    by (metis prod.collapse)
  have key: "?k = cache_key demo_search demo_service GameMagic
      (settleQuery (demo_query\<lparr>QueryName := TrimSpace (QueryName demo_query)\<rparr>))" by code_simp
  have "SvcCache demo_service = Some repository_cache" by (simp add: demo_service_def)
  moreover have "TrimSpace (QueryName demo_query) \<noteq> []" "validGame GameMagic" by code_simp+
  ultimately show ?thesis
    using repeated_question_from_cache [OF _ _ _ run _ key, of "calm_world (wdb w1)"] run
    by (auto simp: duration_defs)
qed

end
