(* ===== verification/Services.thy ===== *)
theory Services
  imports ItemStore OrderStore OfferSearch
begin

text \<open>
  internal/search: the services that open a search, read it back, check its offers' stock,
  and hand out checkouts and orders for them, over the ports they declare.

  The repositories, the stores' carts and stock pages are records of operations, as the
  interfaces of repository.go and ports.go are.  The payload a request is hashed from is a
  value; its digest (JSON, SHA-256, hex) is the argument \<open>digest\<close>.  Goroutines that write one
  slot each run in the order of the list.  A loop over pages runs on fuel and ends with
  \<open>OutOfFuel\<close> when it is used up; \<open>collect_ends\<close> bounds the fuel it needs.
\<close>

section \<open>The ports (internal/search/repository.go, ports.go)\<close>

record search_repository =
  RepoCreateSearch :: "string \<Rightarrow> string \<Rightarrow> create_input \<Rightarrow> job io"
  RepoGetSearch :: "string \<Rightarrow> job io"
  RepoListResults :: "string \<Rightarrow> result_page \<Rightarrow> search_result io"
  RepoCancelSearch :: "string \<Rightarrow> string \<Rightarrow> string \<Rightarrow> job io"
  RepoClaimSearchItem :: "string \<Rightarrow> duration \<Rightarrow> item io"
  RepoRenewItemLease :: "string \<Rightarrow> string \<Rightarrow> duration \<Rightarrow> unit io"
  RepoCompleteSearchItem :: "item \<Rightarrow> offer list \<Rightarrow> unit io"

record order_repository =
  RepoCreateOrder :: "string \<Rightarrow> string \<Rightarrow> order \<Rightarrow> order io"
  RepoGetOrder :: "string \<Rightarrow> order io"
  RepoFindOrderByStoreOrder :: "string \<Rightarrow> string \<Rightarrow> order io"
  RepoMoveOrderStatus :: "string \<Rightarrow> order_status \<Rightarrow> order_status \<Rightarrow> order io"
  RepoReportOrder :: "string \<Rightarrow> string \<Rightarrow> order io"

type_synonym task_queue = "job \<Rightarrow> unit io"
type_synonym stock_checker = "offer \<Rightarrow> stock_reading io"
type_synonym checkout_linker = "string \<Rightarrow> cart_line list \<Rightarrow> string option"
type_synonym cart_quoter = "string \<Rightarrow> cart_line list \<Rightarrow> shipping_address \<Rightarrow> cart_quote io"
type_synonym order_placer = "string \<Rightarrow> cart_line list \<Rightarrow> shipping_address \<Rightarrow> order io"

text \<open>internal/search/limits.go, order_service.go.\<close>

definition maxCheckedOffers :: nat where "maxCheckedOffers = 50"
definition maxCheckoutUnits :: int where "maxCheckoutUnits = 99"
definition maxResultPage :: int where "maxResultPage = 100"
definition maxStoreOrderLength :: nat where "maxStoreOrderLength = 64"

lemmas limit_defs = maxCheckedOffers_def maxCheckoutUnits_def maxResultPage_def maxStoreOrderLength_def

section \<open>What a request is hashed from (internal/search/fingerprint.go)\<close>

record card_fingerprint =
  PrintedName :: string
  PrintedQuantity :: int

record options_fingerprint =
  PrintedVerifyStock :: bool
  PrintedMatch :: match_mode
  PrintedKind :: product_kind

record search_fingerprint =
  PrintedGame :: game
  PrintedCards :: "card_fingerprint list"
  PrintedOptions :: options_fingerprint

definition renderFingerprint :: "create_input \<Rightarrow> search_fingerprint" where
  "renderFingerprint input =
     \<lparr>PrintedGame = InputGame input,
      PrintedCards = map (\<lambda>c. \<lparr>PrintedName = CardInputName c, PrintedQuantity = CardInputQuantity c\<rparr>)
        (InputCards input),
      PrintedOptions = \<lparr>PrintedVerifyStock = OptVerifyStock (InputOptions input),
        PrintedMatch = OptMatch (InputOptions input), PrintedKind = OptKind (InputOptions input)\<rparr>\<rparr>"

datatype payload =
    CreatePayload search_fingerprint
  | CancelPayload string
  | OrderPayload string string string "cart_request list"

section \<open>Searches (internal/search/validation.go, search_service.go)\<close>

definition ValidateCreate :: "create_input \<Rightarrow> int \<Rightarrow> int \<Rightarrow> failure option" where
  "ValidateCreate input maxCards maxQuantity =
     (if \<not> validGame (InputGame input) \<or> InputCards input = [] \<or> maxCards < int (length (InputCards input))
      then Some ErrInvalid
      else case ReadMatchMode (OptMatch (InputOptions input)) of
        Inl _ \<Rightarrow> Some ErrInvalid
      | Inr _ \<Rightarrow> (case ReadProductKind (OptKind (InputOptions input)) of
          Inl _ \<Rightarrow> Some ErrInvalid
        | Inr _ \<Rightarrow>
            if list_ex (\<lambda>c. TrimSpace (CardInputName c) = [] \<or> CardInputQuantity c < 1
                 \<or> maxQuantity < CardInputQuantity c) (InputCards input)
            then Some ErrInvalid else None))"

record search_service =
  SearchRepository :: search_repository
  SearchTasks :: "task_queue option"
  MaxCards :: int
  MaxQuantity :: int

text \<open>The job comes back with the failure of the dispatch, as Go answers both.\<close>

definition Service_CreateSearch ::
  "(payload \<Rightarrow> string) \<Rightarrow> search_service \<Rightarrow> string \<Rightarrow> create_input \<Rightarrow> (job \<times> failure option) io" where
  "Service_CreateSearch digest s key input =
     (case ValidateCreate input (MaxCards s) (MaxQuantity s) of
        Some e \<Rightarrow> fail_io e
      | None \<Rightarrow>
          bind_io (RepoCreateSearch (SearchRepository s) key (digest (CreatePayload (renderFingerprint input))) input)
            (\<lambda>job. case SearchTasks s of
               None \<Rightarrow> return_io (job, None)
             | Some dispatch \<Rightarrow> bind_io (try_io (dispatch job)) (\<lambda>r.
                 return_io (job, case r of Inl e \<Rightarrow> Some e | Inr _ \<Rightarrow> None))))"

definition Service_GetSearch :: "search_service \<Rightarrow> string \<Rightarrow> job io" where
  "Service_GetSearch s i = RepoGetSearch (SearchRepository s) i"

definition Service_ListResults :: "search_service \<Rightarrow> string \<Rightarrow> result_page \<Rightarrow> search_result io" where
  "Service_ListResults s i page = RepoListResults (SearchRepository s) i page"

definition Service_CancelSearch :: "(payload \<Rightarrow> string) \<Rightarrow> search_service \<Rightarrow> string \<Rightarrow> string \<Rightarrow> job io" where
  "Service_CancelSearch digest s i key =
     RepoCancelSearch (SearchRepository s) i key (digest (CancelPayload i))"

section \<open>The offers a search found (internal/search/searched.go)\<close>

definition index_items :: "item list \<Rightarrow> (string \<rightharpoonup> offer) \<Rightarrow> (string \<rightharpoonup> offer)" where
  "index_items items found =
     fold (\<lambda>it found. fold (\<lambda>o1 found. found(OfferID o1 \<mapsto> o1)) (ItemOffers it) found) items found"

fun collect_pages ::
  "nat \<Rightarrow> search_repository \<Rightarrow> string \<Rightarrow> int \<Rightarrow> (string \<rightharpoonup> offer) \<Rightarrow> (string \<rightharpoonup> offer) io" where
  "collect_pages 0 repo i cursor found = fail_io OutOfFuel"
| "collect_pages (Suc fuel) repo i cursor found =
     bind_io (RepoListResults repo i \<lparr>PageAfter = cursor, PageLimit = maxResultPage\<rparr>) (\<lambda>page.
       let found = index_items (ResultItems page) found in
       if \<not> ResultHasMore page \<or> ResultCursor page \<le> cursor then return_io found
       else collect_pages fuel repo i (ResultCursor page) found)"

definition collectSearchOffers :: "nat \<Rightarrow> search_repository \<Rightarrow> string \<Rightarrow> (string \<rightharpoonup> offer) io" where
  "collectSearchOffers fuel repo i = collect_pages fuel repo i 0 Map.empty"

section \<open>Stock (internal/search/stock_service.go)\<close>

definition readOfferStock :: "stock_checker \<Rightarrow> offer \<Rightarrow> offer_stock io" where
  "readOfferStock check it =
     bind_io (try_io (check it)) (\<lambda>r. return_io
       (case r of
          Inl _ \<Rightarrow> \<lparr>StockOfferID = OfferID it, StockReadingOf = ReadStock ''unknown''\<rparr>
        | Inr reading \<Rightarrow> \<lparr>StockOfferID = OfferID it, StockReadingOf = reading\<rparr>))"

fun read_stocks :: "stock_checker \<Rightarrow> (string \<rightharpoonup> offer) \<Rightarrow> string list \<Rightarrow> offer_stock list io" where
  "read_stocks check found [] = return_io []"
| "read_stocks check found (i # ids) =
     (case found i of
        None \<Rightarrow> fail_io ErrNotFound
      | Some it \<Rightarrow> bind_io (readOfferStock check it) (\<lambda>reading.
          bind_io (read_stocks check found ids) (\<lambda>rest. return_io (reading # rest))))"

definition CheckOfferStock ::
  "nat \<Rightarrow> search_repository \<Rightarrow> stock_checker option \<Rightarrow> string \<Rightarrow> string list \<Rightarrow> offer_stock list io" where
  "CheckOfferStock fuel repo stocks i ids =
     (if i = [] \<or> ids = [] \<or> maxCheckedOffers < length ids then fail_io ErrInvalid
      else case stocks of
        None \<Rightarrow> fail_io ErrInvalid
      | Some check \<Rightarrow>
          bind_io (collectSearchOffers fuel repo i) (\<lambda>found. read_stocks check found ids))"

section \<open>Checkouts (internal/search/checkout_service.go)\<close>

text \<open>\<open>host\<close> is the host of an address, None when \<open>url.Parse\<close> refuses it.\<close>

definition offer_domain :: "(string \<Rightarrow> string option) \<Rightarrow> offer \<Rightarrow> string" where
  "offer_domain host it = (case host (OfferURL it) of None \<Rightarrow> [] | Some h \<Rightarrow> h)"

definition bad_request :: "cart_request \<Rightarrow> bool" where
  "bad_request r \<longleftrightarrow> RequestOfferID r = [] \<or> RequestQuantity r \<le> 0 \<or> maxCheckoutUnits < RequestQuantity r"

definition cart_line_of :: "offer \<Rightarrow> cart_request \<Rightarrow> cart_line" where
  "cart_line_of it r = \<lparr>LineOffer = it, LineQuantity = RequestQuantity r\<rparr>"

text \<open>The domains in the order they are first seen, and the lines of each.\<close>

fun group_lines ::
  "(string \<Rightarrow> string option) \<Rightarrow> (string \<rightharpoonup> offer) \<Rightarrow> cart_request list \<Rightarrow> string list \<Rightarrow>
   (string \<rightharpoonup> cart_line list) \<Rightarrow> failure + string list \<times> (string \<rightharpoonup> cart_line list)" where
  "group_lines host found [] domains groups = Inr (domains, groups)"
| "group_lines host found (r # rs) domains groups =
     (case found (RequestOfferID r) of
        None \<Rightarrow> Inl ErrNotFound
      | Some it \<Rightarrow>
          let domain = offer_domain host it in
          (case groups domain of
             None \<Rightarrow> group_lines host found rs (domains @ [domain]) (groups(domain \<mapsto> [cart_line_of it r]))
           | Some ls \<Rightarrow> group_lines host found rs domains (groups(domain \<mapsto> ls @ [cart_line_of it r]))))"

definition checkout_line_of :: "cart_line \<Rightarrow> checkout_line" where
  "checkout_line_of l = \<lparr>CheckoutOfferID = OfferID (LineOffer l), CheckoutQuantity = LineQuantity l,
     CheckoutURL = OfferURL (LineOffer l)\<rparr>"

text \<open>A group holds a line at least, so the store of the first one exists.\<close>

definition planCheckout :: "checkout_linker option \<Rightarrow> string \<Rightarrow> cart_line list \<Rightarrow> store_checkout" where
  "planCheckout linker domain lines =
     (let checkout = \<lparr>CheckoutStore = OfferStore (LineOffer (hd lines)), CheckoutDomain = domain,
            CheckoutMode = ''product_pages'', CheckoutLinkURL = [],
            CheckoutLines = map checkout_line_of lines, CheckoutQuote = None, CheckoutQuoteError = []\<rparr>
      in case linker of
           None \<Rightarrow> checkout
         | Some f \<Rightarrow> (case f domain lines of
             None \<Rightarrow> checkout
           | Some link \<Rightarrow> checkout\<lparr>CheckoutMode := ''cart'', CheckoutLinkURL := link\<rparr>))"

definition quoteCheckout ::
  "cart_quoter \<Rightarrow> store_checkout \<Rightarrow> cart_line list \<Rightarrow> shipping_address \<Rightarrow> store_checkout io" where
  "quoteCheckout quoter checkout lines address =
     bind_io (try_io (quoter (CheckoutDomain checkout) lines address)) (\<lambda>r. return_io
       (case r of
          Inl e \<Rightarrow> if e = ErrNoQuote then checkout
                   else checkout\<lparr>CheckoutQuoteError := ''the store did not answer its cart''\<rparr>
        | Inr q \<Rightarrow> checkout\<lparr>CheckoutQuote := Some q\<rparr>))"

fun plan_checkouts ::
  "checkout_linker option \<Rightarrow> cart_quoter option \<Rightarrow> shipping_address option \<Rightarrow>
   (string \<rightharpoonup> cart_line list) \<Rightarrow> string list \<Rightarrow> store_checkout list io" where
  "plan_checkouts linker quotes address groups [] = return_io []"
| "plan_checkouts linker quotes address groups (d # ds) =
     (let lines = (case groups d of None \<Rightarrow> [] | Some ls \<Rightarrow> ls);
          checkout = planCheckout linker d lines
      in bind_io (case (address, quotes) of
                    (Some a, Some quoter) \<Rightarrow> quoteCheckout quoter checkout lines a
                  | _ \<Rightarrow> return_io checkout) (\<lambda>checkout.
         bind_io (plan_checkouts linker quotes address groups ds) (\<lambda>rest. return_io (checkout # rest))))"

record checkout_service =
  CheckoutRepository :: search_repository
  CheckoutLinker :: "checkout_linker option"
  CheckoutQuoter :: "cart_quoter option"

definition CheckoutLinks ::
  "nat \<Rightarrow> (string \<Rightarrow> string option) \<Rightarrow> checkout_service \<Rightarrow> string \<Rightarrow> cart_request list \<Rightarrow>
   shipping_address option \<Rightarrow> store_checkout list io" where
  "CheckoutLinks fuel host s i requests address =
     (if i = [] \<or> requests = [] \<or> maxCheckedOffers < length requests then fail_io ErrInvalid
      else if list_ex bad_request requests then fail_io ErrInvalid
      else if (case address of None \<Rightarrow> False | Some a \<Rightarrow> TrimSpace (AddressCountry a) = []) then fail_io ErrInvalid
      else bind_io (collectSearchOffers fuel (CheckoutRepository s) i) (\<lambda>found.
        case group_lines host found requests [] Map.empty of
          Inl e \<Rightarrow> fail_io e
        | Inr (domains, groups) \<Rightarrow>
            plan_checkouts (CheckoutLinker s) (CheckoutQuoter s) address groups domains))"

section \<open>Orders (internal/search/order_service.go)\<close>

record order_service =
  OrdersSearches :: search_repository
  OrdersRepository :: "order_repository option"
  OrdersPlacer :: "order_placer option"
  OrdersLinker :: "checkout_linker option"

text \<open>The lines of one order: the loop of \<open>PlaceOrder\<close> and of \<open>LinkOrder\<close>.\<close>

fun order_lines ::
  "(string \<Rightarrow> string option) \<Rightarrow> (string \<rightharpoonup> offer) \<Rightarrow> cart_request list \<Rightarrow> string \<Rightarrow> cart_line list \<Rightarrow>
   failure + string \<times> cart_line list" where
  "order_lines host found [] domain lines = Inr (domain, lines)"
| "order_lines host found (r # rs) domain lines =
     (case found (RequestOfferID r) of
        None \<Rightarrow> Inl ErrNotFound
      | Some it \<Rightarrow>
          let itemDomain = offer_domain host it in
          if domain = [] then order_lines host found rs itemDomain (lines @ [cart_line_of it r])
          else if domain \<noteq> itemDomain then Inl ErrInvalid
          else order_lines host found rs domain (lines @ [cart_line_of it r]))"

definition PlaceOrder ::
  "(payload \<Rightarrow> string) \<Rightarrow> nat \<Rightarrow> (string \<Rightarrow> string option) \<Rightarrow> order_service \<Rightarrow> string \<Rightarrow> string \<Rightarrow>
   cart_request list \<Rightarrow> shipping_address \<Rightarrow> order io" where
  "PlaceOrder digest fuel host s i key requests address =
     (case (OrdersPlacer s, OrdersRepository s) of
        (Some place, Some orders) \<Rightarrow>
          if i = [] \<or> key = [] \<or> requests = [] \<or> maxCheckedOffers < length requests then fail_io ErrInvalid
          else if list_ex bad_request requests then fail_io ErrInvalid
          else if AddressCountry address = [] then fail_io ErrInvalid
          else bind_io (collectSearchOffers fuel (OrdersSearches s) i) (\<lambda>found.
            case order_lines host found requests [] [] of
              Inl e \<Rightarrow> fail_io e
            | Inr (domain, lines) \<Rightarrow>
                bind_io (place domain lines address) (\<lambda>o1.
                  RepoCreateOrder orders key (digest (OrderPayload i ''place-order'' domain requests))
                    (o1\<lparr>OrderSearchID := i\<rparr>)))
      | _ \<Rightarrow> fail_io ErrInvalid)"

text \<open>An order no store has placed yet: the fields the literal names, Go's zero for the rest.\<close>

definition linked_order :: "string \<Rightarrow> store_checkout \<Rightarrow> order" where
  "linked_order i plan =
     \<lparr>OrderID = [], OrderSearchID = i, OrderStore = CheckoutStore plan, OrderDomain = CheckoutDomain plan,
      OrderLines = CheckoutLines plan, OrderStatus = OrderLinked, OrderStoreOrder = [],
      OrderPaymentURL = CheckoutLinkURL plan, OrderCreatedAt = 0, OrderUpdatedAt = 0\<rparr>"

definition LinkOrder ::
  "(payload \<Rightarrow> string) \<Rightarrow> nat \<Rightarrow> (string \<Rightarrow> string option) \<Rightarrow> order_service \<Rightarrow> string \<Rightarrow> string \<Rightarrow>
   cart_request list \<Rightarrow> order io" where
  "LinkOrder digest fuel host s i key requests =
     (case OrdersRepository s of
        None \<Rightarrow> fail_io ErrInvalid
      | Some orders \<Rightarrow>
          if i = [] \<or> key = [] \<or> requests = [] \<or> maxCheckedOffers < length requests then fail_io ErrInvalid
          else if list_ex bad_request requests then fail_io ErrInvalid
          else bind_io (collectSearchOffers fuel (OrdersSearches s) i) (\<lambda>found.
            case order_lines host found requests [] [] of
              Inl e \<Rightarrow> fail_io e
            | Inr (domain, lines) \<Rightarrow>
                RepoCreateOrder orders key (digest (OrderPayload i ''link-order'' domain requests))
                  (linked_order i (planCheckout (OrdersLinker s) domain lines))))"

definition Service_GetOrder :: "order_service \<Rightarrow> string \<Rightarrow> string \<Rightarrow> order io" where
  "Service_GetOrder s i orderID =
     (case OrdersRepository s of
        None \<Rightarrow> fail_io ErrInvalid
      | Some orders \<Rightarrow>
          if i = [] \<or> orderID = [] then fail_io ErrInvalid
          else bind_io (RepoGetOrder orders orderID) (\<lambda>o1.
            if OrderSearchID o1 \<noteq> i then fail_io ErrOrderNotFound else return_io o1))"

definition Service_ReportOrder :: "order_service \<Rightarrow> string \<Rightarrow> string \<Rightarrow> string \<Rightarrow> order io" where
  "Service_ReportOrder s i orderID num =
     (let num = TrimSpace num in
      case OrdersRepository s of
        None \<Rightarrow> fail_io ErrInvalid
      | Some orders \<Rightarrow>
          if num = [] \<or> maxStoreOrderLength < length num then fail_io ErrInvalid
          else bind_io (Service_GetOrder s i orderID) (\<lambda>o1.
            if OrderStatus o1 = OrderReported \<and> OrderStoreOrder o1 = num then return_io o1
            else RepoReportOrder orders orderID num))"

definition ConfirmOrder :: "order_service \<Rightarrow> string \<Rightarrow> string \<Rightarrow> order_status \<Rightarrow> order io" where
  "ConfirmOrder s domain num target =
     (case OrdersRepository s of
        None \<Rightarrow> fail_io ErrInvalid
      | Some orders \<Rightarrow>
          if domain = [] \<or> num = [] then fail_io ErrInvalid
          else bind_io (RepoFindOrderByStoreOrder orders domain num) (\<lambda>o1.
            if OrderStatus o1 = target then return_io o1
            else RepoMoveOrderStatus orders (OrderID o1) OrderPending target))"

section \<open>The repository the program runs on (internal/repositories)\<close>

definition store_repository :: "text_env \<Rightarrow> duration \<Rightarrow> search_repository" where
  "store_repository env ttl =
     \<lparr>RepoCreateSearch = Store_CreateSearch env ttl, RepoGetSearch = Store_GetSearch,
      RepoListResults = Store_ListResults, RepoCancelSearch = Store_CancelSearch ttl,
      RepoClaimSearchItem = ClaimSearchItem, RepoRenewItemLease = RenewItemLease,
      RepoCompleteSearchItem = CompleteSearchItem\<rparr>"

definition store_orders :: "duration \<Rightarrow> order_repository" where
  "store_orders ttl =
     \<lparr>RepoCreateOrder = Store_CreateOrder ttl, RepoGetOrder = Store_GetOrder,
      RepoFindOrderByStoreOrder = FindOrderByStoreOrder, RepoMoveOrderStatus = MoveOrderStatus,
      RepoReportOrder = Store_ReportOrder\<rparr>"

end
