(* ===== verification/Worker.thy ===== *)
theory Worker
  imports Services Queue
begin

text \<open>
  internal/search/worker.go, internal/sweep/sweeper.go and internal/taskqueue/queue.go: a
  turn of the worker, the loop around it, the sweeper that replaces lost wake-ups, and the
  tasks that wake the worker.

  A turn is modelled without the goroutine that renews its lease, whose own loop is
  \<open>renewLease\<close>; how renewals interleave with the rest of the queue is in QueueSystem.  Waiting
  is \<open>nap\<close>, which fails with \<open>ContextDone\<close> when the context ends first.
\<close>

section \<open>A turn (internal/search/worker.go)\<close>

record worker =
  WorkerRepository :: search_repository
  WorkerOffers :: offer_service
  WorkerStocks :: "stock_checker option"
  WorkerOwner :: string
  WorkerLease :: duration
  WorkerPollInterval :: duration
  WorkerStockLimit :: nat

definition read_into :: "offer \<Rightarrow> stock_reading \<Rightarrow> offer" where
  "read_into it reading =
     it\<lparr>OfferStockStatus := ReadingStatus reading, OfferStockQuantity := ReadingQuantity reading\<rparr>"

text \<open>The first offer with the id is asked about; the rest of the list stays as it is.\<close>

fun checkOffer :: "stock_checker \<Rightarrow> offer list \<Rightarrow> string \<Rightarrow> offer list io" where
  "checkOffer check [] k = return_io []"
| "checkOffer check (it # items) k =
     (if OfferID it \<noteq> k then bind_io (checkOffer check items k) (\<lambda>items. return_io (it # items))
      else bind_io (try_io (check it)) (\<lambda>r. return_io
        (case r of Inl _ \<Rightarrow> it # items | Inr reading \<Rightarrow> read_into it reading # items)))"

fun check_targets :: "stock_checker \<Rightarrow> offer list \<Rightarrow> string list \<Rightarrow> offer list io" where
  "check_targets check items [] = return_io items"
| "check_targets check items (k # ks) =
     bind_io (checkOffer check items k) (\<lambda>items. check_targets check items ks)"

definition verifyStocks :: "worker \<Rightarrow> offer list \<Rightarrow> offer list io" where
  "verifyStocks wk items =
     (case WorkerStocks wk of
        None \<Rightarrow> return_io items
      | Some check \<Rightarrow>
          check_targets check items (map OfferID (SelectStockOffers items (WorkerStockLimit wk))))"

definition item_query :: "item \<Rightarrow> card_query" where
  "item_query it = \<lparr>QueryName = ItemNormalizedName it, QueryMatch = ItemMatch it, QueryKind = ItemKind it\<rparr>"

definition work_item :: "search_env \<Rightarrow> worker \<Rightarrow> item \<Rightarrow> (item \<times> offer list) io" where
  "work_item env wk it =
     bind_io (FindCardOffers env (WorkerOffers wk) (ItemGame it) (item_query it)) (\<lambda>(items, faults, sourceErr).
     bind_io (if ItemVerifyStock it then verifyStocks wk items else return_io items) (\<lambda>items.
       return_io (applyItemResult (it\<lparr>ItemFaults := faults\<rparr>) items sourceErr, items)))"

definition processNext :: "search_env \<Rightarrow> worker \<Rightarrow> unit io" where
  "processNext env wk =
     bind_io (RepoClaimSearchItem (WorkerRepository wk) (WorkerOwner wk) (WorkerLease wk)) (\<lambda>it.
     bind_io (work_item env wk it) (\<lambda>(it, items).
       RepoCompleteSearchItem (WorkerRepository wk) it items))"

fun RunWorker :: "nat \<Rightarrow> search_env \<Rightarrow> worker \<Rightarrow> unit io" where
  "RunWorker 0 env wk = fail_io OutOfFuel"
| "RunWorker (Suc fuel) env wk =
     bind_io (try_io (processNext env wk)) (\<lambda>r.
       case r of
         Inr _ \<Rightarrow> RunWorker fuel env wk
       | Inl e \<Rightarrow>
           if e \<noteq> ErrNotFound then fail_io e
           else bind_io (nap (WorkerPollInterval wk)) (\<lambda>_. RunWorker fuel env wk))"

definition renew_interval :: "duration \<Rightarrow> duration" where
  "renew_interval lease = max (lease div 3) second"

fun renewLease :: "nat \<Rightarrow> worker \<Rightarrow> string \<Rightarrow> unit io" where
  "renewLease 0 wk i = fail_io OutOfFuel"
| "renewLease (Suc fuel) wk i =
     bind_io (try_io (nap (renew_interval (WorkerLease wk)))) (\<lambda>tick.
       case tick of
         Inl _ \<Rightarrow> return_io ()
       | Inr _ \<Rightarrow>
           bind_io (try_io (RepoRenewItemLease (WorkerRepository wk) i (WorkerOwner wk) (WorkerLease wk))) (\<lambda>r.
             case r of Inl _ \<Rightarrow> return_io () | Inr _ \<Rightarrow> renewLease fuel wk i))"

section \<open>The sweeper (internal/sweep/sweeper.go)\<close>

record sweeper =
  SweepItems :: "int \<Rightarrow> nat io"
  SweepQueueWaker :: "string \<Rightarrow> unit io"
  MaxWakes :: int

fun wake_each :: "(string \<Rightarrow> unit io) \<Rightarrow> nat \<Rightarrow> nat \<Rightarrow> (nat \<times> failure option) io" where
  "wake_each wake woken 0 = return_io (woken, None)"
| "wake_each wake woken (Suc left) =
     bind_io (try_io (wake ''sweep'')) (\<lambda>r.
       case r of Inl e \<Rightarrow> return_io (woken, Some e) | Inr _ \<Rightarrow> wake_each wake (Suc woken) left)"

definition SweepQueue :: "sweeper \<Rightarrow> (nat \<times> failure option) io" where
  "SweepQueue s =
     (let limit = (if MaxWakes s \<le> 0 then 1 else MaxWakes s) in
      bind_io (try_io (SweepItems s limit)) (\<lambda>r.
        case r of
          Inl e \<Rightarrow> return_io (0, Some e)
        | Inr waiting \<Rightarrow> if waiting = 0 then return_io (0, None) else wake_each (SweepQueueWaker s) 0 waiting))"

section \<open>Tasks (internal/taskqueue/queue.go)\<close>

text \<open>\<open>create\<close> is the call to Cloud Tasks with a task name, \<open>exists\<close> tells its \<open>AlreadyExists\<close>.\<close>

record task_client =
  TaskParent :: string
  CreateTask :: "string \<Rightarrow> unit io"
  TaskExists :: "failure \<Rightarrow> bool"

definition pad3 :: "nat \<Rightarrow> string" where
  "pad3 n = replicate (3 - length (nat_digits n)) CHR ''0'' @ nat_digits n"

definition dispatch :: "task_client \<Rightarrow> string \<Rightarrow> unit io" where
  "dispatch q name w =
     (case CreateTask q name w of
        (Inl e, w') \<Rightarrow> if TaskExists q e then (Inr (), w') else (Inl e, w')
      | (Inr _, w') \<Rightarrow> (Inr (), w'))"

definition task_name :: "task_client \<Rightarrow> string \<Rightarrow> nat \<Rightarrow> string" where
  "task_name q searchID position = TaskParent q @ ''/tasks/'' @ searchID @ ''-'' @ pad3 position"

definition createTask :: "task_client \<Rightarrow> string \<Rightarrow> nat \<Rightarrow> unit io" where
  "createTask q searchID position = dispatch q (task_name q searchID position)"

text \<open>Every position is dispatched; the first failure is the answer.\<close>

fun dispatch_all :: "task_client \<Rightarrow> string \<Rightarrow> nat list \<Rightarrow> failure option io" where
  "dispatch_all q i [] = return_io None"
| "dispatch_all q i (p # ps) =
     bind_io (try_io (createTask q i p)) (\<lambda>r.
     bind_io (dispatch_all q i ps) (\<lambda>rest.
       return_io (case r of Inl e \<Rightarrow> Some e | Inr _ \<Rightarrow> rest)))"

definition DispatchSearch :: "task_client \<Rightarrow> job \<Rightarrow> unit io" where
  "DispatchSearch q job =
     bind_io (dispatch_all q (JobID job) [0 ..< nat (JobTotal job)]) (\<lambda>r.
       case r of None \<Rightarrow> return_io () | Some e \<Rightarrow> fail_io e)"

text \<open>\<open>stamp\<close> is the formatted time, the number the counter of the process.\<close>

definition buildWakeName :: "string \<Rightarrow> string \<Rightarrow> nat \<Rightarrow> string" where
  "buildWakeName stamp reason n = reason @ ''-'' @ stamp @ ''-'' @ nat_digits n"

definition WakeWorker :: "task_client \<Rightarrow> string \<Rightarrow> nat \<Rightarrow> string \<Rightarrow> unit io" where
  "WakeWorker q stamp n reason =
     dispatch q (TaskParent q @ ''/tasks/'' @ buildWakeName stamp reason n)"

end
