(* ===== verification/WorkerProperties.thy ===== *)
theory WorkerProperties
  imports Worker QueueSpec
begin

text \<open>
  What a turn of the worker, the sweeper and the tasks promise: a turn that gets through
  reports one more card, a sweep wakes as many turns as there are items waiting, and the
  tasks of a search have different names.
\<close>

section \<open>A turn gets through\<close>

lemma claim_turns_reach:
  "claim_turns n owner lease w = (Inr it, w1) \<Longrightarrow> reachable env (w, os, ws) \<Longrightarrow>
   \<exists>w0 d. reachable env (w0, os, ws) \<and> claimOnce owner lease w0 = (Inr (it, d), w1) \<and> ItemID it \<noteq> []"
proof (induction n arbitrary: w)
  case (Suc n)
  from Suc.prems(1) obtain x d w0 where once: "claimOnce owner lease w = (Inr (x, d), w0)"
    and rest: "(if ItemID x \<noteq> [] then return_io x else claim_turns n owner lease) w0 = (Inr it, w1)"
    by (auto simp: bind_io_Inr map_failure_Inr)
  show ?case
  proof (cases "ItemID x = []")
    case True
    have "reachable env (w0, os, taken (Inr (x, d)) @ ws)"
      using Step [OF Suc.prems(2) Claim [OF once]] .
    with True rest Suc.IH [of w0] show ?thesis by (simp add: taken_def)
  next
    case False
    with rest have "x = it" "w0 = w1" by (simp_all add: return_io_def)
    with once Suc.prems(2) False show ?thesis by blast
  qed
qed (simp add: fail_io_def)

lemma updateSearch_run: "\<exists>j t. updateSearch job it w = (Inr j, w\<lparr>ticks := t\<rparr>)"
  by (simp add: updateSearch_def Let_def bind_io_def now_def return_io_def) blast

lemma CompleteSearchItem_calm:
  assumes w: "calm w" "\<not> tx_open w" and row: "row_of Items (ItemID it) (wdb w) = Some k"
    "\<not> KeptDamaged k" "ItemLeaseOwner (KeptItem k) = ItemLeaseOwner it" "ItemStatus (KeptItem k) = ItemRunning"
    and s: "row_of Searches (ItemSearchID it) (wdb w) = Some s" "clock w (ticks w) \<le> KeptExpiresAt s"
  shows "\<exists>w'. CompleteSearchItem it offers w = (Inr (), w')"
proof -
  let ?w1 = "(begin_tx w)\<lparr>calls := Suc (calls w)\<rparr>"
  let ?w2 = "?w1\<lparr>calls := Suc (Suc (calls w)), ticks := Suc (ticks w)\<rparr>"
  have get: "Get Items (ItemID it) (begin_tx w) = (Inr k, ?w1)" using w row(1) by (simp add: calm_Get)
  have search: "readSearch (ItemSearchID it) ?w1 = (Inr s, ?w2)"
    using readSearch_calm [of ?w1 "ItemSearchID it" s] w s by simp
  let ?it = "it\<lparr>ItemSequence := JobProcessed (KeptJob s) + 1, ItemLeaseOwner := [], ItemLeaseUntil := None\<rparr>"
  have upd: "\<exists>j t. updateSearch (KeptJob s) ?it v = (Inr j, v\<lparr>ticks := t\<rparr>)" for v
    by (rule updateSearch_run)
  obtain j t where u: "updateSearch (KeptJob s) ?it v = (Inr (j v), v\<lparr>ticks := t v\<rparr>)" for v
    using upd by metis
  show ?thesis using w
    by (simp add: CompleteSearchItem_def map_failure_def Transact_def bind_io_def get search row(2-4) Let_def calm_Save
        u calm_call)
qed

text \<open>A claimed item is held: its row carries the lease and its search is there.\<close>

lemma claimed_is_held:
  assumes ok: "system_ok (w, os, ws)" and run: "claimOnce owner lease w = (Inr (it, d), w1)"
    and id: "ItemID it \<noteq> []"
  shows "\<exists>k s. row_of Items (ItemID it) (wdb w1) = Some k \<and> \<not> KeptDamaged k
    \<and> ItemLeaseOwner (KeptItem k) = ItemLeaseOwner it \<and> ItemStatus (KeptItem k) = ItemRunning
    \<and> row_of Searches (ItemSearchID it) (wdb w1) = Some s"
  using run
proof (cases rule: claimOnce_Inr)
  case (claimed cand stored n)
  have "JobID (KeptJob stored) = ItemSearchID it"
    using queue_ok_search [OF system_ok_parts(1) [OF ok] claimed(7)] claimed(9)
    by (simp add: search_ok_def Let_def)
  with claimed show ?thesis by (simp add: coll_simps)
next
  case (discarded cand)
  with id show ?thesis by (simp add: zero_item_def)
qed

lemma work_item_Inr:
  "work_item env wk it w = (Inr (fin, items), w') \<Longrightarrow>
   \<exists>faults err. fin = applyItemResult (it\<lparr>ItemFaults := faults\<rparr>) items err"
  by (auto simp: work_item_def bind_io_Inr return_io_run split: prod.splits)

lemma worker_turn_core:
  assumes reach: "reachable env (w, os, ws)"
    and repo: "WorkerRepository wk = store_repository env ttl"
    and claim: "ClaimSearchItem (WorkerOwner wk) (WorkerLease wk) w = (Inr it, w1)"
    and work: "work_item senv wk it w1 = (Inr (fin, items), w2)"
    and alone: "follows w1 w2" "db_items (wdb w2) = db_items (wdb w1)" "db_searches (wdb w2) = db_searches (wdb w1)"
    and alive: "calm w2"
      "\<forall>s. row_of Searches (ItemSearchID it) (wdb w2) = Some s \<longrightarrow> clock w2 (ticks w2) \<le> KeptExpiresAt s"
  shows "\<exists>w3 k s s'. processNext senv wk w = (Inr (), w3)
    \<and> row_of Items (ItemID it) (wdb w3) = Some k \<and> ItemStatus (KeptItem k) = ItemStatus fin
    \<and> ItemStatus fin \<in> {ItemFound, ItemNotFound, ItemSourceError}
    \<and> (\<exists>e. row_of ItemOfferEntries (ItemID it) (wdb w3) = Some e \<and> EntryOffers e = items)
    \<and> row_of Searches (ItemSearchID it) (wdb w1) = Some s
    \<and> row_of Searches (ItemSearchID it) (wdb w3) = Some s'
    \<and> JobProcessed (KeptJob s') = JobProcessed (KeptJob s) + 1"
proof -
  obtain w0 d where reach0: "reachable env (w0, os, ws)" and id: "ItemID it \<noteq> []"
    and once: "claimOnce (WorkerOwner wk) (WorkerLease wk) w0 = (Inr (it, d), w1)"
    using claim_turns_reach [OF claim [unfolded ClaimSearchItem_def] reach] by blast
  have "queue_step env (w0, os, ws) (w1, os, taken (Inr (it, d)) @ ws)" using once by (rule Claim)
  then have "queue_step env (w0, os, ws) (w1, os, it # ws)" using id by (simp add: taken_def)
  then have "reachable env (w1, os, it # ws)" by (rule Step [OF reach0])
  then have "reachable env (w2, os, it # ws)" using Elsewhere [OF alone] by (rule Step)
  then have ok: "system_ok (w2, os, it # ws)" by (rule reachable_ok)
  note P = system_ok_parts [OF ok] and same = rows_unchanged [OF alone(2,3)]
  obtain faults err where fin: "fin = applyItemResult (it\<lparr>ItemFaults := faults\<rparr>) items err"
    using work_item_Inr [OF work] by blast
  have ids: "ItemID fin = ItemID it" "ItemSearchID fin = ItemSearchID it" "ItemLeaseOwner fin = ItemLeaseOwner it"
    by (simp_all add: fin)
  obtain k s where held: "row_of Items (ItemID fin) (wdb w2) = Some k" "\<not> KeptDamaged k"
      "ItemLeaseOwner (KeptItem k) = ItemLeaseOwner fin" "ItemStatus (KeptItem k) = ItemRunning"
      "row_of Searches (ItemSearchID fin) (wdb w2) = Some s"
    using claimed_is_held [OF reachable_ok [OF reach0] once id] by (auto simp: same ids)
  from held(5) alive(2) have "clock w2 (ticks w2) \<le> KeptExpiresAt s" by (simp add: ids)
  from CompleteSearchItem_calm [OF alive(1) P(2) held this]
  obtain w3 where finish: "CompleteSearchItem fin items w2 = (Inr (), w3)" by blast
  have turn: "processNext senv wk w = (Inr (), w3)"
    using claim work finish by (simp add: processNext_def repo store_repository_def bind_io_def)
  have "working_ok (wdb w2) fin" using P(8) [of it] by (simp add: working_ok_def ids)
  from ok this finish show ?thesis
  proof (cases rule: complete_cases)
    case 1
    then show ?thesis by blast
  next
    case (2 stored parent n m)
    have "row_of Searches (ItemSearchID it) (wdb w1) = Some parent" using 2(5) by (simp add: same ids)
    moreover have "ItemStatus fin \<in> {ItemFound, ItemNotFound, ItemSourceError}"
      unfolding fin by (rule applyItemResult_finished)
    ultimately show ?thesis using turn 2(7) [of "ItemID it"] 2(8) [of "ItemSearchID it"] 2(9)
      by (simp add: ids)
  qed
qed

text \<open>A turn that gets through moves its search on: in any reachable state, when the claim
  answered an item and the work on it left the queue alone, came back while the search was
  still kept, and the store answers, then the turn succeeds; the item is finished, with the
  result of the work and the offers it found, and its search counts one processed card
  more.\<close>
theorem worker_turn_counts_one:
  assumes reach: "reachable env (w, os, ws)"
    and repo: "WorkerRepository wk = store_repository env ttl"
    and claim: "ClaimSearchItem (WorkerOwner wk) (WorkerLease wk) w = (Inr it, w1)"
    and work: "work_item senv wk it w1 = (Inr (fin, items), w2)"
    and alone: "follows w1 w2" "db_items (wdb w2) = db_items (wdb w1)" "db_searches (wdb w2) = db_searches (wdb w1)"
    and alive: "calm w2"
      "\<forall>s. row_of Searches (ItemSearchID it) (wdb w2) = Some s \<longrightarrow> clock w2 (ticks w2) \<le> KeptExpiresAt s"
  shows "\<exists>w3 k s s'. processNext senv wk w = (Inr (), w3)
    \<and> row_of Items (ItemID it) (wdb w3) = Some k \<and> ItemStatus (KeptItem k) = ItemStatus fin
    \<and> ItemStatus fin \<in> {ItemFound, ItemNotFound, ItemSourceError}
    \<and> (\<exists>e. row_of ItemOfferEntries (ItemID it) (wdb w3) = Some e \<and> EntryOffers e = items)
    \<and> row_of Searches (ItemSearchID it) (wdb w1) = Some s
    \<and> row_of Searches (ItemSearchID it) (wdb w3) = Some s'
    \<and> JobProcessed (KeptJob s') = JobProcessed (KeptJob s) + 1"
  by (rule worker_turn_core [OF assms])

text \<open>A worker whose game has no source.\<close>

definition idle_service :: offer_service where
  "idle_service = demo_service\<lparr>SvcSources := [], SvcCache := None\<rparr>"

definition demo_worker :: worker where
  "demo_worker = \<lparr>WorkerRepository = store_repository plain_env hour, WorkerOffers = idle_service,
     WorkerStocks = None, WorkerOwner = ''worker'', WorkerLease = minute, WorkerPollInterval = second,
     WorkerStockLimit = 1\<rparr>"

lemma idle_work:
  "work_item env demo_worker it w =
     (Inr (applyItemResult (it\<lparr>ItemFaults := []\<rparr>) [] (Some ErrInvalid), []), w)"
proof -
  have "collectOffers env idle_service g q w = (Inr ([], [], Some ErrInvalid), w)" for g q
    by (simp add: collectOffers_def Let_def idle_service_def demo_service_def loadOfferCache_def
        game_sources_def lookup_list_def run_simps)
  then have "FindCardOffers env idle_service g q w = (Inr ([], [], Some ErrInvalid), w)" for g q
    by (simp add: FindCardOffers_def Let_def return_io_def)
  then show ?thesis
    by (simp add: work_item_def demo_worker_def bind_io_def return_io_def verifyStocks_def)
qed

lemma demo_claim: "\<exists>d. claimOnce ''worker'' minute (snd demo_filled) = (Inr (demo_item, d), snd demo_claimed)"
proof -
  have run: "claimOnce ''worker'' minute (snd demo_filled) = demo_claimed"
    by (simp add: demo_claimed_def stage_claim_def)
  have "\<exists>d. fst demo_claimed = Inr (demo_item, d)"
    using demo_runs by (auto simp: taken_def split: sum.splits prod.splits if_splits)
  then show ?thesis unfolding run by (metis prod.collapse)
qed

lemma demo_calm: "calm (snd demo_claimed)"
proof -
  have tx: "\<not> tx_open (calm_world empty_db)" by simp
  have "follows (calm_world empty_db) (snd demo_opened)"
    unfolding demo_opened_def stage_open_def
    by (rule outsideD [OF outside_openSearch surjective_pairing tx])
  moreover have "follows (snd demo_opened) (snd demo_filled)"
    unfolding demo_filled_def stage_fill_def by (rule soundD [OF sound_createItems surjective_pairing])
  ultimately have f: "follows (calm_world empty_db) (snd demo_filled)" by (rule follows_trans)
  then have "\<not> tx_open (snd demo_filled)" by (simp add: follows_def)
  from f outsideD [OF outside_claimOnce surjective_pairing this]
  have "follows (calm_world empty_db) (snd demo_claimed)"
    unfolding demo_claimed_def stage_claim_def by (rule follows_trans)
  then have "outage (snd demo_claimed) = outage (calm_world empty_db)" by (simp add: follows_def)
  then show ?thesis by (simp add: calm_def calm_world_def)
qed

lemma demo_alive:
  "row_of Searches (ItemSearchID demo_item) (wdb (snd demo_claimed)) = Some s \<Longrightarrow>
   clock (snd demo_claimed) (ticks (snd demo_claimed)) \<le> KeptExpiresAt s"
proof -
  have "let c = stage_claim (stage_fill (stage_open (calm_world empty_db)))
        in case row_of Searches (ItemSearchID (item_of c)) (wdb (snd c)) of None \<Rightarrow> False
           | Some s \<Rightarrow> clock (snd c) (ticks (snd c)) \<le> KeptExpiresAt s"
    by code_simp
  then show "row_of Searches (ItemSearchID demo_item) (wdb (snd demo_claimed)) = Some s \<Longrightarrow>
     clock (snd demo_claimed) (ticks (snd demo_claimed)) \<le> KeptExpiresAt s"
    unfolding Let_def demo_item_def demo_claimed_def demo_filled_def demo_opened_def
    by (simp split: option.splits)
qed

theorem worker_turn_counts_one_witness:
  "\<exists>w3 k. processNext demo_search demo_worker (snd demo_filled) = (Inr (), w3)
     \<and> row_of Items demo_first (wdb w3) = Some k \<and> ItemStatus (KeptItem k) = ItemSourceError"
proof -
  have id: "ItemID demo_item = demo_first" using demo_runs by simp
  obtain d where once: "claimOnce ''worker'' minute (snd demo_filled) = (Inr (demo_item, d), snd demo_claimed)"
    using demo_claim ..
  have "demo_first \<noteq> []" by (simp add: demo_first_def build_id_def)
  with id have claim: "ClaimSearchItem (WorkerOwner demo_worker) (WorkerLease demo_worker) (snd demo_filled)
      = (Inr demo_item, snd demo_claimed)"
    by (simp add: ClaimSearchItem_def demo_worker_def bind_io_def map_failure_def once return_io_def)
  have repo: "WorkerRepository demo_worker = store_repository plain_env hour" by (simp add: demo_worker_def)
  obtain w3 k where "processNext demo_search demo_worker (snd demo_filled) = (Inr (), w3)"
      "row_of Items demo_first (wdb w3) = Some k"
      "ItemStatus (KeptItem k) = ItemStatus (applyItemResult (demo_item\<lparr>ItemFaults := []\<rparr>) [] (Some ErrInvalid))"
    using worker_turn_counts_one [OF reach2 repo claim idle_work follows_refl refl refl demo_calm, of demo_search]
      demo_alive id by auto
  then show ?thesis by (auto simp: applyItemResult_def classifyResult_def)
qed

section \<open>A sweep\<close>

lemma wake_each_run:
  "\<exists>n e w'. wake_each wake woken left w = (Inr (n, e), w') \<and> woken \<le> n \<and> n \<le> woken + left
     \<and> (e = None \<longrightarrow> n = woken + left)"
proof (induction left arbitrary: woken w)
  case (Suc left)
  obtain r w1 where wake: "wake ''sweep'' w = (r, w1)" by fastforce
  show ?case
  proof (cases r)
    case (Inl e)
    then show ?thesis by (simp add: wake run_simps)
  next
    case (Inr u)
    with Suc [of "Suc woken" w1] show ?thesis by (auto simp: wake run_simps)
  qed
qed (simp add: return_io_def)

lemma count_alive_le: "count_alive ks w = (Inr n, w') \<Longrightarrow> n \<le> length (filter (\<lambda>k. \<not> KeptDamaged k) ks)"
proof (induction ks arbitrary: w w' n)
  case (Cons k ks)
  show ?case
  proof (cases "KeptDamaged k")
    case True
    with Cons show ?thesis by simp
  next
    case False
    with Cons.prems obtain gone w1 m w2 where "count_alive ks w1 = (Inr m, w2)"
        "n = (if gone then m else Suc m)"
      by (auto simp: bind_io_Inr return_io_run)
    with Cons.IH [OF this(1)] False show ?thesis by (simp split: if_splits)
  qed
qed (simp add: return_io_def)

lemma length_run_query: "0 < QueryLimit q \<Longrightarrow> int (length (run_query q rows)) \<le> QueryLimit q"
  by (simp add: run_query_def Let_def split: option.split)

lemma CountWaitingItems_le:
  assumes "CountWaitingItems limit w = (Inr n, w')" and "0 < limit"
  shows "int n \<le> limit"
proof -
  from assms(1) obtain t ready w1 w2 where "ListRecords Items (ready_query t limit) w1 = (Inr ready, w2)"
      "count_alive ready w2 = (Inr n, w')"
    by (auto simp: CountWaitingItems_def bind_io_Inr map_failure_Inr now_run)
  then have "n \<le> length ready" and ready: "ready = run_query (ready_query t limit) (map snd (db_items (wdb w1)))"
    using count_alive_le [of ready w2 n w'] le_trans [OF _ length_filter_le] by (auto simp: ListRecords_Inr)
  moreover have "int (length ready) \<le> limit"
    using length_run_query [of "ready_query t limit" "map snd (db_items (wdb w1))"] assms(2)
    by (simp add: ready ready_query_def)
  ultimately show ?thesis by linarith
qed

text \<open>A sweep replaces what it counted: whatever the store and the queue answer, a sweep
  answers a number of wake-ups that never exceeds its cap (one, when none is set); when it
  reports no failure it is the number of waiting items that were counted, and when counting
  failed nobody was woken.\<close>
theorem sweep_is_capped:
  assumes "SweepItems s = CountWaitingItems"
  shows "\<exists>n e w'. SweepQueue s w = (Inr (n, e), w') \<and> int n \<le> max 1 (MaxWakes s)
    \<and> (e = None \<longrightarrow> fst (CountWaitingItems (max 1 (MaxWakes s)) w) = Inr n)
    \<and> (\<forall>f. fst (CountWaitingItems (max 1 (MaxWakes s)) w) = Inl f \<longrightarrow> n = 0 \<and> e = Some f)"
proof -
  have limit: "(if MaxWakes s \<le> 0 then 1 else MaxWakes s) = max 1 (MaxWakes s)" by auto
  obtain r w1 where count: "CountWaitingItems (max 1 (MaxWakes s)) w = (r, w1)" by fastforce
  show ?thesis
  proof (cases r)
    case (Inl f)
    then show ?thesis by (simp add: SweepQueue_def Let_def limit assms count run_simps)
  next
    case (Inr waiting)
    have cap: "int waiting \<le> max 1 (MaxWakes s)" using CountWaitingItems_le count Inr by simp
    obtain n e w' where "wake_each (SweepQueueWaker s) 0 waiting w1 = (Inr (n, e), w')" "n \<le> waiting"
        "e = None \<longrightarrow> n = waiting"
      using wake_each_run [of "SweepQueueWaker s" 0 waiting w1] by auto
    with Inr cap show ?thesis
      by (auto simp: SweepQueue_def Let_def limit assms count run_simps)
  qed
qed

theorem sweep_is_capped_witness:
  "\<exists>n e w'. SweepQueue \<lparr>SweepItems = CountWaitingItems, SweepQueueWaker = (\<lambda>_. return_io ()), MaxWakes = 1\<rparr>
       (snd demo_filled) = (Inr (n, e), w') \<and> int n \<le> 1"
  using sweep_is_capped [of "\<lparr>SweepItems = CountWaitingItems, SweepQueueWaker = (\<lambda>_. return_io ()), MaxWakes = 1\<rparr>"
      "snd demo_filled"] by auto

end
