(* ===== verification/Wire.thy ===== *)
theory Wire
  imports Model
begin

text \<open>
  internal/handler/wire_models.go and model_dto.go: the shapes of requests and answers on the
  wire, and how domain values are rendered into them.

  One record per struct, its fields behind the struct's name; the JSON key of a field is its
  Go tag, which the encoder reads.  A nil slice is the empty list (the handlers take care that
  an answer's list is never nil where the contract promises an array), a nil pointer None.
\<close>

section \<open>The text of a status (internal/model/search.go, cart.go)\<close>

fun job_status_text :: "job_status \<Rightarrow> string" where
  "job_status_text JobQueued = ''queued''"
| "job_status_text JobRunning = ''running''"
| "job_status_text JobCompleted = ''completed''"
| "job_status_text JobCompletedWithErrors = ''completed_with_errors''"
| "job_status_text JobFailed = ''failed''"
| "job_status_text JobCancelled = ''cancelled''"

fun item_status_text :: "item_status \<Rightarrow> string" where
  "item_status_text ItemPending = ''pending''"
| "item_status_text ItemRunning = ''running''"
| "item_status_text ItemFound = ''found''"
| "item_status_text ItemNotFound = ''not_found''"
| "item_status_text ItemSourceError = ''source_error''"

fun order_status_text :: "order_status \<Rightarrow> string" where
  "order_status_text OrderPending = ''pending''"
| "order_status_text OrderConfirmed = ''confirmed''"
| "order_status_text OrderReleased = ''released''"
| "order_status_text OrderLinked = ''linked''"
| "order_status_text OrderReported = ''reported''"

section \<open>Shapes\<close>

record offerDTO =
  OfferDTO_ID :: string
  OfferDTO_CardName :: string
  OfferDTO_Store :: string
  OfferDTO_PriceAmount :: string
  OfferDTO_PriceCurrency :: string
  OfferDTO_URL :: string
  OfferDTO_Image :: string
  OfferDTO_VariantID :: string
  OfferDTO_Language :: string
  OfferDTO_Condition :: string
  OfferDTO_Finish :: string
  OfferDTO_Edition :: string
  OfferDTO_Kind :: string
  OfferDTO_Locations :: "string list"
  OfferDTO_CardKey :: string
  OfferDTO_Source :: string
  OfferDTO_StockStatus :: string
  OfferDTO_StockQuantity :: "int option"
  OfferDTO_Suspicious :: bool
  OfferDTO_SuspiciousReason :: string
  OfferDTO_Metadata :: "(string \<times> string) list"

record stockReadingDTO =
  StockReadingDTO_Status :: string
  StockReadingDTO_Quantity :: "int option"

record shippingAddressDTO =
  ShippingAddressDTO_Country :: string
  ShippingAddressDTO_Region :: string
  ShippingAddressDTO_City :: string
  ShippingAddressDTO_Postcode :: string

record quoteLineDTO =
  QuoteLineDTO_OfferID :: string
  QuoteLineDTO_Quantity :: int
  QuoteLineDTO_UnitPrice :: string

record shippingRateDTO =
  ShippingRateDTO_ID :: string
  ShippingRateDTO_Name :: string
  ShippingRateDTO_Price :: string
  ShippingRateDTO_Selected :: bool

record cartQuoteDTO =
  CartQuoteDTO_Currency :: string
  CartQuoteDTO_Items :: string
  CartQuoteDTO_Shipping :: string
  CartQuoteDTO_Total :: string
  CartQuoteDTO_Lines :: "quoteLineDTO list"
  CartQuoteDTO_ShippingRates :: "shippingRateDTO list"
  CartQuoteDTO_PaymentMethods :: "string list"
  CartQuoteDTO_Notices :: "string list"

record sourceFaultDTO =
  SourceFaultDTO_Source :: string
  SourceFaultDTO_Reason :: string

record jobDTO =
  JobDTO_ID :: string
  JobDTO_Game :: string
  JobDTO_Status :: string
  JobDTO_Total :: int
  JobDTO_Processed :: int
  JobDTO_CurrentCard :: string
  JobDTO_Found :: int
  JobDTO_NotFound :: int
  JobDTO_Errors :: int
  JobDTO_CreatedAt :: time
  JobDTO_StartedAt :: "time option"
  JobDTO_UpdatedAt :: time
  JobDTO_FinishedAt :: "time option"
  JobDTO_IncidentID :: string

record itemDTO =
  ItemDTO_ID :: string
  ItemDTO_SearchID :: string
  ItemDTO_Game :: string
  ItemDTO_Position :: int
  ItemDTO_Sequence :: int
  ItemDTO_OriginalName :: string
  ItemDTO_NormalizedName :: string
  ItemDTO_Quantity :: int
  ItemDTO_Status :: string
  ItemDTO_Attempts :: int
  ItemDTO_Source :: string
  ItemDTO_ErrorCode :: string
  ItemDTO_ErrorMessage :: string
  ItemDTO_Offers :: "offerDTO list"
  ItemDTO_VerifyStock :: bool
  ItemDTO_Match :: string
  ItemDTO_Kind :: string
  ItemDTO_Faults :: "sourceFaultDTO list"

record resultDTO =
  ResultDTO_SearchID :: string
  ResultDTO_Items :: "itemDTO list"
  ResultDTO_Cursor :: int
  ResultDTO_HasMore :: bool

record sourceHealthDTO =
  SourceHealthDTO_Source :: string
  SourceHealthDTO_Platform :: string
  SourceHealthDTO_Enabled :: bool
  SourceHealthDTO_EstimatedResponseMilliseconds :: int
  SourceHealthDTO_LastSuccess :: "time option"
  SourceHealthDTO_LastFailure :: "time option"
  SourceHealthDTO_ConsecutiveFailures :: int
  SourceHealthDTO_LatencyMilliseconds :: int
  SourceHealthDTO_CircuitOpenUntil :: "time option"

record cartRequestDTO =
  CartRequestDTO_OfferID :: string
  CartRequestDTO_Quantity :: int

record checkoutLineDTO =
  CheckoutLineDTO_OfferID :: string
  CheckoutLineDTO_Quantity :: int
  CheckoutLineDTO_URL :: string

record storeCheckoutDTO =
  StoreCheckoutDTO_Store :: string
  StoreCheckoutDTO_Domain :: string
  StoreCheckoutDTO_Mode :: string
  StoreCheckoutDTO_URL :: string
  StoreCheckoutDTO_Lines :: "checkoutLineDTO list"
  StoreCheckoutDTO_Quote :: "cartQuoteDTO option"
  StoreCheckoutDTO_QuoteError :: string

record orderDTO =
  OrderDTO_ID :: string
  OrderDTO_SearchID :: string
  OrderDTO_Store :: string
  OrderDTO_Domain :: string
  OrderDTO_Lines :: "checkoutLineDTO list"
  OrderDTO_Status :: string
  OrderDTO_StoreOrder :: string
  OrderDTO_PaymentURL :: string
  OrderDTO_CreatedAt :: time
  OrderDTO_UpdatedAt :: time

record offerStockDTO =
  OfferStockDTO_ID :: string
  OfferStockDTO_Reading :: stockReadingDTO

record stockRequest =
  StockRequest_Offers :: "string list"

record checkoutRequest =
  CheckoutRequest_Items :: "cartRequestDTO list"
  CheckoutRequest_Shipping :: "shippingAddressDTO option"

record linkRequest =
  LinkRequest_Items :: "cartRequestDTO list"

record reportRequest =
  ReportRequest_StoreOrder :: string

record orderRequest =
  OrderRequest_Items :: "cartRequestDTO list"
  OrderRequest_Shipping :: shippingAddressDTO

record refreshInventoryReply =
  RefreshInventoryReply_StoreID :: string
  RefreshInventoryReply_List :: string
  RefreshInventoryReply_Refreshed :: int

record searchCardBody =
  SearchCardBody_Name :: string
  SearchCardBody_Quantity :: int

record searchOptionsBody =
  SearchOptionsBody_VerifyStock :: bool
  SearchOptionsBody_Match :: string
  SearchOptionsBody_Kind :: string

record createSearchBody =
  CreateSearchBody_Game :: string
  CreateSearchBody_Cards :: "searchCardBody list"
  CreateSearchBody_Options :: searchOptionsBody

record offerQuery =
  OfferQuery_Game :: string
  OfferQuery_Name :: string
  OfferQuery_Match :: string
  OfferQuery_Kind :: string

record wooCommerceOrderWebhook =
  WooCommerceOrderWebhook_ID :: int
  WooCommerceOrderWebhook_Status :: string

section \<open>Rendering\<close>

definition renderOffer :: "offer \<Rightarrow> offerDTO" where
  "renderOffer value =
     \<lparr>OfferDTO_ID = OfferID value, OfferDTO_CardName = OfferCardName value,
      OfferDTO_Store = OfferStore value, OfferDTO_PriceAmount = OfferPriceAmount value,
      OfferDTO_PriceCurrency = OfferPriceCurrency value, OfferDTO_URL = OfferURL value,
      OfferDTO_Image = OfferImage value, OfferDTO_VariantID = OfferVariantID value,
      OfferDTO_Language = OfferLanguage value, OfferDTO_Condition = OfferCondition value,
      OfferDTO_Finish = OfferFinish value, OfferDTO_Edition = OfferEdition value,
      OfferDTO_Kind = OfferKind value, OfferDTO_Locations = OfferLocations value,
      OfferDTO_CardKey = OfferCardKey value, OfferDTO_Source = OfferSource value,
      OfferDTO_StockStatus = OfferStockStatus value,
      OfferDTO_StockQuantity = OfferStockQuantity value,
      OfferDTO_Suspicious = OfferSuspicious value,
      OfferDTO_SuspiciousReason = OfferSuspiciousReason value,
      OfferDTO_Metadata = OfferMetadata value\<rparr>"

definition renderOfferList :: "offer list \<Rightarrow> offerDTO list" where
  "renderOfferList values = map renderOffer values"

definition renderStockReading :: "stock_reading \<Rightarrow> stockReadingDTO" where
  "renderStockReading value =
     \<lparr>StockReadingDTO_Status = ReadingStatus value,
      StockReadingDTO_Quantity = ReadingQuantity value\<rparr>"

definition buildShippingAddress :: "shippingAddressDTO \<Rightarrow> shipping_address" where
  "buildShippingAddress value =
     \<lparr>AddressCountry = ShippingAddressDTO_Country value,
      AddressRegion = ShippingAddressDTO_Region value,
      AddressCity = ShippingAddressDTO_City value,
      AddressPostcode = ShippingAddressDTO_Postcode value\<rparr>"

definition buildShippingAddressPointer :: "shippingAddressDTO option \<Rightarrow> shipping_address option" where
  "buildShippingAddressPointer value = map_option buildShippingAddress value"

definition renderQuoteLine :: "quote_line \<Rightarrow> quoteLineDTO" where
  "renderQuoteLine value =
     \<lparr>QuoteLineDTO_OfferID = QuoteLineOfferID value,
      QuoteLineDTO_Quantity = QuoteLineQuantity value,
      QuoteLineDTO_UnitPrice = QuoteLineUnitPrice value\<rparr>"

definition renderQuoteLineList :: "quote_line list \<Rightarrow> quoteLineDTO list" where
  "renderQuoteLineList values = map renderQuoteLine values"

definition renderShippingRate :: "shipping_rate \<Rightarrow> shippingRateDTO" where
  "renderShippingRate value =
     \<lparr>ShippingRateDTO_ID = RateID value, ShippingRateDTO_Name = RateName value,
      ShippingRateDTO_Price = RatePrice value,
      ShippingRateDTO_Selected = RateSelected value\<rparr>"

definition renderShippingRateList :: "shipping_rate list \<Rightarrow> shippingRateDTO list" where
  "renderShippingRateList values = map renderShippingRate values"

definition renderCartQuote :: "cart_quote \<Rightarrow> cartQuoteDTO" where
  "renderCartQuote value =
     \<lparr>CartQuoteDTO_Currency = QuoteCurrency value, CartQuoteDTO_Items = QuoteItems value,
      CartQuoteDTO_Shipping = QuoteShipping value, CartQuoteDTO_Total = QuoteTotal value,
      CartQuoteDTO_Lines = renderQuoteLineList (QuoteLines value),
      CartQuoteDTO_ShippingRates = renderShippingRateList (QuoteShippingRates value),
      CartQuoteDTO_PaymentMethods = QuotePaymentMethods value,
      CartQuoteDTO_Notices = QuoteNotices value\<rparr>"

definition renderCartQuotePointer :: "cart_quote option \<Rightarrow> cartQuoteDTO option" where
  "renderCartQuotePointer value = map_option renderCartQuote value"

definition renderSourceFault :: "source_fault \<Rightarrow> sourceFaultDTO" where
  "renderSourceFault value =
     \<lparr>SourceFaultDTO_Source = FaultSource value,
      SourceFaultDTO_Reason = FaultReason value\<rparr>"

definition renderSourceFaultList :: "source_fault list \<Rightarrow> sourceFaultDTO list" where
  "renderSourceFaultList values = map renderSourceFault values"

definition renderJob :: "job \<Rightarrow> jobDTO" where
  "renderJob value =
     \<lparr>JobDTO_ID = JobID value, JobDTO_Game = JobGame value,
      JobDTO_Status = job_status_text (JobStatus value), JobDTO_Total = JobTotal value,
      JobDTO_Processed = JobProcessed value, JobDTO_CurrentCard = JobCurrentCard value,
      JobDTO_Found = JobFound value, JobDTO_NotFound = JobNotFound value,
      JobDTO_Errors = JobErrors value, JobDTO_CreatedAt = JobCreatedAt value,
      JobDTO_StartedAt = JobStartedAt value, JobDTO_UpdatedAt = JobUpdatedAt value,
      JobDTO_FinishedAt = JobFinishedAt value,
      JobDTO_IncidentID = JobIncidentID value\<rparr>"

definition renderItem :: "item \<Rightarrow> itemDTO" where
  "renderItem value =
     \<lparr>ItemDTO_ID = ItemID value, ItemDTO_SearchID = ItemSearchID value,
      ItemDTO_Game = ItemGame value, ItemDTO_Position = ItemPosition value,
      ItemDTO_Sequence = ItemSequence value, ItemDTO_OriginalName = ItemOriginalName value,
      ItemDTO_NormalizedName = ItemNormalizedName value,
      ItemDTO_Quantity = ItemQuantity value,
      ItemDTO_Status = item_status_text (ItemStatus value),
      ItemDTO_Attempts = ItemAttempts value, ItemDTO_Source = ItemSource value,
      ItemDTO_ErrorCode = ItemErrorCode value,
      ItemDTO_ErrorMessage = ItemErrorMessage value,
      ItemDTO_Offers = renderOfferList (ItemOffers value),
      ItemDTO_VerifyStock = ItemVerifyStock value, ItemDTO_Match = ItemMatch value,
      ItemDTO_Kind = ItemKind value,
      ItemDTO_Faults = renderSourceFaultList (ItemFaults value)\<rparr>"

definition renderItemList :: "item list \<Rightarrow> itemDTO list" where
  "renderItemList values = map renderItem values"

definition renderResult :: "search_result \<Rightarrow> resultDTO" where
  "renderResult value =
     \<lparr>ResultDTO_SearchID = ResultSearchID value,
      ResultDTO_Items = renderItemList (ResultItems value),
      ResultDTO_Cursor = ResultCursor value,
      ResultDTO_HasMore = ResultHasMore value\<rparr>"

definition renderSourceHealth :: "source_health \<Rightarrow> sourceHealthDTO" where
  "renderSourceHealth value =
     \<lparr>SourceHealthDTO_Source = HealthSource value,
      SourceHealthDTO_Platform = HealthPlatform value,
      SourceHealthDTO_Enabled = HealthEnabled value,
      SourceHealthDTO_EstimatedResponseMilliseconds = HealthEstimatedMs value,
      SourceHealthDTO_LastSuccess = HealthLastSuccess value,
      SourceHealthDTO_LastFailure = HealthLastFailure value,
      SourceHealthDTO_ConsecutiveFailures = HealthFailures value,
      SourceHealthDTO_LatencyMilliseconds = HealthLatencyMs value,
      SourceHealthDTO_CircuitOpenUntil = HealthOpenUntil value\<rparr>"

definition renderSourceHealthList :: "source_health list \<Rightarrow> sourceHealthDTO list" where
  "renderSourceHealthList values = map renderSourceHealth values"

definition buildCartRequest :: "cartRequestDTO \<Rightarrow> cart_request" where
  "buildCartRequest value =
     \<lparr>RequestOfferID = CartRequestDTO_OfferID value,
      RequestQuantity = CartRequestDTO_Quantity value\<rparr>"

definition buildCartRequestList :: "cartRequestDTO list \<Rightarrow> cart_request list" where
  "buildCartRequestList values = map buildCartRequest values"

definition renderCheckoutLine :: "checkout_line \<Rightarrow> checkoutLineDTO" where
  "renderCheckoutLine value =
     \<lparr>CheckoutLineDTO_OfferID = CheckoutOfferID value,
      CheckoutLineDTO_Quantity = CheckoutQuantity value,
      CheckoutLineDTO_URL = CheckoutURL value\<rparr>"

definition renderCheckoutLineList :: "checkout_line list \<Rightarrow> checkoutLineDTO list" where
  "renderCheckoutLineList values = map renderCheckoutLine values"

definition renderStoreCheckout :: "store_checkout \<Rightarrow> storeCheckoutDTO" where
  "renderStoreCheckout value =
     \<lparr>StoreCheckoutDTO_Store = CheckoutStore value,
      StoreCheckoutDTO_Domain = CheckoutDomain value,
      StoreCheckoutDTO_Mode = CheckoutMode value,
      StoreCheckoutDTO_URL = CheckoutLinkURL value,
      StoreCheckoutDTO_Lines = renderCheckoutLineList (CheckoutLines value),
      StoreCheckoutDTO_Quote = map_option renderCartQuote (CheckoutQuote value),
      StoreCheckoutDTO_QuoteError = CheckoutQuoteError value\<rparr>"

definition renderStoreCheckoutList :: "store_checkout list \<Rightarrow> storeCheckoutDTO list" where
  "renderStoreCheckoutList values = map renderStoreCheckout values"

definition renderOrder :: "order \<Rightarrow> orderDTO" where
  "renderOrder value =
     \<lparr>OrderDTO_ID = OrderID value, OrderDTO_SearchID = OrderSearchID value,
      OrderDTO_Store = OrderStore value, OrderDTO_Domain = OrderDomain value,
      OrderDTO_Lines = renderCheckoutLineList (OrderLines value),
      OrderDTO_Status = order_status_text (OrderStatus value),
      OrderDTO_StoreOrder = OrderStoreOrder value,
      OrderDTO_PaymentURL = OrderPaymentURL value,
      OrderDTO_CreatedAt = OrderCreatedAt value,
      OrderDTO_UpdatedAt = OrderUpdatedAt value\<rparr>"

definition renderOfferStock :: "offer_stock \<Rightarrow> offerStockDTO" where
  "renderOfferStock value =
     \<lparr>OfferStockDTO_ID = StockOfferID value,
      OfferStockDTO_Reading = renderStockReading (StockReadingOf value)\<rparr>"

definition renderOfferStockList :: "offer_stock list \<Rightarrow> offerStockDTO list" where
  "renderOfferStockList values = map renderOfferStock values"

end
