(* ===== verification/Payloads.thy ===== *)
theory Payloads
  imports Records Wire
begin

text \<open>
  internal/db/model_record.go and storage.go: the documents of storage.  A domain value is
  rendered into a payload, encoded, and kept in a record beside the fields that queries read;
  reading decodes the payload and builds the value again.

  A status is a datatype here and a string in a payload, so building from a payload answers
  None for a text that is no status of the program.
\<close>

fun read_job_status :: "string \<Rightarrow> job_status option" where
  "read_job_status s =
     find (\<lambda>st. job_status_text st = s)
       [JobQueued, JobRunning, JobCompleted, JobCompletedWithErrors, JobFailed, JobCancelled]"

fun read_item_status :: "string \<Rightarrow> item_status option" where
  "read_item_status s =
     find (\<lambda>st. item_status_text st = s) [ItemPending, ItemRunning, ItemFound, ItemNotFound, ItemSourceError]"

fun read_order_status :: "string \<Rightarrow> order_status option" where
  "read_order_status s =
     find (\<lambda>st. order_status_text st = s)
       [OrderPending, OrderConfirmed, OrderReleased, OrderLinked, OrderReported]"

declare read_job_status.simps [simp del] read_item_status.simps [simp del] read_order_status.simps [simp del]

lemma read_job_status_text [simp]: "read_job_status (job_status_text j) = Some j"
  by (cases j) (simp_all add: read_job_status.simps)

lemma read_item_status_text [simp]: "read_item_status (item_status_text i) = Some i"
  by (cases i) (simp_all add: read_item_status.simps)

lemma read_order_status_text [simp]: "read_order_status (order_status_text o1) = Some o1"
  by (cases o1) (simp_all add: read_order_status.simps)

lemma order_status_text_eq: "order_status_text a = order_status_text b \<longleftrightarrow> a = b"
  by (metis option.inject read_order_status_text)

section \<open>Payloads (internal/db/model_record.go)\<close>

record offerPayload =
  OfferPayload_ID :: string
  OfferPayload_CardName :: string
  OfferPayload_Store :: string
  OfferPayload_PriceAmount :: string
  OfferPayload_PriceCurrency :: string
  OfferPayload_URL :: string
  OfferPayload_Image :: string
  OfferPayload_VariantID :: string
  OfferPayload_Language :: string
  OfferPayload_Condition :: string
  OfferPayload_Finish :: string
  OfferPayload_Edition :: string
  OfferPayload_Kind :: string
  OfferPayload_Locations :: "string list"
  OfferPayload_CardKey :: string
  OfferPayload_Source :: string
  OfferPayload_StockStatus :: string
  OfferPayload_StockQuantity :: "int option"
  OfferPayload_Suspicious :: bool
  OfferPayload_SuspiciousReason :: string
  OfferPayload_Metadata :: "(string \<times> string) list"

record jobPayload =
  JobPayload_ID :: string
  JobPayload_Game :: string
  JobPayload_Status :: string
  JobPayload_Total :: int
  JobPayload_Processed :: int
  JobPayload_CurrentCard :: string
  JobPayload_Found :: int
  JobPayload_NotFound :: int
  JobPayload_Errors :: int
  JobPayload_CreatedAt :: time
  JobPayload_StartedAt :: "time option"
  JobPayload_UpdatedAt :: time
  JobPayload_FinishedAt :: "time option"
  JobPayload_IncidentID :: string

record sourceFaultPayload =
  SourceFaultPayload_Source :: string
  SourceFaultPayload_Reason :: string

record itemPayload =
  ItemPayload_ID :: string
  ItemPayload_SearchID :: string
  ItemPayload_Game :: string
  ItemPayload_Position :: int
  ItemPayload_Sequence :: int
  ItemPayload_OriginalName :: string
  ItemPayload_NormalizedName :: string
  ItemPayload_Quantity :: int
  ItemPayload_Status :: string
  ItemPayload_Attempts :: int
  ItemPayload_Source :: string
  ItemPayload_ErrorCode :: string
  ItemPayload_ErrorMessage :: string
  ItemPayload_Offers :: "offerPayload list"
  ItemPayload_VerifyStock :: bool
  ItemPayload_Match :: string
  ItemPayload_Kind :: string
  ItemPayload_Faults :: "sourceFaultPayload list"

record checkoutLinePayload =
  CheckoutLinePayload_OfferID :: string
  CheckoutLinePayload_Quantity :: int
  CheckoutLinePayload_URL :: string

record orderPayload =
  OrderPayload_ID :: string
  OrderPayload_SearchID :: string
  OrderPayload_Store :: string
  OrderPayload_Domain :: string
  OrderPayload_Lines :: "checkoutLinePayload list"
  OrderPayload_Status :: string
  OrderPayload_StoreOrder :: string
  OrderPayload_PaymentURL :: string
  OrderPayload_CreatedAt :: time
  OrderPayload_UpdatedAt :: time

definition Payload_renderOffer :: "offer \<Rightarrow> offerPayload" where
  "Payload_renderOffer value =
     \<lparr>OfferPayload_ID = OfferID value, OfferPayload_CardName = OfferCardName value,
      OfferPayload_Store = OfferStore value,
      OfferPayload_PriceAmount = OfferPriceAmount value,
      OfferPayload_PriceCurrency = OfferPriceCurrency value,
      OfferPayload_URL = OfferURL value, OfferPayload_Image = OfferImage value,
      OfferPayload_VariantID = OfferVariantID value,
      OfferPayload_Language = OfferLanguage value,
      OfferPayload_Condition = OfferCondition value,
      OfferPayload_Finish = OfferFinish value, OfferPayload_Edition = OfferEdition value,
      OfferPayload_Kind = OfferKind value, OfferPayload_Locations = OfferLocations value,
      OfferPayload_CardKey = OfferCardKey value, OfferPayload_Source = OfferSource value,
      OfferPayload_StockStatus = OfferStockStatus value,
      OfferPayload_StockQuantity = OfferStockQuantity value,
      OfferPayload_Suspicious = OfferSuspicious value,
      OfferPayload_SuspiciousReason = OfferSuspiciousReason value,
      OfferPayload_Metadata = OfferMetadata value\<rparr>"

definition Payload_renderOfferList :: "offer list \<Rightarrow> offerPayload list" where
  "Payload_renderOfferList values = map Payload_renderOffer values"

definition Payload_buildOffer :: "offerPayload \<Rightarrow> offer" where
  "Payload_buildOffer value =
     \<lparr>OfferID = OfferPayload_ID value, OfferCardName = OfferPayload_CardName value,
      OfferStore = OfferPayload_Store value,
      OfferPriceAmount = OfferPayload_PriceAmount value,
      OfferPriceCurrency = OfferPayload_PriceCurrency value,
      OfferURL = OfferPayload_URL value, OfferImage = OfferPayload_Image value,
      OfferVariantID = OfferPayload_VariantID value,
      OfferLanguage = OfferPayload_Language value,
      OfferCondition = OfferPayload_Condition value,
      OfferFinish = OfferPayload_Finish value, OfferEdition = OfferPayload_Edition value,
      OfferKind = OfferPayload_Kind value, OfferLocations = OfferPayload_Locations value,
      OfferCardKey = OfferPayload_CardKey value, OfferSource = OfferPayload_Source value,
      OfferStockStatus = OfferPayload_StockStatus value,
      OfferStockQuantity = OfferPayload_StockQuantity value,
      OfferSuspicious = OfferPayload_Suspicious value,
      OfferSuspiciousReason = OfferPayload_SuspiciousReason value,
      OfferMetadata = OfferPayload_Metadata value\<rparr>"

definition Payload_buildOfferList :: "offerPayload list \<Rightarrow> offer list" where
  "Payload_buildOfferList values = map Payload_buildOffer values"

definition Payload_renderJob :: "job \<Rightarrow> jobPayload" where
  "Payload_renderJob value =
     \<lparr>JobPayload_ID = JobID value, JobPayload_Game = JobGame value,
      JobPayload_Status = job_status_text (JobStatus value),
      JobPayload_Total = JobTotal value, JobPayload_Processed = JobProcessed value,
      JobPayload_CurrentCard = JobCurrentCard value, JobPayload_Found = JobFound value,
      JobPayload_NotFound = JobNotFound value, JobPayload_Errors = JobErrors value,
      JobPayload_CreatedAt = JobCreatedAt value,
      JobPayload_StartedAt = JobStartedAt value,
      JobPayload_UpdatedAt = JobUpdatedAt value,
      JobPayload_FinishedAt = JobFinishedAt value,
      JobPayload_IncidentID = JobIncidentID value\<rparr>"

definition Payload_buildJob :: "jobPayload \<Rightarrow> job option" where
  "Payload_buildJob value = map_option (\<lambda>status.
     \<lparr>JobID = JobPayload_ID value, JobGame = JobPayload_Game value, JobStatus = status,
      JobTotal = JobPayload_Total value, JobProcessed = JobPayload_Processed value,
      JobCurrentCard = JobPayload_CurrentCard value, JobFound = JobPayload_Found value,
      JobNotFound = JobPayload_NotFound value, JobErrors = JobPayload_Errors value,
      JobCreatedAt = JobPayload_CreatedAt value,
      JobStartedAt = JobPayload_StartedAt value,
      JobUpdatedAt = JobPayload_UpdatedAt value,
      JobFinishedAt = JobPayload_FinishedAt value,
      JobIncidentID = JobPayload_IncidentID value\<rparr>)
     (read_job_status (JobPayload_Status value))"

definition Payload_renderSourceFault :: "source_fault \<Rightarrow> sourceFaultPayload" where
  "Payload_renderSourceFault value =
     \<lparr>SourceFaultPayload_Source = FaultSource value,
      SourceFaultPayload_Reason = FaultReason value\<rparr>"

definition Payload_renderSourceFaultList :: "source_fault list \<Rightarrow> sourceFaultPayload list" where
  "Payload_renderSourceFaultList values = map Payload_renderSourceFault values"

definition Payload_buildSourceFault :: "sourceFaultPayload \<Rightarrow> source_fault" where
  "Payload_buildSourceFault value =
     \<lparr>FaultSource = SourceFaultPayload_Source value,
      FaultReason = SourceFaultPayload_Reason value\<rparr>"

definition Payload_buildSourceFaultList :: "sourceFaultPayload list \<Rightarrow> source_fault list" where
  "Payload_buildSourceFaultList values = map Payload_buildSourceFault values"

definition Payload_renderItem :: "item \<Rightarrow> itemPayload" where
  "Payload_renderItem value =
     \<lparr>ItemPayload_ID = ItemID value, ItemPayload_SearchID = ItemSearchID value,
      ItemPayload_Game = ItemGame value, ItemPayload_Position = ItemPosition value,
      ItemPayload_Sequence = ItemSequence value,
      ItemPayload_OriginalName = ItemOriginalName value,
      ItemPayload_NormalizedName = ItemNormalizedName value,
      ItemPayload_Quantity = ItemQuantity value,
      ItemPayload_Status = item_status_text (ItemStatus value),
      ItemPayload_Attempts = ItemAttempts value, ItemPayload_Source = ItemSource value,
      ItemPayload_ErrorCode = ItemErrorCode value,
      ItemPayload_ErrorMessage = ItemErrorMessage value,
      ItemPayload_Offers = Payload_renderOfferList (ItemOffers value),
      ItemPayload_VerifyStock = ItemVerifyStock value,
      ItemPayload_Match = ItemMatch value, ItemPayload_Kind = ItemKind value,
      ItemPayload_Faults = Payload_renderSourceFaultList (ItemFaults value)\<rparr>"

definition Payload_buildItem :: "itemPayload \<Rightarrow> item option" where
  "Payload_buildItem value = map_option (\<lambda>status.
     \<lparr>ItemID = ItemPayload_ID value, ItemSearchID = ItemPayload_SearchID value,
      ItemGame = ItemPayload_Game value, ItemPosition = ItemPayload_Position value,
      ItemSequence = ItemPayload_Sequence value,
      ItemOriginalName = ItemPayload_OriginalName value,
      ItemNormalizedName = ItemPayload_NormalizedName value,
      ItemQuantity = ItemPayload_Quantity value, ItemStatus = status,
      ItemAttempts = ItemPayload_Attempts value, ItemSource = ItemPayload_Source value,
      ItemErrorCode = ItemPayload_ErrorCode value,
      ItemErrorMessage = ItemPayload_ErrorMessage value,
      ItemOffers = Payload_buildOfferList (ItemPayload_Offers value), ItemLeaseOwner = [],
      ItemLeaseUntil = None, ItemVerifyStock = ItemPayload_VerifyStock value,
      ItemMatch = ItemPayload_Match value, ItemKind = ItemPayload_Kind value,
      ItemFaults = Payload_buildSourceFaultList (ItemPayload_Faults value)\<rparr>)
     (read_item_status (ItemPayload_Status value))"

definition checkout_line_payload :: "checkout_line \<Rightarrow> checkoutLinePayload" where
  "checkout_line_payload value =
     \<lparr>CheckoutLinePayload_OfferID = CheckoutOfferID value,
      CheckoutLinePayload_Quantity = CheckoutQuantity value,
      CheckoutLinePayload_URL = CheckoutURL value\<rparr>"

definition Payload_renderCheckoutLines :: "checkout_line list \<Rightarrow> checkoutLinePayload list" where
  "Payload_renderCheckoutLines values = map checkout_line_payload values"

definition checkout_line_built :: "checkoutLinePayload \<Rightarrow> checkout_line" where
  "checkout_line_built value =
     \<lparr>CheckoutOfferID = CheckoutLinePayload_OfferID value,
      CheckoutQuantity = CheckoutLinePayload_Quantity value,
      CheckoutURL = CheckoutLinePayload_URL value\<rparr>"

definition Payload_buildCheckoutLines :: "checkoutLinePayload list \<Rightarrow> checkout_line list" where
  "Payload_buildCheckoutLines values = map checkout_line_built values"

definition Payload_renderOrder :: "order \<Rightarrow> orderPayload" where
  "Payload_renderOrder value =
     \<lparr>OrderPayload_ID = OrderID value, OrderPayload_SearchID = OrderSearchID value,
      OrderPayload_Store = OrderStore value, OrderPayload_Domain = OrderDomain value,
      OrderPayload_Lines = Payload_renderCheckoutLines (OrderLines value),
      OrderPayload_Status = order_status_text (OrderStatus value),
      OrderPayload_StoreOrder = OrderStoreOrder value,
      OrderPayload_PaymentURL = OrderPaymentURL value,
      OrderPayload_CreatedAt = OrderCreatedAt value,
      OrderPayload_UpdatedAt = OrderUpdatedAt value\<rparr>"

definition Payload_buildOrder :: "orderPayload \<Rightarrow> order option" where
  "Payload_buildOrder value = map_option (\<lambda>status.
     \<lparr>OrderID = OrderPayload_ID value, OrderSearchID = OrderPayload_SearchID value,
      OrderStore = OrderPayload_Store value, OrderDomain = OrderPayload_Domain value,
      OrderLines = Payload_buildCheckoutLines (OrderPayload_Lines value),
      OrderStatus = status, OrderStoreOrder = OrderPayload_StoreOrder value,
      OrderPaymentURL = OrderPayload_PaymentURL value,
      OrderCreatedAt = OrderPayload_CreatedAt value,
      OrderUpdatedAt = OrderPayload_UpdatedAt value\<rparr>)
     (read_order_status (OrderPayload_Status value))"

section \<open>Documents (internal/db/storage.go)\<close>

text \<open>\<open>encoding/json\<close> as an argument: \<open>Clean\<close> tells the values it can give back, those whose
  texts are valid UTF-8.\<close>

record ('p, 'b) codec =
  Encode :: "'p \<Rightarrow> 'b"
  Decode :: "'b \<Rightarrow> 'p option"
  Clean :: "'p \<Rightarrow> bool"

definition gives_back :: "('p, 'b) codec \<Rightarrow> bool" where
  "gives_back c \<longleftrightarrow> (\<forall>p. Clean c p \<longrightarrow> Decode c (Encode c p) = Some p)"

record 'b searchRecord =
  SearchRecord_Payload :: 'b
  SearchRecord_ItemIDs :: "string list"
  SearchRecord_ExpiresAt :: time

record 'b itemRecord =
  ItemRecord_Payload :: 'b
  ItemRecord_SearchID :: string
  ItemRecord_Position :: int
  ItemRecord_Sequence :: int
  ItemRecord_LeaseOwner :: string
  ItemRecord_LeaseUntil :: "time option"
  ItemRecord_AvailableAt :: time
  ItemRecord_ExpiresAt :: time

record 'b valueRecord =
  ValueRecord_Payload :: 'b
  ValueRecord_ExpiresAt :: time
  ValueRecord_OfferIndexed :: bool

record requestRecord =
  RequestRecord_Hash :: string
  RequestRecord_ResourceID :: string
  RequestRecord_ExpiresAt :: time

record 'b orderRecord =
  OrderRecord_Payload :: 'b
  OrderRecord_Status :: string
  OrderRecord_Domain :: string
  OrderRecord_StoreOrder :: string
  OrderRecord_UpdatedAt :: time

record sourceRecord =
  SourceRecord_Source :: string
  SourceRecord_LastSuccess :: "time option"
  SourceRecord_LastFailure :: "time option"
  SourceRecord_ConsecutiveFailures :: int
  SourceRecord_LatencyMilliseconds :: int
  SourceRecord_CircuitOpenUntil :: "time option"

text \<open>A document is read into a record or refused by \<open>DataTo\<close>, which is None.\<close>

definition bad_json :: failure where "bad_json = Failure ''json''"
definition bad_document :: failure where "bad_document = Failure ''document''"

definition decoded :: "('p, 'b) codec \<Rightarrow> ('p \<Rightarrow> 'v option) \<Rightarrow> 'b \<Rightarrow> failure + 'v" where
  "decoded c build b =
     (case Decode c b of
        None \<Rightarrow> Inl bad_json
      | Some p \<Rightarrow> (case build p of None \<Rightarrow> Inl bad_json | Some v \<Rightarrow> Inr v))"

definition packSearch :: "(jobPayload, 'b) codec \<Rightarrow> kept_search \<Rightarrow> 'b searchRecord" where
  "packSearch c search =
     \<lparr>SearchRecord_Payload = Encode c (Payload_renderJob (KeptJob search)),
      SearchRecord_ItemIDs = KeptItemIDs search, SearchRecord_ExpiresAt = KeptExpiresAt search\<rparr>"

definition unpackSearch :: "(jobPayload, 'b) codec \<Rightarrow> 'b searchRecord option \<Rightarrow> failure + kept_search" where
  "unpackSearch c document =
     (case document of
        None \<Rightarrow> Inl ErrMissing
      | Some r \<Rightarrow> map_sum id (\<lambda>job. \<lparr>KeptJob = job, KeptItemIDs = SearchRecord_ItemIDs r,
            KeptExpiresAt = SearchRecord_ExpiresAt r\<rparr>)
          (decoded c Payload_buildJob (SearchRecord_Payload r)))"

definition packItem :: "(itemPayload, 'b) codec \<Rightarrow> kept_item \<Rightarrow> 'b itemRecord" where
  "packItem c stored =
     (let it = KeptItem stored in
      \<lparr>ItemRecord_Payload = Encode c (Payload_renderItem it), ItemRecord_SearchID = ItemSearchID it,
       ItemRecord_Position = ItemPosition it, ItemRecord_Sequence = ItemSequence it,
       ItemRecord_LeaseOwner = ItemLeaseOwner it, ItemRecord_LeaseUntil = ItemLeaseUntil it,
       ItemRecord_AvailableAt = KeptAvailableAt stored, ItemRecord_ExpiresAt = KeptItemExpiresAt stored\<rparr>)"

text \<open>What is left of an item that cannot be read: Go's zero values, with the document's id.\<close>

definition unread_item :: "string \<Rightarrow> item" where
  "unread_item i = \<lparr>ItemID = i, ItemSearchID = [], ItemGame = [], ItemPosition = 0,
     ItemSequence = 0, ItemOriginalName = [], ItemNormalizedName = [], ItemQuantity = 0,
     ItemStatus = ItemPending, ItemAttempts = 0, ItemSource = [], ItemErrorCode = [],
     ItemErrorMessage = [], ItemOffers = [], ItemLeaseOwner = [], ItemLeaseUntil = None,
     ItemVerifyStock = False, ItemMatch = [], ItemKind = [], ItemFaults = []\<rparr>"

definition unpackItem :: "(itemPayload, 'b) codec \<Rightarrow> string \<Rightarrow> 'b itemRecord option \<Rightarrow> kept_item" where
  "unpackItem c i document =
     (case document of
        None \<Rightarrow> \<lparr>KeptItem = unread_item i, KeptAvailableAt = 0, KeptItemExpiresAt = 0, KeptDamaged = True\<rparr>
      | Some r \<Rightarrow>
          (let (it, damaged) = (case decoded c Payload_buildItem (ItemRecord_Payload r) of
                                  Inl _ \<Rightarrow> (unread_item i, True) | Inr it \<Rightarrow> (it, False))
           in \<lparr>KeptItem = it\<lparr>ItemID := i, ItemLeaseOwner := ItemRecord_LeaseOwner r,
                               ItemLeaseUntil := ItemRecord_LeaseUntil r\<rparr>,
               KeptAvailableAt = ItemRecord_AvailableAt r, KeptItemExpiresAt = ItemRecord_ExpiresAt r,
               KeptDamaged = damaged\<rparr>))"

definition packEntry :: "(offerPayload list, 'b) codec \<Rightarrow> entry \<Rightarrow> 'b valueRecord" where
  "packEntry c e =
     \<lparr>ValueRecord_Payload = Encode c (Payload_renderOfferList (EntryOffers e)),
      ValueRecord_ExpiresAt = EntryExpiresAt e, ValueRecord_OfferIndexed = EntryIndexed e\<rparr>"

definition unpackEntry :: "(offerPayload list, 'b) codec \<Rightarrow> 'b valueRecord option \<Rightarrow> failure + entry" where
  "unpackEntry c document =
     (case document of
        None \<Rightarrow> Inl bad_document
      | Some r \<Rightarrow> map_sum id (\<lambda>offers. \<lparr>EntryOffers = offers, EntryExpiresAt = ValueRecord_ExpiresAt r,
            EntryIndexed = ValueRecord_OfferIndexed r\<rparr>)
          (decoded c (Some \<circ> Payload_buildOfferList) (ValueRecord_Payload r)))"

definition packSnapshot :: "(offerPayload, 'b) codec \<Rightarrow> snapshot \<Rightarrow> 'b valueRecord" where
  "packSnapshot c s =
     \<lparr>ValueRecord_Payload = Encode c (Payload_renderOffer (SnapshotOffer s)),
      ValueRecord_ExpiresAt = SnapshotExpiresAt s, ValueRecord_OfferIndexed = False\<rparr>"

definition unpackSnapshot :: "(offerPayload, 'b) codec \<Rightarrow> 'b valueRecord option \<Rightarrow> failure + snapshot" where
  "unpackSnapshot c document =
     (case document of
        None \<Rightarrow> Inl bad_document
      | Some r \<Rightarrow> map_sum id (\<lambda>it. \<lparr>SnapshotOffer = it, SnapshotExpiresAt = ValueRecord_ExpiresAt r\<rparr>)
          (decoded c (Some \<circ> Payload_buildOffer) (ValueRecord_Payload r)))"

definition packRequest :: "request \<Rightarrow> requestRecord" where
  "packRequest r =
     \<lparr>RequestRecord_Hash = RequestHash r, RequestRecord_ResourceID = RequestResourceID r,
      RequestRecord_ExpiresAt = RequestExpiresAt r\<rparr>"

definition unpackRequest :: "requestRecord option \<Rightarrow> failure + request" where
  "unpackRequest document =
     (case document of
        None \<Rightarrow> Inl bad_document
      | Some r \<Rightarrow> Inr \<lparr>RequestHash = RequestRecord_Hash r, RequestResourceID = RequestRecord_ResourceID r,
            RequestExpiresAt = RequestRecord_ExpiresAt r\<rparr>)"

definition packOrder :: "(orderPayload, 'b) codec \<Rightarrow> order \<Rightarrow> 'b orderRecord" where
  "packOrder c o1 =
     \<lparr>OrderRecord_Payload = Encode c (Payload_renderOrder o1),
      OrderRecord_Status = order_status_text (OrderStatus o1), OrderRecord_Domain = OrderDomain o1,
      OrderRecord_StoreOrder = OrderStoreOrder o1, OrderRecord_UpdatedAt = OrderUpdatedAt o1\<rparr>"

definition decodeOrder :: "(orderPayload, 'b) codec \<Rightarrow> 'b orderRecord option \<Rightarrow> failure + order" where
  "decodeOrder c document =
     (case document of
        None \<Rightarrow> Inl bad_document
      | Some r \<Rightarrow> decoded c Payload_buildOrder (OrderRecord_Payload r))"

definition packSourceHealth :: "source_health \<Rightarrow> sourceRecord" where
  "packSourceHealth health =
     \<lparr>SourceRecord_Source = HealthSource health, SourceRecord_LastSuccess = HealthLastSuccess health,
      SourceRecord_LastFailure = HealthLastFailure health,
      SourceRecord_ConsecutiveFailures = HealthFailures health,
      SourceRecord_LatencyMilliseconds = HealthLatencyMs health,
      SourceRecord_CircuitOpenUntil = HealthOpenUntil health\<rparr>"

definition decodeSourceHealth :: "sourceRecord option \<Rightarrow> failure + source_health" where
  "decodeSourceHealth document =
     (case document of
        None \<Rightarrow> Inl bad_document
      | Some r \<Rightarrow> Inr \<lparr>HealthSource = SourceRecord_Source r, HealthPlatform = [], HealthEnabled = False,
            HealthEstimatedMs = 0, HealthLastSuccess = SourceRecord_LastSuccess r,
            HealthLastFailure = SourceRecord_LastFailure r,
            HealthFailures = SourceRecord_ConsecutiveFailures r,
            HealthLatencyMs = SourceRecord_LatencyMilliseconds r,
            HealthOpenUntil = SourceRecord_CircuitOpenUntil r\<rparr>)"

text \<open>A pacing lease is kept as the one field of its document.\<close>

definition packLease :: "lease \<Rightarrow> (string \<times> time) list" where
  "packLease l = [(''next_allowed_at'', NextAllowedAt l)]"

definition unpackLease :: "(string \<times> time) list \<Rightarrow> failure + lease" where
  "unpackLease document =
     (case map_of document ''next_allowed_at'' of
        None \<Rightarrow> Inl bad_document | Some n \<Rightarrow> Inr \<lparr>NextAllowedAt = n\<rparr>)"

section \<open>What is written is read back\<close>

lemma offer_built [simp]: "Payload_buildOffer (Payload_renderOffer it) = it"
  by (simp add: Payload_buildOffer_def Payload_renderOffer_def)

lemma offers_built [simp]: "Payload_buildOfferList (Payload_renderOfferList its) = its"
  by (simp add: Payload_buildOfferList_def Payload_renderOfferList_def o_def)

lemma fault_built [simp]: "Payload_buildSourceFault (Payload_renderSourceFault f) = f"
  by (simp add: Payload_buildSourceFault_def Payload_renderSourceFault_def)

lemma faults_built [simp]: "Payload_buildSourceFaultList (Payload_renderSourceFaultList fs) = fs"
  by (simp add: Payload_buildSourceFaultList_def Payload_renderSourceFaultList_def o_def)

lemma line_built [simp]: "checkout_line_built (checkout_line_payload l) = l"
  by (simp add: checkout_line_built_def checkout_line_payload_def)

lemma lines_built [simp]: "Payload_buildCheckoutLines (Payload_renderCheckoutLines ls) = ls"
  by (simp add: Payload_buildCheckoutLines_def Payload_renderCheckoutLines_def o_def)

lemma job_built [simp]: "Payload_buildJob (Payload_renderJob j) = Some j"
  by (simp add: Payload_buildJob_def Payload_renderJob_def)

lemma item_built [simp]:
  "Payload_buildItem (Payload_renderItem it) = Some (it\<lparr>ItemLeaseOwner := [], ItemLeaseUntil := None\<rparr>)"
  by (simp add: Payload_buildItem_def Payload_renderItem_def)

lemma order_built [simp]: "Payload_buildOrder (Payload_renderOrder o1) = Some o1"
  by (simp add: Payload_buildOrder_def Payload_renderOrder_def)

lemma decoded_back [simp]:
  "gives_back c \<Longrightarrow> Clean c p \<Longrightarrow>
   decoded c build (Encode c p) = (case build p of None \<Rightarrow> Inl bad_json | Some v \<Rightarrow> Inr v)"
  by (simp add: decoded_def gives_back_def)


text \<open>A codec that gives everything back.\<close>

definition plain_codec :: "('p, 'p) codec" where
  "plain_codec = \<lparr>Encode = (\<lambda>p. p), Decode = Some, Clean = (\<lambda>_. True)\<rparr>"

definition kept_sample :: kept_search where
  "kept_sample = \<lparr>KeptJob = \<lparr>JobID = ''s'', JobGame = GameMagic, JobStatus = JobRunning, JobTotal = 2,
     JobProcessed = 1, JobCurrentCard = ''Opt'', JobFound = 1, JobNotFound = 0, JobErrors = 0, JobCreatedAt = 1,
     JobStartedAt = Some 2, JobUpdatedAt = 3, JobFinishedAt = None, JobIncidentID = []\<rparr>,
     KeptItemIDs = [''i'', ''j''], KeptExpiresAt = 9\<rparr>"

definition item_sample :: kept_item where
  "item_sample = \<lparr>KeptItem = (unread_item ''i'')\<lparr>ItemStatus := ItemRunning, ItemLeaseOwner := ''w''\<rparr>,
     KeptAvailableAt = 7, KeptItemExpiresAt = 9, KeptDamaged = False\<rparr>"

definition order_sample :: order where
  "order_sample = \<lparr>OrderID = ''o'', OrderSearchID = ''s'', OrderStore = ''Shop'', OrderDomain = ''shop.cl'',
     OrderLines = [], OrderStatus = OrderLinked, OrderStoreOrder = [], OrderPaymentURL = [],
     OrderCreatedAt = 1, OrderUpdatedAt = 1\<rparr>"


end
