(* ===== verification/Directory.thy ===== *)
theory Directory
  imports Complex_Main Model GoText "HOL-Library.List_Lexorder" "HOL-Library.Char_ord"
begin

text \<open>
  internal/stores/directory: the configuration of games, search providers and stores, what
  makes it valid, and the two views a caller reads of it, the games that can be asked for and
  the stores that can be named.

  A Go map is a list of its entries in the order the range loop happens to take; no key comes
  twice, and a statement that needs it says so.  The YAML decoder, net/url and the %q verb are
  arguments.
\<close>

section \<open>The configuration (internal/stores/directory/config.go)\<close>

record language_config =
  LanguageLabel :: string
  LanguageExample :: string

record game_languages =
  LanguagesProvider :: string
  LanguagesSupported :: "string list"

definition Declared :: "game_languages \<Rightarrow> bool" where
  "Declared g \<longleftrightarrow> LanguagesProvider g \<noteq> [] \<or> 0 < length (LanguagesSupported g)"

record game_config =
  GameName :: string
  GameReferenceKey :: string
  GameEnabled :: bool
  GameOrigins :: "string list"
  GameLanguages :: game_languages

record search_provider_config =
  ProviderType :: string
  ProviderURL :: string
  ProviderEnabled :: bool
  ProviderGames :: "string list"
  ProviderStores :: "string list"
  ProviderCommunity :: bool
  ProviderSealed :: "bool option"
  ProviderSingles :: "bool option"

text \<open>\<open>flag == nil || *flag\<close>: an absent flag means yes.\<close>

definition absent_means_yes :: "bool option \<Rightarrow> bool" where
  "absent_means_yes flag = (case flag of None \<Rightarrow> True | Some b \<Rightarrow> b)"

definition ServesSingles :: "search_provider_config \<Rightarrow> bool" where
  "ServesSingles c = absent_means_yes (ProviderSingles c)"

definition ServesSealed :: "search_provider_config \<Rightarrow> bool" where
  "ServesSealed c = absent_means_yes (ProviderSealed c)"

text \<open>A float64: YAML writes the three that are no number as .nan, .inf and -.inf; no comparison
  holds of the first.\<close>

datatype float64 = NaN | MinusInf | PlusInf | Finite rat

fun float_less :: "float64 \<Rightarrow> float64 \<Rightarrow> bool" where
  "float_less NaN y = False"
| "float_less x NaN = False"
| "float_less MinusInf y = (y \<noteq> MinusInf)"
| "float_less x MinusInf = False"
| "float_less PlusInf y = False"
| "float_less x PlusInf = True"
| "float_less (Finite a) (Finite b) = (a < b)"

record store_location =
  LocCountry :: string
  LocRegion :: string
  LocCity :: string
  LocDistrict :: string
  LocPickup :: string
  LocStreet :: string
  LocLatitude :: "float64 option"
  LocLongitude :: "float64 option"

record moxfield_list =
  ListLabel :: string
  ListURL :: string
  ListRate :: int

record store_config =
  StoreGames :: "string list"
  StorePlatform :: string
  StoreLocations :: "store_location list"
  StoreUnavailableSelectors :: "string list"
  StoreUnavailableText :: "string list"
  StoreScopeSelector :: string
  StoreTimeoutSeconds :: int
  StoreEstimatedResponseSeconds :: int
  StoreAllowRedirects :: bool
  StoreEnabled :: bool
  StoreName :: string
  StoreLists :: "moxfield_list list"
  StoreSearched :: "bool option"
  StoreSingles :: "bool option"
  StoreSealed :: "bool option"

definition IsSearched :: "store_config \<Rightarrow> bool" where
  "IsSearched c = absent_means_yes (StoreSearched c)"

definition SellsSingles :: "store_config \<Rightarrow> bool" where
  "SellsSingles c = absent_means_yes (StoreSingles c)"

definition SellsSealed :: "store_config \<Rightarrow> bool" where
  "SellsSealed c = absent_means_yes (StoreSealed c)"

record config =
  ConfigLanguages :: "(string \<times> language_config) list"
  ConfigGames :: "(string \<times> game_config) list"
  ConfigProviders :: "(string \<times> search_provider_config) list"
  ConfigStores :: "(string \<times> store_config) list"

abbreviation known :: "(string \<times> 'a) list \<Rightarrow> string \<Rightarrow> bool" where
  "known m k \<equiv> map_of m k \<noteq> None"

section \<open>Validation (internal/stores/directory/validate.go)\<close>

record parsed_url =
  UrlScheme :: string
  UrlHost :: string
  UrlHasUser :: bool
  UrlPath :: string

record config_env =
  EnvQuote :: "string \<Rightarrow> string"
  EnvParse :: "string \<Rightarrow> parsed_url option"
  EnvParseRequestURI :: "string \<Rightarrow> parsed_url option"

text \<open>The checks of a range loop: the first entry that fails ends it.\<close>

fun check_each :: "('a \<Rightarrow> failure option) \<Rightarrow> 'a list \<Rightarrow> failure option" where
  "check_each f [] = None"
| "check_each f (x # xs) = (case f x of Some e \<Rightarrow> Some e | None \<Rightarrow> check_each f xs)"

definition refuse_unless :: "bool \<Rightarrow> string \<Rightarrow> failure option" where
  "refuse_unless ok message = (if ok then None else Some (Failure message))"

definition and_then :: "failure option \<Rightarrow> failure option \<Rightarrow> failure option" where
  "and_then a b = (case a of Some e \<Rightarrow> Some e | None \<Rightarrow> b)"

lemma check_each_None [simp]: "check_each f xs = None \<longleftrightarrow> (\<forall>x \<in> set xs. f x = None)"
  by (induction xs) (auto split: option.splits)

lemma refuse_unless_None [simp]: "refuse_unless ok m = None \<longleftrightarrow> ok"
  by (simp add: refuse_unless_def)

lemma and_then_None [simp]: "and_then a b = None \<longleftrightarrow> a = None \<and> b = None"
  by (simp add: and_then_def split: option.split)

definition misplaced :: "store_location \<Rightarrow> bool" where
  "misplaced l \<longleftrightarrow>
     (case (LocLatitude l, LocLongitude l) of
        (Some lat, Some long) \<Rightarrow> float_less lat (Finite (- 90)) \<or> float_less (Finite 90) lat
          \<or> float_less long (Finite (- 180)) \<or> float_less (Finite 180) long
      | _ \<Rightarrow> False)"

definition validateLocations :: "store_location list \<Rightarrow> failure option" where
  "validateLocations locations =
     check_each (\<lambda>l. refuse_unless
       (\<not> (LocCity l = [] \<or> LocDistrict l \<noteq> [] \<and> LocPickup l \<noteq> [])
        \<and> (LocLatitude l = None) = (LocLongitude l = None)
        \<and> \<not> misplaced l) ''invalid store location'') locations"

definition validateGames :: "(string \<times> game_config) list \<Rightarrow> failure option" where
  "validateGames games =
     and_then (refuse_unless (games \<noteq> []) ''invalid game configuration'')
       (check_each (\<lambda>(game, c). refuse_unless
          (\<not> (game = [] \<or> GameName c = [] \<or> GameReferenceKey c \<noteq> game \<or> GameOrigins c = [])
           \<and> [] \<notin> set (GameOrigins c)) ''invalid game configuration'') games)"

definition unknown_name :: "config_env \<Rightarrow> string \<Rightarrow> string \<Rightarrow> string \<Rightarrow> string \<Rightarrow> string" where
  "unknown_name env what named owner_kind owner =
     ''unknown '' @ what @ '' '' @ EnvQuote env named @ '' for '' @ owner_kind @ '' '' @ EnvQuote env owner"

definition provider_ok :: "config_env \<Rightarrow> string \<Rightarrow> search_provider_config \<Rightarrow> bool" where
  "provider_ok env name p \<longleftrightarrow> name \<noteq> []
     \<and> (ProviderType p = ''scrycl'' \<or> ProviderType p = ''tcgmatch'' \<or> ProviderType p = ''tcgdex'')
     \<and> (case EnvParseRequestURI env (ProviderURL p) of None \<Rightarrow> False
        | Some u \<Rightarrow> UrlScheme u = ''https'' \<and> UrlHost u \<noteq> [])
     \<and> ProviderGames p \<noteq> []"

definition validateSearchProviders ::
  "config_env \<Rightarrow> (string \<times> search_provider_config) list \<Rightarrow> (string \<times> game_config) list \<Rightarrow>
   (string \<times> store_config) list \<Rightarrow> failure option" where
  "validateSearchProviders env providers games stores =
     and_then (refuse_unless (providers \<noteq> []) ''invalid search provider configuration'')
       (check_each (\<lambda>(name, p).
          and_then (refuse_unless (provider_ok env name p) ''invalid search provider configuration'')
          (and_then (check_each (\<lambda>g. refuse_unless (known games g) (unknown_name env ''game'' g ''search provider'' name))
             (ProviderGames p))
           (check_each (\<lambda>s. refuse_unless (known stores s) (unknown_name env ''store'' s ''search provider'' name))
             (ProviderStores p)))) providers)"

definition validateChecker :: "store_config \<Rightarrow> failure option" where
  "validateChecker store =
     (if StorePlatform store = [] then None
      else refuse_unless
        (StorePlatform store \<in> set [''jumpseller'', ''shopify'', ''woocommerce'', ''prestashop'', ''html'']
         \<and> 1 \<le> StoreTimeoutSeconds store \<and> 0 \<le> StoreEstimatedResponseSeconds store)
        ''invalid store configuration'')"

text \<open>internal/stores/moxfield/client.go: \<open>^[A-Za-z0-9_-]+$\<close>, the parts of a path, and the id of
  the list an address names.\<close>

definition deck_rune :: "char \<Rightarrow> bool" where
  "deck_rune c \<longleftrightarrow> c \<in> set ''ABCDEFGHIJKLMNOPQRSTUVWXYZabcdefghijklmnopqrstuvwxyz0123456789_-''"

definition deckIDPattern :: "string \<Rightarrow> bool" where
  "deckIDPattern s \<longleftrightarrow> s \<noteq> [] \<and> list_all deck_rune s"

fun split_char :: "char \<Rightarrow> string \<Rightarrow> string list" where
  "split_char c [] = [[]]"
| "split_char c (x # xs) =
     (if x = c then [] # split_char c xs
      else case split_char c xs of [] \<Rightarrow> [[x]] | p # ps \<Rightarrow> (x # p) # ps)"

definition trim_char :: "char \<Rightarrow> string \<Rightarrow> string" where
  "trim_char c s = rev (dropWhile (\<lambda>x. x = c) (rev (dropWhile (\<lambda>x. x = c) s)))"

definition ExtractListID :: "config_env \<Rightarrow> string \<Rightarrow> failure + string" where
  "ExtractListID env value =
     (let refused = Inl (Failure (''invalid Moxfield list URL '' @ EnvQuote env value)) in
      case EnvParse env value of
        None \<Rightarrow> refused
      | Some link \<Rightarrow>
          if UrlScheme link \<noteq> ''https'' \<or> (UrlHost link \<noteq> ''moxfield.com'' \<and> UrlHost link \<noteq> ''www.moxfield.com'')
             \<or> UrlHasUser link then refused
          else (case split_char CHR ''/'' (trim_char CHR ''/'' (UrlPath link)) of
                  [a, b] \<Rightarrow> if a \<noteq> ''decks'' \<or> \<not> deckIDPattern b then refused else Inr b
                | _ \<Rightarrow> refused))"

definition validateLists :: "config_env \<Rightarrow> moxfield_list list \<Rightarrow> failure option" where
  "validateLists env entries =
     check_each (\<lambda>l.
       and_then (case ExtractListID env (ListURL l) of Inl e \<Rightarrow> Some e | Inr _ \<Rightarrow> None)
         (refuse_unless (\<not> (ListLabel l = [] \<or> ListURL l = [] \<or> ListRate l < 1)) ''invalid store configuration''))
       entries"

definition LanguageProviders :: "string list" where "LanguageProviders = [''scryfall'']"

definition validateLanguages ::
  "config_env \<Rightarrow> (string \<times> language_config) list \<Rightarrow> (string \<times> game_config) list \<Rightarrow> failure option" where
  "validateLanguages env catalog games =
     and_then (check_each (\<lambda>(code, l). refuse_unless
         (\<not> (code = [] \<or> LanguageLabel l = [] \<or> LanguageExample l = [])) ''invalid language catalog'') catalog)
       (check_each (\<lambda>(game, c).
          let declared = GameLanguages c in
          if \<not> Declared declared then None
          else and_then
            (refuse_unless (LanguagesProvider declared \<in> set LanguageProviders \<and> LanguagesSupported declared \<noteq> [])
               (''invalid languages for game '' @ EnvQuote env game))
            (check_each (\<lambda>code. refuse_unless (known catalog code) (unknown_name env ''language'' code ''game'' game))
               (LanguagesSupported declared))) games)"

definition validateStore :: "config_env \<Rightarrow> (string \<times> game_config) list \<Rightarrow> string \<times> store_config \<Rightarrow> failure option" where
  "validateStore env games entry =
     (case entry of (domain, store) \<Rightarrow>
        and_then (refuse_unless (\<not> (domain = [] \<or> StoreGames store = [])) ''invalid store configuration'')
       (and_then (check_each (\<lambda>g. refuse_unless (known games g) (unknown_name env ''game'' g ''store'' domain))
           (StoreGames store))
       (and_then (validateChecker store)
       (and_then (validateLists env (StoreLists store))
                 (validateLocations (StoreLocations store))))))"

definition ValidateConfig :: "config_env \<Rightarrow> config \<Rightarrow> failure option" where
  "ValidateConfig env c =
     and_then (validateGames (ConfigGames c))
    (and_then (validateLanguages env (ConfigLanguages c) (ConfigGames c))
    (and_then (validateSearchProviders env (ConfigProviders c) (ConfigGames c) (ConfigStores c))
              (check_each (validateStore env (ConfigGames c)) (ConfigStores c))))"

text \<open>internal/stores/directory/load.go: \<open>file\<close> is what the read answers, \<open>decode\<close> the YAML decoder.\<close>

definition LoadStoreConfig ::
  "config_env \<Rightarrow> (string \<Rightarrow> failure + config) \<Rightarrow> failure + string \<Rightarrow> failure + config" where
  "LoadStoreConfig env decode file =
     (case file of
        Inl e \<Rightarrow> Inl e
      | Inr data \<Rightarrow> (case decode data of
          Inl e \<Rightarrow> Inl e
        | Inr c \<Rightarrow> (case ValidateConfig env c of Some e \<Rightarrow> Inl e | None \<Rightarrow> Inr c)))"

section \<open>Games that can be asked for (internal/stores/directory/support.go)\<close>

record language =
  LangCode :: string
  LangLabel :: string
  LangExample :: string

record game_support =
  SupportKey :: string
  SupportName :: string
  SupportSingles :: bool
  SupportSealed :: bool
  SupportLanguages :: "language list"

definition Asked :: "game_support \<Rightarrow> bool \<Rightarrow> bool" where
  "Asked g sealed = (if sealed then SupportSealed g else SupportSingles g)"

definition storeAnswers :: "store_config \<Rightarrow> game_config \<Rightarrow> string \<Rightarrow> bool" where
  "storeAnswers store game key =
     (if \<not> StoreEnabled store \<or> \<not> IsSearched store \<or> key \<notin> set (StoreGames store) then False
      else if 0 < length (StoreLists store) \<and> ''moxfield'' \<in> set (GameOrigins game) then True
      else StorePlatform store \<in> set (GameOrigins game))"

text \<open>A code the catalog does not know reads as Go's zero entry.\<close>

definition languagesOf :: "config \<Rightarrow> game_config \<Rightarrow> language list" where
  "languagesOf c game =
     map (\<lambda>code. case map_of (ConfigLanguages c) code of
            None \<Rightarrow> \<lparr>LangCode = code, LangLabel = [], LangExample = []\<rparr>
          | Some entry \<Rightarrow> \<lparr>LangCode = code, LangLabel = LanguageLabel entry, LangExample = LanguageExample entry\<rparr>)
       (LanguagesSupported (GameLanguages game))"

definition provider_serves :: "string \<Rightarrow> search_provider_config \<Rightarrow> bool" where
  "provider_serves key p \<longleftrightarrow> ProviderEnabled p \<and> key \<in> set (ProviderGames p)"

definition support_of :: "config \<Rightarrow> string \<times> game_config \<Rightarrow> game_support" where
  "support_of c entry =
     (case entry of (key, game) \<Rightarrow>
        let providers = filter (provider_serves key) (map snd (ConfigProviders c));
            stores = filter (\<lambda>s. storeAnswers s game key) (map snd (ConfigStores c))
        in \<lparr>SupportKey = key, SupportName = GameName game,
            SupportSingles = (list_ex ServesSingles providers \<or> list_ex SellsSingles stores),
            SupportSealed = (list_ex ServesSealed providers \<or> list_ex SellsSealed stores),
            SupportLanguages = languagesOf c game\<rparr>)"

definition SupportedGames :: "config \<Rightarrow> game_support list" where
  "SupportedGames c =
     sort_key SupportName
       (filter (\<lambda>g. SupportSingles g \<or> SupportSealed g)
         (map (support_of c) (filter (\<lambda>(key, game). GameEnabled game) (ConfigGames c))))"

definition SupportedLanguages :: "config \<Rightarrow> (string \<times> string list) list" where
  "SupportedLanguages c =
     map (\<lambda>(key, game). (key, LanguagesSupported (GameLanguages game)))
       (filter (\<lambda>(key, game). GameEnabled game \<and> Declared (GameLanguages game)) (ConfigGames c))"

section \<open>Stores that can be named (internal/stores/directory/listing.go)\<close>

record listed_store =
  ListedID :: string
  ListedName :: string
  ListedPlatform :: string
  ListedGames :: "string list"
  ListedLocations :: "store_location list"

definition ListedStores :: "config \<Rightarrow> listed_store list" where
  "ListedStores c =
     sort_key ListedID
       (map (\<lambda>(domain, store).
            \<lparr>ListedID = domain, ListedName = StoreName store, ListedPlatform = StorePlatform store,
             ListedGames = StoreGames store, ListedLocations = StoreLocations store\<rparr>)
         (filter (\<lambda>(domain, store). StoreEnabled store) (ConfigStores c)))"

end
