(* ===== verification/Answers.thy ===== *)
theory Answers
  imports Wire Services CardCatalog SourceStore OfferSearch Directory
begin

text \<open>
  internal/errorhandler and internal/handler: which answer a request gets.

  A request is its headers, query and path values; a body that the strict JSON decoder
  accepted is \<open>Some\<close> of its shape, any other body None.  A handler reads, calls its service and
  answers a status and a body; routing, the panic guard and the encoder that writes the body
  are the HTTP library's.  The HMAC of a webhook is an argument.
\<close>

section \<open>Failures as answers (internal/errorhandler/handler.go)\<close>

record description =
  DescStatus :: int
  DescCode :: string
  DescMessage :: string

definition describe :: "int \<Rightarrow> string \<Rightarrow> string \<Rightarrow> description" where
  "describe status code message = \<lparr>DescStatus = status, DescCode = code, DescMessage = message\<rparr>"

definition unauthorized where "unauthorized = describe 401 ''unauthorized'' ''Bearer token required''"
definition missingIdempotencyKey where
  "missingIdempotencyKey = describe 400 ''missing_idempotency_key'' ''Valid Idempotency-Key header required''"
definition invalidRequest where "invalidRequest = describe 400 ''invalid_request'' ''Request is invalid''"
definition notFound where "notFound = describe 404 ''not_found'' ''Search was not found''"
definition missingStoreList where "missingStoreList = describe 404 ''not_found'' ''Store publishes no such list''"
definition idempotencyConflict where
  "idempotencyConflict = describe 409 ''idempotency_conflict'' ''Idempotency key was used with another request''"
definition invalidState where "invalidState = describe 409 ''invalid_state'' ''Search cannot be cancelled''"
definition internal where "internal = describe 500 ''internal_error'' ''Internal service error''"
definition unsupportedCardMetadata where
  "unsupportedCardMetadata = describe 404 ''not_found'' ''Card metadata is not supported for this game''"
definition unsupportedAutocomplete where
  "unsupportedAutocomplete = describe 404 ''not_found'' ''Card autocomplete is not supported for this game''"
definition missingCardName where "missingCardName = describe 400 ''invalid_request'' ''Card name is required''"
definition unsupportedCardNames where
  "unsupportedCardNames = describe 404 ''not_found'' ''Card name resolution is not supported for this game''"
definition cardNotFound where "cardNotFound = describe 404 ''not_found'' ''Card was not found''"
definition unsupportedLanguage where
  "unsupportedLanguage = describe 400 ''invalid_request'' ''Language is not supported for this game''"
definition orderNotFound where "orderNotFound = describe 404 ''not_found'' ''Order was not found''"
definition orderNotSupported where
  "orderNotSupported = describe 422 ''order_not_supported'' ''This store cannot place an order yet''"
definition orderConflict where
  "orderConflict = describe 409 ''order_conflict'' ''Order already moved past that status''"

lemmas description_defs = unauthorized_def missingIdempotencyKey_def invalidRequest_def notFound_def
  missingStoreList_def idempotencyConflict_def invalidState_def internal_def unsupportedCardMetadata_def
  unsupportedAutocomplete_def missingCardName_def unsupportedCardNames_def cardNotFound_def
  unsupportedLanguage_def orderNotFound_def orderNotSupported_def orderConflict_def describe_def

definition Describe :: "failure \<Rightarrow> description" where
  "Describe failure =
     (case failure of
        ErrInvalid \<Rightarrow> invalidRequest
      | ErrNotFound \<Rightarrow> notFound
      | ErrNoList \<Rightarrow> missingStoreList
      | ErrConflict \<Rightarrow> idempotencyConflict
      | ErrNotRunning \<Rightarrow> invalidState
      | ErrNoCardMetadata \<Rightarrow> unsupportedCardMetadata
      | ErrNoAutocomplete \<Rightarrow> unsupportedAutocomplete
      | ErrNoCardName \<Rightarrow> missingCardName
      | ErrNoCardNames \<Rightarrow> unsupportedCardNames
      | ErrCardNotFound \<Rightarrow> cardNotFound
      | ErrUnsupportedLanguage \<Rightarrow> unsupportedLanguage
      | ErrOrderNotFound \<Rightarrow> orderNotFound
      | ErrOrderNotSupported \<Rightarrow> orderNotSupported
      | ErrOrderConflict \<Rightarrow> orderConflict
      | _ \<Rightarrow> internal)"

section \<open>Requests and answers\<close>

record http_request =
  ReqHeader :: "string \<Rightarrow> string"
  ReqQuery :: "string \<Rightarrow> string"
  ReqPath :: "string \<Rightarrow> string"

datatype answer =
    ErrorAnswer string string string string
  | PlainAnswer string
  | EmptyAnswer
  | OfferAnswer offerDTO
  | GamesAnswer "game_support list"
  | JobAnswer jobDTO
  | ResultAnswer resultDTO
  | StocksAnswer "offerStockDTO list"
  | CheckoutsAnswer "storeCheckoutDTO list"
  | OrderAnswer orderDTO
  | MetadataAnswer metadata
  | SuggestionsAnswer "string list"
  | CanonicalAnswer string
  | OffersAnswer string match_mode product_kind "offerDTO list" "sourceFaultDTO list"
  | HealthAnswer
  | SourcesAnswer "sourceHealthDTO list"
  | StoresAnswer "listed_store list"
  | RefreshAnswer refreshInventoryReply

type_synonym http_reply = "int \<times> answer"

text \<open>An answer of status 500 or more carries an incident, named after the clock.\<close>

definition WriteDescription :: "string \<Rightarrow> description \<Rightarrow> http_reply io" where
  "WriteDescription requestID d =
     bind_io (if 500 \<le> DescStatus d then bind_io now (\<lambda>n. return_io (''inc_'' @ Itoa n)) else return_io []) (\<lambda>incident.
       return_io (DescStatus d, ErrorAnswer (DescCode d) (DescMessage d) requestID incident))"

definition reportError :: "string \<Rightarrow> failure \<Rightarrow> http_reply io" where
  "reportError requestID failure = WriteDescription requestID (Describe failure)"

text \<open>Calling a service: its failure is reported, its value answered.\<close>

definition answer_with :: "string \<Rightarrow> 'a io \<Rightarrow> ('a \<Rightarrow> http_reply) \<Rightarrow> http_reply io" where
  "answer_with requestID call render =
     bind_io (try_io call) (\<lambda>r. case r of Inl e \<Rightarrow> reportError requestID e | Inr x \<Rightarrow> return_io (render x))"

section \<open>Guards (internal/handler/handler.go)\<close>

definition authenticate :: "string \<Rightarrow> http_request \<Rightarrow> string \<Rightarrow> http_reply io \<Rightarrow> http_reply io" where
  "authenticate token r requestID next_handler =
     (let value = TrimPrefix (ReqHeader r ''Authorization'') ''Bearer '';
          valid = (length value = length token \<and> value = token)
      in if \<not> valid \<or> token = [] then WriteDescription requestID unauthorized else next_handler)"

definition identifyRequest :: "http_request \<Rightarrow> (string \<Rightarrow> http_reply io) \<Rightarrow> http_reply io" where
  "identifyRequest r next_handler =
     (let i = ReqHeader r ''X-Request-ID'' in
      bind_io (if i = [] \<or> 128 < length i then bind_io now (\<lambda>n. return_io (''req_'' @ Itoa n)) else return_io i)
        next_handler)"

definition requireIdempotency :: "http_request \<Rightarrow> string option" where
  "requireIdempotency r =
     (let key = TrimSpace (ReqHeader r ''Idempotency-Key'')
      in if key = [] \<or> 128 < length key then None else Some key)"

definition with_key :: "http_request \<Rightarrow> string \<Rightarrow> (string \<Rightarrow> http_reply io) \<Rightarrow> http_reply io" where
  "with_key r requestID k =
     (case requireIdempotency r of
        None \<Rightarrow> WriteDescription requestID missingIdempotencyKey
      | Some key \<Rightarrow> k key)"

definition defaultResultLimit :: int where "defaultResultLimit = 50"
definition maxResultLimit :: int where "maxResultLimit = 100"

definition readQueryNumber :: "http_request \<Rightarrow> string \<Rightarrow> int \<Rightarrow> int option" where
  "readQueryNumber r name fallback =
     (let value = ReqQuery r name in if value = [] then Some fallback else Atoi value)"

definition decodeResultPage :: "http_request \<Rightarrow> failure + result_page" where
  "decodeResultPage r =
     (case readQueryNumber r ''after'' 0 of
        None \<Rightarrow> Inl ErrInvalid
      | Some after_ \<Rightarrow>
          if after_ < 0 then Inl ErrInvalid
          else case readQueryNumber r ''limit'' defaultResultLimit of
            None \<Rightarrow> Inl ErrInvalid
          | Some limit \<Rightarrow>
              if limit < 1 \<or> maxResultLimit < limit then Inl ErrInvalid
              else Inr \<lparr>PageAfter = after_, PageLimit = limit\<rparr>)"

section \<open>Decoding (internal/handler/search_dto.go, card_api.go)\<close>

definition decodeSearch :: "createSearchBody option \<Rightarrow> failure + create_input" where
  "decodeSearch body =
     (case body of
        None \<Rightarrow> Inl ErrInvalid
      | Some b \<Rightarrow>
          (let o1 = CreateSearchBody_Options b in
           case ReadMatchMode (SearchOptionsBody_Match o1) of
             Inl _ \<Rightarrow> Inl ErrInvalid
           | Inr _ \<Rightarrow> (case ReadProductKind (SearchOptionsBody_Kind o1) of
               Inl _ \<Rightarrow> Inl ErrInvalid
             | Inr _ \<Rightarrow> Inr
                 \<lparr>InputGame = (if CreateSearchBody_Game b = [] then GameMagic else CreateSearchBody_Game b),
                  InputCards = map (\<lambda>c. \<lparr>CardInputName = SearchCardBody_Name c,
                    CardInputQuantity = SearchCardBody_Quantity c\<rparr>) (CreateSearchBody_Cards b),
                  InputOptions = \<lparr>OptVerifyStock = SearchOptionsBody_VerifyStock o1,
                    OptMatch = SearchOptionsBody_Match o1, OptKind = SearchOptionsBody_Kind o1\<rparr>\<rparr>)))"

definition readQueryGame :: "http_request \<Rightarrow> game" where
  "readQueryGame r = (let game = ReqQuery r ''game'' in if game = [] then GameMagic else game)"

definition decodeOfferQuery :: "http_request \<Rightarrow> failure + game \<times> card_query" where
  "decodeOfferQuery r =
     (case ReadMatchMode (ReqQuery r ''match'') of
        Inl _ \<Rightarrow> Inl ErrInvalid
      | Inr mode \<Rightarrow> (case ReadProductKind (ReqQuery r ''kind'') of
          Inl _ \<Rightarrow> Inl ErrInvalid
        | Inr kind \<Rightarrow>
            Inr (readQueryGame r, \<lparr>QueryName = ReqQuery r ''name'', QueryMatch = mode, QueryKind = kind\<rparr>)))"


section \<open>The API (internal/handler)\<close>

text \<open>\<open>Handler\<close> with the services it joins.  \<open>ApiFuel\<close> bounds the pages one request collects,
  \<open>ApiDigest\<close> is SHA-256 of a JSON payload, \<open>ApiSign\<close> the base64 of an HMAC-SHA256, and
  \<open>ApiDecodeWebhook\<close> the lenient JSON decoder; a nil shelf is None.\<close>

record api =
  ApiToken :: string
  ApiWebhookSecret :: string
  ApiGames :: "game_support list"
  ApiStores :: "listed_store list"
  ApiSearches :: search_service
  ApiStocks :: "stock_checker option"
  ApiCheckout :: checkout_service
  ApiOrders :: order_service
  ApiCards :: card_service
  ApiOffers :: offer_service
  ApiSearchEnv :: search_env
  ApiShelf :: "(string \<Rightarrow> string \<Rightarrow> int io) option"
  ApiCheckHealth :: "unit io"
  ApiListSources :: "source_health list io"
  ApiFuel :: nat
  ApiDigest :: "payload \<Rightarrow> string"
  ApiHost :: "string \<Rightarrow> string option"
  ApiSign :: "string \<Rightarrow> string \<Rightarrow> string"
  ApiDecodeWebhook :: "string \<Rightarrow> wooCommerceOrderWebhook option"

section \<open>Searches, orders and stock (internal/handler/search_api.go)\<close>

definition getOffer :: "api \<Rightarrow> http_request \<Rightarrow> string \<Rightarrow> http_reply io" where
  "getOffer a r rid =
     answer_with rid (Service_GetOffer (ApiOffers a) (ReqPath r ''offer_id''))
       (\<lambda>o1. (200, OfferAnswer (renderOffer o1)))"

definition listSupportedGames :: "api \<Rightarrow> http_request \<Rightarrow> string \<Rightarrow> http_reply io" where
  "listSupportedGames a r rid =
     (let kind = ReqQuery r ''kind''
      in if kind \<noteq> [] \<and> kind \<noteq> KindSingle \<and> kind \<noteq> KindSealed then reportError rid ErrInvalid
         else return_io (200, GamesAnswer
           (filter (\<lambda>g. \<not> (kind \<noteq> [] \<and> \<not> Asked g (kind = KindSealed))) (ApiGames a))))"

definition with_body :: "string \<Rightarrow> 'b option \<Rightarrow> ('b \<Rightarrow> http_reply io) \<Rightarrow> http_reply io" where
  "with_body rid body k = (case body of None \<Rightarrow> reportError rid ErrInvalid | Some b \<Rightarrow> k b)"

definition createSearch :: "api \<Rightarrow> http_request \<Rightarrow> createSearchBody option \<Rightarrow> string \<Rightarrow> http_reply io" where
  "createSearch a r body rid =
     with_key r rid (\<lambda>key.
       case decodeSearch body of
         Inl _ \<Rightarrow> reportError rid ErrInvalid
       | Inr input \<Rightarrow>
           bind_io (try_io (Service_CreateSearch (ApiDigest a) (ApiSearches a) key input)) (\<lambda>x.
             case x of
               Inl e \<Rightarrow> reportError rid e
             | Inr (job, Some e) \<Rightarrow> reportError rid e
             | Inr (job, None) \<Rightarrow> return_io (202, JobAnswer (renderJob job))))"

definition getSearch :: "api \<Rightarrow> http_request \<Rightarrow> string \<Rightarrow> http_reply io" where
  "getSearch a r rid =
     answer_with rid (Service_GetSearch (ApiSearches a) (ReqPath r ''search_id''))
       (\<lambda>job. (200, JobAnswer (renderJob job)))"

definition listResults :: "api \<Rightarrow> http_request \<Rightarrow> string \<Rightarrow> http_reply io" where
  "listResults a r rid =
     (case decodeResultPage r of
        Inl _ \<Rightarrow> reportError rid ErrInvalid
      | Inr page \<Rightarrow>
          answer_with rid (Service_ListResults (ApiSearches a) (ReqPath r ''search_id'') page)
            (\<lambda>x. (200, ResultAnswer (renderResult x))))"

definition checkStock :: "api \<Rightarrow> http_request \<Rightarrow> stockRequest option \<Rightarrow> string \<Rightarrow> http_reply io" where
  "checkStock a r body rid =
     with_body rid body (\<lambda>b.
       answer_with rid (CheckOfferStock (ApiFuel a) (SearchRepository (ApiSearches a)) (ApiStocks a)
           (ReqPath r ''search_id'') (StockRequest_Offers b))
         (\<lambda>x. (200, StocksAnswer (renderOfferStockList x))))"

definition createCheckoutLinks :: "api \<Rightarrow> http_request \<Rightarrow> checkoutRequest option \<Rightarrow> string \<Rightarrow> http_reply io" where
  "createCheckoutLinks a r body rid =
     with_body rid body (\<lambda>b.
       answer_with rid (CheckoutLinks (ApiFuel a) (ApiHost a) (ApiCheckout a) (ReqPath r ''search_id'')
           (buildCartRequestList (CheckoutRequest_Items b)) (buildShippingAddressPointer (CheckoutRequest_Shipping b)))
         (\<lambda>x. (200, CheckoutsAnswer (renderStoreCheckoutList x))))"

definition placeOrder :: "api \<Rightarrow> http_request \<Rightarrow> orderRequest option \<Rightarrow> string \<Rightarrow> http_reply io" where
  "placeOrder a r body rid =
     with_key r rid (\<lambda>key. with_body rid body (\<lambda>b.
       answer_with rid (PlaceOrder (ApiDigest a) (ApiFuel a) (ApiHost a) (ApiOrders a) (ReqPath r ''search_id'') key
           (buildCartRequestList (OrderRequest_Items b)) (buildShippingAddress (OrderRequest_Shipping b)))
         (\<lambda>x. (201, OrderAnswer (renderOrder x)))))"

definition getOrder :: "api \<Rightarrow> http_request \<Rightarrow> string \<Rightarrow> http_reply io" where
  "getOrder a r rid =
     answer_with rid (Service_GetOrder (ApiOrders a) (ReqPath r ''search_id'') (ReqPath r ''order_id''))
       (\<lambda>x. (200, OrderAnswer (renderOrder x)))"

definition linkOrder :: "api \<Rightarrow> http_request \<Rightarrow> linkRequest option \<Rightarrow> string \<Rightarrow> http_reply io" where
  "linkOrder a r body rid =
     with_key r rid (\<lambda>key. with_body rid body (\<lambda>b.
       answer_with rid (LinkOrder (ApiDigest a) (ApiFuel a) (ApiHost a) (ApiOrders a) (ReqPath r ''search_id'') key
           (buildCartRequestList (LinkRequest_Items b)))
         (\<lambda>x. (201, OrderAnswer (renderOrder x)))))"

definition reportOrder :: "api \<Rightarrow> http_request \<Rightarrow> reportRequest option \<Rightarrow> string \<Rightarrow> http_reply io" where
  "reportOrder a r body rid =
     with_body rid body (\<lambda>b.
       answer_with rid (Service_ReportOrder (ApiOrders a) (ReqPath r ''search_id'') (ReqPath r ''order_id'')
           (ReportRequest_StoreOrder b))
         (\<lambda>x. (200, OrderAnswer (renderOrder x))))"

definition cancelSearch_api :: "api \<Rightarrow> http_request \<Rightarrow> string \<Rightarrow> http_reply io" where
  "cancelSearch_api a r rid =
     with_key r rid (\<lambda>key.
       answer_with rid (Service_CancelSearch (ApiDigest a) (ApiSearches a) (ReqPath r ''search_id'') key)
         (\<lambda>job. (200, JobAnswer (renderJob job))))"

section \<open>Cards (internal/handler/card_api.go)\<close>

definition getCardMetadata :: "api \<Rightarrow> http_request \<Rightarrow> string \<Rightarrow> http_reply io" where
  "getCardMetadata a r rid =
     answer_with rid (ReadCardMetadata (ApiCards a) (readQueryGame r)
         \<lparr>MetaReqName = ReqQuery r ''name'', MetaReqLanguage = ReqQuery r ''language'',
          MetaReqEdition = ReqQuery r ''edition'', MetaReqFoil = (ReqQuery r ''foil'' = ''true'')\<rparr>)
       (\<lambda>x. (200, MetadataAnswer x))"

definition autocompleteCards :: "api \<Rightarrow> http_request \<Rightarrow> string \<Rightarrow> http_reply io" where
  "autocompleteCards a r rid =
     answer_with rid (SuggestCardNames (ApiCards a) (readQueryGame r) (ReqQuery r ''name'') (ReqQuery r ''language''))
       (\<lambda>x. (200, SuggestionsAnswer x))"

definition resolveCardName :: "api \<Rightarrow> http_request \<Rightarrow> string \<Rightarrow> http_reply io" where
  "resolveCardName a r rid =
     answer_with rid (ResolveCardName (ApiCards a) (readQueryGame r) (ReqQuery r ''name'') (ReqQuery r ''language''))
       (\<lambda>x. (200, CanonicalAnswer x))"

text \<open>A failure with faults to show is an answer: only one without them is reported.\<close>

definition findCardOffers :: "api \<Rightarrow> http_request \<Rightarrow> string \<Rightarrow> http_reply io" where
  "findCardOffers a r rid =
     (case decodeOfferQuery r of
        Inl _ \<Rightarrow> reportError rid ErrInvalid
      | Inr (game, query) \<Rightarrow>
          bind_io (FindCardOffers (ApiSearchEnv a) (ApiOffers a) game query) (\<lambda>(items, faults, err).
            case err of
              Some e \<Rightarrow> if faults = [] then reportError rid e
                else return_io (200, OffersAnswer (QueryName query) (QueryMatch query) (QueryKind query)
                       (renderOfferList items) (renderSourceFaultList faults))
            | None \<Rightarrow> return_io (200, OffersAnswer (QueryName query) (QueryMatch query) (QueryKind query)
                       (renderOfferList items) (renderSourceFaultList faults))))"

section \<open>Health and inventories (internal/handler/health_api.go, inventory_api.go)\<close>

definition getHealth :: "api \<Rightarrow> string \<Rightarrow> http_reply io" where
  "getHealth a rid = answer_with rid (ApiCheckHealth a) (\<lambda>_. (200, HealthAnswer))"

definition listSourceHealth :: "api \<Rightarrow> string \<Rightarrow> http_reply io" where
  "listSourceHealth a rid =
     answer_with rid (ApiListSources a) (\<lambda>x. (200, SourcesAnswer (renderSourceHealthList x)))"

definition listStores :: "api \<Rightarrow> http_reply io" where
  "listStores a = return_io (200, StoresAnswer (ApiStores a))"

definition refreshStoreInventory :: "api \<Rightarrow> http_request \<Rightarrow> string \<Rightarrow> http_reply io" where
  "refreshStoreInventory a r rid =
     (case ApiShelf a of
        None \<Rightarrow> reportError rid ErrNotFound
      | Some refresh \<Rightarrow>
          (let store = ReqPath r ''store_id''; label = TrimSpace (ReqQuery r ''list'')
           in answer_with rid (refresh store label)
                (\<lambda>n. (200, RefreshAnswer \<lparr>RefreshInventoryReply_StoreID = store, RefreshInventoryReply_List = label,
                      RefreshInventoryReply_Refreshed = n\<rparr>))))"

section \<open>A store's webhook (internal/stores/woocommerce/webhook.go, internal/handler/order_webhooks.go)\<close>

definition VerifyWebhookSignature :: "(string \<Rightarrow> string \<Rightarrow> string) \<Rightarrow> string \<Rightarrow> string \<Rightarrow> string \<Rightarrow> bool" where
  "VerifyWebhookSignature sign secret body signature =
     (if secret = [] \<or> signature = [] then False else sign secret body = signature)"

definition WebhookOrderStatus :: "string \<Rightarrow> order_status option" where
  "WebhookOrderStatus rawStatus =
     (if rawStatus = ''processing'' \<or> rawStatus = ''completed'' then Some OrderConfirmed
      else if rawStatus = ''cancelled'' \<or> rawStatus = ''failed'' \<or> rawStatus = ''refunded'' then Some OrderReleased
      else None)"

definition maxWebhookBodyBytes :: nat where "maxWebhookBodyBytes = 1048576"

text \<open>\<open>body\<close> is what the connection delivers, None when reading it fails.\<close>

definition receiveWooCommerceOrderWebhook :: "api \<Rightarrow> http_request \<Rightarrow> string option \<Rightarrow> http_reply io" where
  "receiveWooCommerceOrderWebhook a r sent =
     (if ApiWebhookSecret a = [] then return_io (503, PlainAnswer ''Webhook not configured'')
      else case map_option (take maxWebhookBodyBytes) sent of
        None \<Rightarrow> return_io (400, PlainAnswer ''Bad request'')
      | Some body \<Rightarrow>
          if \<not> VerifyWebhookSignature (ApiSign a) (ApiWebhookSecret a) body (ReqHeader r ''X-WC-Webhook-Signature'')
          then return_io (401, PlainAnswer ''Invalid signature'')
          else case ApiDecodeWebhook a body of
            None \<Rightarrow> return_io (400, PlainAnswer ''Bad request'')
          | Some delivery \<Rightarrow>
              if WooCommerceOrderWebhook_ID delivery = 0 then return_io (400, PlainAnswer ''Bad request'')
              else case WebhookOrderStatus (WooCommerceOrderWebhook_Status delivery) of
                None \<Rightarrow> return_io (200, EmptyAnswer)
              | Some target \<Rightarrow>
                  bind_io (try_io (ConfirmOrder (ApiOrders a) (ReqPath r ''domain'')
                      (Itoa (WooCommerceOrderWebhook_ID delivery)) target)) (\<lambda>x.
                    case x of
                      Inr _ \<Rightarrow> return_io (200, EmptyAnswer)
                    | Inl e \<Rightarrow> if e = ErrOrderNotFound \<or> e = ErrOrderConflict then return_io (200, EmptyAnswer)
                        else return_io (500, PlainAnswer ''Internal error'')))"

section \<open>Routes (the register functions and BuildHandler)\<close>

text \<open>A route with the body its handler decodes.\<close>

datatype route =
    RouteHealth
  | RouteSources
  | RouteGames
  | RouteOffer
  | RouteCreateSearch "createSearchBody option"
  | RouteSearch
  | RouteResults
  | RouteStock "stockRequest option"
  | RouteCheckout "checkoutRequest option"
  | RoutePlaceOrder "orderRequest option"
  | RouteOrder
  | RouteLinkOrder "linkRequest option"
  | RouteReportOrder "reportRequest option"
  | RouteCancel
  | RouteMetadata
  | RouteAutocomplete
  | RouteCanonicalName
  | RouteCardOffers
  | RouteStores
  | RouteRefresh
  | RouteWebhook "string option"

fun open_route :: "route \<Rightarrow> bool" where
  "open_route RouteHealth = True"
| "open_route (RouteWebhook _) = True"
| "open_route _ = False"

fun handle :: "api \<Rightarrow> http_request \<Rightarrow> string \<Rightarrow> route \<Rightarrow> http_reply io" where
  "handle a r rid RouteHealth = getHealth a rid"
| "handle a r rid RouteSources = listSourceHealth a rid"
| "handle a r rid RouteGames = listSupportedGames a r rid"
| "handle a r rid RouteOffer = getOffer a r rid"
| "handle a r rid (RouteCreateSearch body) = createSearch a r body rid"
| "handle a r rid RouteSearch = getSearch a r rid"
| "handle a r rid RouteResults = listResults a r rid"
| "handle a r rid (RouteStock body) = checkStock a r body rid"
| "handle a r rid (RouteCheckout body) = createCheckoutLinks a r body rid"
| "handle a r rid (RoutePlaceOrder body) = placeOrder a r body rid"
| "handle a r rid RouteOrder = getOrder a r rid"
| "handle a r rid (RouteLinkOrder body) = linkOrder a r body rid"
| "handle a r rid (RouteReportOrder body) = reportOrder a r body rid"
| "handle a r rid RouteCancel = cancelSearch_api a r rid"
| "handle a r rid RouteMetadata = getCardMetadata a r rid"
| "handle a r rid RouteAutocomplete = autocompleteCards a r rid"
| "handle a r rid RouteCanonicalName = resolveCardName a r rid"
| "handle a r rid RouteCardOffers = findCardOffers a r rid"
| "handle a r rid RouteStores = listStores a"
| "handle a r rid RouteRefresh = refreshStoreInventory a r rid"
| "handle a r rid (RouteWebhook body) = receiveWooCommerceOrderWebhook a r body"

definition BuildHandler :: "api \<Rightarrow> http_request \<Rightarrow> route \<Rightarrow> http_reply io" where
  "BuildHandler a r route =
     identifyRequest r (\<lambda>rid.
       if open_route route then handle a r rid route
       else authenticate (ApiToken a) r rid (handle a r rid route))"

end
