(* ===== verification/ServiceProperties.thy ===== *)
theory ServiceProperties
  imports Services
begin

text \<open>
  What the services of Services promise: requests that are refused before anything is
  touched, the pages of a search read to their end, offers named only by the search that
  found them, and carts that fall apart by store.
\<close>

section \<open>Reading every page of a search\<close>

text \<open>An index of offers: each under its own id, each one that \<open>P\<close> holds of.\<close>

definition names_offers :: "(offer \<Rightarrow> bool) \<Rightarrow> (string \<rightharpoonup> offer) \<Rightarrow> bool" where
  "names_offers P found \<longleftrightarrow> (\<forall>k o1. found k = Some o1 \<longrightarrow> OfferID o1 = k \<and> P o1)"

lemma names_offers_put: "names_offers P found \<Longrightarrow> P o1 \<Longrightarrow> names_offers P (found(OfferID o1 \<mapsto> o1))"
  by (simp add: names_offers_def)

lemma names_offers_fold:
  "names_offers P found \<Longrightarrow> \<forall>o1 \<in> set os. P o1 \<Longrightarrow>
   names_offers P (fold (\<lambda>o1 found. found(OfferID o1 \<mapsto> o1)) os found)"
  by (induction os arbitrary: found) (simp_all add: names_offers_put)

lemma names_offers_index:
  "names_offers P found \<Longrightarrow> \<forall>it \<in> set items. \<forall>o1 \<in> set (ItemOffers it). P o1 \<Longrightarrow>
   names_offers P (index_items items found)"
  unfolding index_items_def
  by (induction items arbitrary: found) (simp_all add: names_offers_fold)

text \<open>What the reader of pages relies on: a page that says more follow, and that moved past
  the cursor, leaves less behind; its offers are kept under the search; reading changes
  neither.\<close>

locale result_pages =
  fixes repo :: search_repository
    and left :: "world \<Rightarrow> string \<Rightarrow> int \<Rightarrow> nat"
    and kept :: "world \<Rightarrow> string \<Rightarrow> offer \<Rightarrow> bool"
  assumes page_moves: "RepoListResults repo i p w = (Inr r, w') \<Longrightarrow> ResultHasMore r \<Longrightarrow>
      PageAfter p < ResultCursor r \<Longrightarrow> left w' i (ResultCursor r) < left w i (PageAfter p)"
    and page_fails: "RepoListResults repo i p w = (Inl e, w') \<Longrightarrow> e \<noteq> OutOfFuel"
    and page_offers: "RepoListResults repo i p w = (Inr r, w') \<Longrightarrow> it \<in> set (ResultItems r) \<Longrightarrow>
      o1 \<in> set (ItemOffers it) \<Longrightarrow> kept w i o1"
    and page_reads: "RepoListResults repo i p w = (Inr r, w') \<Longrightarrow> kept w' i = kept w i"
begin

lemma collect_pages_ends:
  "left w i cursor < fuel \<Longrightarrow> collect_pages fuel repo i cursor found w \<noteq> (Inl OutOfFuel, w')"
proof (induction fuel arbitrary: w cursor found)
  case (Suc fuel)
  let ?page = "\<lparr>PageAfter = cursor, PageLimit = maxResultPage\<rparr>"
  obtain r w1 where page: "RepoListResults repo i ?page w = (r, w1)" by fastforce
  show ?case
  proof (cases r)
    case (Inl e)
    with page page_fails [of i ?page w e w1] show ?thesis by (simp add: bind_io_def)
  next
    case (Inr p)
    show ?thesis
    proof (cases "ResultHasMore p \<and> cursor < ResultCursor p")
      case True
      then have "left w1 i (ResultCursor p) < fuel"
        using page_moves [OF page [unfolded Inr]] Suc.prems by simp
      from Suc.IH [OF this] True show ?thesis
        by (simp add: bind_io_def page Inr Let_def)
    next
      case False
      then show ?thesis by (auto simp: bind_io_def page Inr Let_def return_io_def)
    qed
  qed
qed simp

lemma collect_pages_names:
  "collect_pages fuel repo i cursor found w = (Inr all, w') \<Longrightarrow> names_offers (kept w i) found \<Longrightarrow>
   names_offers (kept w i) all"
proof (induction fuel arbitrary: w cursor found)
  case (Suc fuel)
  let ?page = "\<lparr>PageAfter = cursor, PageLimit = maxResultPage\<rparr>"
  from Suc.prems(1) obtain p w1 where page: "RepoListResults repo i ?page w = (Inr p, w1)"
    and rest: "(if \<not> ResultHasMore p \<or> ResultCursor p \<le> cursor
        then return_io (index_items (ResultItems p) found)
        else collect_pages fuel repo i (ResultCursor p) (index_items (ResultItems p) found)) w1 = (Inr all, w')"
    by (auto simp: go_io Let_def)
  have now: "names_offers (kept w i) (index_items (ResultItems p) found)"
    by (rule names_offers_index [OF Suc.prems(2)]) (use page_offers [OF page] in blast)
  note same = page_reads [OF page]
  from rest now Suc.IH [of "ResultCursor p" _ w1] show ?case
    by (auto simp: same return_io_def split: if_splits)
qed (simp add: fail_io_def)

lemma collected_ends: "left w i 0 < fuel \<Longrightarrow> collectSearchOffers fuel repo i w \<noteq> (Inl OutOfFuel, w')"
  unfolding collectSearchOffers_def by (rule collect_pages_ends)

lemma collected_names: "collectSearchOffers fuel repo i w = (Inr found, w') \<Longrightarrow> names_offers (kept w i) found"
  unfolding collectSearchOffers_def by (erule collect_pages_names) (simp add: names_offers_def)

end

section \<open>The pages of the store\<close>

lemma run_query_sub: "r \<in> set (run_query q rows) \<Longrightarrow> r \<in> set rows \<and> list_all (\<lambda>p. p r) (QueryFilters q)"
  by (auto simp: run_query_def Let_def split: option.splits if_splits dest: in_set_takeD)

text \<open>An item of a page was read from a record, with the offers kept for it or none.\<close>

definition read_from :: "database \<Rightarrow> kept_item \<Rightarrow> item \<Rightarrow> bool" where
  "read_from d k it \<longleftrightarrow> ItemSequence it = ItemSequence (KeptItem k)
     \<and> (\<forall>o1 \<in> set (ItemOffers it). \<exists>e. row_of ItemOfferEntries (ItemID (KeptItem k)) d = Some e
          \<and> o1 \<in> set (EntryOffers e))"

lemma read_page_Inr:
  "read_page limit items ks w = (Inr (res, ahead), w') \<Longrightarrow>
   wdb w' = wdb w \<and> (\<exists>extra. res = items @ extra \<and> (\<forall>it \<in> set extra. \<exists>k \<in> set ks. read_from (wdb w) k it))"
proof (induction ks arbitrary: items w)
  case (Cons k ks)
  show ?case
  proof (cases "int (length items) = limit")
    case True
    with Cons.prems show ?thesis by (auto simp: go_io split: if_splits)
  next
    case False
    obtain g w1 where get: "Get ItemOfferEntries (ItemID (KeptItem k)) w = (g, w1)" by fastforce
    with False Cons.prems have rest: "read_page limit (items @ [(KeptItem k)\<lparr>ItemOffers :=
          (case g of Inl _ \<Rightarrow> [] | Inr kept \<Rightarrow> EntryOffers kept)\<rparr>]) ks w1 = (Inr (res, ahead), w')"
      by (simp add: bind_io_def try_io_def Let_def fail_io_def split: if_splits)
    let ?it = "(KeptItem k)\<lparr>ItemOffers := (case g of Inl _ \<Rightarrow> [] | Inr kept \<Rightarrow> EntryOffers kept)\<rparr>"
    have same: "wdb w1 = wdb w" using get by (cases g) (auto simp: go_io)
    have "read_from (wdb w) k ?it"
      using get by (cases g) (auto simp: read_from_def go_io)
    moreover from Cons.IH [OF rest] same obtain extra where "wdb w' = wdb w"
        "res = (items @ [?it]) @ extra" "\<forall>it \<in> set extra. \<exists>k \<in> set ks. read_from (wdb w) k it" by auto
    ultimately show ?thesis by (intro conjI exI [of _ "?it # extra"]) auto
  qed
qed (simp add: go_io)

definition after_cursor :: "string \<Rightarrow> int \<Rightarrow> kept_item \<Rightarrow> bool" where
  "after_cursor i cursor k \<longleftrightarrow> ItemSearchID (KeptItem k) = i \<and> cursor < ItemSequence (KeptItem k)"

definition rows_left :: "world \<Rightarrow> string \<Rightarrow> int \<Rightarrow> nat" where
  "rows_left w i cursor = length (filter (after_cursor i cursor) (map snd (db_items (wdb w))))"

definition kept_under :: "world \<Rightarrow> string \<Rightarrow> offer \<Rightarrow> bool" where
  "kept_under w i o1 \<longleftrightarrow> (\<exists>k \<in> snd ` set (db_items (wdb w)). ItemSearchID (KeptItem k) = i
     \<and> (\<exists>e. row_of ItemOfferEntries (ItemID (KeptItem k)) (wdb w) = Some e \<and> o1 \<in> set (EntryOffers e)))"

lemma Store_ListResults_Inr:
  assumes "Store_ListResults i p w = (Inr r, w')"
  shows "wdb w' = wdb w"
    "it \<in> set (ResultItems r) \<Longrightarrow> \<exists>k \<in> snd ` set (db_items (wdb w)).
       after_cursor i (PageAfter p) k \<and> read_from (wdb w) k it"
    "ResultItems r = [] \<Longrightarrow> ResultCursor r = PageAfter p"
    "ResultItems r \<noteq> [] \<Longrightarrow> ResultCursor r = ItemSequence (last (ResultItems r))"
proof -
  from assms obtain u w1 ahead items where search: "readSearch i w = (Inr u, w1)"
    and load: "loadResultPage i p w1 = (Inr (items, ahead), w')"
    and r: "r = \<lparr>ResultSearchID = i, ResultItems = items,
      ResultCursor = (if items = [] then PageAfter p else ItemSequence (last items)), ResultHasMore = ahead\<rparr>"
    by (auto simp: Store_ListResults_def bind_io_Inr return_io_run Let_def)
  from load obtain stored w2 where listed: "ListRecords Items (page_query i p) w1 = (Inr stored, w2)"
    and page: "read_page (PageLimit p) [] stored w2 = (Inr (items, ahead), w')"
    by (auto simp: loadResultPage_def bind_io_Inr map_failure_Inr)
  have w1: "wdb w1 = wdb w" using search by (simp add: readSearch_Inr)
  have w2: "wdb w2 = wdb w" "stored = run_query (page_query i p) (map snd (db_items (wdb w)))"
    using listed w1 by (simp_all add: go_io)
  note R = read_page_Inr [OF page]
  show "wdb w' = wdb w" using R w2 by simp
  show "\<exists>k \<in> snd ` set (db_items (wdb w)). after_cursor i (PageAfter p) k \<and> read_from (wdb w) k it"
    if "it \<in> set (ResultItems r)"
  proof -
    from R that w2(1) obtain k where k: "k \<in> set stored" "read_from (wdb w) k it" by (auto simp: r)
    with run_query_sub [of k "page_query i p" "map snd (db_items (wdb w))"] show ?thesis
      by (auto simp: w2(2) after_cursor_def page_query_def)
  qed
  show "ResultItems r = [] \<Longrightarrow> ResultCursor r = PageAfter p"
    "ResultItems r \<noteq> [] \<Longrightarrow> ResultCursor r = ItemSequence (last (ResultItems r))"
    by (simp_all add: r)
qed

lemma rows_left_less:
  assumes "k \<in> snd ` set (db_items (wdb w))" "after_cursor i c k" "\<not> after_cursor i c' k" "c \<le> c'"
  shows "rows_left w i c' < rows_left w i c"
proof -
  let ?rows = "map snd (db_items (wdb w))"
  have "filter (after_cursor i c') ?rows = filter (after_cursor i c') (filter (after_cursor i c) ?rows)"
    using assms(4) by (auto simp: after_cursor_def intro!: filter_cong)
  moreover have "k \<in> set (filter (after_cursor i c) ?rows)" using assms(1,2) by auto
  ultimately show ?thesis unfolding rows_left_def using assms(3) by (metis length_filter_less)
qed

lemma read_page_fails: "read_page limit items ks w = (Inl e, w') \<Longrightarrow> e \<noteq> OutOfFuel"
proof (induction ks arbitrary: items w)
  case (Cons k ks)
  then show ?case
    by (cases "Get ItemOfferEntries (ItemID (KeptItem k)) w")
       (auto simp: bind_io_def try_io_def fail_io_def return_io_def Let_def split: if_splits)
qed (simp add: return_io_def)

lemma Get_fails: "Get t i w = (Inl e, w') \<Longrightarrow> mapSearchError e \<noteq> OutOfFuel \<and> e \<noteq> OutOfFuel"
  by (auto simp: Get_Inl mapSearchError_def split: option.splits if_splits)

lemma readSearch_fails: "readSearch i w = (Inl e, w') \<Longrightarrow> e \<noteq> OutOfFuel"
  by (auto simp: readSearch_def bind_io_Inl map_failure_Inl lapsed_run fail_io_run return_io_run
      dest: Get_fails split: if_splits)

lemma ListRecords_fails: "ListRecords t q w = (Inl e, w') \<Longrightarrow> mapSearchError e \<noteq> OutOfFuel"
  by (auto simp: ListRecords_def read_db_def bind_io_def call_backend_def mapSearchError_def
      split: option.splits if_splits)

lemma Store_ListResults_fails: "Store_ListResults i p w = (Inl e, w') \<Longrightarrow> e \<noteq> OutOfFuel"
  by (auto simp: Store_ListResults_def loadResultPage_def bind_io_Inl map_failure_Inl Let_def
      return_io_run dest: readSearch_fails read_page_fails ListRecords_fails)

interpretation store_pages: result_pages "store_repository env ttl" rows_left kept_under
proof
  fix i p w r w'
  assume "RepoListResults (store_repository env ttl) i p w = (Inr r, w')"
  then have run: "Store_ListResults i p w = (Inr r, w')" by (simp add: store_repository_def)
  note L = Store_ListResults_Inr [OF run]
  show "kept_under w' i = kept_under w i" by (simp add: kept_under_def L(1) fun_eq_iff)
  show "kept_under w i o1" if "it \<in> set (ResultItems r)" and o1: "o1 \<in> set (ItemOffers it)" for it o1
  proof -
    from L(2) [OF that(1)] obtain k where "k \<in> snd ` set (db_items (wdb w))" "after_cursor i (PageAfter p) k"
        "read_from (wdb w) k it" by blast
    with o1 show ?thesis unfolding kept_under_def read_from_def after_cursor_def by blast
  qed
  show "rows_left w' i (ResultCursor r) < rows_left w i (PageAfter p)"
    if "PageAfter p < ResultCursor r"
  proof -
    from that L(3) have ne: "ResultItems r \<noteq> []" by auto
    then obtain k where "k \<in> snd ` set (db_items (wdb w))" "after_cursor i (PageAfter p) k"
        "read_from (wdb w) k (last (ResultItems r))"
      using L(2) [of "last (ResultItems r)"] by auto
    moreover from this(3) L(4) [OF ne] have "\<not> after_cursor i (ResultCursor r) k"
      by (simp add: after_cursor_def read_from_def)
    ultimately show ?thesis using rows_left_less [of k w i "PageAfter p" "ResultCursor r"] that L(1)
      by (simp add: rows_left_def)
  qed
next
  fix i p w e w'
  assume "RepoListResults (store_repository env ttl) i p w = (Inl e, w')"
  then show "e \<noteq> OutOfFuel" using Store_ListResults_fails by (simp add: store_repository_def)
qed

text \<open>C38 Reading a search back ends: over the program's own store, with one page of fuel more than
  the search has finished items, collecting its offers never runs out, whatever calls fail;
  and every offer it answers stands under its own id and is kept under this search, so an
  offer nobody found for the search cannot be named.\<close>
theorem collecting_ends_in_search:
  assumes "rows_left w i 0 < fuel"
  shows "collectSearchOffers fuel (store_repository env ttl) i w \<noteq> (Inl OutOfFuel, w')
    \<and> (collectSearchOffers fuel (store_repository env ttl) i w = (Inr found, w') \<longrightarrow>
       (\<forall>k o1. found k = Some o1 \<longrightarrow> OfferID o1 = k \<and> kept_under w i o1))"
  using store_pages.collected_ends [OF assms, of env ttl w']
    store_pages.collected_names [of fuel env ttl i w found w']
  by (simp add: names_offers_def)

section \<open>Stock\<close>

lemma readOfferStock_total: "\<exists>r w'. readOfferStock check it w = (Inr r, w') \<and> StockOfferID r = OfferID it"
proof -
  obtain r w1 where "check it w = (r, w1)" by fastforce
  then show ?thesis
    by (cases r) (simp_all add: readOfferStock_def bind_io_def try_io_def return_io_def)
qed

lemma read_stocks_known:
  "\<forall>k \<in> set ids. \<exists>o1. found k = Some o1 \<and> OfferID o1 = k \<Longrightarrow>
   \<exists>rs w'. read_stocks check found ids w = (Inr rs, w') \<and> map StockOfferID rs = ids"
proof (induction ids arbitrary: w)
  case (Cons k ids)
  then obtain o1 where o1: "found k = Some o1" "OfferID o1 = k" by auto
  obtain r w1 where "readOfferStock check o1 w = (Inr r, w1)" "StockOfferID r = k"
    using readOfferStock_total o1(2) by blast
  moreover obtain rs w2 where "read_stocks check found ids w1 = (Inr rs, w2)" "map StockOfferID rs = ids"
    using Cons by force
  ultimately show ?case using o1(1) by (simp add: bind_io_def return_io_def)
qed (simp add: return_io_def)

lemma read_stocks_unknown:
  "\<exists>k \<in> set ids. found k = None \<Longrightarrow> fst (read_stocks check found ids w) = Inl ErrNotFound"
proof (induction ids arbitrary: w)
  case (Cons k ids)
  show ?case
  proof (cases "found k")
    case None
    then show ?thesis by (simp add: fail_io_def)
  next
    case (Some o1)
    obtain r w1 where r: "readOfferStock check o1 w = (Inr r, w1)" using readOfferStock_total by blast
    obtain x w2 where x: "read_stocks check found ids w1 = (x, w2)" by fastforce
    with Cons.IH [of w1] Cons.prems Some have "x = Inl ErrNotFound" by auto
    with Some r x show ?thesis by (simp add: bind_io_def)
  qed
qed simp

lemma read_stocks_asks:
  "\<forall>k o1. found k = Some o1 \<longrightarrow> check o1 = check' o1 \<Longrightarrow>
   read_stocks check found ids = read_stocks check' found ids"
proof (induction ids)
  case (Cons k ids)
  then show ?case by (cases "found k") (simp_all add: readOfferStock_def)
qed simp

text \<open>A store that does not answer never fails a stock question: when the search could be read
  back, the question answers one reading per offer asked, in the order asked and under the
  same ids, if the search found them all, and \<open>ErrNotFound\<close> if it did not, whatever the stock
  pages do; and the stores are asked about offers kept under this search only.\<close>
theorem stock_question_answers:
  assumes "i \<noteq> []" "ids \<noteq> []" "length ids \<le> 50"
    and found: "collectSearchOffers fuel (store_repository env ttl) i w = (Inr found, w1)"
  shows "((\<forall>k \<in> set ids. found k \<noteq> None) \<longrightarrow>
        (\<exists>rs w'. CheckOfferStock fuel (store_repository env ttl) (Some check) i ids w = (Inr rs, w')
           \<and> map StockOfferID rs = ids))
    \<and> ((\<exists>k \<in> set ids. found k = None) \<longrightarrow>
        fst (CheckOfferStock fuel (store_repository env ttl) (Some check) i ids w) = Inl ErrNotFound)
    \<and> ((\<forall>o1. kept_under w i o1 \<longrightarrow> check o1 = check' o1) \<longrightarrow>
        CheckOfferStock fuel (store_repository env ttl) (Some check') i ids w
          = CheckOfferStock fuel (store_repository env ttl) (Some check) i ids w)"
proof -
  have run: "CheckOfferStock fuel (store_repository env ttl) (Some c) i ids w = read_stocks c found ids w1" for c
    using assms by (simp add: CheckOfferStock_def limit_defs bind_io_def)
  have names: "found k = Some o1 \<Longrightarrow> OfferID o1 = k \<and> kept_under w i o1" for k o1
    using store_pages.collected_names [OF found] by (simp add: names_offers_def)
  show ?thesis unfolding run
    using read_stocks_known [of ids found check w1] read_stocks_unknown [of ids found check w1]
      read_stocks_asks [of found check check' ids] names by force
qed

section \<open>Carts\<close>

definition known_lines :: "(string \<rightharpoonup> offer) \<Rightarrow> cart_request list \<Rightarrow> cart_line list" where
  "known_lines found requests = map (\<lambda>r. cart_line_of (the (found (RequestOfferID r))) r) requests"

lemma known_lines_simps [simp]:
  "known_lines found [] = []"
  "known_lines found (r # rs) = cart_line_of (the (found (RequestOfferID r))) r # known_lines found rs"
  by (simp_all add: known_lines_def)

definition line_domain :: "(string \<Rightarrow> string option) \<Rightarrow> cart_line \<Rightarrow> string" where
  "line_domain host l = offer_domain host (LineOffer l)"

definition stores_seen :: "'a list \<Rightarrow> 'a list" where
  "stores_seen xs = rev (remdups (rev xs))"

lemma stores_seen_simps [simp]:
  "stores_seen [] = []"
  "stores_seen (xs @ [x]) = (if x \<in> set xs then stores_seen xs else stores_seen xs @ [x])"
  "set (stores_seen xs) = set xs" "distinct (stores_seen xs)"
  by (simp_all add: stores_seen_def)

definition grouped :: "(string \<Rightarrow> string option) \<Rightarrow> cart_line list \<Rightarrow> (string \<rightharpoonup> cart_line list)" where
  "grouped host ls d =
     (if d \<in> line_domain host ` set ls then Some (filter (\<lambda>l. line_domain host l = d) ls) else None)"

lemma line_domain_of [simp]: "line_domain host (cart_line_of it r) = offer_domain host it"
  by (simp add: line_domain_def cart_line_of_def)

lemma grouped_snoc:
  "grouped host (ls @ [l]) = (grouped host ls)(line_domain host l \<mapsto>
     (case grouped host ls (line_domain host l) of None \<Rightarrow> [l] | Some old \<Rightarrow> old @ [l]))"
  by (auto simp: grouped_def fun_eq_iff filter_empty_conv image_iff)

lemma group_lines_run:
  "\<forall>r \<in> set rs. found (RequestOfferID r) \<noteq> None \<Longrightarrow>
   group_lines host found rs (stores_seen (map (line_domain host) ls)) (grouped host ls)
     = Inr (stores_seen (map (line_domain host) (ls @ known_lines found rs)),
            grouped host (ls @ known_lines found rs))"
proof (induction rs arbitrary: ls)
  case (Cons r rs)
  then obtain it where it: "found (RequestOfferID r) = Some it" by auto
  let ?l = "cart_line_of it r"
  have step: "group_lines host found (r # rs) (stores_seen (map (line_domain host) ls)) (grouped host ls)
      = group_lines host found rs (stores_seen (map (line_domain host) (ls @ [?l]))) (grouped host (ls @ [?l]))"
  proof (cases "offer_domain host it \<in> line_domain host ` set ls")
    case True
    then obtain old where "grouped host ls (offer_domain host it) = Some old" by (simp add: grouped_def)
    with True it show ?thesis by (simp add: grouped_snoc Let_def)
  next
    case False
    then have "grouped host ls (offer_domain host it) = None" by (simp add: grouped_def)
    with False it show ?thesis by (simp add: grouped_snoc Let_def)
  qed
  from Cons.IH [of "ls @ [?l]"] Cons.prems show ?case
    unfolding step by (simp add: it)
qed simp

lemma group_lines_unknown:
  "\<exists>r \<in> set rs. found (RequestOfferID r) = None \<Longrightarrow> group_lines host found rs ds gs = Inl ErrNotFound"
  by (induction rs arbitrary: ds gs) (auto simp: Let_def split: option.split)

lemma quoteCheckout_total:
  "\<exists>c' w'. quoteCheckout quoter c ls a w = (Inr c', w') \<and> CheckoutDomain c' = CheckoutDomain c
     \<and> CheckoutLines c' = CheckoutLines c \<and> CheckoutLinkURL c' = CheckoutLinkURL c"
proof -
  obtain r w1 where "quoter (CheckoutDomain c) ls a w = (r, w1)" by fastforce
  then show ?thesis by (cases r) (simp_all add: quoteCheckout_def bind_io_def try_io_def return_io_def)
qed

lemma planCheckout_simps [simp]:
  "CheckoutDomain (planCheckout linker d ls) = d"
  "CheckoutLines (planCheckout linker d ls) = map checkout_line_of ls"
  by (simp_all add: planCheckout_def Let_def split: option.split)

lemma plan_checkouts_run:
  "\<exists>cs w'. plan_checkouts linker quotes address groups ds w = (Inr cs, w')
     \<and> map CheckoutDomain cs = ds
     \<and> map CheckoutLines cs = map (\<lambda>d. map checkout_line_of (case groups d of None \<Rightarrow> [] | Some ls \<Rightarrow> ls)) ds"
proof (induction ds arbitrary: w)
  case (Cons d ds)
  let ?ls = "case groups d of None \<Rightarrow> [] | Some ls \<Rightarrow> ls" and ?plan = "planCheckout linker d"
  have "\<exists>c w1. (case (address, quotes) of
                    (Some a, Some quoter) \<Rightarrow> quoteCheckout quoter (?plan ?ls) ?ls a
                  | _ \<Rightarrow> return_io (?plan ?ls)) w = (Inr c, w1)
      \<and> CheckoutDomain c = d \<and> CheckoutLines c = map checkout_line_of ?ls"
  proof (cases "address = None \<or> quotes = None")
    case True
    then show ?thesis by (cases address; cases quotes) (simp_all add: return_io_def)
  next
    case False
    then obtain a quoter where "address = Some a" "quotes = Some quoter" by auto
    with quoteCheckout_total [of quoter "?plan ?ls" ?ls a w] show ?thesis by auto
  qed
  then obtain c w1 where c: "(case (address, quotes) of
                    (Some a, Some quoter) \<Rightarrow> quoteCheckout quoter (?plan ?ls) ?ls a
                  | _ \<Rightarrow> return_io (?plan ?ls)) w = (Inr c, w1)" "CheckoutDomain c = d"
      "CheckoutLines c = map checkout_line_of ?ls" by blast
  obtain cs w2 where "plan_checkouts linker quotes address groups ds w1 = (Inr cs, w2)"
      "map CheckoutDomain cs = ds"
      "map CheckoutLines cs = map (\<lambda>d. map checkout_line_of (case groups d of None \<Rightarrow> [] | Some ls \<Rightarrow> ls)) ds"
    using Cons by blast
  with c show ?case by (simp add: Let_def bind_io_def return_io_def)
qed (simp add: return_io_def)

text \<open>A cart falls apart by store, and no store can fail it: for requests that are all in
  order and name offers of the search, there is one checkout per store, in the order the
  stores are first named; each holds exactly the lines of its store, in the order they were
  asked; a quote that fails changes none of it; and one unknown offer refuses the whole
  cart.\<close>
theorem cart_falls_apart_by_store:
  assumes "i \<noteq> []" "requests \<noteq> []" "length requests \<le> 50" "\<forall>r \<in> set requests. \<not> bad_request r"
    and "\<forall>a. address = Some a \<longrightarrow> TrimSpace (AddressCountry a) \<noteq> []"
    and found: "collectSearchOffers fuel (CheckoutRepository s) i w = (Inr found, w1)"
  defines "all \<equiv> known_lines found requests"
  shows "((\<forall>r \<in> set requests. found (RequestOfferID r) \<noteq> None) \<longrightarrow>
      (\<exists>cs w'. CheckoutLinks fuel host s i requests address w = (Inr cs, w')
         \<and> map CheckoutDomain cs = stores_seen (map (line_domain host) all)
         \<and> map CheckoutLines cs = map (\<lambda>d. map checkout_line_of (filter (\<lambda>l. line_domain host l = d) all))
             (stores_seen (map (line_domain host) all))))
    \<and> ((\<exists>r \<in> set requests. found (RequestOfferID r) = None) \<longrightarrow>
      CheckoutLinks fuel host s i requests address w = (Inl ErrNotFound, w1))"
proof -
  have run: "CheckoutLinks fuel host s i requests address w =
      (case group_lines host found requests [] Map.empty of
          Inl e \<Rightarrow> fail_io e
        | Inr (domains, groups) \<Rightarrow>
            plan_checkouts (CheckoutLinker s) (CheckoutQuoter s) address groups domains) w1"
    using assms(1-5) found
    by (auto simp: CheckoutLinks_def limit_defs bind_io_def list_ex_iff split: option.split)
  have empty: "grouped host [] = Map.empty" by (simp add: grouped_def fun_eq_iff)
  show ?thesis
  proof (intro conjI impI)
    assume "\<forall>r \<in> set requests. found (RequestOfferID r) \<noteq> None"
    from group_lines_run [OF this, of host "[]"]
    have g: "group_lines host found requests [] Map.empty
        = Inr (stores_seen (map (line_domain host) all), grouped host all)"
      by (simp add: all_def empty)
    have "map (\<lambda>d. map checkout_line_of (case grouped host all d of None \<Rightarrow> [] | Some ls \<Rightarrow> ls))
          (stores_seen (map (line_domain host) all)) =
        map (\<lambda>d. map checkout_line_of (filter (\<lambda>l. line_domain host l = d) all))
          (stores_seen (map (line_domain host) all))"
      by (rule map_cong) (auto simp: grouped_def)
    moreover obtain cs w' where "plan_checkouts (CheckoutLinker s) (CheckoutQuoter s) address (grouped host all)
          (stores_seen (map (line_domain host) all)) w1 = (Inr cs, w')"
        "map CheckoutDomain cs = stores_seen (map (line_domain host) all)"
        "map CheckoutLines cs = map (\<lambda>d. map checkout_line_of (case grouped host all d of None \<Rightarrow> [] | Some ls \<Rightarrow> ls))
          (stores_seen (map (line_domain host) all))"
      using plan_checkouts_run by blast
    ultimately show "\<exists>cs w'. CheckoutLinks fuel host s i requests address w = (Inr cs, w')
         \<and> map CheckoutDomain cs = stores_seen (map (line_domain host) all)
         \<and> map CheckoutLines cs = map (\<lambda>d. map checkout_line_of (filter (\<lambda>l. line_domain host l = d) all))
             (stores_seen (map (line_domain host) all))"
      unfolding run g by simp
  next
    assume "\<exists>r \<in> set requests. found (RequestOfferID r) = None"
    from group_lines_unknown [OF this]
    show "CheckoutLinks fuel host s i requests address w = (Inl ErrNotFound, w1)"
      unfolding run by (simp add: fail_io_def)
  qed
qed

section \<open>Orders\<close>

lemma order_lines_hosted:
  "\<forall>r \<in> set rs. found (RequestOfferID r) \<noteq> None \<Longrightarrow> d \<noteq> [] \<Longrightarrow>
   order_lines host found rs d ls =
     (if \<forall>l \<in> set (known_lines found rs). line_domain host l = d then Inr (d, ls @ known_lines found rs)
      else Inl ErrInvalid)"
proof (induction rs arbitrary: ls)
  case (Cons r rs)
  then obtain it where "found (RequestOfferID r) = Some it" by auto
  with Cons show ?case by (cases "offer_domain host it = d") (simp_all add: Let_def)
qed simp

lemma order_lines_open:
  "\<forall>r \<in> set rs. found (RequestOfferID r) \<noteq> None \<Longrightarrow>
   hosted = dropWhile (\<lambda>l. line_domain host l = []) (known_lines found rs) \<Longrightarrow>
   order_lines host found rs [] ls =
     (if \<forall>l \<in> set hosted. line_domain host l = line_domain host (hd hosted)
      then Inr (if hosted = [] then [] else line_domain host (hd hosted), ls @ known_lines found rs)
      else Inl ErrInvalid)"
proof (induction rs arbitrary: ls)
  case (Cons r rs)
  then obtain it where it: "found (RequestOfferID r) = Some it" by auto
  show ?case
  proof (cases "offer_domain host it = []")
    case True
    then have "hosted = dropWhile (\<lambda>l. line_domain host l = []) (known_lines found rs)"
      using Cons.prems(2) it by simp
    from Cons.IH [OF _ this, of "ls @ [cart_line_of it r]"] Cons.prems(1) True it show ?thesis
      by (simp add: Let_def)
  next
    case False
    then have "hosted = cart_line_of it r # known_lines found rs" using Cons.prems(2) it by simp
    with False it order_lines_hosted [of rs found "offer_domain host it" host "ls @ [cart_line_of it r]"]
      Cons.prems(1) show ?thesis by (simp add: Let_def)
  qed
qed simp

text \<open>One order, one store: the lines of an order are the requests', in their order; once a
  line has a host, every later one has the same host, and it is the order's domain.  What
  comes before is lines without a host, which the rule lets through; two different hosts are
  refused with \<open>ErrInvalid\<close>.\<close>
theorem order_has_one_store:
  fixes host :: "string \<Rightarrow> string option"
  assumes "\<forall>r \<in> set requests. found (RequestOfferID r) \<noteq> None"
  defines "all \<equiv> known_lines found requests"
  defines "hosted \<equiv> dropWhile (\<lambda>l. line_domain host l = []) all"
  shows "order_lines host found requests [] [] =
    (if \<forall>l \<in> set hosted. line_domain host l = line_domain host (hd hosted)
     then Inr (if hosted = [] then [] else line_domain host (hd hosted), all)
     else Inl ErrInvalid)"
  using order_lines_open [OF assms(1) hosted_def [unfolded all_def, THEN meta_eq_to_obj_eq], of "[]"]
  unfolding all_def append_Nil .

text \<open>An order is reached only through the search that placed it: asked or reported under
  another search it answers \<open>ErrOrderNotFound\<close>, as an order that never existed does, and
  nothing is written; what is answered under a search is an order of that search.\<close>
theorem order_behind_its_search:
  assumes "OrdersRepository s = Some (store_orders ttl)"
  shows "(Service_GetOrder s i k w = (Inr o1, w') \<longrightarrow>
        OrderSearchID o1 = i \<and> row_of Orders k (wdb w) = Some o1 \<and> wdb w' = wdb w)
    \<and> ((\<forall>o1. row_of Orders k (wdb w) = Some o1 \<longrightarrow> OrderSearchID o1 \<noteq> i) \<and> calm w \<and> \<not> tx_open w
        \<and> i \<noteq> [] \<and> k \<noteq> [] \<longrightarrow>
        fst (Service_GetOrder s i k w) = Inl ErrOrderNotFound
        \<and> (TrimSpace num \<noteq> [] \<and> length (TrimSpace num) \<le> 64 \<longrightarrow>
            fst (Service_ReportOrder s i k num w) = Inl ErrOrderNotFound
            \<and> wdb (snd (Service_ReportOrder s i k num w)) = wdb w))"
proof (intro conjI impI)
  assume "Service_GetOrder s i k w = (Inr o1, w')"
  with assms show "OrderSearchID o1 = i" "row_of Orders k (wdb w) = Some o1" "wdb w' = wdb w"
    by (auto simp: Service_GetOrder_def store_orders_def Store_GetOrder_def go_io split: if_splits)
next
  assume *: "(\<forall>o1. row_of Orders k (wdb w) = Some o1 \<longrightarrow> OrderSearchID o1 \<noteq> i) \<and> calm w \<and> \<not> tx_open w
        \<and> i \<noteq> [] \<and> k \<noteq> []"
  then have get: "Service_GetOrder s i k w = (Inl ErrOrderNotFound, w\<lparr>calls := Suc (calls w)\<rparr>)"
    using assms by (auto simp: Service_GetOrder_def store_orders_def Store_GetOrder_def bind_io_def
        map_failure_def calm_Get fail_io_def return_io_def split: option.split)
  then show "fst (Service_GetOrder s i k w) = Inl ErrOrderNotFound" by simp
  assume "TrimSpace num \<noteq> [] \<and> length (TrimSpace num) \<le> 64"
  then have "Service_ReportOrder s i k num w = (Inl ErrOrderNotFound, w\<lparr>calls := Suc (calls w)\<rparr>)"
    using assms get by (simp add: Service_ReportOrder_def Let_def limit_defs bind_io_def)
  then show "fst (Service_ReportOrder s i k num w) = Inl ErrOrderNotFound"
    "wdb (snd (Service_ReportOrder s i k num w)) = wdb w" by simp_all
qed

text \<open>The first order a query finds stays the first one when it is updated in place.\<close>

lemma update_in_place: "k \<notin> fst ` set xs \<Longrightarrow> AList.update k v (xs @ (k, u) # ys) = xs @ (k, v) # ys"
  by (induction xs) auto

lemma filter_first:
  assumes "filter P (map snd rows) = o1 # rest"
  obtains k xs ys where "rows = xs @ (k, o1) # ys" "filter P (map snd xs) = []" "P o1"
proof -
  from assms obtain us vs where us: "map snd rows = us @ o1 # vs" "\<forall>u \<in> set us. \<not> P u" "P o1"
    by (auto simp: filter_eq_Cons_iff)
  then obtain xs r ys where "rows = xs @ r # ys" "us = map snd xs" "o1 = snd r"
    by (auto simp: map_eq_append_conv Cons_eq_map_conv map_eq_Cons_conv)
  with us(2,3) that [of xs "fst r" ys] show thesis by (simp add: filter_empty_conv)
qed

definition orders_keyed :: "database \<Rightarrow> bool" where
  "orders_keyed d \<longleftrightarrow> distinct (map fst (db_orders d)) \<and> (\<forall>(k, o1) \<in> set (db_orders d). OrderID o1 = k)"

definition names_order :: "string \<Rightarrow> string \<Rightarrow> order \<Rightarrow> bool" where
  "names_order domain num o1 \<longleftrightarrow> OrderDomain o1 = domain \<and> OrderStoreOrder o1 = num"

definition first_named :: "string \<Rightarrow> string \<Rightarrow> database \<Rightarrow> order option" where
  "first_named domain num d = find (names_order domain num) (map snd (db_orders d))"

lemma find_filter: "find P xs = (case filter P xs of [] \<Rightarrow> None | x # _ \<Rightarrow> Some x)"
  by (induction xs) auto

lemma FindOrderByStoreOrder_calm:
  "calm w \<Longrightarrow> \<not> tx_open w \<Longrightarrow> FindOrderByStoreOrder domain num w =
     (case first_named domain num (wdb w) of None \<Rightarrow> Inl ErrOrderNotFound | Some o1 \<Rightarrow> Inr o1,
      w\<lparr>calls := Suc (calls w)\<rparr>)"
proof -
  assume w: "calm w" "\<not> tx_open w"
  have q: "run_query (store_order_query domain num) rows = take 1 (filter (names_order domain num) rows)" for rows
    by (simp add: run_query_def store_order_query_def names_order_def [abs_def])
  show ?thesis using w
    by (simp add: FindOrderByStoreOrder_def bind_io_def calm_List q first_named_def find_filter fail_io_def
        return_io_def split: list.split)
qed

lemma first_named_update:
  assumes keyed: "orders_keyed d" and first: "first_named domain num d = Some o1"
    and names: "names_order domain num o2"
  shows "first_named domain num (put_row Orders (OrderID o1) o2 d) = Some o2"
proof -
  obtain rest where "filter (names_order domain num) (map snd (db_orders d)) = o1 # rest"
    using first by (auto simp: first_named_def find_filter split: list.splits)
  then obtain k xs ys where rows: "db_orders d = xs @ (k, o1) # ys"
    "filter (names_order domain num) (map snd xs) = []" by (rule filter_first)
  have "OrderID o1 = k" "k \<notin> fst ` set xs" using keyed rows(1) by (auto simp: orders_keyed_def)
  then have "db_orders (put_row Orders (OrderID o1) o2 d) = xs @ (k, o2) # ys"
    by (simp add: put_row_def Orders_def rows(1) update_in_place)
  then show ?thesis using rows(2) names by (simp add: first_named_def find_filter)
qed

lemma first_named_row:
  assumes "orders_keyed d" "first_named domain num d = Some o1"
  shows "row_of Orders (OrderID o1) d = Some o1"
proof -
  from assms(2) have "o1 \<in> set (map snd (db_orders d))"
    unfolding first_named_def find_Some_iff by (metis nth_mem)
  with assms(1) have "(OrderID o1, o1) \<in> set (db_orders d)" by (auto simp: orders_keyed_def)
  with assms(1) show ?thesis by (simp add: row_of_def orders_keyed_def)
qed

lemma confirmed_again:
  assumes s: "OrdersRepository s = Some (store_orders ttl)"
    and run: "ConfirmOrder s domain num target w = (Inr o2, w1)" and w: "calm w" "\<not> tx_open w"
    and keyed: "orders_keyed (wdb w)" and w2: "calm w2" "\<not> tx_open w2" "wdb w2 = wdb w1"
  shows "\<exists>w3. ConfirmOrder s domain num target w2 = (Inr o2, w3) \<and> wdb w3 = wdb w2 \<and> OrderStatus o2 = target"
proof -
  let ?w = "w\<lparr>calls := Suc (calls w)\<rparr>"
  from run s w obtain o1 where dn: "domain \<noteq> []" "num \<noteq> []"
    and first: "first_named domain num (wdb w) = Some o1"
    and rest: "(if OrderStatus o1 = target then return_io o1
        else MoveOrderStatus (OrderID o1) OrderPending target) ?w = (Inr o2, w1)"
    by (auto simp: ConfirmOrder_def store_orders_def bind_io_def FindOrderByStoreOrder_calm fail_io_run
        split: if_splits option.splits)
  have named: "names_order domain num o1" using first by (auto simp: first_named_def find_Some_iff)
  have "first_named domain num (wdb w1) = Some o2 \<and> OrderStatus o2 = target"
  proof (cases "OrderStatus o1 = target")
    case True
    with rest first show ?thesis by (auto simp: return_io_def)
  next
    case False
    with rest have "MoveOrderStatus (OrderID o1) OrderPending target ?w = (Inr o2, w1)" by simp
    then obtain o0 n where "row_of Orders (OrderID o1) (wdb w) = Some o0"
        "o2 = o0\<lparr>OrderStatus := target, OrderUpdatedAt := n\<rparr>" "wdb w1 = put_row Orders (OrderID o1) o2 (wdb w)"
      using w(2) by (elim MoveOrderStatus_Inr) simp_all
    moreover have "row_of Orders (OrderID o1) (wdb w) = Some o1" by (rule first_named_row [OF keyed first])
    ultimately show ?thesis using first_named_update [OF keyed first, of o2] named
      by (simp add: names_order_def)
  qed
  with s dn w2 show ?thesis
    by (simp add: ConfirmOrder_def store_orders_def bind_io_def FindOrderByStoreOrder_calm return_io_def)
qed

section \<open>A search with one offer\<close>

definition found_item :: item where
  "found_item = \<lparr>ItemID = ''i'', ItemSearchID = ''s'', ItemGame = GameMagic, ItemPosition = 0,
     ItemSequence = 1, ItemOriginalName = ''Opt'', ItemNormalizedName = ''opt'', ItemQuantity = 1,
     ItemStatus = ItemFound, ItemAttempts = 1, ItemSource = [], ItemErrorCode = [], ItemErrorMessage = [],
     ItemOffers = [], ItemLeaseOwner = [], ItemLeaseUntil = None, ItemVerifyStock = False,
     ItemMatch = MatchExact, ItemKind = KindSingle, ItemFaults = []\<rparr>"

definition found_db :: database where
  "found_db =
     put_row ItemOfferEntries ''i'' \<lparr>EntryOffers = [demo_offer], EntryExpiresAt = hour, EntryIndexed = False\<rparr>
    (put_row Items ''i'' \<lparr>KeptItem = found_item, KeptAvailableAt = hour, KeptItemExpiresAt = hour,
       KeptDamaged = False\<rparr>
    (put_row Searches ''s'' \<lparr>KeptJob = new_job ''s'' GameMagic 1 0, KeptItemIDs = [''i''],
       KeptExpiresAt = hour\<rparr> empty_db))"

definition demo_repository :: search_repository where
  "demo_repository = store_repository plain_env hour"

definition found_run :: "(failure + (string \<rightharpoonup> offer)) \<times> world" where
  "found_run = collectSearchOffers 2 demo_repository ''s'' (calm_world found_db)"

lemma found_run_answers:
  "\<exists>found w1. collectSearchOffers 2 demo_repository ''s'' (calm_world found_db) = (Inr found, w1)
     \<and> found ''offer_1'' = Some demo_offer"
proof -
  have "case fst found_run of Inl _ \<Rightarrow> False | Inr found \<Rightarrow> found ''offer_1'' = Some demo_offer" by code_simp
  then show ?thesis
    by (cases "fst found_run") (auto simp: found_run_def intro!: exI prod_eqI)
qed

theorem collecting_ends_in_search_witness:
  "\<exists>found w'. collectSearchOffers 2 demo_repository ''s'' (calm_world found_db) = (Inr found, w')
     \<and> kept_under (calm_world found_db) ''s'' demo_offer"
proof -
  obtain found w1 where run: "collectSearchOffers 2 demo_repository ''s'' (calm_world found_db) = (Inr found, w1)"
    and o1: "found ''offer_1'' = Some demo_offer"
    using found_run_answers by blast
  have "rows_left (calm_world found_db) ''s'' 0 < 2" by code_simp
  from collecting_ends_in_search [OF this, of plain_env hour w1 found] run o1 show ?thesis
    unfolding demo_repository_def by auto
qed

theorem stock_question_answers_witness:
  "\<exists>rs w'. CheckOfferStock 2 demo_repository (Some (\<lambda>_. fail_io (Failure ''down''))) ''s'' [''offer_1'']
       (calm_world found_db) = (Inr rs, w') \<and> map StockOfferID rs = [''offer_1'']"
proof -
  obtain found w1 where run: "collectSearchOffers 2 demo_repository ''s'' (calm_world found_db) = (Inr found, w1)"
    and o1: "found ''offer_1'' = Some demo_offer"
    using found_run_answers by blast
  have "\<forall>k \<in> set [''offer_1'']. found k \<noteq> None" using o1 by simp
  then show ?thesis unfolding demo_repository_def
    by (intro stock_question_answers [THEN conjunct1, rule_format, OF _ _ _ run [unfolded demo_repository_def]]) simp_all
qed

definition demo_checkout :: checkout_service where
  "demo_checkout = \<lparr>CheckoutRepository = demo_repository, CheckoutLinker = None,
     CheckoutQuoter = Some (\<lambda>_ _ _. fail_io (Failure ''down''))\<rparr>"

definition demo_request :: "string \<Rightarrow> cart_request" where
  "demo_request k = \<lparr>RequestOfferID = k, RequestQuantity = 2\<rparr>"

theorem cart_falls_apart_by_store_witness:
  "\<exists>cs w'. CheckoutLinks 2 (\<lambda>_. Some ''shop.cl'') demo_checkout ''s'' [demo_request ''offer_1'']
       (Some \<lparr>AddressCountry = ''CL'', AddressRegion = [], AddressCity = [], AddressPostcode = []\<rparr>)
       (calm_world found_db) = (Inr cs, w') \<and> map CheckoutDomain cs = [''shop.cl'']"
proof -
  obtain found w1 where run: "collectSearchOffers 2 demo_repository ''s'' (calm_world found_db) = (Inr found, w1)"
    and o1: "found ''offer_1'' = Some demo_offer"
    using found_run_answers by blast
  let ?a = "\<lparr>AddressCountry = ''CL'', AddressRegion = [], AddressCity = [], AddressPostcode = []\<rparr>"
  have run': "collectSearchOffers 2 (CheckoutRepository demo_checkout) ''s'' (calm_world found_db) = (Inr found, w1)"
    using run by (simp add: demo_checkout_def)
  have ok: "\<forall>r \<in> set [demo_request ''offer_1'']. \<not> bad_request r"
    by (simp add: bad_request_def demo_request_def limit_defs)
  have "TrimSpace ''CL'' \<noteq> []" by code_simp
  then have land: "\<forall>a. Some ?a = Some a \<longrightarrow> TrimSpace (AddressCountry a) \<noteq> []" by simp
  have first: "stores_seen [''shop.cl''] = [''shop.cl'']" by (simp add: stores_seen_def)
  have known: "\<forall>r \<in> set [demo_request ''offer_1'']. found (RequestOfferID r) \<noteq> None"
    using o1 by (simp add: demo_request_def)
  from cart_falls_apart_by_store [OF _ _ _ ok land run', where host = "\<lambda>_. Some ''shop.cl''",
      THEN conjunct1, THEN mp, OF _ _ _ known] known
  obtain cs w' where "CheckoutLinks 2 (\<lambda>_. Some ''shop.cl'') demo_checkout ''s'' [demo_request ''offer_1'']
       (Some ?a) (calm_world found_db) = (Inr cs, w')"
      "map CheckoutDomain cs = stores_seen (map (line_domain (\<lambda>_. Some ''shop.cl''))
         (known_lines found [demo_request ''offer_1'']))" by auto
  then show ?thesis by (simp add: offer_domain_def first)
qed

theorem order_has_one_store_witness:
  "order_lines (\<lambda>u. if u = ''b'' then Some ''b.cl'' else None)
     [''1'' \<mapsto> demo_offer\<lparr>OfferURL := ''a''\<rparr>, ''2'' \<mapsto> demo_offer\<lparr>OfferURL := ''b''\<rparr>]
     [demo_request ''1'', demo_request ''2''] [] []
   = Inr (''b.cl'', [cart_line_of (demo_offer\<lparr>OfferURL := ''a''\<rparr>) (demo_request ''1''),
                   cart_line_of (demo_offer\<lparr>OfferURL := ''b''\<rparr>) (demo_request ''2'')])"
  using order_has_one_store [of "[demo_request ''1'', demo_request ''2'']"
      "[''1'' \<mapsto> demo_offer\<lparr>OfferURL := ''a''\<rparr>, ''2'' \<mapsto> demo_offer\<lparr>OfferURL := ''b''\<rparr>]"
      "\<lambda>u. if u = ''b'' then Some ''b.cl'' else None"]
  by (simp add: demo_request_def offer_domain_def)

theorem order_behind_its_search_witness:
  "fst (Service_GetOrder \<lparr>OrdersSearches = demo_repository, OrdersRepository = Some (store_orders hour),
      OrdersPlacer = None, OrdersLinker = None\<rparr> ''search_2'' ''order_1'' order_world) = Inl ErrOrderNotFound"
  using order_behind_its_search [of "\<lparr>OrdersSearches = demo_repository,
      OrdersRepository = Some (store_orders hour), OrdersPlacer = None, OrdersLinker = None\<rparr>" hour
      "''search_2''" "''order_1''" order_world]
  by (simp add: order_world_def coll_simps demo_order_def)

end
