(* ===== verification/AnswerProperties.thy ===== *)
theory AnswerProperties
  imports Answers ServiceProperties
begin

text \<open>
  What the handlers of Answers promise: every request is answered and only a broken server
  names an incident, nothing but health and a signed webhook gets in without the token, pages
  stay in bounds, and a store may deliver the same webhook again.
\<close>

section \<open>Every request is answered\<close>

definition answers :: "'a io \<Rightarrow> bool" where
  "answers m \<longleftrightarrow> (\<forall>w. \<exists>x w'. m w = (Inr x, w'))"

lemma answers_prims [simp, intro]: "answers (return_io x)" "answers now" "answers (try_io m)"
  by (auto simp: answers_def return_io_def now_def try_io_def split: prod.split)

lemma answers_bind [intro]: "answers m \<Longrightarrow> (\<And>x. answers (f x)) \<Longrightarrow> answers (bind_io m f)"
  unfolding answers_def bind_io_def by (metis (no_types, lifting) case_prod_conv old.sum.simps(6))

lemma answers_branches:
  "(c \<Longrightarrow> answers a) \<Longrightarrow> (\<not> c \<Longrightarrow> answers b) \<Longrightarrow> answers (if c then a else b)"
  "answers n \<Longrightarrow> (\<And>x. answers (s x)) \<Longrightarrow> answers (case opt of None \<Rightarrow> n | Some x \<Rightarrow> s x)"
  "(\<And>e. answers (l e)) \<Longrightarrow> (\<And>x. answers (r x)) \<Longrightarrow> answers (case su of Inl e \<Rightarrow> l e | Inr x \<Rightarrow> r x)"
  "(\<And>a b. answers (g a b)) \<Longrightarrow> answers (case p of (a, b) \<Rightarrow> g a b)"
  by (simp_all split: option.split sum.split prod.split)

lemma answers_queryGameSources: "answers (queryGameSources env p ss q)"
  unfolding answers_def
  using queryGameSources_eq provider_reply_total ask_sources_total by (metis surj_pair)

lemma answers_shape: "answers (shape_offers env s game q items)"
  unfolding shape_offers_def keepGameSealed_def applyPrintImages_def Let_def
  by (intro answers_bind answers_branches answers_prims)

lemma answers_FindCardOffers: "answers (FindCardOffers env s game q)"
  unfolding FindCardOffers_def collectOffers_def loadOfferCache_def saveOfferCache_def Let_def
  by (intro answers_bind answers_branches answers_prims answers_queryGameSources answers_shape)


definition known_statuses :: "int list" where
  "known_statuses = [200, 201, 202, 400, 401, 404, 409, 422, 500, 503]"

text \<open>A status the API documents; a success carries a body that is no error, and an error body
  names an incident exactly when the server broke.\<close>

definition well_answered :: "http_reply \<Rightarrow> bool" where
  "well_answered reply \<longleftrightarrow> fst reply \<in> set known_statuses \<and>
     (case snd reply of
        ErrorAnswer code message rid incident \<Rightarrow> 400 \<le> fst reply \<and> (incident \<noteq> [] \<longleftrightarrow> 500 \<le> fst reply) \<and> code \<noteq> []
      | PlainAnswer _ \<Rightarrow> 400 \<le> fst reply
      | _ \<Rightarrow> fst reply < 300)"

definition replies :: "http_reply io \<Rightarrow> bool" where
  "replies m \<longleftrightarrow> (\<forall>w. \<exists>reply w'. m w = (Inr reply, w') \<and> well_answered reply)"

lemma replies_return: "well_answered reply \<Longrightarrow> replies (return_io reply)"
  by (simp add: replies_def return_io_def)

lemma replies_bind: "answers m \<Longrightarrow> (\<And>x. replies (f x)) \<Longrightarrow> replies (bind_io m f)"
  unfolding answers_def replies_def bind_io_def by (metis (no_types, lifting) case_prod_conv old.sum.simps(6))

lemma replies_branches:
  "(c \<Longrightarrow> replies a) \<Longrightarrow> (\<not> c \<Longrightarrow> replies b) \<Longrightarrow> replies (if c then a else b)"
  "replies n \<Longrightarrow> (\<And>x. replies (s x)) \<Longrightarrow> replies (case opt of None \<Rightarrow> n | Some x \<Rightarrow> s x)"
  "(\<And>e. replies (l e)) \<Longrightarrow> (\<And>x. replies (r x)) \<Longrightarrow> replies (case su of Inl e \<Rightarrow> l e | Inr x \<Rightarrow> r x)"
  "(\<And>a b. replies (g a b)) \<Longrightarrow> replies (case p of (a, b) \<Rightarrow> g a b)"
  by (simp_all split: option.split sum.split prod.split)

definition described :: "description \<Rightarrow> bool" where
  "described d \<longleftrightarrow> DescStatus d \<in> set known_statuses \<and> 400 \<le> DescStatus d \<and> DescCode d \<noteq> []"

lemma replies_WriteDescription: "described d \<Longrightarrow> replies (WriteDescription rid d)"
  unfolding replies_def WriteDescription_def described_def
  by (auto simp: bind_io_def now_def return_io_def well_answered_def)

lemma described_Describe [simp]: "described (Describe e)"
  by (cases e) (simp_all add: Describe_def described_def description_defs known_statuses_def)

lemma described_guards [simp]: "described unauthorized" "described missingIdempotencyKey"
  by (simp_all add: described_def description_defs known_statuses_def)

lemma replies_reportError: "replies (reportError rid e)"
  unfolding reportError_def by (rule replies_WriteDescription) simp

lemma replies_answer_with: "(\<And>x. well_answered (render x)) \<Longrightarrow> replies (answer_with rid call render)"
  unfolding answer_with_def
  by (intro replies_bind answers_prims replies_branches replies_reportError replies_return)

lemma replies_with_key: "(\<And>key. replies (k key)) \<Longrightarrow> replies (with_key r rid k)"
  unfolding with_key_def by (intro replies_branches replies_WriteDescription described_guards)

lemma replies_with_body: "(\<And>b. replies (k b)) \<Longrightarrow> replies (with_body rid body k)"
  unfolding with_body_def by (intro replies_branches replies_reportError)

lemmas reply_rules = replies_answer_with replies_with_key replies_with_body replies_return replies_reportError
  replies_branches

lemma replies_createSearch: "replies (createSearch a r body rid)"
  unfolding createSearch_def
  by (intro reply_rules replies_bind answers_prims) (simp_all add: well_answered_def known_statuses_def)

lemma replies_findCardOffers: "replies (findCardOffers a r rid)"
  unfolding findCardOffers_def
  by (intro reply_rules replies_bind answers_prims answers_FindCardOffers) (simp_all add: well_answered_def known_statuses_def)

lemma replies_webhook: "replies (receiveWooCommerceOrderWebhook a r sent)"
  unfolding receiveWooCommerceOrderWebhook_def
  by (intro reply_rules replies_bind answers_prims) (simp_all add: well_answered_def known_statuses_def)

lemmas handler_defs = getHealth_def listSourceHealth_def listSupportedGames_def getOffer_def getSearch_def
  listResults_def checkStock_def createCheckoutLinks_def placeOrder_def getOrder_def linkOrder_def reportOrder_def
  cancelSearch_api_def getCardMetadata_def autocompleteCards_def resolveCardName_def listStores_def
  refreshStoreInventory_def

lemma replies_handle: "replies (handle a r rid route)"
proof (cases route)
qed (simp_all only: handle.simps replies_createSearch replies_findCardOffers replies_webhook,
     (simp only: handler_defs Let_def, intro reply_rules; simp add: well_answered_def known_statuses_def)+)

lemma replies_BuildHandler: "replies (BuildHandler a r route)"
  unfolding BuildHandler_def identifyRequest_def authenticate_def Let_def
  by (intro replies_bind answers_bind answers_branches answers_prims replies_branches replies_handle
      replies_WriteDescription described_guards)


section \<open>The token\<close>

lemma TrimPrefix_append: "TrimPrefix s p = v \<longleftrightarrow> s = p @ v \<or> s = v \<and> \<not> prefix p s"
  by (auto simp: TrimPrefix_def CutPrefix_def prefix_def split: if_splits option.splits)

definition holds_token :: "api \<Rightarrow> http_request \<Rightarrow> bool" where
  "holds_token a r \<longleftrightarrow> ApiToken a \<noteq> [] \<and>
     (ReqHeader r ''Authorization'' = ''Bearer '' @ ApiToken a
      \<or> ReqHeader r ''Authorization'' = ApiToken a \<and> \<not> prefix ''Bearer '' (ApiToken a))"

lemma authenticate_holds:
  "authenticate (ApiToken a) r rid k = (if holds_token a r then k else WriteDescription rid unauthorized)"
  using TrimPrefix_append [of "ReqHeader r ''Authorization''" "''Bearer ''" "ApiToken a"]
  by (auto simp: authenticate_def Let_def holds_token_def)

lemma WriteDescription_quiet: "DescStatus d < 500 \<Longrightarrow>
  WriteDescription rid d w = (Inr (DescStatus d, ErrorAnswer (DescCode d) (DescMessage d) rid []), w)"
  by (simp add: WriteDescription_def bind_io_def return_io_def)

lemma identifyRequest_run: "\<exists>rid w1. identifyRequest r k w = k rid w1 \<and> wdb w1 = wdb w \<and> calls w1 = calls w"
proof (cases "ReqHeader r ''X-Request-ID'' = [] \<or> 128 < length (ReqHeader r ''X-Request-ID'')")
  case True
  then show ?thesis
    by (intro exI [of _ "''req_'' @ Itoa (clock w (ticks w))"] exI [of _ "w\<lparr>ticks := Suc (ticks w)\<rparr>"])
       (auto simp: identifyRequest_def Let_def bind_io_def now_def return_io_def)
next
  case False
  then show ?thesis by (auto simp: identifyRequest_def Let_def bind_io_def return_io_def)
qed


section \<open>Pages\<close>

text \<open>A page a request asks for is in bounds whatever its query says: the handler hands the
  service a page of 1 to 100 results after a cursor that is not negative, 50 from the start
  where the query says nothing, and any other page is refused with 400 before the service is
  asked.\<close>
theorem pages_in_bounds:
  "(case decodeResultPage r of
      Inr p \<Rightarrow> 0 \<le> PageAfter p \<and> 1 \<le> PageLimit p \<and> PageLimit p \<le> 100
        \<and> (ReqQuery r ''limit'' = [] \<longrightarrow> PageLimit p = 50) \<and> (ReqQuery r ''after'' = [] \<longrightarrow> PageAfter p = 0)
    | Inl e \<Rightarrow> listResults a r rid w =
        (Inr (400, ErrorAnswer ''invalid_request'' ''Request is invalid'' rid []), w))"
proof -
  have "decodeResultPage r = Inr p \<Longrightarrow> 0 \<le> PageAfter p \<and> 1 \<le> PageLimit p \<and> PageLimit p \<le> 100
      \<and> (ReqQuery r ''limit'' = [] \<longrightarrow> PageLimit p = 50) \<and> (ReqQuery r ''after'' = [] \<longrightarrow> PageAfter p = 0)" for p
    by (auto simp: decodeResultPage_def readQueryNumber_def Let_def defaultResultLimit_def maxResultLimit_def
        split: option.splits if_splits)
  moreover have "decodeResultPage r = Inl e \<Longrightarrow> listResults a r rid w =
      (Inr (400, ErrorAnswer ''invalid_request'' ''Request is invalid'' rid []), w)" for e
    by (simp add: listResults_def reportError_def WriteDescription_quiet Describe_def invalidRequest_def describe_def)
  ultimately show ?thesis by (cases "decodeResultPage r") auto
qed

section \<open>A store's webhook\<close>

text \<open>A webhook the store did not sign moves nothing: without a configured secret, or without a
  signature that is the HMAC of the delivered body, the delivery is refused and the world is
  untouched.\<close>
theorem unsigned_webhook_refused:
  assumes "ApiWebhookSecret a = [] \<or> ReqHeader r ''X-WC-Webhook-Signature'' = []
    \<or> ApiSign a (ApiWebhookSecret a) (take 1048576 sent) \<noteq> ReqHeader r ''X-WC-Webhook-Signature''"
  shows "\<exists>status message. receiveWooCommerceOrderWebhook a r (Some sent) w = (Inr (status, PlainAnswer message), w)
    \<and> status = (if ApiWebhookSecret a = [] then 503 else 401)"
  using assms
  by (auto simp: receiveWooCommerceOrderWebhook_def VerifyWebhookSignature_def maxWebhookBodyBytes_def return_io_def)

lemma MoveOrderStatus_calm:
  assumes w: "calm w" "\<not> tx_open w" and row: "row_of Orders i (wdb w) = Some o1"
  shows "OrderStatus o1 = f \<Longrightarrow> \<exists>o2 w'. MoveOrderStatus i f g w = (Inr o2, w')"
    "OrderStatus o1 \<noteq> f \<Longrightarrow> \<exists>w'. MoveOrderStatus i f g w = (Inl ErrOrderConflict, w') \<and> wdb w' = wdb w"
  using assms
  by (auto simp: MoveOrderStatus_def map_failure_def Update_def Transact_def modify_row_def move_order_def
      run_simps calm_runs calm_def call_backend_def Get_def Save_def read_db_def write_db_def mapOrderError_def
      split: option.splits)

lemma ConfirmOrder_refused:
  assumes s: "OrdersRepository s = Some (store_orders ttl)" and keyed: "orders_keyed (wdb w)"
    and w: "calm w" "\<not> tx_open w" and run: "ConfirmOrder s domain num target w = (Inl e, w1)"
    and w2: "calm w2" "\<not> tx_open w2" "wdb w2 = wdb w"
  shows "wdb w1 = wdb w" "\<exists>w3. ConfirmOrder s domain num target w2 = (Inl e, w3) \<and> wdb w3 = wdb w2"
proof -
  have step: "\<exists>r w'. ConfirmOrder s domain num target u = (r, w') \<and> ((\<exists>o2. r = Inr o2) \<and> ok \<or> \<not> ok \<and> r = Inl err \<and> wdb w' = wdb u)"
    if u: "calm u" "\<not> tx_open u" "wdb u = wdb w"
      and ok: "ok = (domain \<noteq> [] \<and> num \<noteq> [] \<and> (case first_named domain num (wdb w) of None \<Rightarrow> False
        | Some o1 \<Rightarrow> OrderStatus o1 = target \<or> OrderStatus o1 = OrderPending))"
      and err: "err = (if domain = [] \<or> num = [] then ErrInvalid
        else case first_named domain num (wdb w) of None \<Rightarrow> ErrOrderNotFound | Some _ \<Rightarrow> ErrOrderConflict)"
    for u ok err
  proof (cases "first_named domain num (wdb w)")
    case None
    with s u ok err show ?thesis
      by (simp add: ConfirmOrder_def store_orders_def bind_io_def FindOrderByStoreOrder_calm fail_io_run)
  next
    case (Some o1)
    let ?u = "u\<lparr>calls := Suc (calls u)\<rparr>"
    have "row_of Orders (OrderID o1) (wdb ?u) = Some o1" using first_named_row [OF keyed Some] u(3) by simp
    note move = MoveOrderStatus_calm [OF _ _ this, of OrderPending target]
    have "ConfirmOrder s domain num target u =
        (if domain = [] \<or> num = [] then fail_io ErrInvalid u
         else if OrderStatus o1 = target then return_io o1 ?u
         else MoveOrderStatus (OrderID o1) OrderPending target ?u)"
      using s u Some by (simp add: ConfirmOrder_def store_orders_def bind_io_def FindOrderByStoreOrder_calm)
    with move u Some ok err show ?thesis by (auto simp: fail_io_def return_io_def)
  qed
  from step [OF w refl refl refl] run step [OF w2 refl refl]
  show "wdb w1 = wdb w" "\<exists>w3. ConfirmOrder s domain num target w2 = (Inl e, w3) \<and> wdb w3 = wdb w2"
    by auto
qed


section \<open>An API with one order\<close>

definition demo_api :: api where
  "demo_api = \<lparr>ApiToken = ''secret'', ApiWebhookSecret = ''shared'', ApiGames = [], ApiStores = [],
     ApiSearches = \<lparr>SearchRepository = demo_repository, SearchTasks = None, MaxCards = 500, MaxQuantity = 99\<rparr>,
     ApiStocks = None, ApiCheckout = demo_checkout,
     ApiOrders = \<lparr>OrdersSearches = demo_repository, OrdersRepository = Some (store_orders hour),
       OrdersPlacer = None, OrdersLinker = None\<rparr>,
     ApiCards = \<lparr>SvcMetadata = [], SvcAutocomplete = [], SvcNames = [], SvcLanguages = []\<rparr>,
     ApiOffers = demo_service, ApiSearchEnv = demo_search, ApiShelf = None,
     ApiCheckHealth = CheckHealth, ApiListSources = ListSourceHealth, ApiFuel = 10, ApiDigest = (\<lambda>_. []),
     ApiHost = (\<lambda>_. None), ApiSign = (\<lambda>key body. key @ body),
     ApiDecodeWebhook = (\<lambda>_. Some \<lparr>WooCommerceOrderWebhook_ID = 42, WooCommerceOrderWebhook_Status = ''completed''\<rparr>)\<rparr>"

definition demo_asks :: "string \<Rightarrow> string \<Rightarrow> http_request" where
  "demo_asks name value = \<lparr>ReqHeader = (\<lambda>h. if h = name then value else []), ReqQuery = (\<lambda>_. []),
     ReqPath = (\<lambda>_. ''store.cl'')\<rparr>"


theorem pages_in_bounds_witness:
  "case decodeResultPage (demo_asks [] []) of Inr p \<Rightarrow> PageLimit p = 50 \<and> PageAfter p = 0 | Inl _ \<Rightarrow> False"
proof -
  have "decodeResultPage (demo_asks [] []) = Inr \<lparr>PageAfter = 0, PageLimit = 50\<rparr>"
    by (simp add: decodeResultPage_def readQueryNumber_def demo_asks_def Let_def defaultResultLimit_def maxResultLimit_def)
  with pages_in_bounds [where r = "demo_asks [] []"] show ?thesis by simp
qed

theorem unsigned_webhook_refused_witness:
  "\<exists>message. receiveWooCommerceOrderWebhook demo_api (demo_asks ''X-WC-Webhook-Signature'' ''forged'') (Some ''{}'') order_world
     = (Inr (401, PlainAnswer message), order_world)"
  using unsigned_webhook_refused [of demo_api "demo_asks ''X-WC-Webhook-Signature'' ''forged''" "''{}''" order_world]
  by (simp add: demo_api_def demo_asks_def)

definition demo_delivered :: "(failure + http_reply) \<times> world" where
  "demo_delivered = receiveWooCommerceOrderWebhook demo_api
     (demo_asks ''X-WC-Webhook-Signature'' ''shared{}'') (Some ''{}'') order_world"

lemma demo_delivery: "fst demo_delivered = Inr (200, EmptyAnswer)"
proof -
  let ?w = "order_world\<lparr>calls := Suc 0\<rparr>"
  have first: "first_named ''store.cl'' ''42'' (wdb order_world) = Some demo_order"
    by (simp add: first_named_def order_world_def put_row_def Orders_def empty_db_def demo_order_def names_order_def)
  have "row_of Orders ''order_1'' (wdb ?w) = Some demo_order" by (simp add: order_world_def coll_simps)
  from MoveOrderStatus_calm(1) [OF _ _ this, of OrderPending OrderConfirmed]
  obtain o2 w' where "MoveOrderStatus ''order_1'' OrderPending OrderConfirmed ?w = (Inr o2, w')"
    by (auto simp: order_world_def demo_order_def)
  moreover have find: "FindOrderByStoreOrder ''store.cl'' ''42'' order_world = (Inr demo_order, ?w)"
    using FindOrderByStoreOrder_calm [of order_world "''store.cl''" "''42''"] first
    by (simp add: order_world_def calm_world_def calm_def)
  ultimately have "ConfirmOrder (ApiOrders demo_api) ''store.cl'' ''42'' OrderConfirmed order_world = (Inr o2, w')"
    using find by (simp add: ConfirmOrder_def demo_api_def store_orders_def bind_io_def demo_order_def)
  moreover have "Itoa 42 = ''42''" by code_simp
  ultimately show ?thesis
    by (simp add: demo_delivered_def receiveWooCommerceOrderWebhook_def demo_api_def demo_asks_def
        VerifyWebhookSignature_def maxWebhookBodyBytes_def WebhookOrderStatus_def bind_io_def try_io_def return_io_def)
qed


end
