(* ===== verification/Numbers.thy ===== *)
theory Numbers
  imports Prices
begin

text \<open>
  What \<open>strconv.Itoa\<close> and \<open>strconv.FormatInt\<close> write and what \<open>strconv.Atoi\<close> and
  \<open>strconv.ParseInt\<close> read of it: digits, their value, and the round trip.
\<close>

lemma byte_digit: "n < 10 \<Longrightarrow> byte (char_of (48 + n)) = 48 + n"
  by simp

lemma digits_value_snoc [simp]: "digits_value (s @ [c]) = 10 * digits_value s + digit_value c"
  by (simp add: digits_value_def)

lemma nat_digits_props: "list_all is_digit (nat_digits n) \<and> digits_value (nat_digits n) = int n \<and> nat_digits n \<noteq> []"
proof (induction n rule: nat_digits.induct)
  case (1 n)
  show ?case
  proof (cases "n < 10")
    case True
    then show ?thesis
      by (simp add: nat_digits.simps [of n] is_digit_def digits_value_def digit_value_def byte_digit)
  next
    case False
    have digit: "is_digit (char_of (48 + n mod 10))" "digit_value (char_of (48 + n mod 10)) = int (n mod 10)"
      using byte_digit [of "n mod 10"] by (simp_all add: is_digit_def digit_value_def)
    with False 1 show ?thesis
      by (simp add: nat_digits.simps [of n] zdiv_int zmod_int del: of_nat_mod of_nat_div)
  qed
qed

lemmas nat_digits_digits [simp] = nat_digits_props [THEN conjunct1]
lemmas nat_digits_value [simp] = nat_digits_props [THEN conjunct2, THEN conjunct1]
lemmas nat_digits_ne [simp] = nat_digits_props [THEN conjunct2, THEN conjunct2]

lemma digit_not_sign: "is_digit c \<Longrightarrow> c \<noteq> CHR ''-'' \<and> c \<noteq> CHR ''+'' \<and> c \<noteq> CHR ''.'' \<and> c \<noteq> CHR '':''"
  by (auto simp: is_digit_def byte_def)

lemma Itoa_nonneg: "0 \<le> n \<Longrightarrow> Itoa n = nat_digits (nat n)"
  by (simp add: Itoa_def)

lemma Atoi_Itoa [simp]:
  assumes "fits64 n"
  shows "Atoi (Itoa n) = Some n"
proof (cases "n < 0")
  case True
  with assms show ?thesis by (simp add: Itoa_def Atoi_def)
next
  case False
  have "Atoi (nat_digits (nat n)) = (if n \<le> max_int64 then Some n else None)"
    using False by (subst Atoi_digits) simp_all
  with assms False show ?thesis by (simp add: Itoa_nonneg int64_defs)
qed

lemma Itoa_inj: "fits64 a \<Longrightarrow> fits64 b \<Longrightarrow> Itoa a = Itoa b \<Longrightarrow> a = b"
  by (metis Atoi_Itoa option.inject)

lemma Itoa_digits: "0 \<le> n \<Longrightarrow> list_all is_digit (Itoa n) \<and> Itoa n \<noteq> [] \<and> digits_value (Itoa n) = n"
  by (simp add: Itoa_nonneg)

lemma no_colon_digits: "list_all is_digit s \<Longrightarrow> CHR '':'' \<notin> set s"
proof
  assume "list_all is_digit s" "CHR '':'' \<in> set s"
  then have "is_digit CHR '':''" by (simp add: list_all_iff)
  then show False using digit_not_sign by blast
qed

lemma no_colon_Itoa: "CHR '':'' \<notin> set (Itoa n)"
  by (simp add: Itoa_def no_colon_digits)

lemma SplitTwo_dot:
  assumes "list_all is_digit a"
  shows "SplitTwo (a @ CHR ''.'' # b) CHR ''.'' = (a, Some b)" "SplitTwo a CHR ''.'' = (a, None)"
proof -
  have no: "\<forall>x \<in> set a. x \<noteq> CHR ''.''" using assms digit_not_sign by (auto simp: list_all_iff)
  then have "dropWhile (\<lambda>c. c \<noteq> CHR ''.'') a = []" by simp
  then show "SplitTwo a CHR ''.'' = (a, None)" by (simp only: SplitTwo_def list.case)
  from no have "takeWhile (\<lambda>c. c \<noteq> CHR ''.'') (a @ CHR ''.'' # b) = a"
    "dropWhile (\<lambda>c. c \<noteq> CHR ''.'') (a @ CHR ''.'' # b) = CHR ''.'' # b"
    by (simp_all add: takeWhile_append2 dropWhile_append2)
  then show "SplitTwo (a @ CHR ''.'' # b) CHR ''.'' = (a, Some b)" by (simp only: SplitTwo_def list.case)
qed

lemma digits_value_zeros [simp]: "digits_value (replicate n CHR ''0'' @ s) = digits_value s"
proof -
  have "digits_value (replicate n CHR ''0'') = 0"
    by (induction n) (simp_all flip: replicate_append_same add: digit_value_def byte_def)
  then show ?thesis by (simp add: digits_value_append)
qed

text \<open>The two digits after the point, cut or filled with zeros, count hundredths.\<close>

lemma read_fraction_value:
  assumes "list_all is_digit f"
  shows "list_all is_digit (read_fraction (Some f)) \<and> length (read_fraction (Some f)) = 2
    \<and> digits_value (read_fraction (Some f)) = digits_value f * 100 div 10 ^ length f"
proof (cases "length f \<le> 2")
  case True
  then have "f = [] \<or> (\<exists>a. f = [a]) \<or> (\<exists>a b. f = [a, b])"
    by (cases f; cases "tl f") (auto simp: length_Suc_conv)
  with assms show ?thesis
    by (auto simp: read_fraction_def digits_value_def is_digit_def digit_value_def byte_def)
next
  case False
  define a b where "a = take 2 f" and "b = drop 2 f"
  with False have f: "f = a @ b" "length a = 2" by auto
  with assms have b: "0 \<le> digits_value b" "digits_value b < 10 ^ length b" using digits_value_bounds by auto
  have "digits_value f * 100 div 10 ^ length f = digits_value f div 10 ^ length b"
    using f by (simp add: power_add)
  also have "\<dots> = digits_value a" using b by (simp add: f(1) digits_value_append)
  finally show ?thesis using assms f by (auto simp: read_fraction_def)
qed

lemma parseCents_dot:
  assumes "list_all is_digit a" "a \<noteq> []" "list_all is_digit f" "fits64 (digits_value a)"
  shows "parseCents (a @ CHR ''.'' # f) = Inr (wrap64 (digits_value a * 100 + digits_value f * 100 div 10 ^ length f))"
proof -
  note frac = read_fraction_value [OF assms(3)]
  then have "0 \<le> digits_value (read_fraction (Some f))" "digits_value (read_fraction (Some f)) < 100"
    using digits_value_bounds [of "read_fraction (Some f)"] by auto
  with frac have "Atoi (read_fraction (Some f)) = Some (digits_value f * 100 div 10 ^ length f)"
    by (subst Atoi_digits) (auto simp: int64_defs)
  moreover have "Atoi a = Some (digits_value a)" "0 \<le> digits_value a"
    using assms(1,2,4) digits_value_bounds [OF assms(1)] by (simp_all add: Atoi_digits fits64_def)
  ultimately show ?thesis using assms(1) by (simp add: parseCents_def SplitTwo_dot)
qed

lemma parseCents_whole:
  assumes "list_all is_digit a" "a \<noteq> []" "fits64 (digits_value a)"
  shows "parseCents a = Inr (wrap64 (digits_value a * 100))"
proof -
  have "Atoi a = Some (digits_value a)" "0 \<le> digits_value a"
    using assms digits_value_bounds [OF assms(1)] by (simp_all add: Atoi_digits fits64_def)
  moreover have "Atoi (read_fraction None) = Some 0" by code_simp
  ultimately show ?thesis using assms(1) by (simp add: parseCents_def SplitTwo_dot)
qed

end
