(* ===== verification/Catalog.thy ===== *)
theory Catalog
  imports Directory
begin

text \<open>
  internal/catalog and the part of internal/stores/commerce that opens a store: which sources,
  providers and marks the configuration becomes.

  The clients are the values the constructors build, with the fields the configuration
  decides; the fetchers, caches and loggers they also carry are ports.  A Moxfield client is
  built anew for each game, and Go tells two of them apart by their addresses: here a client
  carries where it was built.
\<close>

section \<open>Stores opened (internal/stores/commerce/shops.go)\<close>

datatype shop_client =
    JumpsellerClient string string
  | ShopifyClient string string
  | WooCommerceClient string string string string
  | PrestashopClient string string string

record shops =
  ShopsConfig :: config
  ShopsBuyerName :: string
  ShopsBuyerEmail :: string

record shop =
  ShopConfig :: store_config
  ShopClient :: "shop_client option"

definition openClient :: "shops \<Rightarrow> string \<Rightarrow> store_config \<Rightarrow> shop_client option" where
  "openClient s domain c =
     (if StorePlatform c = ''jumpseller'' then Some (JumpsellerClient domain (StoreName c))
      else if StorePlatform c = ''shopify'' then Some (ShopifyClient domain (StoreName c))
      else if StorePlatform c = ''woocommerce''
        then Some (WooCommerceClient domain (StoreName c) (ShopsBuyerName s) (ShopsBuyerEmail s))
      else if StorePlatform c = ''prestashop'' then Some (PrestashopClient domain (StoreName c) ''/busqueda'')
      else None)"

definition Shops_Shop :: "shops \<Rightarrow> string \<Rightarrow> shop option" where
  "Shops_Shop s domain =
     (case map_of (ConfigStores (ShopsConfig s)) domain of
        None \<Rightarrow> None
      | Some c \<Rightarrow> if \<not> StoreEnabled c then None
          else Some \<lparr>ShopConfig = c, ShopClient = openClient s domain c\<rparr>)"

text \<open>Every client the switch builds finds offers.\<close>

definition Finder :: "shops \<Rightarrow> string \<Rightarrow> shop_client option" where
  "Finder s domain = (case Shops_Shop s domain of None \<Rightarrow> None | Some shop \<Rightarrow> ShopClient shop)"

section \<open>Sources of a game (internal/catalog/sources.go)\<close>

record list_client =
  ListGame :: string
  ListPlace :: nat
  ListStoreID :: string
  ListStore :: string
  ListClientLabel :: string
  ListClientURL :: string
  ListClientRate :: int

datatype built_source = ListSource list_client | ShopSource shop_client

definition list_client_of :: "string \<Rightarrow> string \<Rightarrow> store_config \<Rightarrow> nat \<Rightarrow> moxfield_list \<Rightarrow> list_client" where
  "list_client_of game domain store place l =
     \<lparr>ListGame = game, ListPlace = place, ListStoreID = domain, ListStore = StoreName store,
      ListClientLabel = ListLabel l, ListClientURL = ListURL l, ListClientRate = ListRate l\<rparr>"

definition appendConfiguredSources ::
  "shops \<Rightarrow> string \<Rightarrow> built_source list \<Rightarrow> string \<Rightarrow> store_config \<Rightarrow> string list \<Rightarrow> built_source list" where
  "appendConfiguredSources s game sources domain store allowed =
     (let sources =
            (if ''moxfield'' \<in> set allowed
             then sources @ map (\<lambda>(n, l). ListSource (list_client_of game domain store n l)) (enumerate 0 (StoreLists store))
             else sources)
      in if StorePlatform store \<notin> set allowed then sources
         else case Finder s domain of None \<Rightarrow> sources | Some finder \<Rightarrow> sources @ [ShopSource finder])"

definition store_asked :: "string \<Rightarrow> string \<times> store_config \<Rightarrow> bool" where
  "store_asked key entry =
     (case entry of (domain, store) \<Rightarrow> StoreEnabled store \<and> IsSearched store \<and> key \<in> set (StoreGames store))"

text \<open>A game gets an entry with its first store, even when that store adds nothing.\<close>

definition SourcesByGame :: "shops \<Rightarrow> (string \<times> built_source list) list" where
  "SourcesByGame s =
     List.map_filter (\<lambda>(key, game).
       let stores = filter (store_asked key) (ConfigStores (ShopsConfig s))
       in if \<not> GameEnabled game \<or> stores = [] then None
          else Some (key, foldl (\<lambda>sources (domain, store).
                 appendConfiguredSources s key sources domain store (GameOrigins game)) [] stores))
       (ConfigGames (ShopsConfig s))"

definition allowedOrigins :: "string \<Rightarrow> moxfield_list list \<Rightarrow> string list" where
  "allowedOrigins platform listed = platform # (if 0 < length listed then [''moxfield''] else [])"

definition offerSources :: "shops \<Rightarrow> built_source option \<Rightarrow> built_source list" where
  "offerSources s catalog =
     foldl (\<lambda>sources (domain, store).
         if \<not> StoreEnabled store \<or> \<not> IsSearched store then sources
         else appendConfiguredSources s [] sources domain store (allowedOrigins (StorePlatform store) (StoreLists store)))
       (case catalog of None \<Rightarrow> [] | Some c \<Rightarrow> [c]) (ConfigStores (ShopsConfig s))"

text \<open>\<open>seen\<close> holds the clients themselves, so a list built for two games is two clients.\<close>

definition shelve :: "list_client list \<Rightarrow> built_source \<Rightarrow> list_client list" where
  "shelve shelf source =
     (case source of
        ListSource l \<Rightarrow> if l \<in> set shelf then shelf else shelf @ [l]
      | ShopSource _ \<Rightarrow> shelf)"

definition CollectInventories :: "(string \<times> built_source list) list \<Rightarrow> list_client list" where
  "CollectInventories sourcesByGame = foldl shelve [] (concat (map snd sourcesByGame))"

section \<open>Marks (internal/catalog/kinds.go)\<close>

definition SealedOnly :: "shops \<Rightarrow> (string \<times> bool) list" where
  "SealedOnly s =
     map (\<lambda>(domain, _). (domain, True)) (filter (\<lambda>(domain, store). \<not> SellsSingles store) (ConfigStores (ShopsConfig s)))"

definition readHost :: "config_env \<Rightarrow> string \<Rightarrow> string" where
  "readHost env raw =
     (case EnvParse env raw of None \<Rightarrow> raw | Some u \<Rightarrow> if UrlHost u = [] then raw else UrlHost u)"

definition SinglesOnly :: "config_env \<Rightarrow> shops \<Rightarrow> (string \<times> bool) list" where
  "SinglesOnly env s =
     List.map_filter (\<lambda>(name, p). if ServesSealed p then None
        else let host = readHost env (ProviderURL p) in if host \<noteq> [] then Some (host, True) else None)
       (ConfigProviders (ShopsConfig s))
     @ map (\<lambda>(domain, _). (domain, True)) (filter (\<lambda>(domain, store). \<not> SellsSealed store) (ConfigStores (ShopsConfig s)))"

section \<open>Places (internal/catalog/locations.go)\<close>

definition removeEmpty :: "string list \<Rightarrow> string list" where
  "removeEmpty values = filter (\<lambda>v. v \<noteq> []) values"

definition formatStoreLocations :: "store_location list \<Rightarrow> string list" where
  "formatStoreLocations locations =
     map (\<lambda>l. let detail = (if LocDistrict l = [] then LocPickup l else LocDistrict l)
              in Join (removeEmpty [LocCity l, detail]) '' - '') locations"

definition put_locations :: "(string \<rightharpoonup> string list) \<Rightarrow> string \<times> store_config \<Rightarrow> (string \<rightharpoonup> string list)" where
  "put_locations m entry =
     (case entry of (domain, store) \<Rightarrow>
        let locations = formatStoreLocations (StoreLocations store) in
        if locations = [] then m
        else let m = m(domain \<mapsto> locations)
             in if StoreName store \<noteq> [] then m(StoreName store \<mapsto> locations) else m)"

definition Builder_StoreLocations :: "shops \<Rightarrow> (string \<rightharpoonup> string list)" where
  "Builder_StoreLocations s = foldl put_locations Map.empty (ConfigStores (ShopsConfig s))"

section \<open>Providers (internal/catalog/providers.go, libraries.go)\<close>

record tcgmatch_client =
  TCGMatchURL :: string
  TCGMatchGame :: string
  TCGMatchPokemonURL :: string

datatype built_provider = ScryclProvider string bool | TCGMatchProvider tcgmatch_client

datatype card_provider = ScryfallAnswers | TCGMatchAnswers tcgmatch_client

definition tcgmatchGames :: "game list" where
  "tcgmatchGames = [GamePokemon, GameYuGiOh, GameOnePiece, GameDigimon, GameRiftbound, GameMitos]"

definition provider_url :: "config \<Rightarrow> string \<Rightarrow> string" where
  "provider_url c name = (case map_of (ConfigProviders c) name of None \<Rightarrow> [] | Some p \<Rightarrow> ProviderURL p)"

definition TCGMatch :: "shops \<Rightarrow> string \<Rightarrow> tcgmatch_client" where
  "TCGMatch s game =
     \<lparr>TCGMatchURL = provider_url (ShopsConfig s) ''tcgmatch'', TCGMatchGame = game,
      TCGMatchPokemonURL = (if game = GamePokemon then provider_url (ShopsConfig s) ''tcgdex'' else [])\<rparr>"

definition cast_provider ::
  "shops \<Rightarrow> search_provider_config \<Rightarrow> (game \<rightharpoonup> built_provider) \<Rightarrow> string \<Rightarrow> (game \<rightharpoonup> built_provider)" where
  "cast_provider s p m game =
     (case map_of (ConfigGames (ShopsConfig s)) game of
        None \<Rightarrow> m
      | Some g \<Rightarrow>
          if \<not> GameEnabled g then m
          else if ProviderType p = ''scrycl'' then m(game \<mapsto> ScryclProvider (ProviderURL p) (\<not> ProviderCommunity p))
          else if ProviderType p = ''tcgmatch'' then m(game \<mapsto> TCGMatchProvider (TCGMatch s game))
          else m)"

definition Providers :: "shops \<Rightarrow> (game \<rightharpoonup> built_provider)" where
  "Providers s =
     foldl (\<lambda>m (name, p). if \<not> ProviderEnabled p then m else foldl (cast_provider s p) m (ProviderGames p))
       Map.empty (ConfigProviders (ShopsConfig s))"

definition scryfallGames :: "shops \<Rightarrow> game list" where
  "scryfallGames s =
     (let games = map fst (filter (\<lambda>(key, game). LanguagesProvider (GameLanguages game) = ''scryfall'')
                    (ConfigGames (ShopsConfig s)))
      in if games = [] then [GameMagic] else games)"

definition card_providers :: "shops \<Rightarrow> (game \<rightharpoonup> card_provider)" where
  "card_providers s =
     foldl (\<lambda>m game. m(game \<mapsto> TCGMatchAnswers (TCGMatch s game)))
       (foldl (\<lambda>m game. m(game \<mapsto> ScryfallAnswers)) Map.empty (scryfallGames s)) tcgmatchGames"

definition MetadataProviders :: "shops \<Rightarrow> (game \<rightharpoonup> card_provider)" where
  "MetadataProviders s = card_providers s"

definition AutocompleteProviders :: "shops \<Rightarrow> (game \<rightharpoonup> card_provider)" where
  "AutocompleteProviders s = card_providers s"

definition NameProviders :: "shops \<Rightarrow> (game \<rightharpoonup> card_provider)" where
  "NameProviders s = foldl (\<lambda>m game. m(game \<mapsto> ScryfallAnswers)) Map.empty (scryfallGames s)"

definition PrintLibraries :: "shops \<Rightarrow> (game \<rightharpoonup> card_provider)" where
  "PrintLibraries s =
     (case map_of (ConfigGames (ShopsConfig s)) GameMagic of
        None \<Rightarrow> Map.empty
      | Some g \<Rightarrow> if GameEnabled g then [GameMagic \<mapsto> ScryfallAnswers] else Map.empty)"

text \<open>The address each enabled game reads its sets from; no map without the provider.\<close>

definition SetLibraries :: "shops \<Rightarrow> (game \<times> string) list" where
  "SetLibraries s =
     (case map_of (ConfigProviders (ShopsConfig s)) ''tcgmatch'' of
        None \<Rightarrow> []
      | Some p \<Rightarrow> if \<not> ProviderEnabled p then []
          else map (\<lambda>(name, _). (name, ProviderURL p))
                 (filter (\<lambda>(name, game). GameEnabled game) (ConfigGames (ShopsConfig s))))"


section \<open>What a source belongs to\<close>

fun client_domain :: "shop_client \<Rightarrow> string" where
  "client_domain (JumpsellerClient d _) = d"
| "client_domain (ShopifyClient d _) = d"
| "client_domain (WooCommerceClient d _ _ _) = d"
| "client_domain (PrestashopClient d _ _) = d"

fun source_domain :: "built_source \<Rightarrow> string" where
  "source_domain (ListSource l) = ListStoreID l"
| "source_domain (ShopSource c) = client_domain c"

definition store_sources :: "shops \<Rightarrow> string \<Rightarrow> string \<times> store_config \<Rightarrow> string list \<Rightarrow> built_source list" where
  "store_sources s game entry allowed =
     (case entry of (domain, store) \<Rightarrow> appendConfiguredSources s game [] domain store allowed)"

lemma appended_sources:
  "appendConfiguredSources s game sources domain store allowed = sources @ store_sources s game (domain, store) allowed"
  by (simp add: store_sources_def appendConfiguredSources_def Let_def split: option.split)

lemma appended_all:
  "foldl (\<lambda>sources (domain, store). appendConfiguredSources s game sources domain store allowed) sources entries
    = sources @ concat (map (\<lambda>e. store_sources s game e allowed) entries)"
  by (induction entries arbitrary: sources) (auto simp: appended_sources)

lemma SourcesByGame_entry:
  "SourcesByGame s = List.map_filter (\<lambda>(key, game).
     let stores = filter (store_asked key) (ConfigStores (ShopsConfig s))
     in if \<not> GameEnabled game \<or> stores = [] then None
        else Some (key, concat (map (\<lambda>e. store_sources s key e (GameOrigins game)) stores)))
     (ConfigGames (ShopsConfig s))"
  by (simp add: SourcesByGame_def appended_all Let_def cong: if_cong)

lemma openClient_domain: "openClient s domain c = Some client \<Longrightarrow> client_domain client = domain"
  by (auto simp: openClient_def split: if_splits)

lemma store_sources_domain: "x \<in> set (store_sources s game (domain, store) allowed) \<Longrightarrow> source_domain x = domain"
  by (auto simp: store_sources_def appendConfiguredSources_def Let_def list_client_of_def Finder_def
      Shops_Shop_def openClient_domain split: if_splits option.splits)

lemma map_of_map_filter:
  "distinct (map fst xs) \<Longrightarrow> (k, v) \<in> set xs \<Longrightarrow> \<forall>k v r. f (k, v) = Some r \<longrightarrow> fst r = k \<Longrightarrow>
   map_of (List.map_filter f xs) k = map_option snd (f (k, v))"
proof (induction xs)
  case (Cons x xs)
  obtain k' v' where x: "x = (k', v')" by fastforce
  have missing: "k \<notin> fst ` set xs \<Longrightarrow> map_of (List.map_filter f xs) k = None"
  proof -
    assume "k \<notin> fst ` set xs"
    with Cons.prems(3) show ?thesis
      by (force simp: map_of_eq_None_iff List.map_filter_def image_iff)
  qed
  from Cons.prems have "k = k' \<and> v = v' \<and> k \<notin> fst ` set xs \<or> k \<noteq> k' \<and> (k, v) \<in> set xs"
    by (auto simp: x image_iff)
  then show ?case
    using Cons.IH Cons.prems missing by (auto simp: x List.map_filter_simps split: option.split)
qed simp

lemma game_sources_of:
  assumes "distinct (map fst (ConfigGames (ShopsConfig s)))" "(key, game) \<in> set (ConfigGames (ShopsConfig s))"
  shows "map_of (SourcesByGame s) key =
    (let stores = filter (store_asked key) (ConfigStores (ShopsConfig s))
     in if \<not> GameEnabled game \<or> stores = [] then None
        else Some (concat (map (\<lambda>e. store_sources s key e (GameOrigins game)) stores)))"
  unfolding SourcesByGame_entry
  by (subst map_of_map_filter [OF assms]) (auto simp: Let_def split: if_splits)

section \<open>What a valid configuration builds\<close>

lemma valid_parts:
  assumes "ValidateConfig env c = None"
  shows "(key, game) \<in> set (ConfigGames c) \<Longrightarrow> [] \<notin> set (GameOrigins game)"
    "(domain, store) \<in> set (ConfigStores c) \<Longrightarrow> StorePlatform store \<noteq> [] \<Longrightarrow>
     StorePlatform store \<in> {''jumpseller'', ''shopify'', ''woocommerce'', ''prestashop'', ''html''}"
  using assms by (auto simp: ValidateConfig_def validateGames_def validateStore_def validateChecker_def
      split: prod.splits if_splits)

lemma Finder_of:
  assumes "distinct (map fst (ConfigStores (ShopsConfig s)))" "(domain, store) \<in> set (ConfigStores (ShopsConfig s))"
    "StoreEnabled store"
  shows "Finder s domain = openClient s domain store"
  using assms by (simp add: Finder_def Shops_Shop_def)

lemma openClient_None: "openClient s domain c = None \<longleftrightarrow>
   StorePlatform c \<notin> {''jumpseller'', ''shopify'', ''woocommerce'', ''prestashop''}"
  by (simp add: openClient_def)

definition answers_for :: "shops \<Rightarrow> string \<Rightarrow> string \<Rightarrow> bool" where
  "answers_for s key domain \<longleftrightarrow>
     (case map_of (SourcesByGame s) key of None \<Rightarrow> False
      | Some sources \<Rightarrow> list_ex (\<lambda>x. source_domain x = domain) sources)"

lemma store_sources_any:
  assumes "distinct (map fst (ConfigStores (ShopsConfig s)))" "(domain, store) \<in> set (ConfigStores (ShopsConfig s))"
    "StoreEnabled store"
  shows "store_sources s key (domain, store) allowed \<noteq> [] \<longleftrightarrow>
    ''moxfield'' \<in> set allowed \<and> StoreLists store \<noteq> []
    \<or> StorePlatform store \<in> set allowed \<and> StorePlatform store \<in> {''jumpseller'', ''shopify'', ''woocommerce'', ''prestashop''}"
  using Finder_of [OF assms] openClient_None [of s domain store]
  by (auto simp: store_sources_def appendConfiguredSources_def Let_def enumerate_eq_zip split: option.splits)

lemma answers_for_iff:
  assumes games: "distinct (map fst (ConfigGames (ShopsConfig s)))" "(key, game) \<in> set (ConfigGames (ShopsConfig s))"
    and stores: "distinct (map fst (ConfigStores (ShopsConfig s)))" "(domain, store) \<in> set (ConfigStores (ShopsConfig s))"
  shows "answers_for s key domain \<longleftrightarrow> GameEnabled game \<and> store_asked key (domain, store)
    \<and> store_sources s key (domain, store) (GameOrigins game) \<noteq> []"
proof -
  let ?asked = "filter (store_asked key) (ConfigStores (ShopsConfig s))"
  have same: "store' = store" if "(domain, store') \<in> set ?asked" for store'
    using that stores by (auto dest: eq_key_imp_eq_value [OF stores(1)])
  have "(\<exists>e \<in> set ?asked. \<exists>x \<in> set (store_sources s key e (GameOrigins game)). source_domain x = domain)
      \<longleftrightarrow> store_asked key (domain, store) \<and> store_sources s key (domain, store) (GameOrigins game) \<noteq> []"
  proof
    assume "\<exists>e \<in> set ?asked. \<exists>x \<in> set (store_sources s key e (GameOrigins game)). source_domain x = domain"
    then obtain d store' x where e: "(d, store') \<in> set ?asked"
      "x \<in> set (store_sources s key (d, store') (GameOrigins game))" "source_domain x = domain" by fastforce
    then have "d = domain" using store_sources_domain by fastforce
    with e same show "store_asked key (domain, store) \<and> store_sources s key (domain, store) (GameOrigins game) \<noteq> []"
      by fastforce
  next
    assume "store_asked key (domain, store) \<and> store_sources s key (domain, store) (GameOrigins game) \<noteq> []"
    moreover from this obtain x where "x \<in> set (store_sources s key (domain, store) (GameOrigins game))"
      using list.set_intros(1) neq_Nil_conv by metis
    ultimately show "\<exists>e \<in> set ?asked. \<exists>x \<in> set (store_sources s key e (GameOrigins game)). source_domain x = domain"
      using stores(2) store_sources_domain by (intro bexI [of _ "(domain, store)"]) auto
  qed
  moreover have "answers_for s key domain \<longleftrightarrow> GameEnabled game
      \<and> (\<exists>e \<in> set ?asked. \<exists>x \<in> set (store_sources s key e (GameOrigins game)). source_domain x = domain)"
  proof (cases "?asked = []")
    case True
    then show ?thesis by (simp only: answers_for_def game_sources_of [OF games] Let_def) simp
  next
    case False
    then show ?thesis by (simp add: answers_for_def game_sources_of [OF games] Let_def list_ex_iff)
  qed
  ultimately show ?thesis by simp
qed

lemma selector_matches_sources_core:
  assumes valid: "ValidateConfig env (ShopsConfig s) = None"
    and games: "distinct (map fst (ConfigGames (ShopsConfig s)))" "(key, game) \<in> set (ConfigGames (ShopsConfig s))"
    and stores: "distinct (map fst (ConfigStores (ShopsConfig s)))" "(domain, store) \<in> set (ConfigStores (ShopsConfig s))"
    and enabled: "GameEnabled game"
  shows "(StorePlatform store \<noteq> ''html'' \<longrightarrow> answers_for s key domain = storeAnswers store game key)
    \<and> (StorePlatform store = ''html'' \<and> StoreLists store = [] \<longrightarrow> \<not> answers_for s key domain)"
proof -
  note built = answers_for_iff [OF games stores] store_sources_any [OF stores, of key "GameOrigins game"]
  note parts = valid_parts(1) [OF valid games(2)] valid_parts(2) [OF valid stores(2)]
  show ?thesis
  proof (cases "store_asked key (domain, store)")
    case False
    then show ?thesis by (auto simp: built(1) storeAnswers_def store_asked_def)
  next
    case True
    then have "StoreEnabled store" by (simp add: store_asked_def)
    from built(2) [OF this] True enabled have asked: "answers_for s key domain \<longleftrightarrow>
        ''moxfield'' \<in> set (GameOrigins game) \<and> StoreLists store \<noteq> []
        \<or> StorePlatform store \<in> set (GameOrigins game)
          \<and> StorePlatform store \<in> {''jumpseller'', ''shopify'', ''woocommerce'', ''prestashop''}"
      by (simp add: built(1))
    from True have "storeAnswers store game key \<longleftrightarrow> StoreLists store \<noteq> [] \<and> ''moxfield'' \<in> set (GameOrigins game)
        \<or> StorePlatform store \<in> set (GameOrigins game)"
      by (simp add: storeAnswers_def store_asked_def)
    with asked parts show ?thesis by (cases "StorePlatform store = []") auto
  qed
qed


text \<open>C40 What the selector of games offers and what a search asks cannot drift apart: under a valid
  configuration, a store whose platform is not \<open>html\<close> counts for an enabled game exactly when
  the sources of that game hold one of the store.  A store on \<open>html\<close> has no client that finds
  offers, so it is never asked unless it publishes lists, although it may count.\<close>
theorem selector_matches_sources:
  assumes valid: "ValidateConfig env (ShopsConfig s) = None"
    and games: "distinct (map fst (ConfigGames (ShopsConfig s)))" "(key, game) \<in> set (ConfigGames (ShopsConfig s))"
    and stores: "distinct (map fst (ConfigStores (ShopsConfig s)))" "(domain, store) \<in> set (ConfigStores (ShopsConfig s))"
    and enabled: "GameEnabled game"
  shows "(StorePlatform store \<noteq> ''html'' \<longrightarrow> answers_for s key domain = storeAnswers store game key)
    \<and> (StorePlatform store = ''html'' \<and> StoreLists store = [] \<longrightarrow> \<not> answers_for s key domain)"
  by (rule selector_matches_sources_core [OF assms])

section \<open>A game offered can be asked for\<close>

lemma cast_keeps: "m k \<noteq> None \<Longrightarrow> cast_provider s p m g k \<noteq> None"
  by (auto simp: cast_provider_def split: option.splits)

lemma cast_all_keeps: "m k \<noteq> None \<Longrightarrow> foldl (cast_provider s p) m gs k \<noteq> None"
  by (induction gs arbitrary: m) (simp_all add: cast_keeps del: not_None_eq)

lemma cast_all_sets:
  assumes "g \<in> set gs" "map_of (ConfigGames (ShopsConfig s)) g = Some game" "GameEnabled game"
    "ProviderType p \<in> {''scrycl'', ''tcgmatch''}"
  shows "foldl (cast_provider s p) m gs g \<noteq> None"
  using assms(1)
proof (induction gs arbitrary: m)
  case (Cons h gs)
  show ?case
  proof (cases "h = g")
    case True
    have "cast_provider s p m g g \<noteq> None" using assms(2-4) by (auto simp: cast_provider_def)
    then show ?thesis by (simp add: True cast_all_keeps del: not_None_eq)
  next
    case False
    with Cons show ?thesis by simp
  qed
qed simp

lemma Providers_set:
  assumes "(name, p) \<in> set ps" "ProviderEnabled p" "g \<in> set (ProviderGames p)"
    "map_of (ConfigGames (ShopsConfig s)) g = Some game" "GameEnabled game"
    "ProviderType p \<in> {''scrycl'', ''tcgmatch''}"
  shows "foldl (\<lambda>m (name, p). if \<not> ProviderEnabled p then m else foldl (cast_provider s p) m (ProviderGames p)) m ps g \<noteq> None"
    (is "foldl ?f m ps g \<noteq> None")
proof -
  have keeps: "m g \<noteq> None \<Longrightarrow> foldl ?f m qs g \<noteq> None" for m qs
    by (induction qs arbitrary: m) (auto simp: cast_all_keeps simp del: not_None_eq split: prod.split)
  show ?thesis
    using assms(1)
  proof (induction ps arbitrary: m)
    case (Cons q qs)
    show ?case
    proof (cases "q = (name, p)")
      case True
      have "?f m q g \<noteq> None" using cast_all_sets [OF assms(3-6)] assms(2) by (simp add: True del: not_None_eq)
      then show ?thesis using keeps by (simp del: not_None_eq)
    next
      case False
      with Cons show ?thesis by simp
    qed
  qed simp
qed

lemma valid_provider:
  "ValidateConfig env c = None \<Longrightarrow> (name, p) \<in> set (ConfigProviders c) \<Longrightarrow>
   ProviderType p \<in> {''scrycl'', ''tcgmatch'', ''tcgdex''}"
  by (auto simp: ValidateConfig_def validateSearchProviders_def provider_ok_def split: option.splits)

text \<open>A game the selector offers is one a question reaches: under a valid configuration without
  \<open>html\<close> stores, where no enabled \<open>tcgdex\<close> provider claims the game, a supported game has
  a search provider or a store to ask.  (The provider \<open>tcgdex\<close> counts for what the selector
  offers, and no provider is built of it.)\<close>
theorem offered_game_is_asked:
  assumes valid: "ValidateConfig env (ShopsConfig s) = None"
    and keys: "distinct (map fst (ConfigGames (ShopsConfig s)))" "distinct (map fst (ConfigStores (ShopsConfig s)))"
    and offered: "g \<in> set (SupportedGames (ShopsConfig s))"
    and platforms: "list_all (\<lambda>(domain, store). StorePlatform store \<noteq> ''html'') (ConfigStores (ShopsConfig s))"
    and types: "list_all (\<lambda>(name, p). provider_serves (SupportKey g) p \<longrightarrow> ProviderType p \<noteq> ''tcgdex'')
      (ConfigProviders (ShopsConfig s))"
  shows "Providers s (SupportKey g) \<noteq> None
    \<or> (\<exists>sources. map_of (SourcesByGame s) (SupportKey g) = Some sources \<and> sources \<noteq> [])"
proof -
  let ?c = "ShopsConfig s"
  from offered obtain key game where game: "(key, game) \<in> set (ConfigGames ?c)" "GameEnabled game"
    and g: "g = support_of ?c (key, game)" "SupportSingles g \<or> SupportSealed g"
    by (auto simp: SupportedGames_def)
  have key: "SupportKey g = key" by (simp add: g(1) support_of_def Let_def)
  have lookup: "map_of (ConfigGames ?c) key = Some game" using keys(1) game(1) by simp
  from g(2) have "(\<exists>p \<in> snd ` set (ConfigProviders ?c). provider_serves key p)
      \<or> (\<exists>store \<in> snd ` set (ConfigStores ?c). storeAnswers store game key)"
    by (auto simp: g(1) support_of_def Let_def list_ex_iff)
  then show ?thesis
  proof
    assume "\<exists>p \<in> snd ` set (ConfigProviders ?c). provider_serves key p"
    then obtain name p where p: "(name, p) \<in> set (ConfigProviders ?c)" "provider_serves key p" by auto
    with types have "ProviderType p \<noteq> ''tcgdex''" by (auto simp: list_all_iff key)
    with valid_provider [OF valid p(1)] have "ProviderType p \<in> {''scrycl'', ''tcgmatch''}" by blast
    with Providers_set [OF p(1) _ _ lookup game(2)] p(2) show ?thesis
      by (simp add: key Providers_def provider_serves_def del: not_None_eq)
  next
    assume "\<exists>store \<in> snd ` set (ConfigStores ?c). storeAnswers store game key"
    then obtain domain store where store: "(domain, store) \<in> set (ConfigStores ?c)" "storeAnswers store game key" by auto
    from store(1) platforms have "StorePlatform store \<noteq> ''html''" by (auto simp: list_all_iff)
    then have "answers_for s key domain"
      using selector_matches_sources_core [OF valid keys(1) game(1) keys(2) store(1) game(2)] store(2) by blast
    then show ?thesis by (auto simp: key answers_for_def split: option.splits)
  qed
qed

section \<open>The shelf of lists\<close>

text \<open>The list clients among the sources.\<close>

definition listed_clients :: "built_source list \<Rightarrow> list_client list" where
  "listed_clients sources = List.map_filter (\<lambda>x. case x of ListSource l \<Rightarrow> Some l | ShopSource _ \<Rightarrow> None) sources"

lemma shelve_all: "set (foldl shelve shelf sources) = set shelf \<union> {l. ListSource l \<in> set sources}"
  by (induction sources arbitrary: shelf) (auto simp: shelve_def split: built_source.split if_splits)

lemma list_source_built:
  assumes "''moxfield'' \<in> set allowed" "n < length (StoreLists store)"
  shows "ListSource (list_client_of game domain store n (StoreLists store ! n))
    \<in> set (store_sources s game (domain, store) allowed)"
proof -
  have "(n, StoreLists store ! n) \<in> set (enumerate 0 (StoreLists store))"
    using assms(2) by (auto simp: in_set_enumerate_eq)
  with assms(1) show ?thesis
    by (force simp: store_sources_def appendConfiguredSources_def Let_def split: option.split)
qed

lemma listed_on_shelf:
  assumes games: "distinct (map fst (ConfigGames (ShopsConfig s)))" "(key, game) \<in> set (ConfigGames (ShopsConfig s))"
    and enabled: "GameEnabled game" "''moxfield'' \<in> set (GameOrigins game)"
    and store: "(domain, store) \<in> set (ConfigStores (ShopsConfig s))" "store_asked key (domain, store)"
    and n: "n < length (StoreLists store)"
  shows "list_client_of key domain store n (StoreLists store ! n) \<in> set (CollectInventories (SourcesByGame s))"
proof -
  let ?asked = "filter (store_asked key) (ConfigStores (ShopsConfig s))"
  let ?sources = "concat (map (\<lambda>e. store_sources s key e (GameOrigins game)) ?asked)"
  have asked: "(domain, store) \<in> set ?asked" using store by simp
  then have "?asked \<noteq> []" by force
  then have entry: "map_of (SourcesByGame s) key = Some ?sources"
    by (simp only: game_sources_of [OF games] Let_def enabled) simp
  have "ListSource (list_client_of key domain store n (StoreLists store ! n)) \<in> set ?sources"
    using asked list_source_built [OF enabled(2) n] by fastforce
  with map_of_SomeD [OF entry] show ?thesis
    by (force simp: CollectInventories_def shelve_all)
qed

text \<open>A list is shelved once for every game that plays it, although the shelf means to hold it
  once: where a store sells two enabled games that both take Moxfield lists, each of its
  lists stands on the shelf as two clients of the same store, label and address.\<close>
theorem list_shelved_per_game:
  assumes "distinct (map fst (ConfigGames (ShopsConfig s)))"
    and one: "(key, game) \<in> set (ConfigGames (ShopsConfig s))" "GameEnabled game" "''moxfield'' \<in> set (GameOrigins game)"
    and other: "(key', game') \<in> set (ConfigGames (ShopsConfig s))" "GameEnabled game'" "''moxfield'' \<in> set (GameOrigins game')"
    and store: "(domain, store) \<in> set (ConfigStores (ShopsConfig s))"
      "store_asked key (domain, store)" "store_asked key' (domain, store)"
    and n: "key \<noteq> key'" "n < length (StoreLists store)"
  shows "\<exists>a b. a \<in> set (CollectInventories (SourcesByGame s)) \<and> b \<in> set (CollectInventories (SourcesByGame s)) \<and> a \<noteq> b
    \<and> ListStoreID a = ListStoreID b \<and> ListClientLabel a = ListClientLabel b \<and> ListClientURL a = ListClientURL b"
  using listed_on_shelf [OF assms(1) one store(1,2) n(2)] listed_on_shelf [OF assms(1) other store(1,3) n(2)] n(1)
  by (intro exI [of _ "list_client_of key domain store n (StoreLists store ! n)"]
      exI [of _ "list_client_of key' domain store n (StoreLists store ! n)"]) (simp add: list_client_of_def)

section \<open>A directory with one shop\<close>

definition demo_game :: "string \<Rightarrow> game_config" where
  "demo_game key = \<lparr>GameName = ''Game'', GameReferenceKey = key, GameEnabled = True,
     GameOrigins = [''moxfield'', ''jumpseller''],
     GameLanguages = \<lparr>LanguagesProvider = [], LanguagesSupported = []\<rparr>\<rparr>"

definition demo_list :: moxfield_list where
  "demo_list = \<lparr>ListLabel = ''Rojo'', ListURL = ''https://moxfield.com/decks/x5'', ListRate = 700\<rparr>"

definition demo_store :: store_config where
  "demo_store = \<lparr>StoreGames = [''magic'', ''pokemon''], StorePlatform = ''jumpseller'', StoreLocations = [],
     StoreUnavailableSelectors = [], StoreUnavailableText = [], StoreScopeSelector = [],
     StoreTimeoutSeconds = 10, StoreEstimatedResponseSeconds = 1, StoreAllowRedirects = True,
     StoreEnabled = True, StoreName = ''Shop'', StoreLists = [demo_list], StoreSearched = None,
     StoreSingles = None, StoreSealed = None\<rparr>"

definition demo_provider :: search_provider_config where
  "demo_provider = \<lparr>ProviderType = ''scrycl'', ProviderURL = ''https://scry.cl'', ProviderEnabled = False,
     ProviderGames = [''magic''], ProviderStores = [], ProviderCommunity = False, ProviderSealed = Some False,
     ProviderSingles = None\<rparr>"

definition demo_shops :: shops where
  "demo_shops = \<lparr>ShopsConfig = \<lparr>ConfigLanguages = [],
     ConfigGames = [(''magic'', demo_game ''magic''), (''pokemon'', demo_game ''pokemon'')],
     ConfigProviders = [(''scrycl'', demo_provider)], ConfigStores = [(''shop.cl'', demo_store)]\<rparr>,
     ShopsBuyerName = [], ShopsBuyerEmail = []\<rparr>"

text \<open>An address parser for the two addresses of this directory.\<close>

definition demo_config_env :: config_env where
  "demo_config_env = \<lparr>EnvQuote = (\<lambda>s. s),
     EnvParse = (\<lambda>s. if s = ''https://moxfield.com/decks/x5''
       then Some \<lparr>UrlScheme = ''https'', UrlHost = ''moxfield.com'', UrlHasUser = False, UrlPath = ''/decks/x5''\<rparr> else None),
     EnvParseRequestURI = (\<lambda>s. Some \<lparr>UrlScheme = ''https'', UrlHost = ''scry.cl'', UrlHasUser = False, UrlPath = []\<rparr>)\<rparr>"

lemmas demo_shop_defs = demo_shops_def demo_store_def demo_game_def demo_list_def demo_provider_def demo_config_env_def

lemma demo_valid: "ValidateConfig demo_config_env (ShopsConfig demo_shops) = None"
  by code_simp

theorem selector_matches_sources_witness:
  "answers_for demo_shops ''magic'' ''shop.cl'' = storeAnswers demo_store (demo_game ''magic'') ''magic''
   \<and> storeAnswers demo_store (demo_game ''magic'') ''magic''"
  using selector_matches_sources [OF demo_valid, of "''magic''" "demo_game ''magic''" "''shop.cl''" demo_store]
  by (simp add: demo_shop_defs storeAnswers_def IsSearched_def absent_means_yes_def)

lemma demo_supported: "support_of (ShopsConfig demo_shops) (''magic'', demo_game ''magic'') \<in> set (SupportedGames (ShopsConfig demo_shops))"
  by (simp add: SupportedGames_def support_of_def demo_shop_defs storeAnswers_def IsSearched_def SellsSingles_def
      absent_means_yes_def provider_serves_def)

theorem offered_game_is_asked_witness:
  "\<exists>sources. map_of (SourcesByGame demo_shops) ''magic'' = Some sources \<and> sources \<noteq> []"
proof -
  have "SupportKey (support_of (ShopsConfig demo_shops) (''magic'', demo_game ''magic'')) = ''magic''"
    by (simp add: support_of_def Let_def)
  moreover have "Providers demo_shops ''magic'' = None" by (simp add: Providers_def demo_shop_defs)
  ultimately show ?thesis
    using offered_game_is_asked [OF demo_valid _ _ demo_supported] by (simp add: demo_shop_defs)
qed

theorem list_shelved_per_game_witness:
  "\<exists>a b. a \<in> set (CollectInventories (SourcesByGame demo_shops)) \<and> b \<in> set (CollectInventories (SourcesByGame demo_shops))
    \<and> a \<noteq> b \<and> ListStoreID a = ListStoreID b \<and> ListClientLabel a = ListClientLabel b \<and> ListClientURL a = ListClientURL b"
  by (rule list_shelved_per_game [of demo_shops "''magic''" "demo_game ''magic''" "''pokemon''" "demo_game ''pokemon''"
        "''shop.cl''" demo_store 0])
     (simp_all add: demo_shop_defs store_asked_def IsSearched_def absent_means_yes_def)

end
