(* ===== verification/Sessions.thy ===== *)
theory Sessions
  imports SourceClient
begin

text \<open>
  internal/source/client.go, \<open>SendSession\<close>: one call of a store session, such as adding a line to a
  cart.  It passes the same gate as a fetch and is never made twice.

  The headers of a refused reply, which no caller reads, are left out; the methods the stores use
  are valid, so building a request fails only on its address.
\<close>

type_synonym http_header = "(string \<times> string list) list"

text \<open>A body that is absent is not an empty body.\<close>

record session_request =
  SessionMethod :: string
  SessionTarget :: string
  SessionBody :: "string option"
  SessionHeader :: http_header

record session_reply = http_reply +
  ReplyHeader :: http_header

record session_client =
  SessionSource :: client
  SessionDo :: "session_request \<Rightarrow> session_reply io"

definition HeaderValues :: "http_header \<Rightarrow> string \<Rightarrow> string list" where
  "HeaderValues h key = (case map_of h key of None \<Rightarrow> [] | Some vs \<Rightarrow> vs)"

definition HeaderGet :: "http_header \<Rightarrow> string \<Rightarrow> string" where
  "HeaderGet h key = (case HeaderValues h key of [] \<Rightarrow> [] | v # _ \<Rightarrow> v)"

text \<open>The headers of the request, then those every session call carries.\<close>

definition session_headers :: "session_client \<Rightarrow> session_request \<Rightarrow> http_header" where
  "session_headers c r =
     (let h = fold (\<lambda>(k, vs). AList.update k vs) (SessionHeader r) [];
          h = AList.update ''User-Agent'' [ClientUserAgent (SessionSource c)] (AList.update ''Accept'' [''application/json''] h)
      in if SessionBody r \<noteq> None then AList.update ''Content-Type'' [''application/json''] h else h)"

definition sendSession :: "session_client \<Rightarrow> fetch_env \<Rightarrow> session_request \<Rightarrow> (string \<times> http_header) io" where
  "sendSession c env r =
     (if ParseAddress env (SessionTarget r) = None then fail_io (Failure (SessionTarget r))
      else bind_io (SessionDo c (r\<lparr>SessionHeader := session_headers c r\<rparr>)) (\<lambda>reply.
        if ReplyStatus reply < 200 \<or> 300 \<le> ReplyStatus reply
        then fail_io (StatusError (ReplyStatus reply) (take 1024 (ReplyBody reply)))
        else case ReplyBroken reply of
               Some e \<Rightarrow> fail_io e
             | None \<Rightarrow> return_io (take (nat (bodyCap (SessionSource c))) (ReplyBody reply), ReplyHeader reply)))"

definition SendSession ::
  "session_client \<Rightarrow> fetch_env \<Rightarrow> string \<Rightarrow> session_request \<Rightarrow> (string \<times> http_header) io" where
  "SendSession c env domain r =
     bind_io (gate_await (SessionSource c) domain) (\<lambda>_.
     bind_io now (\<lambda>started.
     bind_io (try_io (sendSession c env r)) (\<lambda>data.
     bind_io now (\<lambda>ended.
     bind_io (gate_record (SessionSource c) domain (ended - started) (failure_of data)) (\<lambda>_.
       case data of Inl e \<Rightarrow> fail_io e | Inr x \<Rightarrow> return_io x)))))"

section \<open>One call\<close>

text \<open>
  What a session sends is seen through any measure of the world that the client's own calls extend
  by one mark each, and that the gate and the clock leave alone.
\<close>

definition keeps :: "(world \<Rightarrow> 'b) \<Rightarrow> 'a io \<Rightarrow> bool" where
  "keeps seen m \<longleftrightarrow> (\<forall>w. seen (snd (m w)) = seen w)"

definition session_seen :: "(world \<Rightarrow> 'b list) \<Rightarrow> (session_request \<Rightarrow> 'b) \<Rightarrow> session_client \<Rightarrow> bool" where
  "session_seen seen mark c \<longleftrightarrow>
     (\<forall>r w. seen (snd (SessionDo c r w)) = seen w @ [mark r])
     \<and> (\<forall>domain. keeps seen (gate_await (SessionSource c) domain))
     \<and> (\<forall>domain latency e. keeps seen (gate_record (SessionSource c) domain latency e))
     \<and> keeps seen now"

lemma keepsD: "keeps seen m \<Longrightarrow> m w = (r, w') \<Longrightarrow> seen w' = seen w"
  by (metis keeps_def snd_conv)

lemma sendSession_seen:
  assumes "session_seen seen mark c" "sendSession c env r w = (q, w')"
  shows "seen w' = seen w @ (if ParseAddress env (SessionTarget r) = None then [] else [mark (r\<lparr>SessionHeader := session_headers c r\<rparr>)])"
proof (cases "ParseAddress env (SessionTarget r)")
  case None
  with assms(2) show ?thesis by (simp add: sendSession_def fail_io_def)
next
  case (Some u)
  let ?r = "r\<lparr>SessionHeader := session_headers c r\<rparr>"
  obtain a w1 where do: "SessionDo c ?r w = (a, w1)" by (cases "SessionDo c ?r w")
  with assms(2) Some have "w' = w1"
    by (auto simp: sendSession_def run_simps split: sum.splits option.splits if_splits)
  moreover have "seen w1 = seen w @ [mark ?r]"
    using assms(1) do by (metis session_seen_def snd_conv)
  ultimately show ?thesis using Some by simp
qed

lemma SendSession_seen:
  assumes seen: "session_seen seen mark c" and run: "SendSession c env domain r w = (q, w')"
  shows "seen w' = seen w @
    (if (\<exists>w1. gate_await (SessionSource c) domain w = (Inr (), w1)) \<and> ParseAddress env (SessionTarget r) \<noteq> None
     then [mark (r\<lparr>SessionHeader := session_headers c r\<rparr>)] else [])"
proof -
  from seen have await: "keeps seen (gate_await (SessionSource c) domain)"
    and rec: "keeps seen (gate_record (SessionSource c) domain l e)" and clock: "keeps seen now" for l e
    by (simp_all add: session_seen_def)
  obtain g w1 where g: "gate_await (SessionSource c) domain w = (g, w1)" by (cases "gate_await (SessionSource c) domain w")
  have s1: "seen w1 = seen w" using keepsD [OF await g] .
  show ?thesis
  proof (cases g)
    case (Inl e)
    with run g have "w' = w1" by (simp add: SendSession_def bind_io_def)
    with s1 g Inl show ?thesis by simp
  next
    case (Inr u)
    obtain t2 w2 where n2: "now w1 = (t2, w2)" by (cases "now w1")
    obtain x w3 where x: "sendSession c env r w2 = (x, w3)" by (cases "sendSession c env r w2")
    obtain t4 w4 where n4: "now w3 = (t4, w4)" by (cases "now w3")
    have t: "t2 = Inr (clock w1 (ticks w1))" "t4 = Inr (clock w3 (ticks w3))" using n2 n4 by (simp_all add: now_def)
    let ?rec = "gate_record (SessionSource c) domain (clock w3 (ticks w3) - clock w1 (ticks w1)) (failure_of x)"
    obtain y w5 where y: "?rec w4 = (y, w5)" by (cases "?rec w4")
    from run g Inr n2 t x n4 y have "w' = w5"
      by (auto simp: SendSession_def bind_io_def try_io_def return_io_def fail_io_def split: sum.splits)
    moreover have "seen w5 = seen w3" using keepsD [OF rec y] keepsD [OF clock n4] by simp
    moreover have "seen w2 = seen w" using keepsD [OF clock n2] s1 by simp
    ultimately show ?thesis using sendSession_seen [OF seen x] g Inr by simp
  qed
qed

lemma gate_record_Inr: "\<exists>w'. gate_record c domain l e w = (Inr (), w')"
  by (auto simp: gate_record_def run_simps split: option.splits prod.splits)

text \<open>C14 A call of a store session is made once and never again: when the gate turns the domain away
  or the address does not read, nothing is sent; otherwise exactly the one request is, with its
  own headers and those every session carries, whatever became of it, and the caller gets that
  call's own outcome.\<close>
theorem session_called_once:
  assumes seen: "session_seen seen mark c" and run: "SendSession c env domain r w = (q, w')"
  shows "seen w' = seen w @
      (if (\<exists>w1. gate_await (SessionSource c) domain w = (Inr (), w1)) \<and> ParseAddress env (SessionTarget r) \<noteq> None
       then [mark (r\<lparr>SessionHeader := session_headers c r\<rparr>)] else [])
    \<and> (\<exists>e w1. gate_await (SessionSource c) domain w = (Inl e, w1) \<and> q = Inl e
       \<or> (\<exists>w1. gate_await (SessionSource c) domain w = (Inr (), w1)
            \<and> q = fst (sendSession c env r (w1\<lparr>ticks := Suc (ticks w1)\<rparr>))))"
proof
  show "seen w' = seen w @
      (if (\<exists>w1. gate_await (SessionSource c) domain w = (Inr (), w1)) \<and> ParseAddress env (SessionTarget r) \<noteq> None
       then [mark (r\<lparr>SessionHeader := session_headers c r\<rparr>)] else [])"
    by (rule SendSession_seen [OF seen run])
  obtain g w1 where g: "gate_await (SessionSource c) domain w = (g, w1)" by (cases "gate_await (SessionSource c) domain w")
  obtain x w3 where x: "sendSession c env r (w1\<lparr>ticks := Suc (ticks w1)\<rparr>) = (x, w3)" by fastforce
  show "\<exists>e w1. gate_await (SessionSource c) domain w = (Inl e, w1) \<and> q = Inl e
       \<or> (\<exists>w1. gate_await (SessionSource c) domain w = (Inr (), w1)
            \<and> q = fst (sendSession c env r (w1\<lparr>ticks := Suc (ticks w1)\<rparr>)))"
  proof (cases g)
    case (Inl e)
    with run g show ?thesis by (simp add: SendSession_def bind_io_def)
  next
    case (Inr u)
    obtain w5 where "gate_record (SessionSource c) domain (clock w3 (ticks w3) - clock w1 (ticks w1)) (failure_of x)
        (w3\<lparr>ticks := Suc (ticks w3)\<rparr>) = (Inr (), w5)" using gate_record_Inr by blast
    with run g Inr x have "q = x"
      by (auto simp: SendSession_def bind_io_def try_io_def now_def return_io_def fail_io_def split: sum.splits)
    with g Inr x show ?thesis by simp
  qed
qed

section \<open>A session that is seen\<close>

text \<open>A network that answers 503 to everything; the naps keep the length of every body it was sent.\<close>

definition demo_session :: session_client where
  "demo_session = \<lparr>SessionSource = \<lparr>ClientSend = (\<lambda>_. fail_io ErrMissing), ClientGate = None, ClientUserAgent = ''muchi'',
       ClientMaxAttempts = 3, ClientBaseDelay = 1, ClientMaxBodyBytes = 0, ClientStorefront = False\<rparr>,
     SessionDo = (\<lambda>r w. (Inr \<lparr>ReplyStatus = 503, ReplyRetryAfter = [], ReplyBody = ''busy'', ReplyBroken = None, ReplyHeader = []\<rparr>,
       w\<lparr>naps := naps w @ [case SessionBody r of None \<Rightarrow> 0 | Some b \<Rightarrow> int (length b)]\<rparr>))\<rparr>"

definition demo_call :: session_request where
  "demo_call = \<lparr>SessionMethod = ''POST'', SessionTarget = ''https://shop.cl/cart'', SessionBody = Some ''{}'', SessionHeader = []\<rparr>"

definition demo_session_env :: fetch_env where
  "demo_session_env = \<lparr>ParseHTTPTime = (\<lambda>_. None), ContextDeadline = None,
     ParseAddress = (\<lambda>_. Some \<lparr>URLScheme = ''https'', URLHost = ''shop.cl''\<rparr>)\<rparr>"

theorem session_called_once_witness:
  "\<exists>w'. SendSession demo_session demo_session_env ''shop.cl'' demo_call (calm_world empty_db) = (Inl (StatusError 503 ''busy''), w')
     \<and> naps w' = [2]"
proof -
  let ?w = "calm_world empty_db" and ?mark = "\<lambda>r. case SessionBody r of None \<Rightarrow> 0 | Some b \<Rightarrow> int (length b)"
  have seen: "session_seen naps ?mark demo_session"
    by (simp add: session_seen_def demo_session_def keeps_def gate_await_def gate_record_def return_io_def now_def)
  obtain q w' where run: "SendSession demo_session demo_session_env ''shop.cl'' demo_call ?w = (q, w')" by fastforce
  have "gate_await (SessionSource demo_session) ''shop.cl'' ?w = (Inr (), ?w)"
    by (simp add: gate_await_def demo_session_def return_io_def)
  moreover have "fst (sendSession demo_session demo_session_env demo_call v) = Inl (StatusError 503 ''busy'')" for v
    by (simp add: sendSession_def demo_session_def demo_session_env_def demo_call_def run_simps)
  ultimately have "naps w' = [2]" "q = Inl (StatusError 503 ''busy'')"
    using session_called_once [OF seen run]
    by (auto simp: demo_session_env_def demo_call_def calm_world_def)
  with run show ?thesis by blast
qed

end
