(* ===== verification/Storefront.thy ===== *)
theory Storefront
  imports Numbers Catalog OfferSearch Sessions "HOL-Library.Signed_Division" "HOL-Library.Log_Nat"
begin

text \<open>
  What the platform clients under internal/stores share: pages and addresses as the parsers of
  golang.org/x/net/html and net/url answer them, the ports a client holds, and amounts.

  The parsers, \<open>url.Values.Encode\<close>, \<open>url.PathEscape\<close>, \<open>url.QueryEscape\<close>, \<open>html.UnescapeString\<close> and
  \<open>strconv.ParseFloat\<close> are arguments.  A loop over the pages of a store takes fuel, and \<open>None\<close> says
  that the fuel ran out first.
\<close>

section \<open>Pages\<close>

datatype node_type = ElementNode | TextNode | OtherNode

datatype html_node =
  HtmlNode (NodeType: node_type) (NodeData: string) (NodeAttr: "(string \<times> string) list") (NodeChildren: "html_node list")

text \<open>\<open>Descendants()\<close>: depth first, a node before its children, without the root itself.\<close>

fun Descendants :: "html_node \<Rightarrow> html_node list" where
  "Descendants (HtmlNode t d a children) = concat (map (\<lambda>c. c # Descendants c) children)"

definition attribute :: "html_node \<Rightarrow> string \<Rightarrow> string" where
  "attribute node key = lookup_string (NodeAttr node) key"

definition hasClass :: "html_node \<Rightarrow> string \<Rightarrow> bool" where
  "hasClass node name \<longleftrightarrow> name \<in> set (Fields (attribute node ''class''))"

text \<open>A map built from the attributes keeps the last of a key.\<close>

definition readAttributes :: "html_node \<Rightarrow> (string \<times> string) list" where
  "readAttributes node = rev (NodeAttr node)"

section \<open>Addresses\<close>

record store_link = parsed_url +
  UrlEscapedPath :: string
  UrlQuery :: "(string \<times> string) list"

definition sameStore :: "store_link \<Rightarrow> string \<Rightarrow> bool" where
  "sameStore link domain \<longleftrightarrow>
     (UrlScheme link = [] \<or> UrlScheme link = ''https'')
     \<and> (UrlHost link = [] \<or> TrimPrefix (UrlHost link) ''www.'' = TrimPrefix domain ''www.'')
     \<and> \<not> UrlHasUser link"

section \<open>The ports of a client\<close>

type_synonym session_port = "string \<Rightarrow> session_request \<Rightarrow> (string \<times> http_header) io"

record store_env =
  StoreText :: text_env
  StoreFetch :: "string \<Rightarrow> string \<Rightarrow> string io"
  StoreFetchStorefront :: "(string \<Rightarrow> string \<Rightarrow> string io) option"
  StoreSessions :: "session_port option"
  StoreParse :: "string \<Rightarrow> store_link option"
  StoreUrls :: url_parser
  StoreEncode :: "(string \<times> string) list \<Rightarrow> string"
  StorePathEscape :: "string \<Rightarrow> string"
  StoreQueryEscape :: "string \<Rightarrow> string"
  StoreUnescape :: "string \<Rightarrow> string"
  StoreHtml :: "string \<Rightarrow> failure + html_node"

record front =
  FrontDomain :: string
  FrontName :: string

definition front_store :: "front \<Rightarrow> string" where
  "front_store c = (if FrontName c = [] then FrontDomain c else FrontName c)"

definition decoded_io :: "failure + 'a \<Rightarrow> 'a io" where
  "decoded_io r = (case r of Inl e \<Rightarrow> fail_io e | Inr x \<Rightarrow> return_io x)"

lemma decoded_io_Inr: "decoded_io r w = (Inr x, w') \<longleftrightarrow> r = Inr x \<and> w' = w"
  by (auto simp: decoded_io_def run_simps split: sum.splits)

text \<open>Three letters: \<open>len(c) == 3 && strings.Trim(c, "A..Z") == ""\<close>.\<close>

definition currency_code :: "string \<Rightarrow> bool" where
  "currency_code s \<longleftrightarrow> length s = 3 \<and> list_all (\<lambda>c. 65 \<le> byte c \<and> byte c \<le> 90) s"

section \<open>Fuel\<close>

text \<open>What a loop goes on with after a page.\<close>

definition map_found :: "('a \<Rightarrow> 'b io) \<Rightarrow> 'a option \<Rightarrow> 'b option io" where
  "map_found f r = (case r of None \<Rightarrow> return_io None | Some x \<Rightarrow> bind_io (f x) (\<lambda>y. return_io (Some y)))"

section \<open>Doubles\<close>

text \<open>
  The value a float64 operation stores: the nearest multiple of the unit in the last place, ties to
  the even one, and an infinity past the largest.
\<close>

definition round_even :: "rat \<Rightarrow> int" where
  "round_even x =
     (let n = \<lfloor>x\<rfloor>; d = x - rat_of_int n
      in if d < 1 / 2 then n else if 1 / 2 < d then n + 1 else if even n then n else n + 1)"

definition rat_exp :: "rat \<Rightarrow> int" where
  "rat_exp x =
     (let (p, q) = quotient_of x; k = bitlen p - bitlen q
      in if 2 powi k \<le> x then k else k - 1)"

definition to_double :: "rat \<Rightarrow> float64" where
  "to_double r =
     (if r = 0 then Finite 0
      else let unit = 2 powi max (- 1074) (rat_exp \<bar>r\<bar> - 52);
               m = rat_of_int (round_even (\<bar>r\<bar> / unit)) * unit
           in if 2 ^ 1024 \<le> m then (if r < 0 then MinusInf else PlusInf)
              else Finite (sgn r * m))"

fun float_times :: "float64 \<Rightarrow> rat \<Rightarrow> float64" where
  "float_times (Finite a) b = to_double (a * b)"
| "float_times x b = x"

text \<open>\<open>math.Round\<close> takes halves away from zero.\<close>

definition round_away :: "rat \<Rightarrow> int" where
  "round_away x = (if x < 0 then - \<lfloor>1 / 2 - x\<rfloor> else \<lfloor>x + 1 / 2\<rfloor>)"

section \<open>Texts and lists\<close>

text \<open>\<open>%02d\<close>.\<close>

definition Pad2 :: "int \<Rightarrow> string" where
  "Pad2 n = (let s = Itoa n in if length s < 2 then CHR ''0'' # s else s)"

lemma Pad2_digits:
  assumes "0 \<le> n" "n < 100"
  shows "length (Pad2 n) = 2 \<and> list_all is_digit (Pad2 n) \<and> digits_value (Pad2 n) = n"
proof (cases "n < 10")
  case True
  with assms(1) have "Pad2 n = [CHR ''0'', char_of (48 + nat n)]"
    by (simp add: Pad2_def Itoa_nonneg nat_digits.simps [of "nat n"] nat_less_iff)
  with True assms(1) show ?thesis
    by (simp add: is_digit_def digits_value_def digit_value_def byte_digit byte_def [of "CHR ''0''"] nat_less_iff)
next
  case False
  with assms have "nat n div 10 < 10" "\<not> nat n < 10" by auto
  then have "Itoa n = [char_of (48 + nat n div 10), char_of (48 + nat n mod 10)]"
    using assms(1) by (simp add: Itoa_nonneg nat_digits.simps [of "nat n"] nat_digits.simps [of "nat n div 10"])
  then have "Pad2 n = Itoa n" by (simp add: Pad2_def)
  with \<open>Itoa n = _\<close> Itoa_digits [OF assms(1)] show ?thesis by simp
qed

definition condition_names :: "string list" where
  "condition_names = [''condition'', ''condici'' @ [CHR 0xC3, CHR 0xB3] @ ''n'', ''condicion'', ''estado'']"

definition add_new :: "'a list \<Rightarrow> 'a list \<Rightarrow> 'a list" where
  "add_new before links = foldl (\<lambda>found l. if l \<in> set found then found else found @ [l]) before links"

lemma add_new_props:
  "set (add_new found links) = set found \<union> set links
   \<and> (distinct found \<longrightarrow> distinct (add_new found links)) \<and> length found \<le> length (add_new found links)"
proof (induction links arbitrary: found)
  case (Cons l links)
  have step: "add_new found (l # links) = add_new (if l \<in> set found then found else found @ [l]) links"
    by (simp add: add_new_def)
  show ?case unfolding step using Cons.IH [of "if l \<in> set found then found else found @ [l]"] by auto
qed (simp add: add_new_def)

section \<open>Carts\<close>

definition wanted_units :: "(cart_line \<times> int) list \<Rightarrow> int \<Rightarrow> int" where
  "wanted_units lines = foldl (\<lambda>m (line, i). m(i := wrap64 (m i + LineQuantity line))) (\<lambda>_. 0) lines"

text \<open>One notice per variant the cart holds in another number: its wanted count is settled then.\<close>

fun trimmed_notices :: "(int \<Rightarrow> int) \<Rightarrow> (int \<Rightarrow> int) \<Rightarrow> (cart_line \<times> int) list \<Rightarrow> string list" where
  "trimmed_notices held wanted [] = []"
| "trimmed_notices held wanted ((line, i) # lines) =
     (if held i \<noteq> wanted i
      then (OfferID (LineOffer line) @ '': asked '' @ Itoa (wanted i) @ '', cart holds '' @ Itoa (held i))
           # trimmed_notices held (wanted(i := held i)) lines
      else trimmed_notices held wanted lines)"

definition session_call :: "string \<Rightarrow> string \<Rightarrow> string option \<Rightarrow> http_header \<Rightarrow> session_request" where
  "session_call method target body header =
     \<lparr>SessionMethod = method, SessionTarget = target, SessionBody = body, SessionHeader = header\<rparr>"

lemma trimmed_notices_length:
  "length (trimmed_notices held wanted lines) = card {i \<in> snd ` set lines. held i \<noteq> wanted i}"
proof (induction held wanted lines rule: trimmed_notices.induct)
  case (2 held wanted line i lines)
  show ?case
  proof (cases "held i = wanted i")
    case True
    then have "{j \<in> snd ` set ((line, i) # lines). held j \<noteq> wanted j} = {j \<in> snd ` set lines. held j \<noteq> wanted j}" by auto
    with True 2(2) show ?thesis by simp
  next
    case False
    from False have "{j \<in> snd ` set ((line, i) # lines). held j \<noteq> wanted j}
        = insert i {j \<in> snd ` set lines. held j \<noteq> (wanted(i := held i)) j}"
      by auto
    also have "card \<dots> = Suc (card {j \<in> snd ` set lines. held j \<noteq> (wanted(i := held i)) j})"
      by (rule card_insert_disjoint) simp_all
    finally show ?thesis using False 2(1) by (simp del: fun_upd_apply)
  qed
qed simp

lemma map_filter_mem: "x \<in> set xs \<Longrightarrow> f x = Some y \<Longrightarrow> y \<in> set (List.map_filter f xs)"
  by (force simp: List.map_filter_def)

section \<open>Calls in order\<close>

text \<open>
  A port sends one request at a time: a call leaves one mark, or it fails before anything is sent.
  \<open>makes\<close> says that the marks a run leaves are a prefix of one of the call lists, and all of it when
  the run succeeds.
\<close>

definition port_seen :: "(world \<Rightarrow> 'b list) \<Rightarrow> (session_request \<Rightarrow> 'b) \<Rightarrow> session_port \<Rightarrow> bool" where
  "port_seen seen mark send \<longleftrightarrow>
     (\<forall>d r w q w'. send d r w = (q, w') \<longrightarrow>
        seen w' = seen w @ [mark r] \<or> seen w' = seen w \<and> (\<exists>e. q = Inl e))"

definition makes :: "(world \<Rightarrow> 'b list) \<Rightarrow> ('r \<Rightarrow> 'b) \<Rightarrow> 'a io \<Rightarrow> 'r list set \<Rightarrow> bool" where
  "makes seen mark m C \<longleftrightarrow>
     (\<forall>w q w'. m w = (q, w') \<longrightarrow>
        (\<exists>cs \<in> C. \<exists>ds. prefix ds cs \<and> seen w' = seen w @ map mark ds \<and> ((\<exists>x. q = Inr x) \<longrightarrow> ds = cs)))"

lemma makes_return: "[] \<in> C \<Longrightarrow> makes seen mark (return_io x) C"
  unfolding makes_def return_io_def by (auto intro!: bexI [of _ "[]"])

lemma makes_fail: "C \<noteq> {} \<Longrightarrow> makes seen mark (fail_io e) C"
  unfolding makes_def fail_io_def by auto

lemma makes_send: "port_seen seen mark send \<Longrightarrow> makes seen mark (send d r) {[r]}"
  unfolding makes_def port_seen_def by (fastforce intro: exI [of _ "[]"] exI [of _ "[r]"])

lemma makes_bind:
  assumes m: "makes seen mark m {a}" and f: "\<And>x. makes seen mark (f x) (C x)"
    and D: "\<And>x b. b \<in> C x \<Longrightarrow> a @ b \<in> D"
  shows "makes seen mark (bind_io m f) D"
  unfolding makes_def
proof (intro allI impI)
  fix w q w' assume run: "bind_io m f w = (q, w')"
  obtain r w1 where r: "m w = (r, w1)" by (cases "m w")
  with m obtain ds where ds: "prefix ds a" "seen w1 = seen w @ map mark ds" "(\<exists>x. r = Inr x) \<longrightarrow> ds = a"
    unfolding makes_def by (metis singletonD)
  have some: "\<exists>x b. b \<in> C x"
  proof -
    obtain q2 w2 where "f undefined w = (q2, w2)" by (cases "f undefined w")
    with f show ?thesis unfolding makes_def by blast
  qed
  show "\<exists>cs \<in> D. \<exists>ds. prefix ds cs \<and> seen w' = seen w @ map mark ds \<and> ((\<exists>x. q = Inr x) \<longrightarrow> ds = cs)"
  proof (cases r)
    case (Inl e)
    with run r have stop: "q = Inl e" "w' = w1" by (simp_all add: bind_io_def)
    from some obtain x b where "b \<in> C x" by blast
    with D have "a @ b \<in> D" by blast
    with ds stop show ?thesis by (intro bexI [of _ "a @ b"] exI [of _ ds]) (auto intro: prefix_prefix)
  next
    case (Inr x)
    with run r have "f x w1 = (q, w')" by (simp add: bind_io_def)
    with f obtain cs es where cs: "cs \<in> C x" "prefix es cs" "seen w' = seen w1 @ map mark es" "(\<exists>y. q = Inr y) \<longrightarrow> es = cs"
      unfolding makes_def by blast
    with ds Inr D show ?thesis by (intro bexI [of _ "a @ cs"] exI [of _ "ds @ es"]) auto
  qed
qed

lemma makes_weaken: "makes seen mark m C \<Longrightarrow> C \<subseteq> D \<Longrightarrow> makes seen mark m D"
  unfolding makes_def by blast

lemma if_makes: "makes seen mark a C \<Longrightarrow> makes seen mark b C \<Longrightarrow> makes seen mark (if t then a else b) C"
  by simp

lemma makes_decoded: "makes seen mark (decoded_io r) {[]}"
  by (cases r) (simp_all add: decoded_io_def makes_return makes_fail)

text \<open>The session call of the source client is such a port.\<close>

lemma SendSession_port_seen:
  assumes "session_seen seen mark c"
  shows "port_seen seen (\<lambda>r. mark (r\<lparr>SessionHeader := session_headers c r\<rparr>)) (SendSession c env)"
  unfolding port_seen_def
proof (intro allI impI)
  fix d r w q w' assume run: "SendSession c env d r w = (q, w')"
  have "seen w' = seen w \<and> (\<exists>e. q = Inl e)"
    if "\<not> ((\<exists>w1. gate_await (SessionSource c) d w = (Inr (), w1)) \<and> ParseAddress env (SessionTarget r) \<noteq> None)"
  proof
    show "seen w' = seen w" using SendSession_seen [OF assms run] that by simp
    show "\<exists>e. q = Inl e" using run that
      by (cases "gate_await (SessionSource c) d w")
        (auto simp: SendSession_def sendSession_def gate_record_def run_simps split: sum.splits prod.splits option.splits)
  qed
  then show "seen w' = seen w @ [mark (r\<lparr>SessionHeader := session_headers c r\<rparr>)] \<or> seen w' = seen w \<and> (\<exists>e. q = Inl e)"
    using SendSession_seen [OF assms run] by auto
qed

end
