(* ===== verification/Shopify.thy ===== *)
theory Shopify
  imports Storefront
begin

text \<open>
  internal/stores/shopify: offers read from storefront search and Ajax products, stock, cart
  permalinks, and what a store would charge to ship a cart.
\<close>

section \<open>Replies\<close>

record shopify_variant =
  VariantReplyID :: int
  VariantTitle :: string
  VariantPrice :: "int option"
  VariantAvailable :: bool
  VariantOptions :: "string list"
  VariantSKU :: string

text \<open>Options are a name and a position; absent variants are not no variants.\<close>

record shopify_product =
  ProductID :: int
  ProductTitle :: string
  ProductType :: string
  ProductImage :: string
  ProductVariants :: "shopify_variant list option"
  ProductOptions :: "(string \<times> int) list"

record shopify_item =
  ShopifyItemID :: int
  ShopifyItemQuantity :: int
  ShopifyItemPrice :: int

record shopify_cart =
  ShopifyCurrency :: string
  ShopifyTotal :: int
  ShopifyItems :: "shopify_item list"

record shopify_rate =
  ShopifyRateCode :: string
  ShopifyRateName :: string
  ShopifyRatePrice :: string

record shopify_env = store_env +
  DecodeCurrency :: "string \<Rightarrow> failure + string"
  DecodeProduct :: "string \<Rightarrow> failure + shopify_product"
  DecodeShopifyCart :: "string \<Rightarrow> failure + shopify_cart"
  DecodeRates :: "string \<Rightarrow> failure + shopify_rate list"
  EncodeItems :: "(int \<times> int) list \<Rightarrow> string"
  ReadFloat :: "string \<Rightarrow> float64 option"
  IntOutOfRange :: "float64 \<Rightarrow> int"

section \<open>Products (internal/stores/shopify/product.go)\<close>

text \<open>Go's division truncates.\<close>

definition Shopify_formatPrice :: "int \<Rightarrow> string" where
  "Shopify_formatPrice price =
     (if price smod 100 = 0 then Itoa (price sdiv 100)
      else Itoa (price sdiv 100) @ ''.'' @ Pad2 (price smod 100))"

definition readImageURL :: "string \<Rightarrow> string" where
  "readImageURL v = (if HasPrefix v ''//'' then ''https:'' @ v else v)"

definition Shopify_applyOptions :: "shopify_env \<Rightarrow> offer \<Rightarrow> shopify_product \<Rightarrow> shopify_variant \<Rightarrow> offer" where
  "Shopify_applyOptions env item product variant =
     foldl (\<lambda>item (name, position).
       if position - 1 < 0 \<or> int (length (VariantOptions variant)) \<le> position - 1 then item
       else let v = VariantOptions variant ! nat (position - 1); key = ToLower (StoreText env) name
            in if key \<in> {''language'', ''idioma''} then item\<lparr>OfferLanguage := v\<rparr>
               else if key \<in> set condition_names then item\<lparr>OfferCondition := v\<rparr>
               else if key \<in> {''finish'', ''acabado'', ''foil''} then item\<lparr>OfferFinish := v\<rparr>
               else item) item (ProductOptions product)"

definition shopify_offer :: "shopify_env \<Rightarrow> front \<Rightarrow> shopify_product \<Rightarrow> string \<Rightarrow> string \<Rightarrow> int \<Rightarrow> shopify_variant \<Rightarrow> offer" where
  "shopify_offer env c product path currency price variant =
     (let i = Itoa (VariantReplyID variant)
      in Shopify_applyOptions env (zero_offer\<lparr>
           OfferID := FrontDomain c @ '':'' @ i, OfferVariantID := i, OfferCardName := ProductTitle product,
           OfferStore := front_store c, OfferPriceAmount := Shopify_formatPrice price, OfferPriceCurrency := currency,
           OfferURL := ''https://'' @ FrontDomain c @ path @ ''?variant='' @ i, OfferImage := readImageURL (ProductImage product),
           OfferSource := FrontDomain c, OfferStockStatus := ''available'',
           OfferMetadata := [(''title'', ProductTitle product), (''edition'', ProductType product),
             (''variant'', VariantTitle variant), (''sku'', VariantSKU variant), (''product_id'', Itoa (ProductID product))]\<rparr>)
         product variant)"

fun shopify_offers ::
  "shopify_env \<Rightarrow> front \<Rightarrow> shopify_product \<Rightarrow> string \<Rightarrow> string \<Rightarrow> shopify_variant list \<Rightarrow> failure + offer list" where
  "shopify_offers env c product path currency [] = Inr []"
| "shopify_offers env c product path currency (v # vs) =
     (if \<not> VariantAvailable v then shopify_offers env c product path currency vs
      else case VariantPrice v of
        None \<Rightarrow> Inl (Failure ''invalid Shopify variant price or ID'')
      | Some price \<Rightarrow>
          if VariantReplyID v \<le> 0 \<or> price \<le> 0 then Inl (Failure ''invalid Shopify variant price or ID'')
          else map_sum id (\<lambda>items. shopify_offer env c product path currency price v # items)
                 (shopify_offers env c product path currency vs))"

definition Shopify_buildOffers :: "shopify_env \<Rightarrow> front \<Rightarrow> shopify_product \<Rightarrow> string \<Rightarrow> string \<Rightarrow> failure + offer list" where
  "Shopify_buildOffers env c product path currency =
     shopify_offers env c product path currency (case ProductVariants product of None \<Rightarrow> [] | Some vs \<Rightarrow> vs)"

definition Shopify_stockStatus :: "bool \<Rightarrow> string" where
  "Shopify_stockStatus available = (if available then ''available'' else ''unavailable'')"

section \<open>Storefront search (internal/stores/shopify/search.go)\<close>

definition productPath :: "shopify_env \<Rightarrow> store_link \<Rightarrow> string \<Rightarrow> string" where
  "productPath env link domain =
     (if \<not> sameStore link domain then []
      else case Index (UrlPath link) ''/products/'' of
        None \<Rightarrow> []
      | Some n \<Rightarrow>
          let handle = drop (n + 10) (UrlPath link)
          in if handle = [] \<or> ContainsAny handle [CHR ''/'', CHR 0x5C] \<or> Contains handle ''.'' then []
             else ''/products/'' @ StorePathEscape env handle)"

text \<open>The links of the anchors that lead to the same store.\<close>

definition store_anchors :: "shopify_env \<Rightarrow> string \<Rightarrow> html_node \<Rightarrow> store_link list" where
  "store_anchors env domain document =
     List.map_filter (\<lambda>node.
       if NodeType node \<noteq> ElementNode \<or> NodeData node \<noteq> ''a'' then None
       else case StoreParse env (lookup_string (readAttributes node) ''href'') of
         None \<Rightarrow> None
       | Some link \<Rightarrow> if sameStore link domain then Some link else None) (Descendants document)"

definition has_search_form :: "html_node \<Rightarrow> bool" where
  "has_search_form document \<longleftrightarrow>
     list_ex (\<lambda>node. NodeType node = ElementNode \<and> NodeData node = ''input''
       \<and> lookup_string (readAttributes node) ''name'' = ''q'') (Descendants document)"

definition Shopify_readSearch :: "shopify_env \<Rightarrow> string \<Rightarrow> string \<Rightarrow> int \<Rightarrow> failure + string list \<times> bool" where
  "Shopify_readSearch env data domain page =
     (case StoreHtml env data of
        Inl e \<Rightarrow> Inl e
      | Inr document \<Rightarrow>
          let links = store_anchors env domain document in
          if \<not> has_search_form document then Inl (Failure ''Shopify page missing search form'')
          else Inr (filter (\<lambda>p. p \<noteq> []) (map (\<lambda>l. productPath env l domain) links),
                 list_ex (\<lambda>l. UrlPath l = ''/search''
                   \<and> (case Atoi (lookup_string (UrlQuery l) ''page'') of None \<Rightarrow> 0 | Some n \<Rightarrow> n) = page + 1) links))"

definition Shopify_fetchPage :: "shopify_env \<Rightarrow> front \<Rightarrow> string \<Rightarrow> string io" where
  "Shopify_fetchPage env c path = StoreFetch env (FrontDomain c) (''https://'' @ FrontDomain c @ path)"

definition search_path :: "shopify_env \<Rightarrow> string \<Rightarrow> int \<Rightarrow> string" where
  "search_path env name page =
     ''/search?'' @ StoreEncode env [(''q'', ''\"'' @ filter (\<lambda>c. c \<noteq> CHR ''\"'') name @ ''\"''), (''type'', ''product''),
       (''options[prefix]'', ''none''), (''filter.v.availability'', ''1''), (''page'', Itoa page)]"

fun shopify_pages :: "nat \<Rightarrow> shopify_env \<Rightarrow> front \<Rightarrow> string \<Rightarrow> int \<Rightarrow> string list \<Rightarrow> string list option io" where
  "shopify_pages 0 env c name page products = return_io None"
| "shopify_pages (Suc fuel) env c name page products =
     bind_io (Shopify_fetchPage env c (search_path env name page)) (\<lambda>data.
     bind_io (decoded_io (Shopify_readSearch env data (FrontDomain c) page)) (\<lambda>(links, next).
       let all = add_new products links in
       if 1 < page \<and> length all = length products then fail_io (Failure ''Shopify pagination repeated products'')
       else if \<not> next then return_io (Some all)
       else shopify_pages fuel env c name (page + 1) all))"

definition Shopify_findProducts :: "nat \<Rightarrow> shopify_env \<Rightarrow> front \<Rightarrow> string \<Rightarrow> string list option io" where
  "Shopify_findProducts fuel env c name = shopify_pages fuel env c name 1 []"

section \<open>Reading a product (internal/stores/shopify/client.go)\<close>

definition readCurrency :: "shopify_env \<Rightarrow> front \<Rightarrow> string io" where
  "readCurrency env c =
     bind_io (Shopify_fetchPage env c ''/cart.js'') (\<lambda>data.
     bind_io (decoded_io (DecodeCurrency env data)) (\<lambda>currency.
       if \<not> currency_code currency then fail_io (Failure ''invalid Shopify currency'') else return_io currency))"

definition Shopify_readProduct :: "shopify_env \<Rightarrow> front \<Rightarrow> string \<Rightarrow> shopify_product io" where
  "Shopify_readProduct env c path =
     bind_io (Shopify_fetchPage env c (path @ ''.js'')) (\<lambda>data.
     bind_io (decoded_io (DecodeProduct env data)) (\<lambda>product.
       if ProductID product \<le> 0 \<or> ProductTitle product = [] \<or> ProductVariants product = None
       then fail_io (Failure ''invalid Shopify product'') else return_io product))"

fun shopify_found :: "shopify_env \<Rightarrow> front \<Rightarrow> card_query \<Rightarrow> string \<Rightarrow> string list \<Rightarrow> offer list io" where
  "shopify_found env c q currency [] = return_io []"
| "shopify_found env c q currency (link # links) =
     bind_io (Shopify_readProduct env c link) (\<lambda>product.
       if \<not> AcceptsTitle (StoreText env) q (ProductTitle product) then shopify_found env c q currency links
       else bind_io (decoded_io (Shopify_buildOffers env c product link currency)) (\<lambda>offers.
            bind_io (shopify_found env c q currency links) (\<lambda>items. return_io (offers @ items))))"

definition Shopify_FindOffers :: "nat \<Rightarrow> shopify_env \<Rightarrow> front \<Rightarrow> card_query \<Rightarrow> offer list option io" where
  "Shopify_FindOffers fuel env c q =
     (if TrimSpace (QueryName q) = [] then fail_io (Failure ''empty card name'')
      else bind_io (Shopify_findProducts fuel env c (QueryName q)) (map_found (\<lambda>links.
        if links = [] then return_io []
        else bind_io (readCurrency env c) (\<lambda>currency.
             bind_io (shopify_found env c q currency links) (\<lambda>items.
               return_io (DeduplicateOffers items))))))"

section \<open>Cart permalinks (internal/stores/shopify/link.go)\<close>

definition VariantID :: "shopify_env \<Rightarrow> string \<Rightarrow> offer \<Rightarrow> string" where
  "VariantID env domain item =
     (let variant = (case StoreParse env (OfferURL item) of
            None \<Rightarrow> []
          | Some link \<Rightarrow> if UrlHost link = domain then lookup_string (UrlQuery link) ''variant'' else []);
          variant = (if variant = [] \<and> OfferSource item = domain then OfferVariantID item else variant)
      in case Atoi variant of None \<Rightarrow> [] | Some n \<Rightarrow> if n \<le> 0 then [] else variant)"

definition quantity_of :: "(string \<times> int) list \<Rightarrow> string \<Rightarrow> int" where
  "quantity_of quantities variant = (case map_of quantities variant of None \<Rightarrow> 0 | Some n \<Rightarrow> n)"

text \<open>The quantities of the variants, in the order they are first named.\<close>

fun cart_quantities :: "shopify_env \<Rightarrow> front \<Rightarrow> (string \<times> int) list \<Rightarrow> cart_line list \<Rightarrow> (string \<times> int) list option" where
  "cart_quantities env c quantities [] = Some quantities"
| "cart_quantities env c quantities (line # lines) =
     (let variant = VariantID env (FrontDomain c) (LineOffer line) in
      if variant = [] \<or> LineQuantity line \<le> 0 then None
      else cart_quantities env c
             (AList.update variant (wrap64 (quantity_of quantities variant + LineQuantity line)) quantities) lines)"

definition Shopify_CartLink :: "shopify_env \<Rightarrow> front \<Rightarrow> cart_line list \<Rightarrow> string option" where
  "Shopify_CartLink env c lines =
     map_option (\<lambda>quantities. ''https://'' @ FrontDomain c @ ''/cart/''
         @ Join (map (\<lambda>(variant, n). variant @ '':'' @ Itoa n) quantities) '','')
       (cart_quantities env c [] lines)"

section \<open>Counted stock (internal/stores/shopify/inventory.go)\<close>

text \<open>A pattern at the head of a text answers what it captures and how much it consumes.\<close>

type_synonym matcher = "string \<Rightarrow> ((string \<times> string) \<times> nat) option"

definition skip_spaces :: "string \<Rightarrow> string" where
  "skip_spaces s = dropWhile regex_space s"

definition skip_colon :: "string \<Rightarrow> string option" where
  "skip_colon s = CutPrefix (skip_spaces s) '':''"

text \<open>\<open>-?\d{1,6}\<close>, as long as it gets.\<close>

definition take_count :: "string \<Rightarrow> string option" where
  "take_count s =
     (let (sign, rest) = (case s of CHR ''-'' # r \<Rightarrow> (''-'', r) | _ \<Rightarrow> ([], s));
          ds = take 6 (takeWhile is_digit rest)
      in if ds = [] then None else Some (sign @ ds))"

text \<open>\<open>"inventory_quantity"\s*:\s*(-?\d{1,6})\<close>: the count and what follows it.\<close>

definition take_inventory :: "string \<Rightarrow> (string \<times> string) option" where
  "take_inventory s =
     Option.bind (CutPrefix s ''\"inventory_quantity\"'') (\<lambda>r.
     Option.bind (skip_colon r) (\<lambda>r.
       let r = skip_spaces r in map_option (\<lambda>n. (n, drop (length n) r)) (take_count r)))"

text \<open>\<open>[^{}]*?\<close> before it: the first place it stands at, no brace in between.\<close>

fun find_inventory :: "string \<Rightarrow> (string \<times> string) option" where
  "find_inventory [] = None"
| "find_inventory (c # s) =
     (case take_inventory (c # s) of
        Some found \<Rightarrow> Some found
      | None \<Rightarrow> if c = CHR ''{'' \<or> c = CHR ''}'' then None else find_inventory s)"

definition consumed :: "string \<Rightarrow> string \<Rightarrow> string \<times> string \<Rightarrow> (string \<times> string) \<times> nat" where
  "consumed s i found = (case found of (n, rest) \<Rightarrow> ((i, n), length s - length rest))"

definition countedVariant :: matcher where
  "countedVariant s =
     Option.bind (CutPrefix s ''\"'') (\<lambda>r.
       let i = takeWhile is_digit r in
       if i = [] then None
       else Option.bind (CutPrefix (drop (length i) r) ''\"'') (\<lambda>r.
            Option.bind (skip_colon r) (\<lambda>r.
            Option.bind (CutPrefix (skip_spaces r) ''{'') (\<lambda>r.
              map_option (consumed s i) (find_inventory r)))))"

definition countedInline :: matcher where
  "countedInline s =
     Option.bind (CutPrefix s ''\"id\"'') (\<lambda>r.
     Option.bind (skip_colon r) (\<lambda>r.
       let r = skip_spaces r; i = takeWhile is_digit r in
       if i = [] then None
       else map_option (consumed s i) (find_inventory (drop (length i) r))))"

function FindAll :: "matcher \<Rightarrow> string \<Rightarrow> (string \<times> string) list" where
  "FindAll m [] = []"
| "FindAll m (c # s) =
     (case m (c # s) of
        None \<Rightarrow> FindAll m s
      | Some (found, n) \<Rightarrow> found # FindAll m (drop (n - 1) s))"
  by pat_completeness auto

termination
  by (relation "measure (\<lambda>(m, s). length s)") auto

definition readCountedVariant :: "string \<Rightarrow> string \<Rightarrow> int option" where
  "readCountedVariant data variant =
     (case List.map_filter (\<lambda>(i, n). if i \<noteq> variant then None
              else case Atoi n of None \<Rightarrow> None | Some units \<Rightarrow> if units < 0 then None else Some units)
            (FindAll countedVariant data @ FindAll countedInline data) of
        [] \<Rightarrow> None
      | units # _ \<Rightarrow> Some units)"

definition readVariantUnits :: "string \<Rightarrow> string \<Rightarrow> int option" where
  "readVariantUnits data variant =
     (case readCountedVariant data variant of Some units \<Rightarrow> Some units | None \<Rightarrow> CountDeclaredUnits data)"

section \<open>Stock (internal/stores/shopify/client.go)\<close>

definition countUnits :: "shopify_env \<Rightarrow> front \<Rightarrow> string \<Rightarrow> string \<Rightarrow> int option io" where
  "countUnits env c path variant =
     bind_io (try_io (Shopify_fetchPage env c (path @ ''?variant='' @ variant))) (\<lambda>r.
       return_io (case r of Inl _ \<Rightarrow> None | Inr data \<Rightarrow> readVariantUnits data variant))"

definition read_variant :: "shopify_env \<Rightarrow> front \<Rightarrow> string \<Rightarrow> string \<Rightarrow> shopify_product \<Rightarrow> stock_reading io" where
  "read_variant env c path variant product =
     (case find (\<lambda>v. Itoa (VariantReplyID v) = variant) (case ProductVariants product of None \<Rightarrow> [] | Some vs \<Rightarrow> vs) of
        None \<Rightarrow> return_io (ReadStock ''unknown'')
      | Some v \<Rightarrow>
          if \<not> VariantAvailable v then return_io (CountStock ''unavailable'' 0)
          else bind_io (countUnits env c path variant) (\<lambda>units.
            return_io (case units of
                None \<Rightarrow> ReadStock ''available''
              | Some n \<Rightarrow> if 0 < n then CountStock ''available'' n else ReadStock ''available'')))"

definition Shopify_CheckStock :: "shopify_env \<Rightarrow> front \<Rightarrow> offer \<Rightarrow> stock_reading io" where
  "Shopify_CheckStock env c item =
     (case StoreParse env (OfferURL item) of
        None \<Rightarrow> fail_io (Failure (OfferURL item))
      | Some link \<Rightarrow>
          let path = productPath env link (FrontDomain c);
              variant = lookup_string (UrlQuery link) ''variant'';
              variant = (if variant = [] then OfferVariantID item else variant)
          in if path = [] then fail_io (Failure ''invalid Shopify product URL'')
             else if variant = [] then return_io (ReadStock ''unknown'')
             else bind_io (Shopify_readProduct env c path) (read_variant env c path variant))"

section \<open>Quotes (internal/stores/shopify/quote.go)\<close>

definition readCookies :: "http_header \<Rightarrow> string" where
  "readCookies header =
     Join (List.map_filter (\<lambda>line. let pair = fst (SplitTwo line CHR '';'')
             in if Contains pair ''='' then Some (TrimSpace pair) else None)
           (HeaderValues header ''Set-Cookie'')) ''; ''"

text \<open>\<open>int64(x)\<close>: what it answers past the 64-bit range is the platform's.\<close>

definition to_int64 :: "shopify_env \<Rightarrow> float64 \<Rightarrow> int" where
  "to_int64 env x =
     (case x of Finite r \<Rightarrow> (let n = round_away r in if fits64 n then n else IntOutOfRange env x)
      | _ \<Rightarrow> IntOutOfRange env x)"

definition rate_cents :: "shopify_env \<Rightarrow> shopify_rate \<Rightarrow> int option" where
  "rate_cents env rate =
     (case ReadFloat env (ShopifyRatePrice rate) of
        None \<Rightarrow> None
      | Some amount \<Rightarrow> if float_less amount (Finite 0) then None else Some (to_int64 env (float_times amount 100)))"

definition Shopify_rate_of :: "shopify_rate \<Rightarrow> int \<Rightarrow> shipping_rate" where
  "Shopify_rate_of rate cents =
     \<lparr>RateID = ShopifyRateCode rate, RateName = ShopifyRateName rate, RatePrice = Shopify_formatPrice cents,
      RateSelected = False\<rparr>"

definition cheapest_rate :: "int list \<Rightarrow> int" where
  "cheapest_rate amounts = foldl (\<lambda>cheapest cents. if cheapest < 0 \<or> cents < cheapest then cents else cheapest) (- 1) amounts"

definition held_units :: "shopify_item list \<Rightarrow> int \<Rightarrow> int" where
  "held_units items = foldl (\<lambda>m e. m(ShopifyItemID e := wrap64 (m (ShopifyItemID e) + ShopifyItemQuantity e))) (\<lambda>_. 0) items"

definition echo_line :: "shopify_item list \<Rightarrow> cart_line \<times> int \<Rightarrow> quote_line" where
  "echo_line items entry =
     (case entry of (line, i) \<Rightarrow>
        \<lparr>QuoteLineOfferID = OfferID (LineOffer line), QuoteLineQuantity = LineQuantity line,
         QuoteLineUnitPrice = foldl (\<lambda>price e. if ShopifyItemID e = i then Shopify_formatPrice (ShopifyItemPrice e) else price) [] items\<rparr>)"

definition Shopify_readQuote :: "shopify_env \<Rightarrow> shopify_cart \<Rightarrow> shopify_rate list \<Rightarrow> (cart_line \<times> int) list \<Rightarrow> cart_quote" where
  "Shopify_readQuote env cart rates lines =
     (let priced = List.map_filter (\<lambda>r. map_option (\<lambda>n. (r, n)) (rate_cents env r)) rates;
          cheapest = cheapest_rate (map snd priced);
          shipping = (if cheapest < 0 then 0 else cheapest)
      in \<lparr>QuoteCurrency = ShopifyCurrency cart, QuoteItems = Shopify_formatPrice (ShopifyTotal cart),
          QuoteShipping = Shopify_formatPrice shipping,
          QuoteTotal = Shopify_formatPrice (wrap64 (ShopifyTotal cart + shipping)),
          QuoteLines = map (echo_line (ShopifyItems cart)) lines,
          QuoteShippingRates = map (\<lambda>(r, n). Shopify_rate_of r n) priced, QuotePaymentMethods = [],
          QuoteNotices = trimmed_notices (held_units (ShopifyItems cart)) (wanted_units lines) lines
            @ (if cheapest < 0 then [''the store offered no shipping rate for this address''] else [])\<rparr>)"

fun variant_numbers :: "shopify_env \<Rightarrow> front \<Rightarrow> cart_line list \<Rightarrow> int list option" where
  "variant_numbers env c [] = Some []"
| "variant_numbers env c (line # lines) =
     (case Atoi (VariantID env (FrontDomain c) (LineOffer line)) of
        None \<Rightarrow> None
      | Some i \<Rightarrow> map_option (\<lambda>ids. i # ids) (variant_numbers env c lines))"

definition rates_path :: "shopify_env \<Rightarrow> shipping_address \<Rightarrow> string" where
  "rates_path env address =
     ''/cart/shipping_rates.json?'' @ StoreEncode env [(''shipping_address[country]'', AddressCountry address),
       (''shipping_address[province]'', AddressRegion address), (''shipping_address[zip]'', AddressPostcode address)]"

definition ask_cart :: "shopify_env \<Rightarrow> front \<Rightarrow> session_port \<Rightarrow> (cart_line \<times> int) list \<Rightarrow> shipping_address \<Rightarrow> cart_quote io" where
  "ask_cart env c send lines address =
     (let base = ''https://'' @ FrontDomain c;
          body = EncodeItems env (map (\<lambda>(line, i). (i, LineQuantity line)) lines)
      in bind_io (send (FrontDomain c) (session_call ''POST'' (base @ ''/cart/add.js'') (Some body) [])) (\<lambda>(_, header).
         let session = [(''Cookie'', [readCookies header])]
         in bind_io (send (FrontDomain c) (session_call ''GET'' (base @ ''/cart.js'') None session)) (\<lambda>(data, _).
            bind_io (decoded_io (DecodeShopifyCart env data)) (\<lambda>cart.
            bind_io (send (FrontDomain c) (session_call ''GET'' (base @ rates_path env address) None session)) (\<lambda>(data, _).
            bind_io (decoded_io (DecodeRates env data)) (\<lambda>rates.
              return_io (Shopify_readQuote env cart rates lines)))))))"

definition Shopify_QuoteCart :: "shopify_env \<Rightarrow> front \<Rightarrow> cart_line list \<Rightarrow> shipping_address \<Rightarrow> cart_quote io" where
  "Shopify_QuoteCart env c lines address =
     (case StoreSessions env of
        None \<Rightarrow> fail_io ErrNoQuote
      | Some send \<Rightarrow>
          if lines = [] then fail_io ErrNoQuote
          else case variant_numbers env c lines of
            None \<Rightarrow> fail_io ErrNoQuote
          | Some ids \<Rightarrow> ask_cart env c send (zip lines ids) address)"

section \<open>Prices\<close>

lemma sdiv_nonneg: "0 \<le> (n :: int) \<Longrightarrow> n sdiv 100 = n div 100 \<and> n smod 100 = n mod 100"
  by (cases "n = 0") (simp_all add: signed_divide_int_def signed_modulo_int_def sgn_if minus_div_mult_eq_mod)

text \<open>A Shopify price is read back as the number of hundredths the store sent: \<open>parseCents\<close>, by
  which offers are compared, undoes \<open>formatPrice\<close> on every amount that is not negative.\<close>
theorem shopify_price_reads_back:
  assumes "0 \<le> n" "fits64 n"
  shows "parseCents (Shopify_formatPrice n) = Inr n"
proof -
  have whole: "0 \<le> n div 100" "fits64 (n div 100)" using assms by (auto simp: int64_defs)
  note digits = Itoa_digits [OF whole(1)]
  have n: "wrap64 (n div 100 * 100 + n mod 100) = n" using assms(2) by (simp add: wrap64_id)
  show ?thesis
  proof (cases "n mod 100 = 0")
    case True
    with assms(1) have "Shopify_formatPrice n = Itoa (n div 100)" by (simp add: Shopify_formatPrice_def sdiv_nonneg)
    with digits whole n True show ?thesis by (simp add: parseCents_whole del: div_mult_mod_eq)
  next
    case False
    note pad = Pad2_digits [of "n mod 100"]
    from False assms(1) have "Shopify_formatPrice n = Itoa (n div 100) @ CHR ''.'' # Pad2 (n mod 100)"
      by (simp add: Shopify_formatPrice_def sdiv_nonneg)
    with digits whole n pad show ?thesis by (simp add: parseCents_dot del: div_mult_mod_eq)
  qed
qed

theorem shopify_price_reads_back_witness: "Shopify_formatPrice 123405 = ''1234.05'' \<and> parseCents (Shopify_formatPrice 123405) = Inr 123405"
  using shopify_price_reads_back [of 123405] by (simp add: int64_defs) code_simp

section \<open>Permalinks\<close>

text \<open>The copies the lines ask of a variant.\<close>

definition asked_of :: "shopify_env \<Rightarrow> front \<Rightarrow> cart_line list \<Rightarrow> string \<Rightarrow> int" where
  "asked_of env c lines variant =
     sum_list (map LineQuantity (filter (\<lambda>l. VariantID env (FrontDomain c) (LineOffer l) = variant) lines))"

lemma asked_of_simps [simp]:
  "asked_of env c [] v = 0"
  "asked_of env c (l # ls) v = (if VariantID env (FrontDomain c) (LineOffer l) = v then LineQuantity l else 0) + asked_of env c ls v"
  by (simp_all add: asked_of_def)

lemma asked_of_nonneg: "\<forall>l \<in> set ls. 0 < LineQuantity l \<Longrightarrow> 0 \<le> asked_of env c ls v"
  by (induction ls) auto

definition line_named :: "shopify_env \<Rightarrow> front \<Rightarrow> cart_line \<Rightarrow> bool" where
  "line_named env c l \<longleftrightarrow> VariantID env (FrontDomain c) (LineOffer l) \<noteq> [] \<and> 0 < LineQuantity l"

lemma cart_quantities_None:
  "cart_quantities env c qs ls = None \<longleftrightarrow> (\<exists>l \<in> set ls. \<not> line_named env c l)"
  by (induction ls arbitrary: qs) (auto simp: line_named_def Let_def)

lemma quantity_of_update: "quantity_of (AList.update k n qs) v = (if v = k then n else quantity_of qs v)"
  by (simp add: quantity_of_def map_of_alist_update)

lemma cart_quantities_Some:
  assumes "cart_quantities env c qs ls = Some out" "distinct (map fst qs)"
    and "\<forall>v. 0 \<le> quantity_of qs v \<and> quantity_of qs v + asked_of env c ls v \<le> max_int64"
  shows "distinct (map fst out)
    \<and> set (map fst out) = set (map fst qs) \<union> (\<lambda>l. VariantID env (FrontDomain c) (LineOffer l)) ` set ls
    \<and> (\<forall>v. quantity_of out v = quantity_of qs v + asked_of env c ls v)"
  using assms
proof (induction ls arbitrary: qs)
  case (Cons l ls)
  let ?v = "VariantID env (FrontDomain c) (LineOffer l)"
  let ?qs = "AList.update ?v (wrap64 (quantity_of qs ?v + LineQuantity l)) qs"
  from Cons.prems(1) have run: "cart_quantities env c ?qs ls = Some out" and l: "?v \<noteq> []" "0 < LineQuantity l"
    by (auto simp: Let_def split: if_splits)
  from run have "\<not> (\<exists>l \<in> set ls. \<not> line_named env c l)" using cart_quantities_None by (metis option.distinct(1))
  then have rest: "0 \<le> asked_of env c ls v" for v by (intro asked_of_nonneg) (auto simp: line_named_def)
  from Cons.prems(3) l(2) rest [of ?v] have "fits64 (quantity_of qs ?v + LineQuantity l)"
    by (auto simp: int64_defs dest!: spec [of _ ?v])
  then have wrap: "wrap64 (quantity_of qs ?v + LineQuantity l) = quantity_of qs ?v + LineQuantity l" by (rule wrap64_id)
  have "\<forall>v. 0 \<le> quantity_of ?qs v \<and> quantity_of ?qs v + asked_of env c ls v \<le> max_int64"
  proof
    fix v
    show "0 \<le> quantity_of ?qs v \<and> quantity_of ?qs v + asked_of env c ls v \<le> max_int64"
      using spec [OF Cons.prems(3), of v] l(2) by (cases "v = ?v") (simp_all add: quantity_of_update wrap)
  qed
  from Cons.IH [OF run distinct_alist_update [OF Cons.prems(2)] this] show ?case
    by (auto simp: quantity_of_update wrap dom_update)
qed simp

text \<open>A Shopify permalink fills the cart the buyer chose: there is none exactly when a line names no
  variant of the store or asks no copy, and otherwise it names every variant of the lines once,
  each with all the copies the lines ask of it together.\<close>
theorem permalink_holds_every_line:
  assumes "\<forall>v. asked_of env c lines v \<le> max_int64"
  shows "(Shopify_CartLink env c lines = None \<longleftrightarrow> (\<exists>l \<in> set lines. \<not> line_named env c l))
    \<and> (\<forall>url. Shopify_CartLink env c lines = Some url \<longrightarrow>
         (\<exists>variants. distinct variants
            \<and> set variants = (\<lambda>l. VariantID env (FrontDomain c) (LineOffer l)) ` set lines
            \<and> url = ''https://'' @ FrontDomain c @ ''/cart/''
                @ Join (map (\<lambda>v. v @ '':'' @ Itoa (asked_of env c lines v)) variants) '',''))"
proof (intro conjI allI impI)
  show "Shopify_CartLink env c lines = None \<longleftrightarrow> (\<exists>l \<in> set lines. \<not> line_named env c l)"
    by (simp add: Shopify_CartLink_def cart_quantities_None)
next
  fix url assume "Shopify_CartLink env c lines = Some url"
  then obtain qs where qs: "cart_quantities env c [] lines = Some qs"
    and url: "url = ''https://'' @ FrontDomain c @ ''/cart/'' @ Join (map (\<lambda>(v, n). v @ '':'' @ Itoa n) qs) '',''"
    by (auto simp: Shopify_CartLink_def)
  from assms have out: "distinct (map fst qs)" "set (map fst qs) = (\<lambda>l. VariantID env (FrontDomain c) (LineOffer l)) ` set lines"
    "quantity_of qs v = asked_of env c lines v" for v
    using cart_quantities_Some [OF qs] by (simp_all add: quantity_of_def)
  have "n = asked_of env c lines v" if "(v, n) \<in> set qs" for v n
    using that out(1) out(3) [of v] by (simp add: quantity_of_def)
  then have same: "map (\<lambda>(v, n). v @ '':'' @ Itoa n) qs = map (\<lambda>v. v @ '':'' @ Itoa (asked_of env c lines v)) (map fst qs)"
    by auto
  show "\<exists>variants. distinct variants
      \<and> set variants = (\<lambda>l. VariantID env (FrontDomain c) (LineOffer l)) ` set lines
      \<and> url = ''https://'' @ FrontDomain c @ ''/cart/''
          @ Join (map (\<lambda>v. v @ '':'' @ Itoa (asked_of env c lines v)) variants) '',''"
    by (intro exI [of _ "map fst qs"] conjI out(1) out(2) url [unfolded same])
qed

section \<open>Paging ends\<close>

lemma shopify_pages_end:
  assumes "finite S" "\<And>data page links next. Shopify_readSearch env data (FrontDomain c) page = Inr (links, next) \<Longrightarrow> set links \<subseteq> S"
    and "set products \<subseteq> S" "distinct products" "1 \<le> page"
    and "card S + (if page = 1 then 2 else 1) \<le> fuel + length products"
  shows "fst (shopify_pages fuel env c name page products w) \<noteq> Inr None"
  using assms(3-)
proof (induction fuel arbitrary: page products w)
  case 0
  moreover have "length products \<le> card S" using assms(1) 0(1,2) by (metis card_mono distinct_card)
  ultimately show ?case by (auto split: if_splits)
next
  case (Suc fuel)
  obtain r w1 where page: "Shopify_fetchPage env c (search_path env name page) w = (r, w1)" by fastforce
  show ?case
  proof (cases "\<exists>data links. r = Inr data \<and> Shopify_readSearch env data (FrontDomain c) page = Inr (links, True)
      \<and> \<not> (1 < page \<and> length (add_new products links) = length products)")
    case False
    with page show ?thesis
      by (auto simp: bind_io_def decoded_io_def fail_io_def return_io_def Let_def split: sum.splits)
  next
    case True
    then obtain data links where r: "r = Inr data" "Shopify_readSearch env data (FrontDomain c) page = Inr (links, True)"
      and new: "\<not> (1 < page \<and> length (add_new products links) = length products)" by blast
    let ?all = "add_new products links"
    from Suc.prems assms(2) [OF r(2)] have all: "set ?all \<subseteq> S" "distinct ?all" "length products \<le> length ?all"
      using add_new_props [of products links] by auto
    with new Suc.prems(3,4) have "card S + (if page + 1 = 1 then 2 else 1) \<le> fuel + length ?all"
      by (auto split: if_splits)
    from Suc.IH [OF all(1,2) _ this, of w1] Suc.prems(3)
    have "fst (shopify_pages fuel env c name (page + 1) ?all w1) \<noteq> Inr None" by simp
    with page r new show ?thesis by (auto simp: bind_io_def decoded_io_def return_io_def Let_def)
  qed
qed

text \<open>C28 Searching a Shopify store ends: whatever its pages say about a next one, a store whose pages
  link to finitely many products is asked for at most two pages more than it has products, since
  every page after the first must bring a new one.\<close>
theorem shopify_search_ends:
  assumes "finite products"
    and "\<And>data page links next. Shopify_readSearch env data (FrontDomain c) page = Inr (links, next) \<Longrightarrow> set links \<subseteq> products"
    and "card products + 2 \<le> fuel"
  shows "fst (Shopify_FindOffers fuel env c q w) \<noteq> Inr None"
proof -
  have "fst (shopify_pages fuel env c (QueryName q) 1 [] w) \<noteq> Inr None"
    using assms by (intro shopify_pages_end [of products]) simp_all
  then show ?thesis
    by (auto simp: Shopify_FindOffers_def Shopify_findProducts_def map_found_def bind_io_def fail_io_def return_io_def
        split: prod.splits sum.splits option.splits)
qed

section \<open>Quotes\<close>

lemma cheapest_fold:
  "\<forall>n \<in> set ns. 0 \<le> n \<Longrightarrow> 0 \<le> m \<Longrightarrow>
   foldl (\<lambda>cheapest cents. if cheapest < 0 \<or> cents < cheapest then cents else cheapest) m ns = Min (insert m (set ns))"
proof (induction ns arbitrary: m)
  case (Cons n ns)
  have "Min (insert m (set (n # ns))) = Min (insert (min m n) (set ns))"
    by (cases "set ns = {}") (simp_all add: min.assoc)
  moreover have "(if m < 0 \<or> n < m then n else m) = min m n" using Cons.prems by (auto simp: min_def)
  ultimately show ?case using Cons by simp
qed simp

lemma cheapest_rate_Min:
  assumes "\<forall>n \<in> set ns. 0 \<le> n"
  shows "cheapest_rate ns = (if ns = [] then - 1 else Min (set ns))"
proof (cases ns)
  case (Cons n rest)
  with assms have "cheapest_rate ns = foldl (\<lambda>cheapest cents. if cheapest < 0 \<or> cents < cheapest then cents else cheapest) n rest"
    by (simp add: cheapest_rate_def)
  with Cons assms show ?thesis by (simp add: cheapest_fold)
qed (simp add: cheapest_rate_def)

text \<open>A Shopify quote charges the cheapest rate the store offers, and says what the cart lacks: with
  rates of readable, non-negative amounts the shipping is the least of them and the total adds it
  to the items; without any the shipping is zero and a notice says so; and there is one notice
  more for each variant of the lines that the cart holds in another number than was asked.\<close>
theorem shopify_quote_adds_up:
  assumes "\<forall>r \<in> set rates. \<forall>n. rate_cents env r = Some n \<longrightarrow> 0 \<le> n"
  shows "let quote = Shopify_readQuote env cart rates lines;
             amounts = List.map_filter (rate_cents env) rates;
             shipping = (if amounts = [] then 0 else Min (set amounts))
         in QuoteShipping quote = Shopify_formatPrice shipping
          \<and> QuoteTotal quote = Shopify_formatPrice (wrap64 (ShopifyTotal cart + shipping))
          \<and> map RatePrice (QuoteShippingRates quote) = map Shopify_formatPrice amounts
          \<and> length (QuoteNotices quote)
            = card {i \<in> snd ` set lines. held_units (ShopifyItems cart) i \<noteq> wanted_units lines i} + (if amounts = [] then 1 else 0)"
proof -
  let ?priced = "List.map_filter (\<lambda>r. map_option (\<lambda>n. (r, n)) (rate_cents env r)) rates"
  let ?amounts = "List.map_filter (rate_cents env) rates"
  have priced: "map snd ?priced = ?amounts" by (induction rates) (auto simp: List.map_filter_simps split: option.split)
  have prices: "map RatePrice (map (\<lambda>(r, n). Shopify_rate_of r n) ?priced) = map Shopify_formatPrice ?amounts"
    unfolding priced [symmetric] by (auto simp: Shopify_rate_of_def)
  have none: "?priced = [] \<longleftrightarrow> ?amounts = []" unfolding priced [symmetric] by simp
  have nonneg: "\<forall>n \<in> set ?amounts. 0 \<le> n" using assms by (auto simp: List.map_filter_def)
  have cheapest: "cheapest_rate (map snd ?priced) = (if ?amounts = [] then - 1 else Min (set ?amounts))"
    unfolding priced using nonneg by (rule cheapest_rate_Min)
  have least: "\<not> Min (set ?amounts) < 0" if "?amounts \<noteq> []" using that nonneg by (simp add: Min_less_iff not_less)
  show ?thesis
    by (cases "?amounts = []") (use least in \<open>simp_all add: Shopify_readQuote_def Let_def cheapest prices none
      trimmed_notices_length del: map_map\<close>)
qed

section \<open>A store with one card\<close>

definition demo_link :: store_link where
  "demo_link = \<lparr>UrlScheme = ''https'', UrlHost = ''shop.cl'', UrlHasUser = False, UrlPath = ''/products/opt'',
     UrlEscapedPath = ''/products/opt'', UrlQuery = [(''variant'', ''41'')]\<rparr>"

text \<open>Its search page links to one product, and to a next page whatever the page.\<close>

definition demo_page :: html_node where
  "demo_page = HtmlNode OtherNode [] [] [HtmlNode ElementNode ''input'' [(''name'', ''q'')] [],
     HtmlNode ElementNode ''a'' [(''href'', ''/products/opt'')] []]"

definition demo_shopify :: shopify_env where
  "demo_shopify = \<lparr>StoreText = plain_env, StoreFetch = (\<lambda>_ _. return_io ''page''), StoreFetchStorefront = None,
     StoreSessions = None, StoreParse = (\<lambda>_. Some demo_link),
     StoreUrls = \<lparr>parse_url = (\<lambda>_. None), parse_request_uri = (\<lambda>_. None)\<rparr>,
     StoreEncode = (\<lambda>_. ''q''), StorePathEscape = (\<lambda>s. s), StoreQueryEscape = (\<lambda>s. s), StoreUnescape = (\<lambda>s. s),
     StoreHtml = (\<lambda>_. Inr demo_page), DecodeCurrency = (\<lambda>_. Inr ''CLP''),
     DecodeProduct = (\<lambda>_. Inl (Failure ''json'')), DecodeShopifyCart = (\<lambda>_. Inl (Failure ''json'')),
     DecodeRates = (\<lambda>_. Inl (Failure ''json'')), EncodeItems = (\<lambda>_. ''{}''),
     ReadFloat = (\<lambda>s. if s = ''49'' then Some (Finite 49) else if s = ''25'' then Some (Finite 25) else None),
     IntOutOfRange = (\<lambda>_. 0)\<rparr>"

definition demo_front :: front where "demo_front = \<lparr>FrontDomain = ''shop.cl'', FrontName = ''Shop''\<rparr>"

definition demo_line :: "string \<Rightarrow> int \<Rightarrow> cart_line" where
  "demo_line i n = \<lparr>LineOffer = zero_offer\<lparr>OfferID := i\<rparr>, LineQuantity = n\<rparr>"

definition demo_shopify_cart :: shopify_cart where
  "demo_shopify_cart = \<lparr>ShopifyCurrency = ''CLP'', ShopifyTotal = 3000,
     ShopifyItems = [\<lparr>ShopifyItemID = 41, ShopifyItemQuantity = 2, ShopifyItemPrice = 1500\<rparr>]\<rparr>"

definition demo_rates :: "shopify_rate list" where
  "demo_rates = map (\<lambda>p. \<lparr>ShopifyRateCode = p, ShopifyRateName = p, ShopifyRatePrice = p\<rparr>) [''49'', ''free'', ''25'']"

lemmas demo_shopify_defs = demo_shopify_def demo_link_def demo_page_def demo_front_def demo_line_def

theorem permalink_holds_every_line_witness:
  "Shopify_CartLink demo_shopify demo_front [demo_line ''a'' 1, demo_line ''b'' 2] = Some ''https://shop.cl/cart/41:3''"
proof -
  let ?lines = "[demo_line ''a'' 1, demo_line ''b'' 2]"
  have v: "VariantID demo_shopify (FrontDomain demo_front) o1 = ''41''" for o1
    by (simp add: VariantID_def Let_def demo_shopify_defs lookup_string_def Atoi_def is_digit_def byte_def digits_value_def
        digit_value_def int64_defs)
  have asked: "asked_of demo_shopify demo_front ?lines x = (if x = ''41'' then 3 else 0)" for x
    by (simp add: v demo_line_def)
  have small: "\<forall>x. asked_of demo_shopify demo_front ?lines x \<le> max_int64"
    by (simp add: asked max_int64_def del: asked_of_simps)
  have "\<not> (\<exists>l \<in> set ?lines. \<not> line_named demo_shopify demo_front l)" by (simp add: line_named_def v demo_line_def)
  with permalink_holds_every_line [OF small] obtain url variants where
    url: "Shopify_CartLink demo_shopify demo_front ?lines = Some url"
      "url = ''https://'' @ FrontDomain demo_front @ ''/cart/''
        @ Join (map (\<lambda>v. v @ '':'' @ Itoa (asked_of demo_shopify demo_front ?lines v)) variants) '',''"
    and variants: "distinct variants" "set variants = {''41''}"
    by (auto simp: v demo_line_def)
  from variants have "variants = [''41'']"
    by (metis distinct.simps(2) empty_iff insert_iff list.exhaust list.set_intros list.simps(15) set_empty)
  moreover have "Itoa 3 = ''3''" by code_simp
  moreover have "FrontDomain demo_front = ''shop.cl''" by (simp add: demo_front_def)
  ultimately show ?thesis using url by (simp add: asked del: asked_of_simps)
qed

theorem shopify_search_ends_witness:
  "fst (Shopify_FindOffers 3 demo_shopify demo_front (demo_query\<lparr>QueryName := ''Opt''\<rparr>) (calm_world empty_db)) \<noteq> Inr None"
proof (rule shopify_search_ends [of "{''/products/opt''}"])
  fix data page links "next"
  assume "Shopify_readSearch demo_shopify data (FrontDomain demo_front) page = Inr (links, next)"
  then show "set links \<subseteq> {''/products/opt''}"
    by (auto simp: Shopify_readSearch_def demo_shopify_defs store_anchors_def List.map_filter_def productPath_def Let_def
        sameStore_def CutPrefix_def TrimPrefix_def split: if_splits)
qed simp_all

theorem shopify_quote_adds_up_witness:
  "let quote = Shopify_readQuote demo_shopify demo_shopify_cart demo_rates [(demo_line ''a'' 3, 41)]
   in QuoteShipping quote = ''25'' \<and> QuoteTotal quote = ''55'' \<and> length (QuoteNotices quote) = 1"
proof -
  have rates: "List.map_filter (rate_cents demo_shopify) demo_rates = [4900, 2500]" by code_simp
  have "\<forall>r \<in> set demo_rates. \<forall>n. rate_cents demo_shopify r = Some n \<longrightarrow> 0 \<le> n"
  proof (intro ballI allI impI)
    fix r n assume "r \<in> set demo_rates" "rate_cents demo_shopify r = Some n"
    then have "n \<in> set (List.map_filter (rate_cents demo_shopify) demo_rates)" by (rule map_filter_mem)
    then show "0 \<le> n" unfolding rates by auto
  qed
  note quote = shopify_quote_adds_up [OF this, of demo_shopify_cart "[(demo_line ''a'' 3, 41)]"]
  have texts: "Shopify_formatPrice 2500 = ''25''" "Shopify_formatPrice (wrap64 5500) = ''55''" by code_simp+
  have "{i \<in> snd ` set [(demo_line ''a'' 3, 41)]. held_units (ShopifyItems demo_shopify_cart) i \<noteq> wanted_units [(demo_line ''a'' 3, 41)] i} = {41}"
    by (auto simp: held_units_def wanted_units_def demo_shopify_cart_def demo_line_def wrap64_def)
  then show ?thesis using quote texts
    by (simp add: rates Let_def demo_shopify_cart_def)
qed

end
