(* ===== verification/WooCommerce.thy ===== *)
theory WooCommerce
  imports Storefront
begin

text \<open>
  internal/stores/woocommerce: the catalogue of a store through its public Store API, cart links,
  quotes from a cart that is filled and left, and orders from one that is checked out.
\<close>

section \<open>Replies\<close>

record woo_product =
  WooID :: int
  WooName :: string
  WooType :: string
  WooURL :: string
  WooInStock :: bool
  WooPrice :: string
  WooCurrency :: string
  WooMinorUnit :: int

record woo_item =
  WooItemID :: int
  WooItemQuantity :: int
  WooItemPrice :: string
  WooItemMinor :: int

record woo_rate =
  WooRateID :: string
  WooRateName :: string
  WooRatePrice :: string
  WooRateSelected :: bool

record woo_cart =
  WooItems :: "woo_item list"
  WooTotalItems :: string
  WooTotalShipping :: string
  WooTotalPrice :: string
  WooTotalCurrency :: string
  WooTotalMinor :: int
  WooPackages :: "woo_rate list list"
  WooPaymentMethods :: "string list"
  WooErrors :: "string list"

record woo_checkout =
  WooOrderID :: int
  WooRedirectURL :: string

text \<open>The bodies the client writes, before \<open>json.Marshal\<close>.\<close>

record woo_person =
  PersonName :: string
  PersonEmail :: string
  PersonAddress :: shipping_address

datatype woo_body =
    AddItem int int
  | UpdateCustomer shipping_address
  | SelectRate int string
  | CheckoutAs woo_person string

record woo_env = store_env +
  DecodeCatalog :: "string \<Rightarrow> failure + woo_product list"
  DecodeWooCart :: "string \<Rightarrow> failure + woo_cart"
  DecodeCheckout :: "string \<Rightarrow> failure + woo_checkout"
  EncodeWoo :: "woo_body \<Rightarrow> string"

record woo_front = front +
  FrontBuyerName :: string
  FrontBuyerEmail :: string

section \<open>Prices (internal/stores/woocommerce/client.go)\<close>

text \<open>\<open>strconv.ParseUint(value, 10, 64)\<close>.\<close>

definition ParseUint :: "string \<Rightarrow> int option" where
  "ParseUint s = (if s \<noteq> [] \<and> list_all is_digit s \<and> digits_value s < 2 ^ 64 then Some (digits_value s) else None)"

definition Woo_formatPrice :: "string \<Rightarrow> int \<Rightarrow> failure + string" where
  "Woo_formatPrice value minor =
     (let refused = Inl (Failure (''invalid store price '' @ value)) in
      case ParseUint value of
        None \<Rightarrow> refused
      | Some amount \<Rightarrow>
          if amount = 0 \<or> minor < 0 \<or> 6 < minor then refused
          else if minor = 0 then Inr value
          else let digits = replicate (nat (max 0 (minor + 1 - int (length value)))) CHR ''0'' @ value;
                   point = length digits - nat minor
               in Inr (take point digits @ ''.'' @ drop point digits))"

definition Woo_buildOffer :: "woo_env \<Rightarrow> woo_front \<Rightarrow> woo_product \<Rightarrow> failure + offer" where
  "Woo_buildOffer env c product =
     (case Woo_formatPrice (WooPrice product) (WooMinorUnit product) of
        Inl e \<Rightarrow> Inl e
      | Inr price \<Rightarrow>
          let item = zero_offer\<lparr>
                OfferID := FrontDomain c @ '':'' @ Itoa (WooID product), OfferCardName := StoreUnescape env (WooName product),
                OfferStore := (if FrontName c = [] then FrontDomain c else FrontName c), OfferPriceAmount := price,
                OfferPriceCurrency := WooCurrency product, OfferURL := WooURL product, OfferSource := FrontDomain c,
                OfferStockStatus := (if WooInStock product then ''available'' else ''unavailable'')\<rparr>;
              item = (if WooType product = ''simple'' then item\<lparr>OfferVariantID := Itoa (WooID product)\<rparr> else item)
          in if OfferPriceCurrency item = [] \<or> ValidateOffer (StoreUrls env) item \<noteq> Inr ()
             then Inl (Failure (''invalid store offer from '' @ FrontDomain c)) else Inr item)"

section \<open>The catalogue (internal/stores/woocommerce/client.go)\<close>

definition woo_target :: "woo_env \<Rightarrow> woo_front \<Rightarrow> string \<Rightarrow> int \<Rightarrow> string" where
  "woo_target env c name page =
     ''https://'' @ FrontDomain c @ ''/wp-json/wc/store/v1/products?search='' @ StoreQueryEscape env name
     @ ''&per_page=100&page='' @ Itoa page"

fun woo_offers :: "woo_env \<Rightarrow> woo_front \<Rightarrow> card_query \<Rightarrow> woo_product list \<Rightarrow> failure + offer list" where
  "woo_offers env c q [] = Inr []"
| "woo_offers env c q (p # ps) =
     (if \<not> AcceptsTitle (StoreText env) q (StoreUnescape env (WooName p)) then woo_offers env c q ps
      else case Woo_buildOffer env c p of
        Inl e \<Rightarrow> Inl e
      | Inr item \<Rightarrow> map_sum id (\<lambda>items. item # items) (woo_offers env c q ps))"

fun woo_pages :: "nat \<Rightarrow> woo_env \<Rightarrow> woo_front \<Rightarrow> card_query \<Rightarrow> int \<Rightarrow> offer list \<Rightarrow> offer list option io" where
  "woo_pages 0 env c q page items = return_io None"
| "woo_pages (Suc fuel) env c q page items =
     bind_io (StoreFetch env (FrontDomain c) (woo_target env c (QueryName q) page)) (\<lambda>data.
     bind_io (decoded_io (DecodeCatalog env data)) (\<lambda>products.
     bind_io (decoded_io (woo_offers env c q products)) (\<lambda>found.
       if length products < 100 then return_io (Some (items @ found))
       else woo_pages fuel env c q (page + 1) (items @ found))))"

definition Woo_FindOffers :: "nat \<Rightarrow> woo_env \<Rightarrow> woo_front \<Rightarrow> card_query \<Rightarrow> offer list option io" where
  "Woo_FindOffers fuel env c q = woo_pages fuel env c q 1 []"

section \<open>Cart links (internal/stores/woocommerce/link.go, quote.go)\<close>

definition Woo_ProductID :: "string \<Rightarrow> offer \<Rightarrow> failure + int" where
  "Woo_ProductID domain item =
     (if OfferSource item \<noteq> domain \<or> OfferVariantID item = [] then Inl ErrNoQuote
      else case Atoi (OfferVariantID item) of
        None \<Rightarrow> Inl ErrNoQuote
      | Some i \<Rightarrow> if i \<le> 0 then Inl ErrNoQuote else Inr i)"

definition Woo_CartLink :: "woo_front \<Rightarrow> cart_line list \<Rightarrow> string option" where
  "Woo_CartLink c lines =
     (case lines of
        [line] \<Rightarrow>
          if LineQuantity line \<le> 0 then None
          else (case Woo_ProductID (FrontDomain c) (LineOffer line) of
                  Inl _ \<Rightarrow> None
                | Inr i \<Rightarrow> Some (''https://'' @ FrontDomain c @ ''/?add-to-cart='' @ Itoa i @ ''&quantity='' @ Itoa (LineQuantity line)))
      | _ \<Rightarrow> None)"

section \<open>Quotes (internal/stores/woocommerce/quote.go)\<close>

definition formatAmount :: "string \<Rightarrow> int \<Rightarrow> failure + string" where
  "formatAmount value minor = (if value = ''0'' then Inr ''0'' else Woo_formatPrice value minor)"

text \<open>\<open>price, _ := formatAmount(...)\<close> keeps the empty text of a failure.\<close>

definition amount_or_empty :: "string \<Rightarrow> int \<Rightarrow> string" where
  "amount_or_empty value minor = (case formatAmount value minor of Inl _ \<Rightarrow> [] | Inr s \<Rightarrow> s)"

definition Woo_held :: "woo_item list \<Rightarrow> int \<Rightarrow> int" where
  "Woo_held items i = foldl (\<lambda>n e. if WooItemID e = i then WooItemQuantity e else n) 0 items"

definition Woo_echo_line :: "woo_item list \<Rightarrow> cart_line \<times> int \<Rightarrow> quote_line" where
  "Woo_echo_line items entry =
     (case entry of (line, i) \<Rightarrow>
        \<lparr>QuoteLineOfferID = OfferID (LineOffer line), QuoteLineQuantity = LineQuantity line,
         QuoteLineUnitPrice = foldl (\<lambda>price e. if WooItemID e = i
             then amount_or_empty (WooItemPrice e) (WooItemMinor e) else price) [] items\<rparr>)"

definition Woo_rate_of :: "woo_env \<Rightarrow> int \<Rightarrow> woo_rate \<Rightarrow> shipping_rate" where
  "Woo_rate_of env minor rate =
     \<lparr>RateID = WooRateID rate, RateName = StoreUnescape env (WooRateName rate),
      RatePrice = amount_or_empty (WooRatePrice rate) minor, RateSelected = WooRateSelected rate\<rparr>"

definition Woo_readQuote :: "woo_env \<Rightarrow> woo_cart \<Rightarrow> (cart_line \<times> int) list \<Rightarrow> failure + cart_quote" where
  "Woo_readQuote env cart lines =
     (let minor = WooTotalMinor cart in
      case formatAmount (WooTotalItems cart) minor of Inl e \<Rightarrow> Inl e | Inr items \<Rightarrow>
      (case formatAmount (WooTotalShipping cart) minor of Inl e \<Rightarrow> Inl e | Inr shipping \<Rightarrow>
      (case formatAmount (WooTotalPrice cart) minor of Inl e \<Rightarrow> Inl e | Inr price \<Rightarrow>
        Inr \<lparr>QuoteCurrency = WooTotalCurrency cart, QuoteItems = items, QuoteShipping = shipping, QuoteTotal = price,
             QuoteLines = map (Woo_echo_line (WooItems cart)) lines,
             QuoteShippingRates = map (Woo_rate_of env minor) (concat (WooPackages cart)),
             QuotePaymentMethods = WooPaymentMethods cart,
             QuoteNotices = trimmed_notices (Woo_held (WooItems cart)) (wanted_units lines) lines
               @ map (StoreUnescape env) (WooErrors cart)\<rparr>)))"

fun product_ids :: "string \<Rightarrow> cart_line list \<Rightarrow> failure + int list" where
  "product_ids domain [] = Inr []"
| "product_ids domain (line # lines) =
     (case Woo_ProductID domain (LineOffer line) of
        Inl e \<Rightarrow> Inl e
      | Inr i \<Rightarrow> map_sum id (\<lambda>ids. i # ids) (product_ids domain lines))"

definition woo_base :: "woo_front \<Rightarrow> string" where
  "woo_base c = ''https://'' @ FrontDomain c @ ''/wp-json/wc/store/v1''"

definition with_token :: "string \<Rightarrow> http_header" where
  "with_token token = [(''Cart-Token'', [token])]"

definition open_call :: "woo_front \<Rightarrow> session_request" where
  "open_call c = session_call ''GET'' (woo_base c @ ''/cart'') None []"

definition woo_post :: "woo_env \<Rightarrow> woo_front \<Rightarrow> string \<Rightarrow> string \<Rightarrow> woo_body \<Rightarrow> session_request" where
  "woo_post env c token path body = session_call ''POST'' (woo_base c @ path) (Some (EncodeWoo env body)) (with_token token)"

definition add_call :: "woo_env \<Rightarrow> woo_front \<Rightarrow> string \<Rightarrow> cart_line \<times> int \<Rightarrow> session_request" where
  "add_call env c token entry =
     (case entry of (line, i) \<Rightarrow> woo_post env c token ''/cart/add-item'' (AddItem i (LineQuantity line)))"

definition add_items :: "woo_env \<Rightarrow> woo_front \<Rightarrow> session_port \<Rightarrow> string \<Rightarrow> (cart_line \<times> int) list \<Rightarrow> unit io" where
  "add_items env c send token entries =
     each_io (\<lambda>entry. bind_io (send (FrontDomain c) (add_call env c token entry)) (\<lambda>_. return_io ())) entries"

definition fillCart ::
  "woo_env \<Rightarrow> woo_front \<Rightarrow> session_port \<Rightarrow> cart_line list \<Rightarrow> shipping_address \<Rightarrow> (string \<times> woo_cart \<times> int list) io" where
  "fillCart env c send lines address =
     bind_io (decoded_io (product_ids (FrontDomain c) lines)) (\<lambda>products.
     bind_io (send (FrontDomain c) (open_call c)) (\<lambda>(_, header).
       let token = HeaderGet header ''Cart-Token'' in
       if token = [] then fail_io (Failure (FrontDomain c @ '' answered no Cart-Token''))
       else bind_io (add_items env c send token (zip lines products)) (\<lambda>_.
            bind_io (send (FrontDomain c) (woo_post env c token ''/cart/update-customer'' (UpdateCustomer address))) (\<lambda>(data, _).
            bind_io (decoded_io (DecodeWooCart env data)) (\<lambda>cart.
              return_io (token, cart, products))))))"

definition Woo_QuoteCart :: "woo_env \<Rightarrow> woo_front \<Rightarrow> cart_line list \<Rightarrow> shipping_address \<Rightarrow> cart_quote io" where
  "Woo_QuoteCart env c lines address =
     (case StoreSessions env of
        None \<Rightarrow> fail_io ErrNoQuote
      | Some send \<Rightarrow>
          if lines = [] then fail_io ErrNoQuote
          else bind_io (fillCart env c send lines address) (\<lambda>(_, cart, products).
               decoded_io (Woo_readQuote env cart (zip lines products))))"

section \<open>Orders (internal/stores/woocommerce/order.go)\<close>

definition muchiFallbackName :: string where "muchiFallbackName = ''Muchi''"
definition muchiFallbackEmail :: string where "muchiFallbackEmail = ''orders@muchi.invalid''"

definition ErrVirtualBuyerNotConfigured :: failure where
  "ErrVirtualBuyerNotConfigured = Failure ''woocommerce: order buyer email is not configured''"

definition selectedRate :: "woo_cart \<Rightarrow> string" where
  "selectedRate cart =
     (case find WooRateSelected (concat (WooPackages cart)) of None \<Rightarrow> [] | Some rate \<Rightarrow> WooRateID rate)"

definition woo_buyer :: "woo_front \<Rightarrow> shipping_address \<Rightarrow> woo_person" where
  "woo_buyer c address =
     \<lparr>PersonName = (if FrontBuyerName c = [] then muchiFallbackName else FrontBuyerName c),
      PersonEmail = (if FrontBuyerEmail c = [] then muchiFallbackEmail else FrontBuyerEmail c), PersonAddress = address\<rparr>"

definition rate_call :: "woo_env \<Rightarrow> woo_front \<Rightarrow> string \<Rightarrow> string \<Rightarrow> session_request" where
  "rate_call env c token rate = woo_post env c token ''/cart/select-shipping-rate'' (SelectRate 0 rate)"

definition checkout_call :: "woo_env \<Rightarrow> woo_front \<Rightarrow> string \<Rightarrow> shipping_address \<Rightarrow> session_request" where
  "checkout_call env c token address = woo_post env c token ''/checkout'' (CheckoutAs (woo_buyer c address) ''bacs'')"

definition Woo_order_of :: "woo_front \<Rightarrow> woo_checkout \<Rightarrow> order" where
  "Woo_order_of c reply =
     \<lparr>OrderID = [], OrderSearchID = [], OrderStore = FrontName c, OrderDomain = FrontDomain c, OrderLines = [],
      OrderStatus = OrderPending, OrderStoreOrder = Itoa (WooOrderID reply), OrderPaymentURL = WooRedirectURL reply,
      OrderCreatedAt = 0, OrderUpdatedAt = 0\<rparr>"

text \<open>The end of an order, over the cart it filled.\<close>

definition check_out :: "woo_env \<Rightarrow> woo_front \<Rightarrow> session_port \<Rightarrow> shipping_address \<Rightarrow> string \<Rightarrow> woo_cart \<Rightarrow> order io" where
  "check_out env c send address token cart =
     (let rate = selectedRate cart in
      if rate = [] then fail_io (Failure (FrontDomain c @ '' offered no shipping rate''))
      else bind_io (send (FrontDomain c) (rate_call env c token rate)) (\<lambda>_.
           bind_io (send (FrontDomain c) (checkout_call env c token address)) (\<lambda>(data, _).
           bind_io (decoded_io (DecodeCheckout env data)) (\<lambda>reply.
             if WooOrderID reply = 0 then fail_io (Failure (FrontDomain c @ '' checkout answered no order''))
             else return_io (Woo_order_of c reply)))))"

definition Woo_PlaceOrder :: "woo_env \<Rightarrow> woo_front \<Rightarrow> cart_line list \<Rightarrow> shipping_address \<Rightarrow> order io" where
  "Woo_PlaceOrder env c lines address =
     (if PersonEmail (woo_buyer c address) = muchiFallbackEmail then fail_io ErrVirtualBuyerNotConfigured
      else case StoreSessions env of
        None \<Rightarrow> fail_io ErrNoQuote
      | Some send \<Rightarrow>
          if lines = [] then fail_io ErrNoQuote
          else bind_io (fillCart env c send lines address) (\<lambda>(token, cart, _).
               check_out env c send address token cart))"

section \<open>The calls of an order\<close>

definition woo_calls :: "woo_env \<Rightarrow> woo_front \<Rightarrow> cart_line list \<Rightarrow> int list \<Rightarrow> shipping_address \<Rightarrow> string \<Rightarrow> string \<Rightarrow> session_request list" where
  "woo_calls env c lines products address token rate =
     open_call c # map (add_call env c token) (zip lines products)
     @ [woo_post env c token ''/cart/update-customer'' (UpdateCustomer address), rate_call env c token rate,
        checkout_call env c token address]"

lemma makes_add_items:
  assumes "port_seen seen mark send"
  shows "makes seen mark (add_items env c send token entries) {map (add_call env c token) entries}"
proof (induction entries)
  case (Cons e es)
  have one: "makes seen mark (bind_io (send (FrontDomain c) (add_call env c token e)) (\<lambda>_. return_io ())) {[add_call env c token e]}"
    by (rule makes_bind [OF makes_send [OF assms] makes_return [of "{[]}"]]) auto
  show ?case
    unfolding add_items_def each_io.simps
    by (rule makes_bind [OF one Cons.IH [unfolded add_items_def]]) auto
qed (simp add: add_items_def makes_return)

definition fill_calls :: "woo_env \<Rightarrow> woo_front \<Rightarrow> cart_line list \<Rightarrow> int list \<Rightarrow> shipping_address \<Rightarrow> string \<Rightarrow> session_request list" where
  "fill_calls env c lines products address token =
     open_call c # map (add_call env c token) (zip lines products)
     @ [woo_post env c token ''/cart/update-customer'' (UpdateCustomer address)]"

text \<open>What \<open>fillCart\<close> does once it has the token, and then what its caller does.\<close>

definition fill_rest ::
  "woo_env \<Rightarrow> woo_front \<Rightarrow> session_port \<Rightarrow> (cart_line \<times> int) list \<Rightarrow> shipping_address \<Rightarrow> string \<Rightarrow> (woo_cart \<Rightarrow> 'a io) \<Rightarrow> 'a io" where
  "fill_rest env c send entries address token f =
     bind_io (add_items env c send token entries) (\<lambda>_.
     bind_io (send (FrontDomain c) (woo_post env c token ''/cart/update-customer'' (UpdateCustomer address))) (\<lambda>x.
     bind_io (decoded_io (DecodeWooCart env (fst x))) f))"

lemma fillCart_steps:
  assumes "product_ids (FrontDomain c) lines = Inr products"
  shows "bind_io (fillCart env c send lines address) f =
    bind_io (send (FrontDomain c) (open_call c)) (\<lambda>x.
      if HeaderGet (snd x) ''Cart-Token'' = [] then fail_io (Failure (FrontDomain c @ '' answered no Cart-Token''))
      else fill_rest env c send (zip lines products) address (HeaderGet (snd x) ''Cart-Token'')
        (\<lambda>cart. f (HeaderGet (snd x) ''Cart-Token'', cart, products)))"
  by (rule ext) (simp add: fillCart_def fill_rest_def assms decoded_io_def bind_io_def return_io_def fail_io_def Let_def
      split_beta split: prod.split sum.split)

lemma makes_fill_rest:
  assumes seen: "port_seen seen mark send" and f: "\<And>cart. makes seen mark (f cart) (C cart)"
  shows "makes seen mark (fill_rest env c send entries address token f)
    {map (add_call env c token) entries @ [woo_post env c token ''/cart/update-customer'' (UpdateCustomer address)] @ cs | cs.
      \<exists>cart. cs \<in> C cart}"
  unfolding fill_rest_def
proof (rule makes_bind [OF makes_add_items [OF seen]])
  fix u
  let ?post = "woo_post env c token ''/cart/update-customer'' (UpdateCustomer address)"
  have "makes seen mark (bind_io (decoded_io (DecodeWooCart env data)) f) {cs. \<exists>cart. cs \<in> C cart}" for data
    by (rule makes_bind [OF makes_decoded f]) auto
  then show "makes seen mark (bind_io (send (FrontDomain c) ?post) (\<lambda>x. bind_io (decoded_io (DecodeWooCart env (fst x))) f))
      {[?post] @ cs | cs. \<exists>cart. cs \<in> C cart}"
    by (rule makes_bind [OF makes_send [OF seen]]) auto
qed auto

lemma makes_nonempty: "makes seen mark m C \<Longrightarrow> C \<noteq> {}"
  unfolding makes_def by (metis empty_iff prod.exhaust_sel)

lemma makes_fillCart:
  assumes seen: "port_seen seen mark send" and ids: "product_ids (FrontDomain c) lines = Inr products"
    and f: "\<And>token cart. makes seen mark (f (token, cart, products)) (C token)"
    and D: "\<And>token cs. cs \<in> C token \<Longrightarrow> fill_calls env c lines products address token @ cs \<in> D"
  shows "makes seen mark (bind_io (fillCart env c send lines address) f) D"
  unfolding fillCart_steps [OF ids]
proof (rule makes_bind [OF makes_send [OF seen]])
  fix x :: "string \<times> http_header"
  let ?token = "HeaderGet (snd x) ''Cart-Token''" and ?rest = "{cs. [open_call c] @ cs \<in> D}"
  have rest: "makes seen mark (fill_rest env c send (zip lines products) address ?token (\<lambda>cart. f (?token, cart, products))) ?rest"
    by (rule makes_weaken [OF makes_fill_rest [OF seen f]]) (use D [of _ ?token] in \<open>auto simp: fill_calls_def\<close>)
  show "makes seen mark (if ?token = [] then fail_io (Failure (FrontDomain c @ '' answered no Cart-Token''))
      else fill_rest env c send (zip lines products) address ?token (\<lambda>cart. f (?token, cart, products))) ?rest"
    by (intro if_makes makes_fail [OF makes_nonempty [OF rest]] rest)
qed simp

lemma makes_check_out:
  assumes seen: "port_seen seen mark send"
  shows "makes seen mark (check_out env c send address token cart)
    {[rate_call env c token rate, checkout_call env c token address] | rate. True}"
proof -
  have reply: "makes seen mark (bind_io (decoded_io (DecodeCheckout env data)) (\<lambda>reply.
      if WooOrderID reply = 0 then fail_io (Failure (FrontDomain c @ '' checkout answered no order''))
      else return_io (Woo_order_of c reply))) {[]}" for data
    by (rule makes_bind [OF makes_decoded, where C = "\<lambda>_. {[]}"]) (simp_all add: makes_fail makes_return)
  have last: "makes seen mark (bind_io (send (FrontDomain c) (checkout_call env c token address)) (\<lambda>(data, _).
      bind_io (decoded_io (DecodeCheckout env data)) (\<lambda>reply.
      if WooOrderID reply = 0 then fail_io (Failure (FrontDomain c @ '' checkout answered no order''))
      else return_io (Woo_order_of c reply)))) {[checkout_call env c token address]}"
    by (rule makes_bind [OF makes_send [OF seen], where C = "\<lambda>_. {[]}"]) (simp_all add: reply split: prod.split)
  have "makes seen mark (bind_io (send (FrontDomain c) (rate_call env c token rate)) (\<lambda>_.
      bind_io (send (FrontDomain c) (checkout_call env c token address)) (\<lambda>(data, _).
      bind_io (decoded_io (DecodeCheckout env data)) (\<lambda>reply.
      if WooOrderID reply = 0 then fail_io (Failure (FrontDomain c @ '' checkout answered no order''))
      else return_io (Woo_order_of c reply)))))
    {[rate_call env c token rate, checkout_call env c token address] | rate. True}" for rate
    by (rule makes_bind [OF makes_send [OF seen] last]) auto
  then show ?thesis
    unfolding check_out_def Let_def by (intro if_makes makes_fail) auto
qed

text \<open>C10 An order is placed by its calls in order: the cart is opened, every line added with its
  quantity, the address given, a shipping rate selected and the cart checked out; a call is made
  only when every call before it succeeded, none is repeated, and an order is answered only when
  all were made.  While the buyer is the placeholder nothing is sent at all.\<close>
theorem order_calls_in_order:
  assumes port: "StoreSessions env = Some send" "port_seen seen mark send"
    and ids: "product_ids (FrontDomain c) lines = Inr products"
    and run: "Woo_PlaceOrder env c lines address w = (q, w')"
  shows "(PersonEmail (woo_buyer c address) = muchiFallbackEmail \<longrightarrow>
       q = Inl ErrVirtualBuyerNotConfigured \<and> seen w' = seen w)
    \<and> (\<exists>token rate made. prefix made (woo_calls env c lines products address token rate)
         \<and> seen w' = seen w @ map mark made
         \<and> (\<forall>placed. q = Inr placed \<longrightarrow> made = woo_calls env c lines products address token rate))"
proof
  show "PersonEmail (woo_buyer c address) = muchiFallbackEmail \<longrightarrow>
      q = Inl ErrVirtualBuyerNotConfigured \<and> seen w' = seen w"
    using run by (auto simp: Woo_PlaceOrder_def fail_io_def)
next
  let ?C = "\<lambda>token. {[rate_call env c token rate, checkout_call env c token address] | rate. True}"
  let ?D = "{woo_calls env c lines products address token rate | token rate. True}"
  have "makes seen mark (Woo_PlaceOrder env c lines address) ?D"
    unfolding Woo_PlaceOrder_def port(1) option.case Let_def
  proof (intro if_makes makes_fail makes_fillCart [OF port(2) ids])
    fix token cart cs
    show "cs \<in> ?C token \<Longrightarrow> fill_calls env c lines products address token @ cs \<in> ?D"
      by (auto simp: fill_calls_def woo_calls_def)
    show "makes seen mark (case (token, cart, products) of (token, cart, _) \<Rightarrow> check_out env c send address token cart) (?C token)"
      unfolding prod.case by (rule makes_check_out [OF port(2)])
  qed auto
  then show "\<exists>token rate made. prefix made (woo_calls env c lines products address token rate)
         \<and> seen w' = seen w @ map mark made
         \<and> (\<forall>placed. q = Inr placed \<longrightarrow> made = woo_calls env c lines products address token rate)"
    using run unfolding makes_def by blast
qed

section \<open>Prices in minor units\<close>

lemma split_price:
  assumes v: "list_all is_digit value" and v0: "0 < digits_value value" and max: "digits_value value * 100 \<le> max_int64"
    and minor: "0 < minor" "minor \<le> 6"
  obtains shown where "Woo_formatPrice value minor = Inr shown"
    and "parseCents shown = Inr (digits_value value * 100 div 10 ^ nat minor)"
proof -
  have fits: "fits64 n" if "0 \<le> n" "n \<le> digits_value value * 100" for n
    using max that by (auto simp: int64_defs)
  have "value \<noteq> []" using v0 by auto
  define digits where "digits = replicate (nat (max 0 (minor + 1 - int (length value)))) CHR ''0'' @ value"
  define a f where "a = take (length digits - nat minor) digits" and "f = drop (length digits - nat minor) digits"
  have long: "nat minor < length digits" using minor unfolding digits_def by auto
  then have parts: "digits = a @ f" "a \<noteq> []" "length f = nat minor" by (auto simp: a_def f_def)
  have "list_all is_digit digits" using v by (auto simp: digits_def list_all_iff is_digit_def byte_def set_replicate_conv_if)
  with parts(1) have ds: "list_all is_digit a" "list_all is_digit f" by simp_all
  have sum: "digits_value value = digits_value a * 10 ^ nat minor + digits_value f"
    using parts(1,3) by (metis digits_def digits_value_append digits_value_zeros)
  have bounds: "0 \<le> digits_value a" "0 \<le> digits_value f" using ds digits_value_bounds by blast+
  have "digits_value value * 100 = digits_value f * 100 + (digits_value a * 100) * 10 ^ nat minor"
    by (simp add: sum algebra_simps)
  then have cents: "digits_value a * 100 + digits_value f * 100 div 10 ^ nat minor = digits_value value * 100 div 10 ^ nat minor"
    by simp
  have "digits_value a * 1 \<le> digits_value a * 10 ^ nat minor" using bounds(1) by (intro mult_left_mono) simp_all
  with bounds sum have "fits64 (digits_value a)" by (intro fits) simp_all
  moreover have "digits_value value * 100 div 10 ^ nat minor \<le> digits_value value * 100"
    using zdiv_mono2 [of "digits_value value * 100" 1 "10 ^ nat minor"] v0 by simp
  then have "fits64 (digits_value value * 100 div 10 ^ nat minor)"
    using v0 by (intro fits) (simp_all add: pos_imp_zdiv_nonneg_iff)
  ultimately have "parseCents (a @ CHR ''.'' # f) = Inr (digits_value value * 100 div 10 ^ nat minor)"
    using ds parts by (simp add: parseCents_dot cents wrap64_id)
  moreover have "Woo_formatPrice value minor = Inr (a @ CHR ''.'' # f)"
    using minor v v0 max \<open>value \<noteq> []\<close> by (simp add: ParseUint_def max_int64_def Woo_formatPrice_def Let_def a_def f_def digits_def)
  ultimately show thesis by (intro that)
qed

text \<open>A Store API price is its amount of minor units: for every number of decimals the store may
  declare, the text an offer shows reads, in hundredths, as the amount times a hundred over ten to
  that number, whatever zeros the store sent in front; an amount of zero, no number, or more than
  six decimals is refused.\<close>
theorem woo_price_counts_minor_units:
  assumes "digits_value value * 100 \<le> max_int64"
  shows "case Woo_formatPrice value minor of
      Inl _ \<Rightarrow> ParseUint value \<in> {None, Some 0} \<or> minor < 0 \<or> 6 < minor
    | Inr text \<Rightarrow> 0 \<le> minor \<and> minor \<le> 6
        \<and> (\<exists>amount. ParseUint value = Some amount \<and> 0 < amount \<and> parseCents text = Inr (amount * 100 div 10 ^ nat minor))"
proof (cases "ParseUint value \<in> {None, Some 0} \<or> minor < 0 \<or> 6 < minor")
  case True
  then have "\<exists>e. Woo_formatPrice value minor = Inl e" by (auto simp: Woo_formatPrice_def Let_def split: option.split)
  with True show ?thesis by auto
next
  case False
  then have v: "list_all is_digit value" "value \<noteq> []" "ParseUint value = Some (digits_value value)"
    by (auto simp: ParseUint_def split: if_splits)
  with False have v0: "0 < digits_value value" "digits_value value \<noteq> 0"
    using digits_value_bounds [OF v(1)] by (auto simp: order_less_le)
  show ?thesis
  proof (cases "minor = 0")
    case True
    moreover have "fits64 (digits_value value * 100)" "fits64 (digits_value value)"
      using assms v0 by (auto simp: int64_defs)
    ultimately show ?thesis using False v v0
      by (simp add: Woo_formatPrice_def Let_def parseCents_whole wrap64_id)
  next
    case m: False
    with False have "0 < minor" "minor \<le> 6" by auto
    from split_price [OF v(1) v0(1) assms this] show ?thesis using False v v0 by fastforce
  qed
qed

theorem woo_price_counts_minor_units_witness:
  "Woo_formatPrice ''5'' 2 = Inr ''0.05'' \<and> parseCents ''0.05'' = Inr 5"
proof -
  have small: "digits_value ''5'' * 100 \<le> max_int64" by code_simp
  have shown: "Woo_formatPrice ''5'' 2 = Inr ''0.05''" "ParseUint ''5'' = Some 5" by code_simp+
  from woo_price_counts_minor_units [OF small, of 2] show ?thesis by (simp add: shown)
qed

section \<open>A store with one card\<close>

text \<open>A store that accepts everything; the naps keep the length of every address it was sent.\<close>

definition demo_woo :: woo_env where
  "demo_woo = \<lparr>StoreText = plain_env, StoreFetch = (\<lambda>_ _. return_io ''page''), StoreFetchStorefront = None,
     StoreSessions = Some (\<lambda>_ r w. (Inr (''cart'', [(''Cart-Token'', [''t1''])]), w\<lparr>naps := naps w @ [int (length (SessionTarget r))]\<rparr>)),
     StoreParse = (\<lambda>_. None), StoreUrls = \<lparr>parse_url = (\<lambda>_. None), parse_request_uri = (\<lambda>_. None)\<rparr>,
     StoreEncode = (\<lambda>_. ''q''), StorePathEscape = (\<lambda>s. s), StoreQueryEscape = (\<lambda>s. s), StoreUnescape = (\<lambda>s. s),
     StoreHtml = (\<lambda>_. Inl (Failure ''html'')), DecodeCatalog = (\<lambda>_. Inr []),
     DecodeWooCart = (\<lambda>_. Inr \<lparr>WooItems = [], WooTotalItems = ''5'', WooTotalShipping = ''0'', WooTotalPrice = ''5'',
       WooTotalCurrency = ''CLP'', WooTotalMinor = 0,
       WooPackages = [[\<lparr>WooRateID = ''r1'', WooRateName = ''Correo'', WooRatePrice = ''0'', WooRateSelected = True\<rparr>]],
       WooPaymentMethods = [''bacs''], WooErrors = []\<rparr>),
     DecodeCheckout = (\<lambda>_. Inr \<lparr>WooOrderID = 7, WooRedirectURL = []\<rparr>), EncodeWoo = (\<lambda>_. ''{}'')\<rparr>"

definition demo_woo_front :: woo_front where
  "demo_woo_front = \<lparr>FrontDomain = ''shop.cl'', FrontName = ''Shop'', FrontBuyerName = [], FrontBuyerEmail = ''compras@muchi.cl''\<rparr>"

definition demo_woo_line :: cart_line where
  "demo_woo_line = \<lparr>LineOffer = zero_offer\<lparr>OfferSource := ''shop.cl'', OfferVariantID := ''9''\<rparr>, LineQuantity = 2\<rparr>"

definition demo_address :: shipping_address where
  "demo_address = \<lparr>AddressCountry = ''CL'', AddressRegion = ''CL-RM'', AddressCity = ''Santiago'', AddressPostcode = []\<rparr>"

theorem order_calls_in_order_witness:
  "\<exists>placed w'. Woo_PlaceOrder demo_woo demo_woo_front [demo_woo_line] demo_address (calm_world empty_db) = (Inr placed, w')
     \<and> length (naps w') = 5"
proof -
  let ?w = "calm_world empty_db" and ?run = "Woo_PlaceOrder demo_woo demo_woo_front [demo_woo_line] demo_address"
  have "\<exists>placed. fst (?run ?w) = Inr placed"
    by (rule exI [of _ "Woo_order_of demo_woo_front \<lparr>WooOrderID = 7, WooRedirectURL = []\<rparr>"]) code_simp
  then obtain placed w' where run: "?run ?w = (Inr placed, w')" by (metis prod.collapse)
  have port: "StoreSessions demo_woo = Some (the (StoreSessions demo_woo))"
    "port_seen naps (\<lambda>r. int (length (SessionTarget r))) (the (StoreSessions demo_woo))"
    by (auto simp: demo_woo_def port_seen_def)
  have ids: "product_ids (FrontDomain demo_woo_front) [demo_woo_line] = Inr [9]" by code_simp
  from order_calls_in_order [OF port ids run] obtain token rate where
    "naps w' = naps ?w @ map (\<lambda>r. int (length (SessionTarget r))) (woo_calls demo_woo demo_woo_front [demo_woo_line] [9] demo_address token rate)"
    by blast
  then have "length (naps w') = 5" by (simp add: woo_calls_def calm_world_def)
  with run show ?thesis by blast
qed

end
