(* ===== verification/Jumpseller.thy ===== *)
theory Jumpseller
  imports Storefront
begin

text \<open>
  internal/stores/jumpseller: offers read from the search endpoint of a storefront and the forms of
  its product pages, and the stock those pages declare.

  \<open>big.Rat.SetString\<close> is an argument beside those of \<open>Storefront\<close>.  The gate that lets one read of
  the process through at a time is the turn a read waits for; the four seconds after it are a nap.
\<close>

section \<open>Replies\<close>

record jump_stock =
  JumpID :: int
  JumpStock :: "int option"
  JumpUnlimited :: bool
  JumpStatus :: string

text \<open>Options are an id and a name; the values of a variant are a name and the id of their option.\<close>

record jump_form =
  FormProduct :: jump_stock
  FormName :: string
  FormURL :: string
  FormOptions :: "(int \<times> string) list"
  FormVariantPrice :: string

record jump_variant =
  JumpVariant :: jump_stock
  JumpSKU :: string
  JumpProductID :: int
  JumpPrice :: string
  JumpDiscount :: string
  JumpVariantStatus :: string
  JumpValues :: "(string \<times> int) list"

record jump_hit =
  HitID :: int
  HitName :: string
  HitPermalink :: string

text \<open>An absent list of hits or variants is not an empty one.\<close>

record jump_env = store_env +
  DecodeForm :: "string \<Rightarrow> failure + jump_form"
  DecodeVariants :: "string \<Rightarrow> failure + jump_variant list option"
  DecodeHits :: "string \<Rightarrow> failure + jump_hit list option"
  ReadRat :: "string \<Rightarrow> rat option"

section \<open>Product pages (internal/stores/jumpseller/page.go)\<close>

definition Jumpseller_nodeText :: "html_node \<Rightarrow> string" where
  "Jumpseller_nodeText node =
     TrimSpace (concat (map NodeData (filter (\<lambda>n. NodeType n = TextNode) (Descendants node))))"

text \<open>The form of this product, the last one when several are, and the last currency.\<close>

fun form_from ::
  "jump_env \<Rightarrow> string \<Rightarrow> string \<Rightarrow> html_node list \<Rightarrow> jump_form option \<Rightarrow> string \<Rightarrow> failure + jump_form option \<times> string" where
  "form_from env path domain [] form currency = Inr (form, currency)"
| "form_from env path domain (node # nodes) form currency =
     (if NodeType node \<noteq> ElementNode then form_from env path domain nodes form currency
      else let currency = (if NodeData node = ''meta'' \<and> attribute node ''property'' = ''product:price:currency''
                           then attribute node ''content'' else currency)
           in if NodeData node \<noteq> ''script'' \<or> \<not> hasClass node ''product-form-json''
              then form_from env path domain nodes form currency
              else case DecodeForm env (Jumpseller_nodeText node) of
                Inl e \<Rightarrow> Inl e
              | Inr candidate \<Rightarrow>
                  form_from env path domain nodes
                    (case StoreParse env (FormURL candidate) of
                       None \<Rightarrow> form
                     | Some link \<Rightarrow> if sameStore link domain \<and> UrlEscapedPath link = path then Some candidate else form)
                    currency)"

definition readForm :: "jump_env \<Rightarrow> html_node \<Rightarrow> string \<Rightarrow> string \<Rightarrow> failure + jump_form \<times> string" where
  "readForm env document path domain =
     (case form_from env path domain (Descendants document) None [] of
        Inl e \<Rightarrow> Inl e
      | Inr (None, _) \<Rightarrow> Inl (Failure ''invalid Jumpseller product form'')
      | Inr (Some form, currency) \<Rightarrow>
          if JumpID (FormProduct form) \<le> 0 \<or> FormName form = [] then Inl (Failure ''invalid Jumpseller product form'')
          else if \<not> currency_code currency then Inl (Failure ''invalid Jumpseller currency'')
          else Inr (form, currency))"

definition readVariants :: "jump_env \<Rightarrow> html_node \<Rightarrow> int \<Rightarrow> failure + jump_variant list" where
  "readVariants env document i =
     (case find (\<lambda>node. NodeType node = ElementNode \<and> NodeData node = ''script'' \<and> hasClass node ''product-json''
                  \<and> attribute node ''data-productid'' = Itoa i) (Descendants document) of
        None \<Rightarrow> Inl (Failure ''Jumpseller product missing variant data'')
      | Some node \<Rightarrow> (case DecodeVariants env (Jumpseller_nodeText node) of
          Inl e \<Rightarrow> Inl e
        | Inr None \<Rightarrow> Inl (Failure ''invalid Jumpseller variant data'')
        | Inr (Some variants) \<Rightarrow> Inr variants))"

definition Jumpseller_readProduct :: "jump_env \<Rightarrow> string \<Rightarrow> string \<Rightarrow> string \<Rightarrow> failure + jump_form \<times> string \<times> jump_variant list" where
  "Jumpseller_readProduct env data path domain =
     (case StoreHtml env data of
        Inl e \<Rightarrow> Inl e
      | Inr document \<Rightarrow> (case readForm env document path domain of
          Inl e \<Rightarrow> Inl e
        | Inr (form, currency) \<Rightarrow>
            map_sum id (\<lambda>variants. (form, currency, variants)) (readVariants env document (JumpID (FormProduct form)))))"

section \<open>Products (internal/stores/jumpseller/product.go)\<close>

text \<open>\<open>FloatString(2)\<close> of a positive number: halves away from zero.\<close>

definition FloatString2 :: "rat \<Rightarrow> string" where
  "FloatString2 x = (let n = \<lfloor>x * 100 + 1 / 2\<rfloor> in Itoa (n div 100) @ ''.'' @ Pad2 (n mod 100))"

definition priceAmount :: "jump_env \<Rightarrow> string \<Rightarrow> string \<Rightarrow> failure + string" where
  "priceAmount env price discount =
     (case ReadRat env price of
        None \<Rightarrow> Inl (Failure ''invalid Jumpseller price'')
      | Some amount \<Rightarrow> (case ReadRat env discount of
          None \<Rightarrow> Inl (Failure ''invalid Jumpseller discount'')
        | Some reduction \<Rightarrow>
            if reduction < 0 then Inl (Failure ''invalid Jumpseller discount'')
            else if amount - reduction \<le> 0 then Inl (Failure ''invalid Jumpseller net price'')
            else if rat_of_int \<lfloor>amount - reduction\<rfloor> = amount - reduction then Inr (Itoa \<lfloor>amount - reduction\<rfloor>)
            else Inr (FloatString2 (amount - reduction))))"

definition countStock :: "jump_stock \<Rightarrow> int option" where
  "countStock stock = (if JumpUnlimited stock then None else JumpStock stock)"

definition Jumpseller_stockStatus :: "jump_stock \<Rightarrow> string" where
  "Jumpseller_stockStatus stock =
     (if JumpStatus stock \<in> {''disabled'', ''not-available'', ''out-of-stock''} then ''unavailable''
      else if JumpStatus stock \<noteq> ''available'' then ''unknown''
      else if JumpUnlimited stock then ''available''
      else case JumpStock stock of
        None \<Rightarrow> ''unknown''
      | Some n \<Rightarrow> if 0 < n then ''available'' else ''unavailable'')"

definition apply_value :: "string \<Rightarrow> string \<Rightarrow> offer \<Rightarrow> offer" where
  "apply_value key v item =
     (if key \<in> {''idioma'', ''lenguaje'', ''language''} then item\<lparr>OfferLanguage := v\<rparr>
      else if key \<in> set condition_names then item\<lparr>OfferCondition := v\<rparr>
      else if key \<in> {''acabado'', ''finish'', ''foil''} then item\<lparr>OfferFinish := v\<rparr>
      else item)"

definition Jumpseller_applyOptions :: "jump_env \<Rightarrow> offer \<Rightarrow> jump_form \<Rightarrow> jump_variant \<Rightarrow> offer" where
  "Jumpseller_applyOptions env item form variant =
     foldl (\<lambda>item (i, name).
       foldl (\<lambda>item (v, option). if option \<noteq> i then item else apply_value (ToLower (StoreText env) name) v item)
         item (JumpValues variant)) item (FormOptions form)"

definition variant_stock :: "jump_form \<Rightarrow> jump_variant \<Rightarrow> jump_stock" where
  "variant_stock form variant =
     (let stock = (JumpVariant variant)\<lparr>JumpStatus := JumpVariantStatus variant\<rparr>
      in if JumpStatus (FormProduct form) \<noteq> ''available'' then stock\<lparr>JumpStatus := JumpStatus (FormProduct form)\<rparr> else stock)"

definition variant_offer :: "jump_env \<Rightarrow> offer \<Rightarrow> jump_form \<Rightarrow> jump_variant \<Rightarrow> string \<Rightarrow> offer" where
  "variant_offer env base form variant amount =
     (let i = Itoa (JumpID (JumpVariant variant)); stock = variant_stock form variant
      in Jumpseller_applyOptions env (base\<lparr>
           OfferVariantID := i, OfferID := OfferSource base @ '':'' @ i, OfferURL := OfferURL base @ ''?variant_id='' @ i,
           OfferPriceAmount := amount, OfferStockStatus := Jumpseller_stockStatus stock, OfferStockQuantity := countStock stock,
           OfferMetadata := [(''title'', OfferCardName base), (''sku'', JumpSKU variant)]\<rparr>) form variant)"

fun buildVariants :: "jump_env \<Rightarrow> offer \<Rightarrow> jump_form \<Rightarrow> jump_variant list \<Rightarrow> failure + offer list" where
  "buildVariants env base form [] = Inr []"
| "buildVariants env base form (v # vs) =
     (if JumpID (JumpVariant v) \<le> 0 \<or> JumpProductID v \<noteq> JumpID (FormProduct form)
      then Inl (Failure ''invalid Jumpseller variant ID'')
      else case priceAmount env (JumpPrice v) (JumpDiscount v) of
        Inl e \<Rightarrow> Inl e
      | Inr amount \<Rightarrow> map_sum id (\<lambda>items. variant_offer env base form v amount # items) (buildVariants env base form vs))"

definition jump_base :: "front \<Rightarrow> string \<Rightarrow> jump_form \<Rightarrow> string \<Rightarrow> offer" where
  "jump_base c path form currency =
     zero_offer\<lparr>OfferCardName := FormName form, OfferStore := front_store c, OfferSource := FrontDomain c,
       OfferPriceCurrency := currency, OfferURL := ''https://'' @ FrontDomain c @ path,
       OfferMetadata := [(''title'', FormName form)]\<rparr>"

definition Jumpseller_parseProduct :: "jump_env \<Rightarrow> front \<Rightarrow> string \<Rightarrow> string \<Rightarrow> failure + offer list" where
  "Jumpseller_parseProduct env c data path =
     (case Jumpseller_readProduct env data path (FrontDomain c) of
        Inl e \<Rightarrow> Inl e
      | Inr (form, currency, variants) \<Rightarrow>
          let base = jump_base c path form currency in
          if variants \<noteq> [] then buildVariants env base form variants
          else if FormOptions form \<noteq> [] then Inl (Failure ''Jumpseller product missing variants'')
          else case priceAmount env (FormVariantPrice form) ''0'' of
            Inl e \<Rightarrow> Inl e
          | Inr amount \<Rightarrow>
              Inr [base\<lparr>OfferID := FrontDomain c @ '':'' @ Itoa (JumpID (FormProduct form)), OfferPriceAmount := amount,
                OfferStockStatus := Jumpseller_stockStatus (FormProduct form), OfferStockQuantity := countStock (FormProduct form)\<rparr>])"

section \<open>Reading a store (internal/stores/jumpseller/client.go)\<close>

definition Jumpseller_fetchPage :: "jump_env \<Rightarrow> front \<Rightarrow> string \<Rightarrow> string io" where
  "Jumpseller_fetchPage env c path =
     bind_io await_turn (\<lambda>_.
     bind_io (nap (4 * second)) (\<lambda>_.
       let target = ''https://'' @ FrontDomain c @ path in
       case StoreFetchStorefront env of
         Some fetch \<Rightarrow> if HasPrefix path ''/api/'' then fetch (FrontDomain c) target else StoreFetch env (FrontDomain c) target
       | None \<Rightarrow> StoreFetch env (FrontDomain c) target))"

definition readOffers :: "jump_env \<Rightarrow> front \<Rightarrow> string \<Rightarrow> offer list io" where
  "readOffers env c path =
     bind_io (Jumpseller_fetchPage env c path) (\<lambda>data. decoded_io (Jumpseller_parseProduct env c data path))"

definition Jumpseller_readStock :: "offer \<Rightarrow> stock_reading" where
  "Jumpseller_readStock item = \<lparr>ReadingStatus = OfferStockStatus item, ReadingQuantity = OfferStockQuantity item\<rparr>"

definition Jumpseller_CheckStock :: "jump_env \<Rightarrow> front \<Rightarrow> offer \<Rightarrow> stock_reading io" where
  "Jumpseller_CheckStock env c item =
     (case StoreParse env (OfferURL item) of
        None \<Rightarrow> fail_io (Failure (OfferURL item))
      | Some link \<Rightarrow>
          if \<not> sameStore link (FrontDomain c) \<or> UrlPath link = [] then fail_io (Failure ''invalid Jumpseller product URL'')
          else bind_io (readOffers env c (UrlEscapedPath link)) (\<lambda>items.
            let variant = lookup_string (UrlQuery link) ''variant_id'';
                variant = (if variant = [] then OfferVariantID item else variant)
            in return_io (case find (\<lambda>o1. OfferVariantID o1 = variant \<or> variant = [] \<and> length items = 1) items of
                 None \<Rightarrow> ReadStock ''unknown''
               | Some o1 \<Rightarrow> Jumpseller_readStock o1)))"

section \<open>Searching (internal/stores/jumpseller/search.go)\<close>

text \<open>The hits of a page: the ids seen, how many are new, and the paths to read.\<close>

fun take_hits ::
  "jump_env \<Rightarrow> card_query \<Rightarrow> jump_hit list \<Rightarrow> int list \<Rightarrow> nat \<Rightarrow> string list \<Rightarrow> failure + int list \<times> nat \<times> string list" where
  "take_hits env q [] seen added paths = Inr (seen, added, paths)"
| "take_hits env q (h # hs) seen added paths =
     (if HitID h \<le> 0 \<or> HitName h = [] then Inl (Failure ''invalid Jumpseller search product'')
      else if HitID h \<in> set seen then take_hits env q hs seen added paths
      else if \<not> AcceptsTitle (StoreText env) q (HitName h) then take_hits env q hs (HitID h # seen) (Suc added) paths
      else if HitPermalink h = [] \<or> ContainsAny (HitPermalink h) [CHR ''/'', CHR 0x5C, CHR ''.'']
        then Inl (Failure ''invalid Jumpseller permalink'')
      else take_hits env q hs (HitID h # seen) (Suc added) (paths @ [''/'' @ StorePathEscape env (HitPermalink h)]))"

definition uniquePaths :: "string list \<Rightarrow> string list" where
  "uniquePaths paths = add_new [] paths"

definition hits_path :: "jump_env \<Rightarrow> string \<Rightarrow> int \<Rightarrow> string" where
  "hits_path env name page = ''/api/search/'' @ StorePathEscape env name @ ''?page='' @ Itoa page"

fun jump_pages :: "nat \<Rightarrow> jump_env \<Rightarrow> front \<Rightarrow> card_query \<Rightarrow> int \<Rightarrow> int list \<Rightarrow> string list \<Rightarrow> string list option io" where
  "jump_pages 0 env c q page seen paths = return_io None"
| "jump_pages (Suc fuel) env c q page seen paths =
     bind_io (Jumpseller_fetchPage env c (hits_path env (QueryName q) page)) (\<lambda>data.
     bind_io (decoded_io (DecodeHits env data)) (\<lambda>reply.
       case reply of
         None \<Rightarrow> fail_io (Failure ''Jumpseller response missing products'')
       | Some hits \<Rightarrow>
           if hits = [] then return_io (Some (uniquePaths paths))
           else bind_io (decoded_io (take_hits env q hits seen 0 paths)) (\<lambda>(seen, added, paths).
             if added = 0 then fail_io (Failure ''Jumpseller pagination repeated products'')
             else jump_pages fuel env c q (page + 1) seen paths)))"

definition Jumpseller_findProducts :: "nat \<Rightarrow> jump_env \<Rightarrow> front \<Rightarrow> card_query \<Rightarrow> string list option io" where
  "Jumpseller_findProducts fuel env c q = jump_pages fuel env c q 1 [] []"

fun jump_found :: "jump_env \<Rightarrow> front \<Rightarrow> card_query \<Rightarrow> string list \<Rightarrow> offer list io" where
  "jump_found env c q [] = return_io []"
| "jump_found env c q (path # paths) =
     bind_io (readOffers env c path) (\<lambda>products.
     bind_io (jump_found env c q paths) (\<lambda>items.
       return_io (filter (\<lambda>it. AcceptsTitle (StoreText env) q (OfferCardName it) \<and> OfferStockStatus it = ''available'') products
         @ items)))"

definition Jumpseller_FindOffers :: "nat \<Rightarrow> jump_env \<Rightarrow> front \<Rightarrow> card_query \<Rightarrow> offer list option io" where
  "Jumpseller_FindOffers fuel env c q =
     (if TrimSpace (QueryName q) = [] then fail_io (Failure ''empty card name'')
      else bind_io (Jumpseller_findProducts fuel env c q) (map_found (\<lambda>paths.
           bind_io (jump_found env c q paths) (\<lambda>items. return_io (DeduplicateOffers items)))))"

section \<open>Searching ends\<close>

lemma take_hits_grows:
  "take_hits env q hits seen added paths = Inr (seen', added', paths') \<Longrightarrow> distinct seen \<Longrightarrow>
   distinct seen' \<and> set seen' = set seen \<union> HitID ` set hits \<and> length seen' + added = length seen + added'"
proof (induction env q hits seen added paths rule: take_hits.induct)
  case (2 env q h hs seen added paths)
  then show ?case by (auto split: if_splits)
qed simp

definition hits_within :: "jump_env \<Rightarrow> int set \<Rightarrow> bool" where
  "hits_within env S \<longleftrightarrow> (\<forall>data hits. DecodeHits env data = Inr (Some hits) \<longrightarrow> HitID ` set hits \<subseteq> S)"

lemma jump_pages_end:
  assumes "finite S" "hits_within env S" "set seen \<subseteq> S" "distinct seen" "card S + 1 \<le> fuel + length seen"
  shows "fst (jump_pages fuel env c q page seen paths w) \<noteq> Inr None"
  using assms(3-)
proof (induction fuel arbitrary: page seen paths w)
  case 0
  moreover have "length seen \<le> card S" using assms(1) 0(1,2) by (metis card_mono distinct_card)
  ultimately show ?case by simp
next
  case (Suc fuel)
  obtain r w1 where page: "Jumpseller_fetchPage env c (hits_path env (QueryName q) page) w = (r, w1)" by fastforce
  show ?case
  proof (cases "\<exists>data hits more. r = Inr data \<and> DecodeHits env data = Inr (Some hits) \<and> hits \<noteq> []
      \<and> take_hits env q hits seen 0 paths = Inr more \<and> fst (snd more) \<noteq> 0")
    case False
    with page show ?thesis
      by (auto simp: bind_io_def decoded_io_def fail_io_def return_io_def split: sum.splits option.splits)
  next
    case True
    then obtain data hits seen' added paths' where r: "r = Inr data" "DecodeHits env data = Inr (Some hits)" "hits \<noteq> []"
      and hits: "take_hits env q hits seen 0 paths = Inr (seen', added, paths')" "added \<noteq> 0" by auto
    from take_hits_grows [OF hits(1) Suc.prems(2)] assms(2) r(2) Suc.prems(1)
    have seen': "distinct seen'" "set seen' \<subseteq> S" "length seen' = length seen + added"
      by (auto simp: hits_within_def)
    with hits(2) Suc.prems(3) have "card S + 1 \<le> fuel + length seen'" by simp
    from Suc.IH [OF seen'(2,1) this, of "page + 1" paths' w1] page r hits show ?thesis
      by (simp add: bind_io_def decoded_io_def return_io_def)
  qed
qed

text \<open>Searching a Jumpseller store ends: a store that names finitely many products is asked for at
  most one page more than it has products, whatever it answers, because a page that names no new
  product ends the search, one way or the other.\<close>
theorem jumpseller_search_ends:
  assumes "finite products" "hits_within env products" "card products + 1 \<le> fuel"
  shows "fst (Jumpseller_FindOffers fuel env c q w) \<noteq> Inr None"
proof -
  have "fst (jump_pages fuel env c q 1 [] [] w) \<noteq> Inr None"
    using assms by (intro jump_pages_end [of products]) simp_all
  then show ?thesis
    by (auto simp: Jumpseller_FindOffers_def Jumpseller_findProducts_def map_found_def bind_io_def fail_io_def return_io_def
        split: prod.splits sum.splits option.splits)
qed

section \<open>Net prices\<close>

lemma fits64_div: "0 \<le> n \<Longrightarrow> n \<le> max_int64 \<Longrightarrow> 0 \<le> n div 100 \<and> fits64 (n div 100) \<and> fits64 n"
  by (auto simp: int64_defs)

lemma fits64_mult: "0 \<le> n \<Longrightarrow> n * 100 \<le> max_int64 \<Longrightarrow> fits64 n \<and> fits64 (n * 100)"
  by (auto simp: int64_defs)

lemma FloatString2_cents:
  assumes "0 \<le> x" "\<lfloor>x * 100 + 1 / 2\<rfloor> \<le> max_int64"
  shows "parseCents (FloatString2 x) = Inr \<lfloor>x * 100 + 1 / 2\<rfloor>"
proof -
  let ?n = "\<lfloor>x * 100 + 1 / 2\<rfloor>"
  have "0 \<le> ?n" using assms(1) by (simp add: zero_le_floor)
  then have whole: "0 \<le> ?n div 100" "fits64 (?n div 100)" "fits64 ?n" using fits64_div [OF _ assms(2)] by blast+
  note digits = Itoa_digits [OF whole(1)] and pad = Pad2_digits [of "?n mod 100"]
  have "parseCents (FloatString2 x) = Inr (wrap64 (?n div 100 * 100 + ?n mod 100))"
    using digits pad whole(2) by (simp add: FloatString2_def Let_def parseCents_dot del: div_mult_mod_eq)
  with whole(3) show ?thesis by (simp add: wrap64_id)
qed

text \<open>A Jumpseller offer costs its price less the published discount: whenever the discount is
  not negative and smaller than the price, the amount shown reads, in hundredths, as the exact
  difference rounded to the nearest, half up; every other pair of numbers is refused.\<close>
theorem jumpseller_net_price:
  assumes "ReadRat env price = Some a" "ReadRat env discount = Some r" "\<lfloor>(a - r) * 100 + 1 / 2\<rfloor> \<le> max_int64"
  shows "case priceAmount env price discount of
      Inl _ \<Rightarrow> r < 0 \<or> a \<le> r
    | Inr amount \<Rightarrow> 0 \<le> r \<and> r < a \<and> parseCents amount = Inr \<lfloor>(a - r) * 100 + 1 / 2\<rfloor>"
proof (cases "r < 0 \<or> a - r \<le> 0")
  case True
  with assms show ?thesis by (auto simp: priceAmount_def)
next
  case False
  show ?thesis
  proof (cases "rat_of_int \<lfloor>a - r\<rfloor> = a - r")
    case whole: True
    let ?n = "\<lfloor>a - r\<rfloor>"
    have "(a - r) * 100 + 1 / 2 = rat_of_int (?n * 100) + 1 / 2"
      by (simp only: of_int_mult whole of_int_numeral)
    then have cents: "\<lfloor>(a - r) * 100 + 1 / 2\<rfloor> = ?n * 100" by (simp only: floor_add_int floor_of_int) linarith
    have n: "0 \<le> ?n" using False by (simp add: zero_le_floor)
    with assms(3) have "fits64 ?n" "fits64 (?n * 100)" unfolding cents using fits64_mult [OF n] by blast+
    then have "parseCents (Itoa ?n) = Inr (?n * 100)"
      using Itoa_digits [OF n] by (simp add: parseCents_whole wrap64_id)
    moreover have "priceAmount env price discount = Inr (Itoa ?n)" using False whole assms(1,2) by (simp add: priceAmount_def)
    ultimately show ?thesis using False unfolding cents by simp
  next
    case part: False
    then have "priceAmount env price discount = Inr (FloatString2 (a - r))" using False assms(1,2) by (simp add: priceAmount_def)
    with False FloatString2_cents [of "a - r"] assms(3) show ?thesis by simp
  qed
qed

section \<open>A store with one card\<close>

definition demo_jump :: jump_env where
  "demo_jump = \<lparr>StoreText = plain_env, StoreFetch = (\<lambda>_ _. return_io ''page''), StoreFetchStorefront = None,
     StoreSessions = None, StoreParse = (\<lambda>_. None), StoreUrls = \<lparr>parse_url = (\<lambda>_. None), parse_request_uri = (\<lambda>_. None)\<rparr>,
     StoreEncode = (\<lambda>_. ''q''), StorePathEscape = (\<lambda>s. s), StoreQueryEscape = (\<lambda>s. s), StoreUnescape = (\<lambda>s. s),
     StoreHtml = (\<lambda>_. Inl (Failure ''html'')), DecodeForm = (\<lambda>_. Inl (Failure ''json'')), DecodeVariants = (\<lambda>_. Inr None),
     DecodeHits = (\<lambda>_. Inr (Some [\<lparr>HitID = 5, HitName = ''Opt'', HitPermalink = ''opt''\<rparr>])),
     ReadRat = (\<lambda>s. if s = ''19.99'' then Some (1999 / 100) else if s = ''0'' then Some 0 else None)\<rparr>"

theorem jumpseller_search_ends_witness:
  "fst (Jumpseller_FindOffers 2 demo_jump \<lparr>FrontDomain = ''shop.cl'', FrontName = ''Shop''\<rparr> (demo_query\<lparr>QueryName := ''Opt''\<rparr>)
     (calm_world empty_db)) \<noteq> Inr None"
  by (rule jumpseller_search_ends [of "{5}"]) (simp_all add: hits_within_def demo_jump_def)

theorem jumpseller_net_price_witness:
  "\<exists>amount. priceAmount demo_jump ''19.99'' ''0'' = Inr amount \<and> parseCents amount = Inr 1999"
proof -
  have read: "ReadRat demo_jump ''19.99'' = Some (1999 / 100)" "ReadRat demo_jump ''0'' = Some 0" by (simp_all add: demo_jump_def)
  have cents: "\<lfloor>(1999 / 100 - 0) * 100 + 1 / 2 :: rat\<rfloor> = 1999" by (simp add: floor_eq_iff)
  then have small: "\<lfloor>(1999 / 100 - 0) * 100 + 1 / 2 :: rat\<rfloor> \<le> max_int64" unfolding cents by (simp add: int64_defs)
  from jumpseller_net_price [OF read small] show ?thesis unfolding cents by (auto split: sum.splits)
qed

end
