(* ===== verification/Prestashop.thy ===== *)
theory Prestashop
  imports Storefront
begin

text \<open>
  internal/stores/prestashop: offers read from the product listings a storefront renders.  A client
  always has its fetcher here; the check for a missing one is left out.
\<close>

record presta_front = front +
  FrontSearchPath :: string
  FrontCurrency :: string
  FrontMaxPages :: int

definition defaultMaxPages :: int where "defaultMaxPages = 20"

section \<open>Nodes that may be missing\<close>

definition Prestashop_attribute :: "html_node option \<Rightarrow> string \<Rightarrow> string" where
  "Prestashop_attribute node key = (case node of None \<Rightarrow> [] | Some n \<Rightarrow> attribute n key)"

definition Prestashop_hasClass :: "html_node \<Rightarrow> string \<Rightarrow> bool" where
  "Prestashop_hasClass node name \<longleftrightarrow> list_ex (\<lambda>class. class = name) (Fields (Prestashop_attribute (Some node) ''class''))"

definition descendantWithClass :: "html_node option \<Rightarrow> string \<Rightarrow> html_node option" where
  "descendantWithClass node class =
     (case node of None \<Rightarrow> None
      | Some n \<Rightarrow> find (\<lambda>d. NodeType d = ElementNode \<and> Prestashop_hasClass d class) (Descendants n))"

definition firstElement :: "html_node option \<Rightarrow> string \<Rightarrow> html_node option" where
  "firstElement node name =
     (case node of None \<Rightarrow> None
      | Some n \<Rightarrow> find (\<lambda>d. NodeType d = ElementNode \<and> NodeData d = name) (Descendants n))"

definition Prestashop_nodeText :: "html_node option \<Rightarrow> string" where
  "Prestashop_nodeText node =
     (case node of None \<Rightarrow> []
      | Some n \<Rightarrow> Join (Fields (concat (map (\<lambda>d. NodeData d @ '' '')
                    (filter (\<lambda>d. NodeType d = TextNode) (Descendants n))))) '' '')"

definition Prestashop_digits :: "string \<Rightarrow> string" where
  "Prestashop_digits v = filter is_digit v"

text \<open>A reader of the whole document, which no caller uses.\<close>

definition hasNextPage :: "html_node \<Rightarrow> bool" where
  "hasNextPage document \<longleftrightarrow>
     list_ex (\<lambda>d. NodeType d = ElementNode \<and> NodeData d = ''link'' \<and> Prestashop_attribute (Some d) ''rel'' = ''next''
       \<and> Prestashop_attribute (Some d) ''href'' \<noteq> []) (Descendants document)"

section \<open>One product\<close>

definition presta_status :: "text_env \<Rightarrow> html_node option \<Rightarrow> string" where
  "presta_status env node =
     (if descendantWithClass node ''out_of_stock'' \<noteq> None \<or> Contains (ToLower env (Prestashop_nodeText node)) ''en stock: 0''
      then ''unavailable'' else ''available'')"

definition Prestashop_parseProduct :: "store_env \<Rightarrow> presta_front \<Rightarrow> html_node option \<Rightarrow> string \<Rightarrow> offer option" where
  "Prestashop_parseProduct env c node wanted =
     (let i = Prestashop_attribute node ''data-id-product'';
          titleNode = descendantWithClass node ''product-title'';
          priceNode = descendantWithClass node ''price'';
          linkNode = firstElement titleNode ''a'';
          title = Prestashop_nodeText linkNode;
          amount = Prestashop_digits (Prestashop_nodeText priceNode);
          link = Prestashop_attribute linkNode ''href'';
          item = zero_offer\<lparr>OfferID := FrontDomain c @ '':'' @ i, OfferCardName := title,
            OfferStore := (if FrontName c = [] then FrontDomain c else FrontName c), OfferPriceAmount := amount,
            OfferPriceCurrency := (if FrontCurrency c = [] then ''CLP'' else FrontCurrency c), OfferURL := link,
            OfferSource := FrontDomain c, OfferStockStatus := presta_status (StoreText env) node\<rparr>
      in if i = [] \<or> \<not> MatchesCard (StoreText env) title wanted \<or> priceNode = None \<or> linkNode = None then None
         else if amount = [] \<or> link = [] then None
         else if ValidateOffer (StoreUrls env) item \<noteq> Inr () then None
         else Some item)"

section \<open>One page\<close>

definition article_start :: string where "article_start = ''<article class=\"product-miniature''"
definition article_end :: string where "article_end = ''</article>''"

lemma article_shorter:
  "Index (drop start page) article_end = Some n \<Longrightarrow> length page - (start + (n + length article_end)) < length page"
  using Index_Some [of "drop start page" article_end n] by (auto simp: article_end_def dest!: prefix_length_le)

text \<open>The products of a page: each article is cut from its opening tag to its closing one and parsed.\<close>

function parse_articles :: "store_env \<Rightarrow> presta_front \<Rightarrow> string \<Rightarrow> string \<Rightarrow> failure + offer list" where
  "parse_articles env c wanted page =
     (case Index page article_start of
        None \<Rightarrow> Inr []
      | Some start \<Rightarrow>
          let remaining = drop start page in
          (case Index remaining article_end of
             None \<Rightarrow> Inl (Failure ''unterminated PrestaShop product'')
           | Some n \<Rightarrow>
               let stop = n + length article_end in
               (case StoreHtml env (take stop remaining) of
                  Inl e \<Rightarrow> Inl e
                | Inr document \<Rightarrow>
                    map_sum id (\<lambda>items. case Prestashop_parseProduct env c (descendantWithClass (Some document) ''product-miniature'') wanted of
                        None \<Rightarrow> items
                      | Some item \<Rightarrow> item # items) (parse_articles env c wanted (drop stop remaining)))))"
  by pat_completeness auto

termination
  by (relation "measure (\<lambda>(env, c, wanted, page). length page)") (auto dest: article_shorter)

declare parse_articles.simps [simp del]

definition has_next :: "text_env \<Rightarrow> string \<Rightarrow> bool" where
  "has_next env data \<longleftrightarrow>
     (let page = ToLower env data
      in Contains page ''rel=\"next\"'' \<or> Contains page (''rel='' @ [CHR 0x27] @ ''next'' @ [CHR 0x27]))"

definition parsePage :: "store_env \<Rightarrow> presta_front \<Rightarrow> string \<Rightarrow> string \<Rightarrow> failure + offer list \<times> bool" where
  "parsePage env c data wanted =
     map_sum id (\<lambda>items. (items, has_next (StoreText env) data)) (parse_articles env c wanted data)"

section \<open>Searching\<close>

definition searchURL :: "store_env \<Rightarrow> presta_front \<Rightarrow> string \<Rightarrow> int \<Rightarrow> string" where
  "searchURL env c name page =
     ''https://'' @ FrontDomain c @ (if FrontSearchPath c = [] then ''/index.php'' else FrontSearchPath c) @ ''?''
     @ StoreEncode env ([(''controller'', ''search''), (''s'', name)] @ (if 1 < page then [(''page'', Itoa page)] else []))"

definition presta_max :: "presta_front \<Rightarrow> int" where
  "presta_max c = (if FrontMaxPages c < 1 then defaultMaxPages else FrontMaxPages c)"

fun presta_pages :: "nat \<Rightarrow> store_env \<Rightarrow> presta_front \<Rightarrow> string \<Rightarrow> int \<Rightarrow> offer list \<Rightarrow> offer list io" where
  "presta_pages 0 env c name page items = fail_io (Failure (''PrestaShop search exceeded '' @ Itoa (presta_max c) @ '' pages''))"
| "presta_pages (Suc left) env c name page items =
     bind_io (StoreFetch env (FrontDomain c) (searchURL env c name page)) (\<lambda>data.
     bind_io (decoded_io (parsePage env c data name)) (\<lambda>(found, next).
       if \<not> next then return_io (DeduplicateOffers (items @ found))
       else presta_pages left env c name (page + 1) (items @ found)))"

definition Prestashop_FindOffers :: "store_env \<Rightarrow> presta_front \<Rightarrow> card_query \<Rightarrow> offer list io" where
  "Prestashop_FindOffers env c q =
     (if FrontDomain c = [] \<or> TrimSpace (QueryName q) = [] then fail_io (Failure ''invalid PrestaShop client'')
      else presta_pages (nat (presta_max c)) env c (QueryName q) 1 [])"

section \<open>An answer is whole\<close>

definition pages_read :: "store_env \<Rightarrow> presta_front \<Rightarrow> string \<Rightarrow> (offer list \<times> bool) list \<Rightarrow> bool" where
  "pages_read env c name pages \<longleftrightarrow>
     pages \<noteq> [] \<and> list_all (\<lambda>p. \<exists>data. parsePage env c data name = Inr p) pages
     \<and> list_all snd (butlast pages) \<and> \<not> snd (last pages)"

lemma presta_pages_whole:
  "presta_pages left env c name page items w = (Inr os, w') \<Longrightarrow>
   \<exists>pages. pages_read env c name pages \<and> length pages \<le> left \<and> os = DeduplicateOffers (items @ concat (map fst pages))"
proof (induction left arbitrary: page items w)
  case (Suc left)
  from Suc.prems obtain data w1 p where page: "parsePage env c data name = Inr p"
    and rest: "(if \<not> snd p then return_io (DeduplicateOffers (items @ fst p))
       else presta_pages left env c name (page + 1) (items @ fst p)) w1 = (Inr os, w')"
    by (simp only: presta_pages.simps bind_io_Inr decoded_io_Inr split_beta) blast
  show ?case
  proof (cases "snd p")
    case False
    with page rest show ?thesis
      by (intro exI [of _ "[p]"]) (auto simp: pages_read_def return_io_def)
  next
    case True
    with rest Suc.IH obtain pages where "pages_read env c name pages" "length pages \<le> left"
      "os = DeduplicateOffers ((items @ fst p) @ concat (map fst pages))" by fastforce
    with page True show ?thesis
      by (intro exI [of _ "p # pages"]) (auto simp: pages_read_def)
  qed
qed (simp add: fail_io_def)

text \<open>A PrestaShop search answers the whole listing or fails: an answer holds the products of one to
  \<open>presta_max\<close> pages, every one but the last of which said that another follows, and the last that
  none does, without duplicates; a longer listing is an error and never an answer cut short.\<close>
theorem prestashop_answer_is_whole:
  assumes "Prestashop_FindOffers env c q w = (Inr os, w')"
  shows "\<exists>pages. pages_read env c (QueryName q) pages \<and> int (length pages) \<le> presta_max c
    \<and> os = DeduplicateOffers (concat (map fst pages))"
proof -
  from assms have "presta_pages (nat (presta_max c)) env c (QueryName q) 1 [] w = (Inr os, w')"
    by (auto simp: Prestashop_FindOffers_def fail_io_def split: if_splits)
  from presta_pages_whole [OF this] show ?thesis by (auto simp: presta_max_def defaultMaxPages_def)
qed

definition demo_presta :: store_env where
  "demo_presta = \<lparr>StoreText = plain_env, StoreFetch = (\<lambda>_ _. return_io ''nada''), StoreFetchStorefront = None,
     StoreSessions = None, StoreParse = (\<lambda>_. None), StoreUrls = \<lparr>parse_url = (\<lambda>_. None), parse_request_uri = (\<lambda>_. None)\<rparr>,
     StoreEncode = (\<lambda>_. ''q''), StorePathEscape = (\<lambda>s. s), StoreQueryEscape = (\<lambda>s. s), StoreUnescape = (\<lambda>s. s),
     StoreHtml = (\<lambda>_. Inl (Failure ''html''))\<rparr>"

theorem prestashop_answer_is_whole_witness:
  "\<exists>w' pages. Prestashop_FindOffers demo_presta \<lparr>FrontDomain = ''shop.cl'', FrontName = [], FrontSearchPath = [],
       FrontCurrency = [], FrontMaxPages = 1\<rparr> (demo_query\<lparr>QueryName := ''Opt''\<rparr>) (calm_world empty_db) = (Inr [], w')
     \<and> length pages = 1 \<and> [] = DeduplicateOffers (concat (map fst (pages :: (offer list \<times> bool) list)))"
proof -
  let ?c = "\<lparr>FrontDomain = ''shop.cl'', FrontName = [], FrontSearchPath = [], FrontCurrency = [], FrontMaxPages = 1\<rparr> :: presta_front"
  let ?q = "demo_query\<lparr>QueryName := ''Opt''\<rparr>"
  have "fst (Prestashop_FindOffers demo_presta ?c ?q (calm_world empty_db)) = Inr []" by code_simp
  then obtain w' where run: "Prestashop_FindOffers demo_presta ?c ?q (calm_world empty_db) = (Inr [], w')"
    by (metis prod.collapse)
  from prestashop_answer_is_whole [OF run] obtain pages where pages: "pages_read demo_presta ?c (QueryName ?q) pages"
    "int (length pages) \<le> presta_max ?c" "[] = DeduplicateOffers (concat (map fst pages))" by blast
  from pages(1) have "pages \<noteq> []" by (simp add: pages_read_def)
  with pages(2) have "length pages = 1" by (cases pages) (auto simp: presta_max_def)
  with run pages(3) show ?thesis by blast
qed

end
