(* ===== verification/Moxfield.thy ===== *)
theory Moxfield
  imports Numbers OfferSearch Catalog
begin

text \<open>
  internal/stores/moxfield: stores that publish their inventory as public Moxfield lists.  A
  client reads one list, prices its cards at the rate of the store, keeps the result in the offer
  cache and counts an entry again when asked for its stock; the shelf holds every client.

  The fetcher, the JSON decoder, SHA-256 in hexadecimal, \<open>big.Rat.SetString\<close> and
  \<open>strings.EqualFold\<close> are arguments.  The mutex of a client serialises its calls; the model runs
  one call at a time.  A wrapped error is the error it wraps, which is what \<open>errors.Is\<close> sees.
\<close>

section \<open>Replies (internal/stores/moxfield/inventory.go)\<close>

text \<open>A map of JSON texts that may be absent; reading a missing key answers the empty text.\<close>

type_synonym price_table = "(string \<times> string) list option"

record card_reply =
  CardReplyID :: string
  CardReplyName :: string
  CardReplySet :: string
  CardReplyLanguage :: string
  CardReplyPrices :: price_table

datatype entry_reply =
  EntryReply (EntryReplyID: string) (EntryQuantity: int) (EntryFinish: string) (EntryIsFoil: bool)
    (EntryCard: card_reply) (EntryPrintings: "entry_reply list") (EntryPrices: price_table)

type_synonym deck_reply = "(string \<times> (string \<times> entry_reply) list) list option"

record inventory_cache =
  InventoryLoad :: "string \<Rightarrow> (offer list \<times> bool) io"
  InventorySave :: "string \<Rightarrow> offer list \<Rightarrow> duration \<Rightarrow> unit io"
  InventoryDrop :: "string \<Rightarrow> unit io"

record list_env =
  ListConfigEnv :: config_env
  ListText :: text_env
  ListFetch :: "string \<Rightarrow> string \<Rightarrow> string io"
  ListCache :: "inventory_cache option"
  ListTTL :: duration
  ListDecode :: "string \<Rightarrow> failure + deck_reply"
  ListRat :: "string \<Rightarrow> rat option"
  ListEqualFold :: "string \<Rightarrow> string \<Rightarrow> bool"
  ListDigest :: "string \<Rightarrow> string"

definition price_text :: "price_table \<Rightarrow> string \<Rightarrow> string" where
  "price_text table key = (case table of None \<Rightarrow> [] | Some m \<Rightarrow> lookup_string m key)"

section \<open>Pricing an entry\<close>

definition selectFinish :: "entry_reply \<Rightarrow> string \<times> string" where
  "selectFinish e =
     (if EntryFinish e = ''etched'' then (''etched'', ''ck_etched'')
      else if EntryFinish e = ''foil'' then (''foil'', ''ck_foil'')
      else if EntryFinish e = [] \<or> EntryFinish e = ''nonFoil''
        then (if EntryIsFoil e then (''foil'', ''ck_foil'') else (''nonfoil'', ''ck''))
      else (EntryFinish e, []))"

text \<open>\<open>Quo\<close> truncates, which for the positive numerator here is \<open>div\<close>.\<close>

definition convertPrice :: "list_env \<Rightarrow> string \<Rightarrow> int \<Rightarrow> string option" where
  "convertPrice env raw rate =
     (case ListRat env (trim_char CHR ''\"'' raw) of
        None \<Rightarrow> None
      | Some price \<Rightarrow>
          if price \<le> 0 \<or> rate < 1 then None
          else let (num, den) = quotient_of (price * rat_of_int rate + 1 / 2);
                   pesos = num div den
               in if 0 < pesos then Some (Itoa pesos) else None)"

definition variant_of :: "string \<Rightarrow> string \<Rightarrow> entry_reply \<Rightarrow> string \<Rightarrow> string" where
  "variant_of i key e finish = Join [i, key, CardReplyID (EntryCard e), finish] '':''"

definition Moxfield_buildOffer :: "list_env \<Rightarrow> list_client \<Rightarrow> entry_reply \<Rightarrow> string \<Rightarrow> string \<Rightarrow> offer option" where
  "Moxfield_buildOffer env c e i key =
     (let (finish, priceKey) = selectFinish e;
          card = EntryCard e;
          raw = price_text (CardReplyPrices card) priceKey
      in case convertPrice env raw (ListClientRate c) of
        None \<Rightarrow> None
      | Some price \<Rightarrow>
          if CardReplyName card = [] \<or> CardReplyID card = [] then None
          else let variant = variant_of i key e finish;
                   store = (if ListStore c = [] then ListStoreID c else ListStore c)
               in Some (zero_offer\<lparr>
                    OfferID := ''moxfield:'' @ ListStoreID c @ '':'' @ variant, OfferVariantID := variant,
                    OfferCardName := CardReplyName card, OfferStore := store, OfferPriceAmount := price,
                    OfferPriceCurrency := ''CLP'', OfferURL := ''https://moxfield.com/decks/'' @ i,
                    OfferSource := ''moxfield'', OfferFinish := finish, OfferLanguage := CardReplyLanguage card,
                    OfferStockStatus := ''available'', OfferStockQuantity := Some (EntryQuantity e),
                    OfferMetadata := [(''list'', ListClientLabel c), (''set'', CardReplySet card),
                      (''quantity'', Itoa (EntryQuantity e)), (''ck_usd'', trim_char CHR ''\"'' raw),
                      (''clp_per_ck_usd'', Itoa (ListClientRate c))]\<rparr>))"

text \<open>Each printing with its own price and quantity, the name and id of its entry where it has none.\<close>

definition fill_printing :: "entry_reply \<Rightarrow> entry_reply \<Rightarrow> entry_reply" where
  "fill_printing e p =
     (let card = EntryCard p;
          card = (if CardReplyName card = [] then card\<lparr>CardReplyName := CardReplyName (EntryCard e)\<rparr> else card);
          card = (if CardReplyID card = [] then card\<lparr>CardReplyID := EntryReplyID p\<rparr> else card);
          card = (if EntryPrices p \<noteq> None then card\<lparr>CardReplyPrices := EntryPrices p\<rparr> else card)
      in EntryReply (EntryReplyID p) (EntryQuantity p) (EntryFinish p) (EntryIsFoil p) card
           (EntryPrintings p) (EntryPrices p))"

definition expandPrintings :: "entry_reply \<Rightarrow> entry_reply list" where
  "expandPrintings e = (if EntryPrintings e = [] then [e] else map (fill_printing e) (EntryPrintings e))"

text \<open>Every printing that counts copies, under the board and key it stands at.\<close>

definition counted_printings :: "(string \<times> (string \<times> entry_reply) list) list \<Rightarrow> (string \<times> entry_reply) list" where
  "counted_printings boards =
     concat (map (\<lambda>(board, cards). concat (map (\<lambda>(key, e).
       map (\<lambda>p. (board @ '':'' @ key, p)) (filter (\<lambda>p. \<not> EntryQuantity p \<le> 0) (expandPrintings e))) cards)) boards)"

definition readInventory :: "list_env \<Rightarrow> list_client \<Rightarrow> string \<Rightarrow> string \<Rightarrow> failure + offer list \<times> nat" where
  "readInventory env c data i =
     (case ListDecode env data of
        Inl e \<Rightarrow> Inl e
      | Inr deck \<Rightarrow> (case deck of
          None \<Rightarrow> Inl (Failure ''invalid Moxfield inventory or conversion rate'')
        | Some boards \<Rightarrow>
            if ListClientRate c < 1 then Inl (Failure ''invalid Moxfield inventory or conversion rate'')
            else let built = map (\<lambda>(key, p). Moxfield_buildOffer env c p i key) (counted_printings boards)
                 in Inr (sort_key OfferID (List.map_filter (\<lambda>x. x) built),
                         length (filter (\<lambda>x. x = None) built))))"

section \<open>One list (internal/stores/moxfield/client.go)\<close>

definition inventoryKey :: "list_env \<Rightarrow> list_client \<Rightarrow> string \<Rightarrow> string" where
  "inventoryKey env c i =
     ''moxfield:v1:'' @ ListDigest env (Join [ListStoreID c, ListStore c, ListClientLabel c, i, Itoa (ListClientRate c)] ''|'')"

definition fetchInventory :: "list_env \<Rightarrow> list_client \<Rightarrow> string \<Rightarrow> offer list io" where
  "fetchInventory env c i =
     bind_io (ListFetch env ''api2.moxfield.com'' (''https://api2.moxfield.com/v3/decks/all/'' @ i)) (\<lambda>data.
       case readInventory env c data i of
         Inl e \<Rightarrow> fail_io e
       | Inr (items, missing) \<Rightarrow> return_io items)"

definition keep_inventory :: "list_env \<Rightarrow> string \<Rightarrow> offer list \<Rightarrow> unit io" where
  "keep_inventory env key items =
     (case ListCache env of
        None \<Rightarrow> return_io ()
      | Some cache \<Rightarrow>
          if 0 < ListTTL env then bind_io (try_io (InventorySave cache key items (ListTTL env))) (\<lambda>_. return_io ())
          else return_io ())"

definition loadInventory :: "list_env \<Rightarrow> list_client \<Rightarrow> string \<Rightarrow> offer list io" where
  "loadInventory env c i =
     bind_io await_turn (\<lambda>_.
       let key = inventoryKey env c i in
       bind_io (case ListCache env of
                  None \<Rightarrow> return_io (Inr ([], False))
                | Some cache \<Rightarrow> try_io (InventoryLoad cache key)) (\<lambda>kept.
         case kept of
           Inr (items, True) \<Rightarrow> return_io items
         | _ \<Rightarrow>
             bind_io (fetchInventory env c i) (\<lambda>items.
             bind_io (keep_inventory env key items) (\<lambda>_. return_io items))))"

definition from_list_id :: "list_env \<Rightarrow> list_client \<Rightarrow> string io" where
  "from_list_id env c =
     (case ExtractListID (ListConfigEnv env) (ListClientURL c) of Inl e \<Rightarrow> fail_io e | Inr i \<Rightarrow> return_io i)"

definition Moxfield_FindOffers :: "list_env \<Rightarrow> list_client \<Rightarrow> card_query \<Rightarrow> offer list io" where
  "Moxfield_FindOffers env c q =
     bind_io (from_list_id env c) (\<lambda>i.
     bind_io (loadInventory env c i) (\<lambda>items.
       return_io (filter (\<lambda>it. AcceptsTitle (ListText env) q (OfferCardName it)) items)))"

definition DropInventory :: "list_env \<Rightarrow> list_client \<Rightarrow> unit io" where
  "DropInventory env c =
     bind_io (from_list_id env c) (\<lambda>i.
       case ListCache env of
         None \<Rightarrow> return_io ()
       | Some cache \<Rightarrow> InventoryDrop cache (inventoryKey env c i))"

definition Moxfield_SourceName :: "list_client \<Rightarrow> string" where
  "Moxfield_SourceName c = ListStoreID c @ '':'' @ ListClientLabel c"

section \<open>Counting an entry again (internal/stores/moxfield/stock.go)\<close>

definition reloadInventory :: "list_env \<Rightarrow> list_client \<Rightarrow> string \<Rightarrow> offer list io" where
  "reloadInventory env c i =
     bind_io await_turn (\<lambda>_.
     bind_io (fetchInventory env c i) (\<lambda>items.
     bind_io (keep_inventory env (inventoryKey env c i) items) (\<lambda>_. return_io items)))"

definition Moxfield_CheckStock :: "list_env \<Rightarrow> list_client \<Rightarrow> offer \<Rightarrow> stock_reading io" where
  "Moxfield_CheckStock env c item =
     bind_io (from_list_id env c) (\<lambda>i.
     bind_io (reloadInventory env c i) (\<lambda>items.
       return_io (case find (\<lambda>o1. OfferID o1 = OfferID item) items of
           None \<Rightarrow> CountStock ''unavailable'' 0
         | Some o1 \<Rightarrow> (case Atoi (lookup_string (OfferMetadata o1) ''quantity'') of
             None \<Rightarrow> CountStock ''unavailable'' 0
           | Some units \<Rightarrow> if units \<le> 0 then CountStock ''unavailable'' 0 else CountStock ''available'' units))))"

definition listOf :: "list_env \<Rightarrow> list_client list \<Rightarrow> offer \<Rightarrow> list_client option" where
  "listOf env shelf item =
     find (\<lambda>c. case ExtractListID (ListConfigEnv env) (ListClientURL c) of
                 Inl _ \<Rightarrow> False
               | Inr i \<Rightarrow> prefix (''moxfield:'' @ ListStoreID c @ '':'' @ i @ '':'') (OfferID item)) shelf"

definition Shelf_CheckStock :: "list_env \<Rightarrow> list_client list \<Rightarrow> offer \<Rightarrow> stock_reading io" where
  "Shelf_CheckStock env shelf item =
     (case listOf env shelf item of None \<Rightarrow> fail_io ErrNoList | Some c \<Rightarrow> Moxfield_CheckStock env c item)"

section \<open>Forgetting lists (internal/stores/moxfield/shelf.go)\<close>

definition namesStore :: "list_env \<Rightarrow> list_client \<Rightarrow> string \<Rightarrow> bool" where
  "namesStore env c store = (ListEqualFold env (ListStoreID c) store \<or> ListEqualFold env (ListStore c) store)"

definition selectLists :: "list_env \<Rightarrow> list_client list \<Rightarrow> string \<Rightarrow> string \<Rightarrow> list_client list" where
  "selectLists env shelf store label =
     filter (\<lambda>c. namesStore env c store \<and> \<not> (label \<noteq> [] \<and> \<not> ListEqualFold env (ListClientLabel c) label)) shelf"

fun drop_lists :: "list_env \<Rightarrow> list_client list \<Rightarrow> int \<Rightarrow> (int \<times> failure option) io" where
  "drop_lists env [] dropped = return_io (dropped, None)"
| "drop_lists env (c # cs) dropped =
     bind_io (try_io (DropInventory env c)) (\<lambda>r.
       case r of Inl e \<Rightarrow> return_io (dropped, Some e) | Inr _ \<Rightarrow> drop_lists env cs (dropped + 1))"

definition RefreshStoreLists :: "list_env \<Rightarrow> list_client list \<Rightarrow> string \<Rightarrow> string \<Rightarrow> (int \<times> failure option) io" where
  "RefreshStoreLists env shelf store label =
     (let selected = selectLists env shelf store label
      in if selected = [] then return_io (0, Some ErrNoList) else drop_lists env selected 0)"

text \<open>What the handler reads of the pair: the failure, or the count without one.\<close>

definition refresh_port :: "list_env \<Rightarrow> list_client list \<Rightarrow> string \<Rightarrow> string \<Rightarrow> int io" where
  "refresh_port env shelf store label =
     bind_io (RefreshStoreLists env shelf store label) (\<lambda>(n, err).
       case err of None \<Rightarrow> return_io n | Some e \<Rightarrow> fail_io e)"

text \<open>The offer cache of the repository, as the catalogue hands it to the lists.\<close>

definition repository_inventory :: inventory_cache where
  "repository_inventory = \<lparr>InventoryLoad = LoadOffers, InventorySave = SaveOffers, InventoryDrop = DropOffers\<rparr>"


section \<open>Prices in pesos\<close>

lemma quotient_floor: "quotient_of r = (num, den) \<Longrightarrow> num div den = \<lfloor>r\<rfloor>"
  by (metis floor_divide_of_int_eq quotient_of_div)

lemma convertPrice_floor:
  "convertPrice env raw rate =
     (case ListRat env (trim_char CHR ''\"'' raw) of
        None \<Rightarrow> None
      | Some price \<Rightarrow>
          if price \<le> 0 \<or> rate < 1 \<or> price * rat_of_int rate < 1 / 2 then None
          else Some (Itoa \<lfloor>price * rat_of_int rate + 1 / 2\<rfloor>))"
proof (cases "ListRat env (trim_char CHR ''\"'' raw)")
  case (Some price)
  obtain num den where q: "quotient_of (price * rat_of_int rate + 1 / 2) = (num, den)" by fastforce
  have "0 < \<lfloor>price * rat_of_int rate + 1 / 2\<rfloor> \<longleftrightarrow> \<not> price * rat_of_int rate < 1 / 2" by linarith
  then show ?thesis by (simp add: convertPrice_def Some q quotient_floor [OF q] Let_def)
qed (simp add: convertPrice_def)

text \<open>A card of a list costs its dollar price times the rate of the store, rounded to the nearest
  peso and half up: a price is answered exactly when the list names one above zero, the rate is
  at least one and the product reaches half a peso; it is then at least one peso and less than
  half a peso below, and at most half a peso above, the exact product.\<close>
theorem list_price_rounds_half_up:
  "convertPrice env raw rate = Some text \<longleftrightarrow>
     (\<exists>price pesos. ListRat env (trim_char CHR ''\"'' raw) = Some price \<and> 0 < price \<and> 1 \<le> rate
        \<and> text = Itoa pesos \<and> 1 \<le> pesos
        \<and> price * rat_of_int rate - 1 / 2 < rat_of_int pesos
        \<and> rat_of_int pesos \<le> price * rat_of_int rate + 1 / 2)"
proof -
  have floor: "\<lfloor>x + 1 / 2\<rfloor> = n \<longleftrightarrow> x - 1 / 2 < rat_of_int n \<and> rat_of_int n \<le> x + 1 / 2" for x :: rat and n
    by linarith
  have least: "1 \<le> \<lfloor>x + 1 / 2\<rfloor> \<longleftrightarrow> \<not> x < 1 / 2" for x :: rat by linarith
  show ?thesis
  proof (cases "ListRat env (trim_char CHR ''\"'' raw)")
    case (Some price)
    let ?x = "price * rat_of_int rate"
    have "convertPrice env raw rate = Some text \<longleftrightarrow>
        0 < price \<and> 1 \<le> rate \<and> 1 \<le> \<lfloor>?x + 1 / 2\<rfloor> \<and> text = Itoa \<lfloor>?x + 1 / 2\<rfloor>"
      by (auto simp: convertPrice_floor Some least)
    moreover have "(1 \<le> \<lfloor>?x + 1 / 2\<rfloor> \<and> text = Itoa \<lfloor>?x + 1 / 2\<rfloor>) \<longleftrightarrow>
        (\<exists>pesos. text = Itoa pesos \<and> 1 \<le> pesos \<and> ?x - 1 / 2 < rat_of_int pesos \<and> rat_of_int pesos \<le> ?x + 1 / 2)"
      using floor [of ?x] by metis
    ultimately show ?thesis using Some by auto
  qed (simp add: convertPrice_floor)
qed

section \<open>What an inventory holds\<close>

lemma built_offer:
  assumes "Moxfield_buildOffer env c e i key = Some o1"
  shows "OfferStockQuantity o1 = Some (EntryQuantity e)" "lookup_string (OfferMetadata o1) ''quantity'' = Itoa (EntryQuantity e)"
    "\<exists>rest. OfferID o1 = ''moxfield:'' @ ListStoreID c @ '':'' @ i @ '':'' @ rest"
  using assms
  by (auto simp: Moxfield_buildOffer_def Let_def lookup_string_def variant_of_def split: option.splits prod.splits if_splits)

lemma readInventory_Inr:
  assumes "readInventory env c data i = Inr (items, missing)" "o1 \<in> set items"
  obtains e key where "Moxfield_buildOffer env c e i key = Some o1" "0 < EntryQuantity e"
proof -
  from assms obtain boards where
    "o1 \<in> set (List.map_filter (\<lambda>x. x) (map (\<lambda>(key, p). Moxfield_buildOffer env c p i key) (counted_printings boards)))"
    by (auto simp: readInventory_def Let_def split: sum.splits option.splits if_splits)
  then obtain key p where "(key, p) \<in> set (counted_printings boards)" "Moxfield_buildOffer env c p i key = Some o1"
    by (auto simp: List.map_filter_def)
  moreover from this(1) have "0 < EntryQuantity p" by (auto simp: counted_printings_def)
  ultimately show thesis using that by blast
qed

text \<open>Two clients of one list: all that shapes their offers is the same.\<close>

definition same_list :: "list_client \<Rightarrow> list_client \<Rightarrow> bool" where
  "same_list c d \<longleftrightarrow> ListStoreID c = ListStoreID d \<and> ListStore c = ListStore d
     \<and> ListClientLabel c = ListClientLabel d \<and> ListClientRate c = ListClientRate d"

lemma same_list_reads:
  assumes "same_list c d"
  shows "readInventory env c data i = readInventory env d data i"
proof -
  note same = assms [unfolded same_list_def, THEN conjunct1] assms [unfolded same_list_def, THEN conjunct2, THEN conjunct1]
    assms [unfolded same_list_def, THEN conjunct2, THEN conjunct2, THEN conjunct1]
    assms [unfolded same_list_def, THEN conjunct2, THEN conjunct2, THEN conjunct2]
  have "Moxfield_buildOffer env c = Moxfield_buildOffer env d"
    unfolding Moxfield_buildOffer_def [abs_def] same ..
  note built = this
  show ?thesis unfolding readInventory_def same built ..
qed

section \<open>The list an offer came from\<close>

lemma colon_unique:
  "CHR '':'' \<notin> set x \<Longrightarrow> CHR '':'' \<notin> set x' \<Longrightarrow> x @ CHR '':'' # y = x' @ CHR '':'' # y' \<Longrightarrow> x = x' \<and> y = y'"
proof (induction x arbitrary: x')
  case Nil
  then show ?case by (cases x') auto
next
  case (Cons c x)
  then show ?case by (cases x') auto
qed

lemma deck_no_colon: "deckIDPattern i \<Longrightarrow> CHR '':'' \<notin> set i"
proof
  assume "deckIDPattern i" "CHR '':'' \<in> set i"
  then have "deck_rune CHR '':''" by (simp add: deckIDPattern_def list_all_iff)
  moreover have "\<not> deck_rune CHR '':''" by (simp add: deck_rune_def)
  ultimately show False by simp
qed

lemma ExtractListID_no_colon: "ExtractListID env url = Inr i \<Longrightarrow> CHR '':'' \<notin> set i"
  by (rule deck_no_colon)
     (simp add: ExtractListID_def Let_def split: option.splits if_splits list.splits)

definition shelf_ok :: "list_env \<Rightarrow> list_client list \<Rightarrow> bool" where
  "shelf_ok env shelf \<longleftrightarrow>
     (\<forall>c \<in> set shelf. CHR '':'' \<notin> set (ListStoreID c))
     \<and> (\<forall>c \<in> set shelf. \<forall>d \<in> set shelf. \<forall>i. ListStoreID c = ListStoreID d
          \<and> ExtractListID (ListConfigEnv env) (ListClientURL c) = Inr i
          \<and> ExtractListID (ListConfigEnv env) (ListClientURL d) = Inr i \<longrightarrow> same_list c d)"

lemma listOf_finds:
  assumes ok: "shelf_ok env shelf" and c: "c \<in> set shelf"
    and i: "ExtractListID (ListConfigEnv env) (ListClientURL c) = Inr i"
    and item: "OfferID item = ''moxfield:'' @ ListStoreID c @ '':'' @ i @ '':'' @ rest"
  obtains d where "listOf env shelf item = Some d" "same_list c d" "ListStoreID d = ListStoreID c"
    "ExtractListID (ListConfigEnv env) (ListClientURL d) = Inr i"
proof -
  let ?holds = "\<lambda>c. case ExtractListID (ListConfigEnv env) (ListClientURL c) of Inl _ \<Rightarrow> False
    | Inr i \<Rightarrow> prefix (''moxfield:'' @ ListStoreID c @ '':'' @ i @ '':'') (OfferID item)"
  have "?holds c" by (simp add: i item)
  with c have "find ?holds shelf \<noteq> None" by (auto simp: find_None_iff)
  then obtain d where d: "find ?holds shelf = Some d" by blast
  then have mem: "d \<in> set shelf" "?holds d" by (auto simp: find_Some_iff)
  then obtain j where j: "ExtractListID (ListConfigEnv env) (ListClientURL d) = Inr j"
    "prefix (''moxfield:'' @ ListStoreID d @ '':'' @ j @ '':'') (OfferID item)" by (auto split: sum.splits)
  then obtain tail where "ListStoreID c @ CHR '':'' # i @ CHR '':'' # rest = ListStoreID d @ CHR '':'' # j @ CHR '':'' # tail"
    by (auto simp: item prefix_def)
  with ok c mem(1) have "ListStoreID c = ListStoreID d \<and> i @ CHR '':'' # rest = j @ CHR '':'' # tail"
    by (intro colon_unique) (auto simp: shelf_ok_def)
  then have same: "ListStoreID c = ListStoreID d" "i = j"
    using colon_unique [of i j rest tail] ExtractListID_no_colon i j(1) by blast+
  with ok c mem(1) i j(1) have "same_list c d" by (auto simp: shelf_ok_def)
  with d same j(1) show thesis by (intro that [of d]) (simp_all add: listOf_def)
qed

section \<open>Counting a listed offer\<close>

lemma await_turn_calm: "calm w \<Longrightarrow> await_turn w = (Inr (), w\<lparr>calls := Suc (calls w)\<rparr>)"
  by (simp add: await_turn_def map_failure_def calm_call)

lemma keep_inventory_Inr: "\<exists>w'. keep_inventory env key items w = (Inr (), w')"
  by (auto simp: keep_inventory_def run_simps split: option.splits prod.splits)

definition fetch_answers :: "list_env \<Rightarrow> string \<Rightarrow> string \<Rightarrow> bool" where
  "fetch_answers env i data \<longleftrightarrow>
     (\<forall>v. calm v \<longrightarrow> fst (ListFetch env ''api2.moxfield.com'' (''https://api2.moxfield.com/v3/decks/all/'' @ i) v) = Inr data)"

lemma reloadInventory_calm:
  assumes "fetch_answers env i data" "calm w" "readInventory env c data i = Inr (items, missing)"
  shows "\<exists>w'. reloadInventory env c i w = (Inr items, w')"
proof -
  let ?w = "w\<lparr>calls := Suc (calls w)\<rparr>"
  have "fst (ListFetch env ''api2.moxfield.com'' (''https://api2.moxfield.com/v3/decks/all/'' @ i) ?w) = Inr data"
    using assms(1,2) by (simp add: fetch_answers_def)
  then obtain v where "ListFetch env ''api2.moxfield.com'' (''https://api2.moxfield.com/v3/decks/all/'' @ i) ?w = (Inr data, v)"
    by (metis prod.collapse)
  then have "fetchInventory env c i ?w = (Inr items, v)"
    by (simp add: fetchInventory_def bind_io_def return_io_def assms(3))
  moreover obtain w' where "keep_inventory env (inventoryKey env c i) items v = (Inr (), w')"
    using keep_inventory_Inr by blast
  ultimately show ?thesis by (simp add: reloadInventory_def run_simps await_turn_calm assms(2))
qed

lemma find_distinct_id:
  "distinct (map OfferID items) \<Longrightarrow> o1 \<in> set items \<Longrightarrow> OfferID o1 = k \<Longrightarrow> find (\<lambda>o2. OfferID o2 = k) items = Some o1"
  by (induction items) (auto simp: image_iff)

lemma same_list_id: "same_list c d \<Longrightarrow> ListStoreID c = ListStoreID d"
  by (simp add: same_list_def)

lemma Shelf_CheckStock_reload:
  assumes "fetch_answers env i data" "calm w" "shelf_ok env shelf" "c \<in> set shelf"
    and "ExtractListID (ListConfigEnv env) (ListClientURL c) = Inr i"
    and "readInventory env c data i = Inr (items, missing)"
    and "OfferID item = ''moxfield:'' @ ListStoreID c @ '':'' @ i @ '':'' @ rest"
  shows "\<exists>w'. Shelf_CheckStock env shelf item w =
     (Inr (case find (\<lambda>o1. OfferID o1 = OfferID item) items of
           None \<Rightarrow> CountStock ''unavailable'' 0
         | Some o1 \<Rightarrow> (case Atoi (lookup_string (OfferMetadata o1) ''quantity'') of
             None \<Rightarrow> CountStock ''unavailable'' 0
           | Some units \<Rightarrow> if units \<le> 0 then CountStock ''unavailable'' 0 else CountStock ''available'' units)), w')"
proof -
  from assms(3,4,5,7) obtain d where d: "listOf env shelf item = Some d" "same_list c d"
    "ExtractListID (ListConfigEnv env) (ListClientURL d) = Inr i" by (rule listOf_finds)
  from same_list_reads [OF d(2)] assms(6) have "readInventory env d data i = Inr (items, missing)" by metis
  with assms(1,2) obtain w' where "reloadInventory env d i w = (Inr items, w')"
    using reloadInventory_calm by blast
  then show ?thesis
    by (simp add: Shelf_CheckStock_def Moxfield_CheckStock_def from_list_id_def run_simps d(1,3))
qed


section \<open>Forgetting a list\<close>

lemma drop_lists_Inr:
  assumes "ListCache env = Some repository_inventory" "drop_lists env cs d w = (Inr (n, None), w1)"
  shows "n = d + int (length cs)
    \<and> (\<forall>k. row_of OfferCache k (wdb w) = None \<longrightarrow> row_of OfferCache k (wdb w1) = None)
    \<and> (\<forall>c \<in> set cs. \<forall>i. ExtractListID (ListConfigEnv env) (ListClientURL c) = Inr i \<longrightarrow>
         row_of OfferCache (inventoryKey env c i) (wdb w1) = None)"
  using assms(2)
proof (induction cs arbitrary: d w)
  case (Cons c cs)
  from Cons.prems obtain w2 where drop: "DropInventory env c w = (Inr (), w2)"
    and rest: "drop_lists env cs (d + 1) w2 = (Inr (n, None), w1)"
    by (auto simp: go_io split: sum.splits)
  from drop obtain i where i: "ExtractListID (ListConfigEnv env) (ListClientURL c) = Inr i"
    "DropOffers (inventoryKey env c i) w = (Inr (), w2)"
    by (auto simp: DropInventory_def from_list_id_def repository_inventory_def assms(1) go_io split: sum.splits)
  from i(2) have "wdb w2 = drop_row OfferCache (inventoryKey env c i) (wdb w)"
    by (auto simp: DropOffers_def Delete_def go_io)
  with Cons.IH [OF rest] i(1) show ?case by (auto simp: coll_simps)
qed (simp add: go_io)

lemma LoadOffers_gone:
  "calm v \<Longrightarrow> \<not> tx_open v \<Longrightarrow> row_of OfferCache key (wdb v) = None \<Longrightarrow>
   LoadOffers key v = (Inr ([], False), v\<lparr>calls := Suc (calls v)\<rparr>)"
  by (simp add: LoadOffers_def run_simps calm_Get)

text \<open>A list that was refreshed is read anew: once a refresh answered how many lists it dropped,
  every selected list is gone from the cache, and until something else is saved the next search
  of it is exactly a fetch from Moxfield whose answer is priced, kept and filtered.\<close>
theorem refreshed_list_read_anew:
  assumes cache: "ListCache env = Some repository_inventory"
    and run: "RefreshStoreLists env shelf store label w = (Inr (n, None), w1)"
    and c: "c \<in> set (selectLists env shelf store label)"
      "ExtractListID (ListConfigEnv env) (ListClientURL c) = Inr i"
    and later: "calm v" "\<not> tx_open v" "wdb v = wdb w1"
  shows "n = int (length (selectLists env shelf store label))
    \<and> (\<exists>v'. wdb v' = wdb v \<and> Moxfield_FindOffers env c q v =
         bind_io (fetchInventory env c i) (\<lambda>items.
         bind_io (keep_inventory env (inventoryKey env c i) items) (\<lambda>_.
           return_io (filter (\<lambda>it. AcceptsTitle (ListText env) q (OfferCardName it)) items))) v')"
proof -
  from c(1) run have "drop_lists env (selectLists env shelf store label) 0 w = (Inr (n, None), w1)"
    by (auto simp: RefreshStoreLists_def Let_def go_io split: if_splits)
  note dropped = drop_lists_Inr [OF cache this]
  with c later(3) have gone: "row_of OfferCache (inventoryKey env c i) (wdb v) = None" by simp
  let ?v = "v\<lparr>calls := Suc (Suc (calls v))\<rparr>"
  have "LoadOffers (inventoryKey env c i) (v\<lparr>calls := Suc (calls v)\<rparr>) = (Inr ([], False), ?v)"
    using later(1,2) gone by (intro trans [OF LoadOffers_gone]) simp_all
  then have "loadInventory env c i v = bind_io (fetchInventory env c i) (\<lambda>items.
      bind_io (keep_inventory env (inventoryKey env c i) items) (\<lambda>_. return_io items)) ?v"
    by (simp add: loadInventory_def Let_def cache repository_inventory_def
        bind_io_def [of await_turn] await_turn_calm [OF later(1)] bind_io_def [of "try_io _"] try_io_def)
  then have "Moxfield_FindOffers env c q v =
         bind_io (fetchInventory env c i) (\<lambda>items.
         bind_io (keep_inventory env (inventoryKey env c i) items) (\<lambda>_.
           return_io (filter (\<lambda>it. AcceptsTitle (ListText env) q (OfferCardName it)) items))) ?v"
    by (simp add: Moxfield_FindOffers_def from_list_id_def c(2) run_simps split: prod.split sum.split)
  moreover have "wdb ?v = wdb v" by simp
  moreover have "n = int (length (selectLists env shelf store label))" using dropped by simp
  ultimately show ?thesis by blast
qed

section \<open>A list with two cards\<close>

definition demo_reply_card :: "string \<Rightarrow> string \<Rightarrow> card_reply" where
  "demo_reply_card i name = \<lparr>CardReplyID = i, CardReplyName = name, CardReplySet = ''lea'', CardReplyLanguage = ''en'',
     CardReplyPrices = Some [(''ck'', ''2.5'')]\<rparr>"

definition demo_boards :: "(string \<times> (string \<times> entry_reply) list) list" where
  "demo_boards = [(''main'',
     [(''k1'', EntryReply ''e1'' 3 [] False (demo_reply_card ''c1'' ''Opt'') [] None),
      (''k2'', EntryReply ''e2'' 0 [] False (demo_reply_card ''c2'' ''Shock'') [] None)])]"

definition demo_list_env :: list_env where
  "demo_list_env = \<lparr>ListConfigEnv = demo_config_env, ListText = plain_env,
     ListFetch = (\<lambda>domain target. return_io ''deck''), ListCache = Some repository_inventory, ListTTL = 60,
     ListDecode = (\<lambda>data. if data = ''deck'' then Inr (Some demo_boards) else Inl (Failure ''json'')),
     ListRat = (\<lambda>s. if s = ''2.5'' then Some (5 / 2) else None),
     ListEqualFold = (\<lambda>a b. a = b), ListDigest = (\<lambda>s. s)\<rparr>"

definition demo_list_client :: list_client where
  "demo_list_client = list_client_of ''magic'' ''shop.cl'' demo_store 0 demo_list"

lemmas demo_list_defs = demo_list_env_def demo_list_client_def list_client_of_def demo_list_def demo_store_def
  demo_config_env_def demo_boards_def demo_reply_card_def

lemma demo_list_id: "ExtractListID (ListConfigEnv demo_list_env) (ListClientURL demo_list_client) = Inr ''x5''"
  by code_simp

definition demo_listed :: "offer list" where
  "demo_listed = (case readInventory demo_list_env demo_list_client ''deck'' ''x5'' of Inl _ \<Rightarrow> [] | Inr (items, _) \<Rightarrow> items)"

lemma demo_listed_items: "map (\<lambda>o1. (OfferID o1, OfferPriceAmount o1, OfferStockQuantity o1)) demo_listed
    = [(''moxfield:shop.cl:x5:main:k1:c1:nonfoil'', ''1750'', Some 3)]"
  by code_simp

lemma demo_read: "readInventory demo_list_env demo_list_client ''deck'' ''x5'' = Inr (demo_listed, 0)"
  by code_simp

lemma demo_shelf: "shelf_ok demo_list_env [demo_list_client]"
  by (simp add: shelf_ok_def same_list_def) (simp add: demo_list_defs)

lemma demo_listed_one:
  obtains o1 where "demo_listed = [o1]" "OfferID o1 = ''moxfield:shop.cl:x5:main:k1:c1:nonfoil''" "OfferStockQuantity o1 = Some 3"
  using demo_listed_items by (cases demo_listed) auto


theorem refreshed_list_read_anew_witness:
  "\<exists>w1 v'. RefreshStoreLists demo_list_env [demo_list_client] ''shop.cl'' [] (calm_world empty_db) = (Inr (1, None), w1)
     \<and> wdb v' = wdb w1
     \<and> fst (Moxfield_FindOffers demo_list_env demo_list_client (demo_query\<lparr>QueryName := ''Opt''\<rparr>) (calm_world (wdb w1)))
       = fst (bind_io (fetchInventory demo_list_env demo_list_client ''x5'') (\<lambda>items.
         bind_io (keep_inventory demo_list_env (inventoryKey demo_list_env demo_list_client ''x5'') items) (\<lambda>_.
           return_io (filter (\<lambda>it. AcceptsTitle plain_env (demo_query\<lparr>QueryName := ''Opt''\<rparr>) (OfferCardName it)) items))) v')"
proof -
  let ?w = "calm_world empty_db"
  have "fst (RefreshStoreLists demo_list_env [demo_list_client] ''shop.cl'' [] ?w) = Inr (1, None)" by code_simp
  then obtain w1 where run: "RefreshStoreLists demo_list_env [demo_list_client] ''shop.cl'' [] ?w = (Inr (1, None), w1)"
    by (metis prod.collapse)
  have cache: "ListCache demo_list_env = Some repository_inventory" "ListText demo_list_env = plain_env"
    by (simp_all add: demo_list_env_def)
  have "selectLists demo_list_env [demo_list_client] ''shop.cl'' [] = [demo_list_client]"
    by (simp add: selectLists_def namesStore_def) (simp add: demo_list_defs)
  then have chosen: "demo_list_client \<in> set (selectLists demo_list_env [demo_list_client] ''shop.cl'' [])" by simp
  from refreshed_list_read_anew [OF cache(1) run chosen demo_list_id, of "calm_world (wdb w1)" "demo_query\<lparr>QueryName := ''Opt''\<rparr>"]
  obtain v' where v': "wdb v' = wdb w1"
    "Moxfield_FindOffers demo_list_env demo_list_client (demo_query\<lparr>QueryName := ''Opt''\<rparr>) (calm_world (wdb w1))
       = bind_io (fetchInventory demo_list_env demo_list_client ''x5'') (\<lambda>items.
         bind_io (keep_inventory demo_list_env (inventoryKey demo_list_env demo_list_client ''x5'') items) (\<lambda>_.
           return_io (filter (\<lambda>it. AcceptsTitle plain_env (demo_query\<lparr>QueryName := ''Opt''\<rparr>) (OfferCardName it)) items))) v'"
    by (auto simp: cache(2))
  show ?thesis by (intro exI [of _ w1] exI [of _ v'] conjI run v'(1) arg_cong [of _ _ fst] v'(2))
qed

end
