(* ===== verification/Commerce.thy ===== *)
theory Commerce
  imports Shopify WooCommerce Jumpseller Prestashop Moxfield
begin

text \<open>
  internal/stores/commerce over the platform clients: what an enabled store can do, asked of the
  client its platform has.  A capability a client lacks is \<open>None\<close>, as a failed type assertion.

  One fetcher and one session sender serve every client; \<open>json.Unmarshal\<close> into any value is the test
  whether a text is JSON.
\<close>

record commerce =
  CommerceShops :: shops
  CommerceFetch :: "string \<Rightarrow> string \<Rightarrow> string io"
  CommerceSessions :: "session_port option"
  CommerceLists :: "(offer \<Rightarrow> stock_reading io) option"
  CommerceShopify :: shopify_env
  CommerceWoo :: woo_env
  CommerceJump :: jump_env
  CommerceJson :: "string \<Rightarrow> bool"

definition commerce_text :: "commerce \<Rightarrow> text_env" where
  "commerce_text s = StoreText (CommerceShopify s)"

definition commerce_parse :: "commerce \<Rightarrow> string \<Rightarrow> store_link option" where
  "commerce_parse s = StoreParse (CommerceShopify s)"

section \<open>Capabilities (internal/stores/commerce/shops.go)\<close>

definition shopify_of :: "commerce \<Rightarrow> shopify_env" where
  "shopify_of s = (CommerceShopify s)\<lparr>StoreFetch := CommerceFetch s, StoreSessions := CommerceSessions s\<rparr>"

definition woo_of :: "commerce \<Rightarrow> woo_env" where
  "woo_of s = (CommerceWoo s)\<lparr>StoreFetch := CommerceFetch s, StoreSessions := CommerceSessions s\<rparr>"

definition jump_of :: "commerce \<Rightarrow> jump_env" where
  "jump_of s = (CommerceJump s)\<lparr>StoreFetch := CommerceFetch s\<rparr>"

definition plain_front :: "string \<Rightarrow> string \<Rightarrow> front" where
  "plain_front domain name = \<lparr>FrontDomain = domain, FrontName = name\<rparr>"

definition woo_front_of :: "string \<Rightarrow> string \<Rightarrow> string \<Rightarrow> string \<Rightarrow> woo_front" where
  "woo_front_of domain name buyer email =
     \<lparr>FrontDomain = domain, FrontName = name, FrontBuyerName = buyer, FrontBuyerEmail = email\<rparr>"

fun stock_reader :: "commerce \<Rightarrow> shop_client \<Rightarrow> (offer \<Rightarrow> stock_reading io) option" where
  "stock_reader s (JumpsellerClient d n) = Some (Jumpseller_CheckStock (jump_of s) (plain_front d n))"
| "stock_reader s (ShopifyClient d n) = Some (Shopify_CheckStock (shopify_of s) (plain_front d n))"
| "stock_reader s (WooCommerceClient d n buyer email) = None"
| "stock_reader s (PrestashopClient d n path) = None"

fun quoter :: "commerce \<Rightarrow> shop_client \<Rightarrow> (cart_line list \<Rightarrow> shipping_address \<Rightarrow> cart_quote io) option" where
  "quoter s (ShopifyClient d n) = Some (Shopify_QuoteCart (shopify_of s) (plain_front d n))"
| "quoter s (WooCommerceClient d n buyer email) = Some (Woo_QuoteCart (woo_of s) (woo_front_of d n buyer email))"
| "quoter s (JumpsellerClient d n) = None"
| "quoter s (PrestashopClient d n path) = None"

fun placer :: "commerce \<Rightarrow> shop_client \<Rightarrow> (cart_line list \<Rightarrow> shipping_address \<Rightarrow> order io) option" where
  "placer s (WooCommerceClient d n buyer email) = Some (Woo_PlaceOrder (woo_of s) (woo_front_of d n buyer email))"
| "placer s (ShopifyClient d n) = None"
| "placer s (JumpsellerClient d n) = None"
| "placer s (PrestashopClient d n path) = None"

fun linker :: "commerce \<Rightarrow> shop_client \<Rightarrow> (cart_line list \<Rightarrow> string option) option" where
  "linker s (ShopifyClient d n) = Some (Shopify_CartLink (shopify_of s) (plain_front d n))"
| "linker s (WooCommerceClient d n buyer email) = Some (Woo_CartLink (woo_front_of d n buyer email))"
| "linker s (JumpsellerClient d n) = None"
| "linker s (PrestashopClient d n path) = None"

text \<open>A nil client has no capability.\<close>

definition capability :: "(shop_client \<Rightarrow> 'a option) \<Rightarrow> shop \<Rightarrow> 'a option" where
  "capability of_client shop = Option.bind (ShopClient shop) of_client"

section \<open>Checkout links (internal/stores/commerce/checkout.go)\<close>

definition Shops_CheckoutLink :: "commerce \<Rightarrow> string \<Rightarrow> cart_line list \<Rightarrow> string option" where
  "Shops_CheckoutLink s domain lines =
     (case Shops_Shop (CommerceShops s) domain of
        None \<Rightarrow> None
      | Some shop \<Rightarrow>
          if lines = [] then None
          else (case capability (linker s) shop of None \<Rightarrow> None | Some link \<Rightarrow> link lines))"

section \<open>Addresses (internal/stores/commerce/regions.go)\<close>

definition chileRegions :: "(string \<times> string) list" where
  "chileRegions =
     [(''arica y parinacota'', ''AP''), (''tarapaca'', ''TA''), (''antofagasta'', ''AN''),
      (''atacama'', ''AT''), (''coquimbo'', ''CO''), (''valparaiso'', ''VS''),
      (''region metropolitana'', ''RM''), (''metropolitana'', ''RM''), (''santiago'', ''RM''),
      (''libertador general bernardo o'' @ [CHR 0x27] @ ''higgins'', ''LI''), (''o'' @ [CHR 0x27] @ ''higgins'', ''LI''),
      (''ohiggins'', ''LI''), (''maule'', ''ML''), (''nuble'', ''NB''), (''biobio'', ''BI''),
      (''araucania'', ''AR''), (''la araucania'', ''AR''), (''los rios'', ''LR''), (''los lagos'', ''LL''),
      (''aysen'', ''AI''), (''magallanes'', ''MA''), (''magallanes y la antartica chilena'', ''MA'')]"

definition chileCountry :: "string list" where "chileCountry = [''cl'', ''chile'']"

definition plain_region :: "text_env \<Rightarrow> string \<Rightarrow> string" where
  "plain_region env region = TrimPrefix (TrimPrefix (NormalizeCard env region) ''region del '') ''region de ''"

definition resolveAddress :: "text_env \<Rightarrow> shipping_address \<Rightarrow> shipping_address" where
  "resolveAddress env address =
     (if NormalizeCard env (AddressCountry address) \<notin> set chileCountry then address
      else let address = address\<lparr>AddressCountry := ''CL''\<rparr>; region = plain_region env (AddressRegion address)
           in case map_of chileRegions region of
                Some code \<Rightarrow> address\<lparr>AddressRegion := code\<rparr>
              | None \<Rightarrow> let code = ToUpper env (TrimPrefix region ''cl-'')
                        in if length code = 2 then address\<lparr>AddressRegion := code\<rparr> else address)"

definition prepareAddress :: "text_env \<Rightarrow> string \<Rightarrow> shipping_address \<Rightarrow> shipping_address" where
  "prepareAddress env platform address =
     (let address = resolveAddress env address
      in if platform = ''woocommerce'' \<and> AddressCountry address = ''CL'' \<and> length (AddressRegion address) = 2
         then address\<lparr>AddressRegion := ''CL-'' @ AddressRegion address\<rparr> else address)"

section \<open>Quotes and orders (internal/stores/commerce/quote.go, order.go)\<close>

definition Shops_QuoteCart :: "commerce \<Rightarrow> string \<Rightarrow> cart_line list \<Rightarrow> shipping_address \<Rightarrow> cart_quote io" where
  "Shops_QuoteCart s domain lines address =
     (case Shops_Shop (CommerceShops s) domain of
        None \<Rightarrow> fail_io ErrNoQuote
      | Some shop \<Rightarrow>
          if CommerceSessions s = None then fail_io ErrNoQuote
          else (case capability (quoter s) shop of
            None \<Rightarrow> fail_io ErrNoQuote
          | Some quote \<Rightarrow> quote lines (prepareAddress (commerce_text s) (StorePlatform (ShopConfig shop)) address)))"

definition Shops_PlaceOrder :: "commerce \<Rightarrow> string \<Rightarrow> cart_line list \<Rightarrow> shipping_address \<Rightarrow> order io" where
  "Shops_PlaceOrder s domain lines address =
     (case Shops_Shop (CommerceShops s) domain of
        None \<Rightarrow> fail_io ErrOrderNotSupported
      | Some shop \<Rightarrow>
          if CommerceSessions s = None then fail_io ErrOrderNotSupported
          else (case capability (placer s) shop of
            None \<Rightarrow> fail_io ErrOrderNotSupported
          | Some place \<Rightarrow> place lines (prepareAddress (commerce_text s) (StorePlatform (ShopConfig shop)) address)))"

section \<open>Stock (internal/stores/commerce/stock.go)\<close>

definition containsTerms :: "text_env \<Rightarrow> string \<Rightarrow> string list \<Rightarrow> bool" where
  "containsTerms env page terms \<longleftrightarrow> list_all (\<lambda>t. Contains page (ToLower env t)) terms \<and> 0 < length terms"

text \<open>\<open>strings.LastIndex\<close> for one byte.\<close>

definition last_index :: "string \<Rightarrow> char \<Rightarrow> nat option" where
  "last_index s c = map_option (\<lambda>n. length s - 1 - n) (Index (rev s) [c])"

definition inspectJSONLD :: "commerce \<Rightarrow> string \<Rightarrow> bool" where
  "inspectJSONLD s page =
     (case (Index page ''{'', last_index page CHR ''}'') of
        (Some start, Some stop) \<Rightarrow>
          let part = take (stop + 1 - start) (drop start page)
          in start < stop \<and> CommerceJson s part \<and> Contains (ToLower (commerce_text s) part) ''instock''
      | _ \<Rightarrow> False)"

definition selector_terms :: "string \<Rightarrow> string list" where
  "selector_terms selector = Fields (TrimPrefix (map (\<lambda>c. if c = CHR ''.'' then CHR '' '' else c) selector) ''#'')"

definition inspectStock :: "commerce \<Rightarrow> string \<Rightarrow> store_config \<Rightarrow> string" where
  "inspectStock s data config =
     (let env = commerce_text s; page = ToLower env data
      in if list_ex (\<lambda>v. Contains page (ToLower env v)) (StoreUnavailableText config) then ''unavailable''
         else if list_ex (\<lambda>x. containsTerms env page (selector_terms x)) (StoreUnavailableSelectors config) then ''unavailable''
         else if Contains page ''outofstock'' \<or> Contains page ''out-of-stock'' then ''unavailable''
         else if inspectJSONLD s data then ''available'' else ''unknown'')"

definition page_reading :: "commerce \<Rightarrow> string \<Rightarrow> store_config \<Rightarrow> stock_reading" where
  "page_reading s data config =
     (let status = inspectStock s data config
      in case CountDeclaredUnits data of
           None \<Rightarrow> ReadStock status
         | Some units \<Rightarrow>
             if units = 0 \<or> status = ''unavailable'' then CountStock ''unavailable'' 0
             else CountStock ''available'' units)"

definition read_page_stock :: "commerce \<Rightarrow> string \<Rightarrow> shop \<Rightarrow> offer \<Rightarrow> stock_reading io" where
  "read_page_stock s host shop item =
     bind_io (CommerceFetch s host (OfferURL item)) (\<lambda>data. return_io (page_reading s data (ShopConfig shop)))"

definition store_stock :: "commerce \<Rightarrow> offer \<Rightarrow> stock_reading io" where
  "store_stock s item =
     (case commerce_parse s (OfferURL item) of
        None \<Rightarrow> fail_io (Failure (OfferURL item))
      | Some link \<Rightarrow>
          (case Shops_Shop (CommerceShops s) (UrlHost link) of
             None \<Rightarrow> return_io (ReadStock ''unknown'')
           | Some shop \<Rightarrow>
               (case capability (stock_reader s) shop of
                  Some check \<Rightarrow> check item
                | None \<Rightarrow> read_page_stock s (UrlHost link) shop item)))"

definition Shops_CheckStock :: "commerce \<Rightarrow> offer \<Rightarrow> stock_reading io" where
  "Shops_CheckStock s item =
     (case CommerceLists s of
        Some check \<Rightarrow> if OfferSource item = ''moxfield'' then check item else store_stock s item
      | None \<Rightarrow> store_stock s item)"

section \<open>A store that is not open\<close>


section \<open>A buyer nobody configured\<close>

lemma openClient_woo:
  "openClient s domain c = Some (WooCommerceClient d n buyer email) \<Longrightarrow> buyer = ShopsBuyerName s \<and> email = ShopsBuyerEmail s"
  by (auto simp: openClient_def split: if_splits)

text \<open>C11 No money moves on a mailbox nobody reads: while the deployment names no buyer email, or names
  the placeholder itself, placing an order fails at every store, whatever its platform, the lines
  and the address, and no call is made.\<close>
theorem unset_buyer_places_nothing:
  assumes "ShopsBuyerEmail (CommerceShops s) \<in> {[], muchiFallbackEmail}"
  shows "\<exists>e. Shops_PlaceOrder s domain lines address w = (Inl e, w)"
proof (cases "Shops_Shop (CommerceShops s) domain")
  case None
  then show ?thesis by (simp add: Shops_PlaceOrder_def fail_io_def)
next
  case (Some shop)
  show ?thesis
  proof (cases "capability (placer s) shop")
    case None
    with Some show ?thesis by (simp add: Shops_PlaceOrder_def fail_io_def)
  next
    case (Some place)
    then obtain d n buyer email where client: "ShopClient shop = Some (WooCommerceClient d n buyer email)"
      and place: "place = Woo_PlaceOrder (woo_of s) (woo_front_of d n buyer email)"
      by (cases "ShopClient shop"; cases "the (ShopClient shop)") (auto simp: capability_def)
    from \<open>Shops_Shop _ _ = Some shop\<close> client have "email \<in> {[], muchiFallbackEmail}"
      using assms openClient_woo by (fastforce simp: Shops_Shop_def split: option.splits if_splits)
    then have "place lines a w = (Inl ErrVirtualBuyerNotConfigured, w)" for a
      by (auto simp: place Woo_PlaceOrder_def woo_buyer_def woo_front_of_def fail_io_def)
    with Some \<open>Shops_Shop _ _ = Some shop\<close> show ?thesis by (auto simp: Shops_PlaceOrder_def fail_io_def)
  qed
qed

section \<open>Region codes\<close>

lemma solid_graphic:
  assumes "s \<noteq> []" "list_all (\<lambda>c. 33 \<le> byte c \<and> byte c < 127) s"
  shows "solid s"
  unfolding solid_def
proof (intro conjI allI impI assms(1))
  fix t assume t: "suffix t s" "t \<noteq> []"
  then obtain c r where c: "t = c # r" by (cases t) auto
  with t assms(2) have byte: "33 \<le> byte c" "byte c < 127" by (auto simp: suffix_def)
  have "\<forall>p \<in> set space_codes. \<exists>b q. p = b # q \<and> (byte b < 33 \<or> 127 \<le> byte b)"
    by (simp add: space_codes_def byte_def)
  with byte c have "\<forall>p \<in> set space_codes. \<not> prefix p t" by fastforce
  then show "space_len t = 0" by (simp add: space_len_0)
qed

lemma NormalizeCard_graphic:
  assumes "keeps_ascii env" "s \<noteq> []" "list_all (\<lambda>c. 33 \<le> byte c \<and> byte c < 127) s"
  shows "NormalizeCard env s = map lower_byte s"
proof -
  have ascii: "is_ascii s" using assms(3) by (auto simp: is_ascii_def list_all_iff)
  have "list_all (\<lambda>c. 33 \<le> byte c \<and> byte c < 127) (map lower_byte s)"
    using assms(3) by (auto simp: list_all_iff lower_byte_def)
  then have "solid (map lower_byte s)" using assms(2) by (intro solid_graphic) simp_all
  then have "Fields (Join [map lower_byte s] '' '') = [map lower_byte s]" by (intro Fields_Join_solid) simp
  then show ?thesis by (simp add: NormalizeCard_ascii [OF assms(1) ascii])
qed

text \<open>Two capitals.\<close>

definition region_code :: "string \<Rightarrow> bool" where
  "region_code code \<longleftrightarrow> length code = 2 \<and> list_all (\<lambda>c. 65 \<le> byte c \<and> byte c \<le> 90) code"

lemma chile_codes: "map_of chileRegions region = Some code \<Longrightarrow> region_code code"
proof -
  have "\<forall>code \<in> set (map snd chileRegions). region_code code"
    by (simp add: chileRegions_def region_code_def byte_def)
  then show "map_of chileRegions region = Some code \<Longrightarrow> region_code code" by (force dest: map_of_SomeD)
qed

lemma chile_names: "(name, code) \<in> set chileRegions \<Longrightarrow> length name \<noteq> 2 \<and> \<not> prefix ''cl-'' name"
proof -
  have "\<forall>name \<in> set (map fst chileRegions). length name \<noteq> 2 \<and> \<not> prefix ''cl-'' name" by (simp add: chileRegions_def)
  then show "(name, code) \<in> set chileRegions \<Longrightarrow> length name \<noteq> 2 \<and> \<not> prefix ''cl-'' name" by force
qed

lemma chile_unnamed: "length r = 2 \<or> prefix ''cl-'' r \<Longrightarrow> map_of chileRegions r = None"
  by (cases "map_of chileRegions r") (auto dest!: map_of_SomeD dest: chile_names)

text \<open>How a platform writes a code.\<close>

definition platform_code :: "string \<Rightarrow> string \<Rightarrow> string" where
  "platform_code platform code = (if platform = ''woocommerce'' then ''CL-'' @ code else code)"

lemma upper_lower_code: "region_code code \<Longrightarrow> map upper_byte (map lower_byte code) = code"
  by (auto simp: region_code_def upper_byte_def lower_byte_def list_all_iff byte_def intro!: map_idI)

lemma plain_region_code:
  assumes "keeps_ascii env" "region_code code"
  shows "plain_region env (platform_code platform code) = map lower_byte (platform_code platform code)"
proof -
  have "list_all (\<lambda>c. 33 \<le> byte c \<and> byte c < 127) (platform_code platform code)" "platform_code platform code \<noteq> []"
    using assms(2) by (auto simp: platform_code_def region_code_def list_all_iff byte_def)
  then have n: "NormalizeCard env (platform_code platform code) = map lower_byte (platform_code platform code)"
    using assms(1) by (intro NormalizeCard_graphic)
  have "length (map lower_byte (platform_code platform code)) < 6" using assms(2) by (simp add: platform_code_def region_code_def)
  then have "\<not> prefix p (map lower_byte (platform_code platform code))" if "6 \<le> length p" for p
    using that by (auto dest: prefix_length_le)
  then show ?thesis by (simp add: plain_region_def n TrimPrefix_def)
qed

lemma resolve_code:
  assumes "keeps_ascii env" "region_code code" "NormalizeCard env (AddressCountry a) \<in> set chileCountry"
    and region: "AddressRegion a = platform_code platform code"
  shows "resolveAddress env a = a\<lparr>AddressCountry := ''CL'', AddressRegion := code\<rparr>"
proof -
  let ?r = "map lower_byte (platform_code platform code)"
  have lower: "lower_byte CHR ''C'' = CHR ''c''" "lower_byte CHR ''L'' = CHR ''l''" "lower_byte CHR ''-'' = CHR ''-''"
    by code_simp+
  have "map_of chileRegions ?r = None"
    using assms(2) by (intro chile_unnamed) (auto simp: platform_code_def region_code_def lower)
  moreover have "TrimPrefix ?r ''cl-'' = map lower_byte code"
    using assms(2) by (auto simp: platform_code_def region_code_def TrimPrefix_def lower dest!: prefix_length_le)
  moreover have "is_ascii (map lower_byte code)"
    using assms(2) by (intro is_ascii_map_lower) (auto simp: region_code_def is_ascii_def list_all_iff)
  then have "ToUpper env (map lower_byte code) = code"
    using upper_lower_code [OF assms(2)] by (simp add: ToUpper_def map_runes_def)
  ultimately show ?thesis
    using assms(2,3) plain_region_code [OF assms(1,2), of platform]
    by (simp add: resolveAddress_def region Let_def region_code_def)
qed

text \<open>Quoting and placing write one address: a region of Chile that the table knows, in any spelling
  that levels to one of its names, becomes the country CL and the code of the region as the
  platform writes it; preparing what was already prepared, for the same platform or another, gives
  that platform's code again and changes nothing else.\<close>
theorem known_region_coded_once:
  assumes env: "keeps_ascii env" and country: "NormalizeCard env (AddressCountry a) \<in> set chileCountry"
    and region: "map_of chileRegions (plain_region env (AddressRegion a)) = Some code"
  shows "prepareAddress env platform a = a\<lparr>AddressCountry := ''CL'', AddressRegion := platform_code platform code\<rparr>
    \<and> prepareAddress env other (prepareAddress env platform a)
      = a\<lparr>AddressCountry := ''CL'', AddressRegion := platform_code other code\<rparr>"
proof -
  have code: "region_code code" using region by (rule chile_codes)
  have first: "prepareAddress env platform a = a\<lparr>AddressCountry := ''CL'', AddressRegion := platform_code platform code\<rparr>"
    using code country region
    by (simp add: prepareAddress_def resolveAddress_def Let_def platform_code_def region_code_def plain_region_def)
  let ?p = "a\<lparr>AddressCountry := ''CL'', AddressRegion := platform_code platform code\<rparr>"
  have "NormalizeCard env ''CL'' = map lower_byte ''CL''" by (rule NormalizeCard_graphic [OF env]) (simp_all add: byte_def)
  moreover have "map lower_byte ''CL'' = ''cl''" by code_simp
  ultimately have "NormalizeCard env (AddressCountry ?p) \<in> set chileCountry" by (simp add: chileCountry_def)
  then have "resolveAddress env ?p = a\<lparr>AddressCountry := ''CL'', AddressRegion := code\<rparr>"
    using resolve_code [OF env code, of ?p platform] by simp
  then have "prepareAddress env other ?p = a\<lparr>AddressCountry := ''CL'', AddressRegion := platform_code other code\<rparr>"
    using code by (simp add: prepareAddress_def Let_def platform_code_def region_code_def)
  with first show ?thesis by simp
qed

section \<open>Stock of a page\<close>

lemma find_SomeD: "find P xs = Some x \<Longrightarrow> x \<in> set xs \<and> P x"
  by (auto simp: find_Some_iff)

lemma take_from_run: "k \<le> length (takeWhile P xs) \<Longrightarrow> take k (takeWhile P xs) = take k xs"
  by (induction xs arbitrary: k) (auto simp: take_Cons split: nat.splits if_splits)

lemma find_units_digits: "find_units s = Some d \<Longrightarrow> list_all is_digit d \<and> d \<noteq> []"
proof (induction s)
  case (Cons c s)
  show ?case
  proof (cases "match_units (c # s)")
    case None
    with Cons show ?thesis by simp
  next
    case (Some e)
    then obtain k where found: "find (\<lambda>k. k \<le> length (takeWhile is_digit (c # s)) \<and> units_after (drop k (c # s))) [4, 3, 2, 1 :: nat] = Some k"
      and e: "e = take k (c # s)"
      unfolding match_units_def Let_def map_option_eq_Some by blast
    then have k: "k \<in> set [4, 3, 2, 1 :: nat]" "k \<le> length (takeWhile is_digit (c # s))" "e = take k (c # s)"
      using find_SomeD [OF found] e by blast+
    have "e = take k (takeWhile is_digit (c # s))" using k(2,3) take_from_run by metis
    then have "list_all is_digit e" by (auto simp: list_all_iff dest!: in_set_takeD set_takeWhileD)
    moreover have "e \<noteq> []" using k(1,3) by auto
    moreover have "e = d" using Cons.prems Some by simp
    ultimately show ?thesis by blast
  qed
qed simp

lemma declared_units_nonneg: "CountDeclaredUnits data = Some n \<Longrightarrow> 0 \<le> n"
proof -
  assume n: "CountDeclaredUnits data = Some n"
  then obtain d where d: "find_units data = Some d" "Atoi d = Some n"
    by (auto simp: CountDeclaredUnits_def split: option.splits)
  from find_units_digits [OF d(1)] d(2) have "n = digits_value d" by (auto simp: Atoi_digits split: if_splits)
  then show "0 \<le> n" using find_units_digits [OF d(1)] digits_value_bounds by blast
qed

text \<open>The reading of a page never contradicts itself: a page that counts its units answers that
  it is available with a positive number or unavailable with zero, and never that it does not
  know; a page that counts none carries no number, and it is the only one that may be unknown.\<close>
theorem page_reading_consistent:
  assumes "page_reading s data config = reading"
  shows "(ReadingQuantity reading = None \<longleftrightarrow> CountDeclaredUnits data = None)
    \<and> (\<forall>n. ReadingQuantity reading = Some n \<longrightarrow>
         (ReadingStatus reading = ''available'' \<and> 0 < n \<or> ReadingStatus reading = ''unavailable'' \<and> n = 0))
    \<and> ReadingStatus reading \<in> {''available'', ''unavailable'', ''unknown''}"
proof -
  have status: "inspectStock s data config \<in> {''available'', ''unavailable'', ''unknown''}"
    by (simp add: inspectStock_def Let_def)
  show ?thesis
  proof (cases "CountDeclaredUnits data")
    case None
    with assms status show ?thesis by (auto simp: page_reading_def Let_def ReadStock_def)
  next
    case (Some n)
    with declared_units_nonneg [OF Some] assms show ?thesis
      by (auto simp: page_reading_def Let_def CountStock_def split: if_splits)
  qed
qed

section \<open>A deployment with two stores\<close>

definition demo_commerce :: commerce where
  "demo_commerce = \<lparr>CommerceShops = demo_shops, CommerceFetch = (\<lambda>_ _. return_io ''page''), CommerceSessions = StoreSessions demo_woo,
     CommerceLists = None, CommerceShopify = demo_shopify\<lparr>StoreParse := (\<lambda>_. Some (demo_link\<lparr>UrlHost := ''otra.cl''\<rparr>))\<rparr>,
     CommerceWoo = demo_woo, CommerceJump = demo_jump, CommerceJson = (\<lambda>_. True)\<rparr>"


theorem unset_buyer_places_nothing_witness:
  "\<exists>e. Shops_PlaceOrder demo_commerce ''shop.cl'' [demo_woo_line] demo_address (calm_world empty_db) = (Inl e, calm_world empty_db)"
  by (rule unset_buyer_places_nothing) (simp add: demo_commerce_def demo_shops_def)

theorem known_region_coded_once_witness:
  "prepareAddress plain_env ''woocommerce'' (demo_address\<lparr>AddressRegion := ''maule''\<rparr>)
     = demo_address\<lparr>AddressCountry := ''CL'', AddressRegion := ''CL-ML''\<rparr>"
proof -
  have env: "keeps_ascii plain_env" by (simp add: keeps_ascii_def plain_env_def)
  have lower: "map lower_byte ''CL'' = ''cl''" "map lower_byte ''maule'' = ''maule''" by code_simp+
  have "NormalizeCard plain_env ''CL'' = map lower_byte ''CL''" "NormalizeCard plain_env ''maule'' = map lower_byte ''maule''"
    by (rule NormalizeCard_graphic [OF env]; simp add: byte_def)+
  note n = this [unfolded lower]
  let ?a = "demo_address\<lparr>AddressRegion := ''maule''\<rparr>"
  have "NormalizeCard plain_env (AddressCountry ?a) \<in> set chileCountry" by (simp add: demo_address_def n chileCountry_def)
  moreover have "map_of chileRegions (plain_region plain_env (AddressRegion ?a)) = Some ''ML''"
    by (simp add: plain_region_def n TrimPrefix_def chileRegions_def)
  ultimately show ?thesis
    using known_region_coded_once [OF env, of ?a "''ML''" "''woocommerce''"] by (simp add: platform_code_def)
qed

theorem page_reading_consistent_witness:
  "ReadingQuantity (page_reading demo_commerce ''quedan 3 unidades'' demo_store) = Some 3
     \<and> ReadingStatus (page_reading demo_commerce ''quedan 3 unidades'' demo_store) \<in> {''available'', ''unavailable'', ''unknown''}"
proof -
  have "ReadingQuantity (page_reading demo_commerce ''quedan 3 unidades'' demo_store) = Some 3" by code_simp
  with page_reading_consistent [OF refl, of demo_commerce "''quedan 3 unidades''" demo_store] show ?thesis by blast
qed

end
