(* ===== verification/Tcgmatch.thy ===== *)
theory Tcgmatch
  imports Storefront CardCatalog
begin

text \<open>
  internal/aggregators/tcgmatch: the marketplace that lists single sellers.  It answers offers,
  suggestions and metadata from one catalogue, the sets of a game, and, for Pokemon, which cards
  play the same whatever their printing.

  The fetcher, the JSON decoders, SHA-256 in hexadecimal and \<open>strings.EqualFold\<close> are arguments.  A
  decoded JSON value is the text \<open>json.Marshal\<close> writes for it.  The goroutines of
  \<open>readPokemonCards\<close> write one slot each; the model runs them in order, which is one of their
  schedules.  A panic is a failure that nothing catches.
\<close>

section \<open>Replies (internal/aggregators/tcgmatch/wire.go)\<close>

record catalog_product =
  ProdID :: int
  ProdName :: string
  ProdTCG :: string
  ProdType :: string
  ProdImage :: string
  ProdSetID :: string
  ProdSetCode :: string
  ProdSetName :: string
  ProdCardCode :: string
  ProdLanguages :: "string list"
  ProdFunction :: string

record match_listing =
  ListingID :: string
  ListingName :: string
  ListingTCG :: string
  ListingLanguage :: string
  ListingStatus :: string
  ListingQuantity :: int
  ListingPrice :: int
  ListingIsActive :: bool
  ListingIsHolo :: bool
  ListingIsHoloReverse :: bool
  ListingUserName :: string
  ListingUsername :: string

record listings_reply =
  ListingsSuccess :: bool
  ListingsData :: "match_listing list"

record pokemon_brief =
  BriefID :: string
  BriefLocalID :: string

record pokemon_card =
  PokemonID :: string
  PokemonLocalID :: string
  PokemonSetName :: string
  PokemonFields :: "(string \<times> string) list"

definition zero_pokemon :: pokemon_card where
  "zero_pokemon = \<lparr>PokemonID = [], PokemonLocalID = [], PokemonSetName = [], PokemonFields = []\<rparr>"

text \<open>One set of \<open>setsReply\<close>: its name and its game.\<close>

record set_reply =
  SetReplyName :: string
  SetReplyTCG :: string

record match_env =
  MatchText :: text_env
  MatchParse :: "string \<Rightarrow> parsed_url option"
  MatchFetch :: "string \<Rightarrow> string \<Rightarrow> string io"
  MatchProducts :: "string \<Rightarrow> failure + catalog_product list"
  MatchListings :: "string \<Rightarrow> failure + listings_reply"
  MatchBriefs :: "string \<Rightarrow> failure + pokemon_brief list"
  MatchPokemon :: "string \<Rightarrow> failure + pokemon_card"
  MatchSets :: "string \<Rightarrow> failure + set_reply list"
  MatchDigest :: "string \<Rightarrow> string"
  MatchEqualFold :: "string \<Rightarrow> string \<Rightarrow> bool"

section \<open>Texts\<close>

text \<open>\<open>strings.TrimRight(s, "/")\<close>, \<open>strings.Cut\<close>, \<open>strings.ReplaceAll\<close>.\<close>

definition trim_slashes :: "string \<Rightarrow> string" where
  "trim_slashes s = rev (dropWhile (\<lambda>c. c = CHR ''/'') (rev s))"

definition Cut :: "string \<Rightarrow> string \<Rightarrow> (string \<times> string) option" where
  "Cut s sep = map_option (\<lambda>n. (take n s, drop (n + length sep) s)) (Index s sep)"

text \<open>The text that is replaced is not empty.\<close>

fun replace_from :: "nat \<Rightarrow> string \<Rightarrow> string \<Rightarrow> string \<Rightarrow> string" where
  "replace_from skip old new [] = []"
| "replace_from (Suc skip) old new (c # s) = replace_from skip old new s"
| "replace_from 0 old new (c # s) =
     (if prefix old (c # s) then new @ replace_from (length old - 1) old new s
      else c # replace_from 0 old new s)"

definition ReplaceAll :: "string \<Rightarrow> string \<Rightarrow> string \<Rightarrow> string" where
  "ReplaceAll s old new = replace_from 0 old new s"

text \<open>\<open>url.PathEscape\<close> leaves what may stand in one segment of a path.\<close>

definition PathEscape :: "string \<Rightarrow> string" where
  "PathEscape s = concat (map (\<lambda>c.
     if isWordByte c \<or> c \<in> set ''-_.~$&+:=@'' then [c]
     else [CHR ''%'', hex_upper (byte c div 16), hex_upper (byte c mod 16)]) s)"

section \<open>The client (internal/aggregators/tcgmatch/client.go)\<close>

definition match_base :: "match_env \<Rightarrow> tcgmatch_client \<Rightarrow> parsed_url option" where
  "match_base env c =
     (case MatchParse env (TCGMatchURL c) of
        None \<Rightarrow> None
      | Some base \<Rightarrow> if UrlHost base = [] \<or> (UrlScheme base \<noteq> ''https'' \<and> UrlScheme base \<noteq> ''http'') then None else Some base)"

definition validBase :: "match_env \<Rightarrow> tcgmatch_client \<Rightarrow> string \<Rightarrow> failure + parsed_url" where
  "validBase env c s =
     (case match_base env c of
        None \<Rightarrow> Inl (Failure ''invalid TCGMatch URL'')
      | Some base \<Rightarrow> if TrimSpace s = [] \<or> TCGMatchGame c = [] then Inl (Failure ''invalid TCGMatch search'') else Inr base)"

definition Tcgmatch_SourceName :: "match_env \<Rightarrow> tcgmatch_client \<Rightarrow> string" where
  "Tcgmatch_SourceName env c =
     (case MatchParse env (TCGMatchURL c) of
        None \<Rightarrow> TCGMatchURL c
      | Some base \<Rightarrow> if UrlHost base \<noteq> [] then UrlHost base else TCGMatchURL c)"

section \<open>The catalogue (internal/aggregators/tcgmatch/catalog.go)\<close>

definition catalogLimit :: int where "catalogLimit = 24"

definition searchCatalog ::
  "match_env \<Rightarrow> tcgmatch_client \<Rightarrow> parsed_url \<Rightarrow> string \<Rightarrow> string \<Rightarrow> catalog_product list io" where
  "searchCatalog env c base name productType =
     (let query = [(''inStock'', ''true''), (''limit'', Itoa catalogLimit), (''page'', ''1''), (''q'', name),
                   (''sortBy'', ''listings''), (''tcg'', TCGMatchGame c), (''type'', productType)];
          target = trim_slashes (TCGMatchURL c) @ ''/catalog/search?'' @ Encode query
      in bind_io (MatchFetch env (UrlHost base) target) (\<lambda>data. decoded_io (MatchProducts env data)))"

definition matches_product :: "match_env \<Rightarrow> tcgmatch_client \<Rightarrow> catalog_product \<Rightarrow> string \<Rightarrow> bool" where
  "matches_product env c p language \<longleftrightarrow>
     (if ProdTCG p \<noteq> TCGMatchGame c \<or> ProdType p \<noteq> ''card'' then False
      else if language = [] then True
      else list_ex (\<lambda>available. MatchEqualFold env available language) (ProdLanguages p))"

definition catalogType :: "product_kind \<Rightarrow> string" where
  "catalogType kind = (if kind = KindSealed then ''sealed'' else ''card'')"

section \<open>Suggestions and metadata (autocomplete.go, metadata.go)\<close>

definition Tcgmatch_autocompleteLimit :: nat where "Tcgmatch_autocompleteLimit = 3"

text \<open>\<open>seen\<close> holds the names taken so far; the loop ends at the limit.\<close>

fun take_names :: "match_env \<Rightarrow> tcgmatch_client \<Rightarrow> string \<Rightarrow> catalog_product list \<Rightarrow> string list \<Rightarrow> string list" where
  "take_names env c language [] names = names"
| "take_names env c language (p # products) names =
     (if \<not> matches_product env c p language \<or> ProdName p \<in> set names then take_names env c language products names
      else let names = names @ [ProdName p]
           in if length names = Tcgmatch_autocompleteLimit then names else take_names env c language products names)"

definition Tcgmatch_Autocomplete :: "match_env \<Rightarrow> tcgmatch_client \<Rightarrow> string \<Rightarrow> string \<Rightarrow> string list io" where
  "Tcgmatch_Autocomplete env c s language =
     bind_io (decoded_io (validBase env c s)) (\<lambda>base.
     bind_io (searchCatalog env c base s ''card'') (\<lambda>products.
       return_io (take_names env c language products [])))"

definition metadata_fits :: "match_env \<Rightarrow> tcgmatch_client \<Rightarrow> metadata_request \<Rightarrow> catalog_product \<Rightarrow> bool" where
  "metadata_fits env c r p \<longleftrightarrow>
     matches_product env c p (MetaReqLanguage r)
     \<and> (MetaReqEdition r = [] \<or> MatchEqualFold env (MetaReqEdition r) (ProdSetCode p)
        \<or> MatchEqualFold env (MetaReqEdition r) (ProdSetID p))"

definition Tcgmatch_CardMetadata :: "match_env \<Rightarrow> tcgmatch_client \<Rightarrow> metadata_request \<Rightarrow> metadata io" where
  "Tcgmatch_CardMetadata env c r =
     bind_io (decoded_io (validBase env c (MetaReqName r))) (\<lambda>base.
     bind_io (searchCatalog env c base (MetaReqName r) ''card'') (\<lambda>products.
       return_io (case find (metadata_fits env c r) products of
           None \<Rightarrow> zero_metadata
         | Some p \<Rightarrow> zero_metadata\<lparr>MetaName := ProdName p,
             MetaEdition := (if ProdSetCode p = [] then ProdSetID p else ProdSetCode p),
             MetaImage := ProdImage p\<rparr>)))"

section \<open>What a Pokemon card does (internal/aggregators/tcgmatch/pokemon.go)\<close>

definition pokemonFunctionVersion :: string where "pokemonFunctionVersion = ''pokemon-function-v1:''"

text \<open>\<open>parsed, _ := url.Parse(value); return parsed.Host\<close> dereferences nil for what is no address.\<close>

definition Tcgmatch_readHost :: "match_env \<Rightarrow> string \<Rightarrow> string io" where
  "Tcgmatch_readHost env v =
     (case MatchParse env v of None \<Rightarrow> fail_io (Failure ''panic: nil pointer'') | Some l \<Rightarrow> return_io (UrlHost l))"

definition ReadCardName :: "string \<Rightarrow> string" where
  "ReadCardName v = TrimSpace (case Cut v '' - '' of None \<Rightarrow> v | Some (name, _) \<Rightarrow> name)"

definition readLocalID :: "match_env \<Rightarrow> string \<Rightarrow> string" where
  "readLocalID env v =
     (let number = TrimLeft (TrimSpace (fst (SplitTwo v CHR ''/''))) ''0''
      in if number = [] then ''0'' else ToLower (MatchText env) number)"

definition cut_short_prefix :: "string \<Rightarrow> string \<Rightarrow> string" where
  "cut_short_prefix v sep =
     (case Cut v sep of Some (short, rest) \<Rightarrow> if length short \<le> 4 then rest else v | None \<Rightarrow> v)"

definition accented_pokemon :: string where
  "accented_pokemon = ''pok'' @ [CHR 0xC3, CHR 0xA9] @ ''mon''"

definition normalizePokemonValue :: "match_env \<Rightarrow> string \<Rightarrow> string" where
  "normalizePokemonValue env v =
     (let v = ToLower (MatchText env) (TrimSpace v);
          v = ReplaceAll v accented_pokemon ''pokemon'';
          v = cut_short_prefix v '':'';
          v = cut_short_prefix v '' - '';
          v = TrimSuffix (TrimSpace v) '' base set'';
          v = TrimPrefix v ''scarlet & violet ''
      in Join (Fields v) '' '')"

definition pokemonPrintKey :: "match_env \<Rightarrow> string \<Rightarrow> string \<Rightarrow> string" where
  "pokemonPrintKey env sets number = normalizePokemonValue env sets @ ''|'' @ readLocalID env number"

definition functionalFields :: "string list" where
  "functionalFields = [''name'', ''category'', ''stage'', ''hp'', ''types'', ''evolveFrom'',
     ''abilities'', ''attacks'', ''effect'', ''weaknesses'', ''resistances'', ''retreat'']"

text \<open>\<open>json.Marshal\<close> writes the keys of a map in the order of their bytes.\<close>

definition marshalledFields :: "string list" where
  "marshalledFields = [''abilities'', ''attacks'', ''category'', ''effect'', ''evolveFrom'', ''hp'',
     ''name'', ''resistances'', ''retreat'', ''stage'', ''types'', ''weaknesses'']"

definition marshal_fields :: "(string \<rightharpoonup> string) \<Rightarrow> string" where
  "marshal_fields m =
     ''{'' @ Join (List.map_filter (\<lambda>k. map_option (\<lambda>v. [CHR 0x22] @ k @ [CHR 0x22] @ '':'' @ v) (m k)) marshalledFields) '','' @ ''}''"

definition fingerprintPokemonCard :: "match_env \<Rightarrow> (string \<times> string) list \<Rightarrow> string" where
  "fingerprintPokemonCard env shown =
     (let fields = foldl (\<lambda>m name. case map_of shown name of Some v \<Rightarrow> m(name \<mapsto> v) | None \<Rightarrow> m) Map.empty functionalFields
      in pokemonFunctionVersion @ MatchDigest env (marshal_fields fields))"

definition indexPokemonFunctions :: "match_env \<Rightarrow> pokemon_card list \<Rightarrow> (string \<rightharpoonup> string)" where
  "indexPokemonFunctions env cards =
     foldl (\<lambda>m one. if PokemonID one = [] then m
         else m(pokemonPrintKey env (PokemonSetName one) (PokemonLocalID one) \<mapsto> fingerprintPokemonCard env (PokemonFields one)))
       Map.empty cards"

definition selectPokemonCards :: "match_env \<Rightarrow> pokemon_brief list \<Rightarrow> catalog_product list \<Rightarrow> pokemon_brief list" where
  "selectPokemonCards env cards products =
     filter (\<lambda>b. readLocalID env (BriefLocalID b) \<in> set (map (\<lambda>p. readLocalID env (ProdCardCode p)) products)) cards"

definition searchPokemonCards :: "match_env \<Rightarrow> tcgmatch_client \<Rightarrow> string \<Rightarrow> string \<Rightarrow> pokemon_brief list io" where
  "searchPokemonCards env c host name =
     bind_io (MatchFetch env host (trim_slashes (TCGMatchPokemonURL c) @ ''/cards?name='' @ QueryEscape name))
       (\<lambda>data. decoded_io (MatchBriefs env data))"

definition readPokemonCard :: "match_env \<Rightarrow> tcgmatch_client \<Rightarrow> string \<Rightarrow> string \<Rightarrow> pokemon_card io" where
  "readPokemonCard env c host i =
     bind_io (MatchFetch env host (trim_slashes (TCGMatchPokemonURL c) @ ''/cards/'' @ PathEscape i))
       (\<lambda>data. decoded_io (MatchPokemon env data))"

text \<open>A card that cannot be read keeps the zero value of its slot.\<close>

fun readPokemonCards :: "match_env \<Rightarrow> tcgmatch_client \<Rightarrow> string \<Rightarrow> pokemon_brief list \<Rightarrow> pokemon_card list io" where
  "readPokemonCards env c host [] = return_io []"
| "readPokemonCards env c host (brief # briefs) =
     bind_io (try_io (readPokemonCard env c host (BriefID brief))) (\<lambda>r.
     bind_io (readPokemonCards env c host briefs) (\<lambda>cards.
       return_io ((case r of Inl _ \<Rightarrow> zero_pokemon | Inr found \<Rightarrow> found) # cards)))"

definition function_of :: "match_env \<Rightarrow> (string \<rightharpoonup> string) \<Rightarrow> catalog_product \<Rightarrow> string" where
  "function_of env functions p =
     (case functions (pokemonPrintKey env (ProdSetName p) (ProdCardCode p)) of None \<Rightarrow> [] | Some f \<Rightarrow> f)"

definition namePokemonFunctions :: "match_env \<Rightarrow> tcgmatch_client \<Rightarrow> catalog_product list \<Rightarrow> catalog_product list io" where
  "namePokemonFunctions env c products =
     (if TCGMatchPokemonURL c = [] \<or> products = [] then return_io products
      else bind_io (Tcgmatch_readHost env (TCGMatchPokemonURL c)) (\<lambda>host.
           bind_io (try_io (searchPokemonCards env c host (ReadCardName (ProdName (hd products))))) (\<lambda>r.
             case r of
               Inl _ \<Rightarrow> return_io products
             | Inr briefs \<Rightarrow>
                 bind_io (readPokemonCards env c host (selectPokemonCards env briefs products)) (\<lambda>cards.
                   return_io (map (\<lambda>p. p\<lparr>ProdFunction := function_of env (indexPokemonFunctions env cards) p\<rparr>) products)))))"

section \<open>Offers (internal/aggregators/tcgmatch/search.go)\<close>

definition readListings :: "match_env \<Rightarrow> tcgmatch_client \<Rightarrow> parsed_url \<Rightarrow> int \<Rightarrow> match_listing list io" where
  "readListings env c base catalogID =
     bind_io (MatchFetch env (UrlHost base) (trim_slashes (TCGMatchURL c) @ ''/products/catalog/'' @ Itoa catalogID @ ''?inStock=true'')) (\<lambda>data.
     bind_io (decoded_io (MatchListings env data)) (\<lambda>reply.
       if \<not> ListingsSuccess reply then fail_io (Failure ''invalid TCGMatch listings'') else return_io (ListingsData reply)))"

definition sellable :: "match_listing \<Rightarrow> string \<Rightarrow> bool" where
  "sellable entry game \<longleftrightarrow>
     \<not> (\<not> ListingIsActive entry \<or> ListingQuantity entry < 1 \<or> ListingPrice entry < 1 \<or> ListingID entry = []
        \<or> ListingUserName entry = [] \<or> ListingTCG entry \<noteq> game)"

definition Tcgmatch_buildOffer :: "match_listing \<Rightarrow> catalog_product \<Rightarrow> string \<Rightarrow> product_kind \<Rightarrow> offer option" where
  "Tcgmatch_buildOffer entry p game kind =
     (if \<not> sellable entry game then None
      else Some (zero_offer\<lparr>OfferID := ''tcgmatch:'' @ ListingID entry, OfferVariantID := ListingID entry,
        OfferCardName := ProdName p, OfferStore := ListingUserName entry, OfferPriceAmount := Itoa (ListingPrice entry),
        OfferPriceCurrency := ''CLP'', OfferURL := ''https://tcgmatch.cl/producto/'' @ ListingID entry,
        OfferImage := ProdImage p, OfferSource := ''tcgmatch.cl'', OfferStockStatus := ''available'',
        OfferLanguage := ListingLanguage entry, OfferCondition := ListingStatus entry,
        OfferFinish := (if ListingIsHoloReverse entry then ''reverse-holo'' else if ListingIsHolo entry then ''holo'' else ''nonfoil''),
        OfferEdition := ProdSetCode p, OfferKind := kind,
        OfferMetadata := [(''game'', game), (''quantity'', Itoa (ListingQuantity entry)), (''seller'', ListingUsername entry),
          (''product_id'', Itoa (ProdID p)), (''set_id'', ProdSetID p), (''set_code'', ProdSetCode p),
          (''card_code'', ProdCardCode p), (''image'', ProdImage p), (''functional_key'', ProdFunction p)]\<rparr>))"

definition wanted_product :: "match_env \<Rightarrow> tcgmatch_client \<Rightarrow> card_query \<Rightarrow> catalog_product \<Rightarrow> bool" where
  "wanted_product env c q p \<longleftrightarrow>
     \<not> (ProdTCG p \<noteq> TCGMatchGame c \<or> ProdType p \<noteq> catalogType (QueryKind q) \<or> \<not> AcceptsTitle (MatchText env) q (ProdName p))"

fun listed_offers :: "match_env \<Rightarrow> tcgmatch_client \<Rightarrow> parsed_url \<Rightarrow> card_query \<Rightarrow> catalog_product list \<Rightarrow> offer list io" where
  "listed_offers env c base q [] = return_io []"
| "listed_offers env c base q (p # products) =
     (if \<not> wanted_product env c q p then listed_offers env c base q products
      else bind_io (readListings env c base (ProdID p)) (\<lambda>listings.
           bind_io (listed_offers env c base q products) (\<lambda>items.
             return_io (List.map_filter (\<lambda>entry. Tcgmatch_buildOffer entry p (TCGMatchGame c) (QueryKind q)) listings @ items))))"

definition Tcgmatch_Search :: "match_env \<Rightarrow> tcgmatch_client \<Rightarrow> card_query \<Rightarrow> offer list io" where
  "Tcgmatch_Search env c q =
     bind_io (decoded_io (validBase env c (QueryName q))) (\<lambda>base.
     bind_io (searchCatalog env c base (QueryName q) (catalogType (QueryKind q))) (\<lambda>products.
     bind_io (if TCGMatchGame c = GamePokemon \<and> \<not> Sealed q then namePokemonFunctions env c products else return_io products) (\<lambda>products.
     bind_io (listed_offers env c base q products) (\<lambda>items.
       return_io (DeduplicateOffers items)))))"

section \<open>The sets of a game (internal/aggregators/tcgmatch/sets.go)\<close>

record set_catalog =
  SetsURL :: string
  SetsGame :: string
  SetsTTL :: duration

text \<open>What the catalogue keeps between calls; the names are nil until the first reading.\<close>

record sets_kept =
  SetsNames :: "string list option"
  SetsReadAt :: time

definition minAlias :: nat where "minAlias = 4"

definition setAliases :: "string \<Rightarrow> string list" where
  "setAliases name =
     name # (case Cut name '': '' of
               Some (_, rest) \<Rightarrow> if minAlias \<le> length (TrimSpace rest) then [TrimSpace rest] else []
             | None \<Rightarrow> [])"

definition readSets :: "match_env \<Rightarrow> set_catalog \<Rightarrow> string list io" where
  "readSets env c =
     (case MatchParse env (SetsURL c) of
        None \<Rightarrow> fail_io (Failure ''invalid TCGMatch set catalog'')
      | Some base \<Rightarrow>
          if UrlHost base = [] \<or> SetsGame c = [] then fail_io (Failure ''invalid TCGMatch set catalog'')
          else bind_io (MatchFetch env (UrlHost base) (trim_slashes (SetsURL c) @ ''/sets?tcg='' @ QueryEscape (SetsGame c))) (\<lambda>data.
               bind_io (decoded_io (MatchSets env data)) (\<lambda>sets.
                 if sets = [] then fail_io (Failure ''TCGMatch answered no sets'')
                 else return_io (concat (map (\<lambda>s. if SetReplyName s \<noteq> [] \<and> SetReplyTCG s = SetsGame c then setAliases (SetReplyName s) else [])
                        sets)))))"

definition GameSets :: "match_env \<Rightarrow> set_catalog \<Rightarrow> sets_kept \<Rightarrow> (string list \<times> sets_kept) io" where
  "GameSets env c k =
     bind_io (case SetsNames k of None \<Rightarrow> return_io False | Some _ \<Rightarrow> bind_io now (\<lambda>t. return_io (t - SetsReadAt k < SetsTTL c))) (\<lambda>fresh.
       if fresh then return_io (the (SetsNames k), k)
       else bind_io (try_io (readSets env c)) (\<lambda>r.
         case r of
           Inl e \<Rightarrow> (case SetsNames k of Some names \<Rightarrow> return_io (names, k) | None \<Rightarrow> fail_io e)
         | Inr names \<Rightarrow> bind_io now (\<lambda>t. return_io (names, k\<lparr>SetsNames := Some names, SetsReadAt := t\<rparr>))))"

section \<open>Naming functions costs no offer\<close>

definition unnamed :: "catalog_product \<Rightarrow> catalog_product" where
  "unnamed p = p\<lparr>ProdFunction := []\<rparr>"

lemma unnamed_named [simp]: "unnamed (p\<lparr>ProdFunction := f\<rparr>) = unnamed p"
  by (simp add: unnamed_def)

lemma wanted_unnamed: "wanted_product env c q (unnamed p) = wanted_product env c q p"
  by (simp add: wanted_product_def unnamed_def)

lemma readPokemonCards_answers:
  "\<exists>cards w'. readPokemonCards env c host briefs w = (Inr cards, w') \<and> length cards = length briefs
    \<and> (\<forall>card \<in> set cards. card = zero_pokemon \<or> (\<exists>data. MatchPokemon env data = Inr card))"
proof (induction briefs arbitrary: w)
  case (Cons brief briefs)
  obtain r w1 where one: "readPokemonCard env c host (BriefID brief) w = (r, w1)" by force
  from Cons [of w1] obtain cards w2 where rest: "readPokemonCards env c host briefs w1 = (Inr cards, w2)"
    "length cards = length briefs" "\<forall>card \<in> set cards. card = zero_pokemon \<or> (\<exists>data. MatchPokemon env data = Inr card)"
    by blast
  from one have "\<exists>data. MatchPokemon env data = Inr card" if "r = Inr card" for card
    using that by (auto simp: readPokemonCard_def decoded_io_def run_simps split: prod.splits sum.splits)
  with one rest show ?case
    by (auto simp: run_simps split: sum.splits)
qed (simp add: return_io_def)

lemma index_found:
  assumes "indexPokemonFunctions env cards key = Some f"
  shows "\<exists>found \<in> set cards. PokemonID found \<noteq> [] \<and> f = fingerprintPokemonCard env (PokemonFields found)
    \<and> key = pokemonPrintKey env (PokemonSetName found) (PokemonLocalID found)"
proof -
  have "(\<exists>found \<in> set cards. PokemonID found \<noteq> [] \<and> f = fingerprintPokemonCard env (PokemonFields found)
      \<and> key = pokemonPrintKey env (PokemonSetName found) (PokemonLocalID found)) \<or> m key = Some f"
    if "foldl (\<lambda>m one. if PokemonID one = [] then m
         else m(pokemonPrintKey env (PokemonSetName one) (PokemonLocalID one) \<mapsto> fingerprintPokemonCard env (PokemonFields one))) m cards key
        = Some f" for m
    using that
  proof (induction cards arbitrary: m)
    case (Cons one cards)
    from Cons.IH [OF Cons.prems [unfolded foldl_Cons]] show ?case by (auto split: if_splits)
  qed simp
  from this [of Map.empty] assms show ?thesis by (simp add: indexPokemonFunctions_def)
qed

text \<open>The key of a card reads only its functional fields.\<close>

lemma fingerprint_reads_functional_fields:
  assumes "\<And>k. k \<in> set functionalFields \<Longrightarrow> map_of a k = map_of b k"
  shows "fingerprintPokemonCard env a = fingerprintPokemonCard env b"
proof -
  have "foldl (\<lambda>m name. case map_of a name of Some v \<Rightarrow> m(name \<mapsto> v) | None \<Rightarrow> m) Map.empty functionalFields
      = foldl (\<lambda>m name. case map_of b name of Some v \<Rightarrow> m(name \<mapsto> v) | None \<Rightarrow> m) Map.empty functionalFields"
    by (rule foldl_cong) (simp_all add: assms)
  then show ?thesis by (simp add: fingerprintPokemonCard_def)
qed

definition key_known :: "match_env \<Rightarrow> catalog_product \<Rightarrow> bool" where
  "key_known env p \<longleftrightarrow>
     ProdFunction p = [] \<or> (\<exists>data card. MatchPokemon env data = Inr card \<and> PokemonID card \<noteq> []
       \<and> pokemonPrintKey env (PokemonSetName card) (PokemonLocalID card) = pokemonPrintKey env (ProdSetName p) (ProdCardCode p)
       \<and> ProdFunction p = fingerprintPokemonCard env (PokemonFields card))"

lemma function_of_known:
  assumes "\<forall>card \<in> set cards. card = zero_pokemon \<or> (\<exists>data. MatchPokemon env data = Inr card)"
  shows "key_known env (p\<lparr>ProdFunction := function_of env (indexPokemonFunctions env cards) p\<rparr>)"
proof (cases "indexPokemonFunctions env cards (pokemonPrintKey env (ProdSetName p) (ProdCardCode p))")
  case None
  then show ?thesis by (simp add: key_known_def function_of_def)
next
  case (Some f)
  from index_found [OF Some] obtain found where found: "found \<in> set cards" "PokemonID found \<noteq> []"
    "f = fingerprintPokemonCard env (PokemonFields found)"
    "pokemonPrintKey env (ProdSetName p) (ProdCardCode p) = pokemonPrintKey env (PokemonSetName found) (PokemonLocalID found)"
    by blast
  with assms obtain data where "MatchPokemon env data = Inr found" by (auto simp: zero_pokemon_def)
  with Some found show ?thesis by (auto simp: key_known_def function_of_def)
qed

text \<open>C25 A Pokemon catalogue that fails costs no offer: while its address is one, naming answers every
  product it was given, in order and changed in nothing but the functional key, and a key it sets is
  the fingerprint of a card that catalogue answered under the set and number of the product.\<close>
theorem naming_costs_no_offer:
  assumes "MatchParse env (TCGMatchPokemonURL c) \<noteq> None"
    and "list_all (\<lambda>p. ProdFunction p = []) products"
  shows "\<exists>named w'. namePokemonFunctions env c products w = (Inr named, w')
    \<and> map unnamed named = map unnamed products \<and> list_all (key_known env) named"
proof -
  have plain: "list_all (key_known env) products" using assms(2) by (auto simp: list_all_iff key_known_def)
  obtain l where l: "MatchParse env (TCGMatchPokemonURL c) = Some l" using assms(1) by blast
  show ?thesis
  proof (cases "TCGMatchPokemonURL c = [] \<or> products = []")
    case True
    with plain show ?thesis by (auto simp: namePokemonFunctions_def return_io_def)
  next
    case False
    obtain r w1 where search: "searchPokemonCards env c (UrlHost l) (ReadCardName (ProdName (hd products))) w = (r, w1)" by force
    show ?thesis
    proof (cases r)
      case (Inl e)
      with False l search plain show ?thesis by (auto simp: namePokemonFunctions_def Tcgmatch_readHost_def run_simps)
    next
      case (Inr briefs)
      obtain cards w2 where cards: "readPokemonCards env c (UrlHost l) (selectPokemonCards env briefs products) w1 = (Inr cards, w2)"
        "\<forall>card \<in> set cards. card = zero_pokemon \<or> (\<exists>data. MatchPokemon env data = Inr card)"
        using readPokemonCards_answers by blast
      have "namePokemonFunctions env c products w =
          (Inr (map (\<lambda>p. p\<lparr>ProdFunction := function_of env (indexPokemonFunctions env cards) p\<rparr>) products), w2)"
        using False l search Inr cards(1) by (simp add: namePokemonFunctions_def Tcgmatch_readHost_def run_simps)
      then show ?thesis using function_of_known [OF cards(2)] by (auto simp: list_all_iff)
    qed
  qed
qed

section \<open>Offers are the sellable listings\<close>

text \<open>\<open>pages\<close> are the answers of the listing calls, made one after the other from a world on.\<close>

fun pages_read ::
  "match_env \<Rightarrow> tcgmatch_client \<Rightarrow> parsed_url \<Rightarrow> (catalog_product \<times> match_listing list) list \<Rightarrow> world \<Rightarrow> world option" where
  "pages_read env c base [] w = Some w"
| "pages_read env c base ((p, listings) # pages) w =
     (case readListings env c base (ProdID p) w of
        (Inl _, _) \<Rightarrow> None
      | (Inr answered, w1) \<Rightarrow> if answered = listings then pages_read env c base pages w1 else None)"

definition offers_of_page :: "tcgmatch_client \<Rightarrow> card_query \<Rightarrow> catalog_product \<times> match_listing list \<Rightarrow> offer list" where
  "offers_of_page c q page =
     List.map_filter (\<lambda>entry. Tcgmatch_buildOffer entry (fst page) (TCGMatchGame c) (QueryKind q)) (snd page)"

lemma listed_offers_pages:
  "listed_offers env c base q products w = (Inr items, w') \<Longrightarrow>
   \<exists>pages. map fst pages = filter (wanted_product env c q) products
     \<and> pages_read env c base pages w = Some w' \<and> items = concat (map (offers_of_page c q) pages)"
proof (induction products arbitrary: w w' items)
  case (Cons p products)
  show ?case
  proof (cases "wanted_product env c q p")
    case False
    with Cons show ?thesis by simp
  next
    case True
    with Cons.prems obtain listings w1 rest where page: "readListings env c base (ProdID p) w = (Inr listings, w1)"
      and more: "listed_offers env c base q products w1 = (Inr rest, w')"
      and items: "items = offers_of_page c q (p, listings) @ rest"
      by (auto simp: offers_of_page_def run_simps split: prod.splits sum.splits)
    from Cons.IH [OF more] obtain pages where "map fst pages = filter (wanted_product env c q) products"
      "pages_read env c base pages w1 = Some w'" "rest = concat (map (offers_of_page c q) pages)" by blast
    with True items page show ?thesis
      by (intro exI [of _ "(p, listings) # pages"]) simp
  qed
qed (simp add: return_io_def)

lemma naming_unnamed:
  "namePokemonFunctions env c products w = (Inr named, w') \<Longrightarrow> map unnamed named = map unnamed products"
  by (auto simp: namePokemonFunctions_def Tcgmatch_readHost_def run_simps split: if_splits option.splits prod.splits sum.splits)

lemma wanted_after_naming:
  assumes "map unnamed named = map unnamed products"
  shows "map unnamed (filter (wanted_product env c q) named) = map unnamed (filter (wanted_product env c q) products)"
  using assms
proof (induction named arbitrary: products)
  case (Cons n named)
  then obtain p rest where products: "products = p # rest" "unnamed n = unnamed p" "map unnamed named = map unnamed rest"
    by (cases products) auto
  then have "wanted_product env c q n = wanted_product env c q p" using wanted_unnamed [of env c q] by metis
  with products Cons.IH show ?case by simp
qed simp

lemma offers_sold:
  assumes "o' \<in> set (offers_of_page c q page)"
  shows "OfferStockStatus o' = ''available'' \<and> 1 \<le> digits_value (OfferPriceAmount o') \<and> list_all is_digit (OfferPriceAmount o')"
proof -
  from assms obtain entry where entry: "Tcgmatch_buildOffer entry (fst page) (TCGMatchGame c) (QueryKind q) = Some o'"
    by (auto simp: offers_of_page_def List.map_filter_def)
  then have "1 \<le> ListingPrice entry" "OfferPriceAmount o' = Itoa (ListingPrice entry)" "OfferStockStatus o' = ''available''"
    by (auto simp: Tcgmatch_buildOffer_def sellable_def split: if_splits)
  with Itoa_digits [of "ListingPrice entry"] show ?thesis by simp
qed


lemma add_new_Cons: "add_new found (x # rest) = add_new (if x \<in> set found then found else found @ [x]) rest"
  by (simp add: add_new_def)

lemma add_new_grows: "\<exists>more. add_new found rest = found @ more"
proof (induction rest arbitrary: found)
  case (Cons x rest)
  obtain more where "add_new (found @ [x]) rest = (found @ [x]) @ more" using Cons by blast
  with Cons [of found] show ?case by (auto simp: add_new_Cons)
qed (simp add: add_new_def)

definition suggested :: "match_env \<Rightarrow> tcgmatch_client \<Rightarrow> string \<Rightarrow> catalog_product list \<Rightarrow> string list" where
  "suggested env c language products = map ProdName (filter (\<lambda>p. matches_product env c p language) products)"

lemma take_names_first:
  "length found < 3 \<Longrightarrow> take_names env c language products found = take 3 (add_new found (suggested env c language products))"
proof (induction products arbitrary: found)
  case (Cons p products)
  show ?case
  proof (cases "matches_product env c p language \<and> ProdName p \<notin> set found")
    case True
    obtain more where "add_new (found @ [ProdName p]) (suggested env c language products) = (found @ [ProdName p]) @ more"
      using add_new_grows by blast
    with True Cons show ?thesis
      by (cases "length found = 2") (simp_all add: Tcgmatch_autocompleteLimit_def Let_def suggested_def add_new_Cons)
  next
    case False
    with Cons show ?thesis by (auto simp: suggested_def add_new_Cons)
  qed
qed (simp add: suggested_def add_new_def)

text \<open>A TCGMatch suggestion list is the first three different names, in the order of the catalogue,
  of the cards of the game that are printed in the language asked for.\<close>
theorem tcgmatch_suggests_first_names:
  assumes "Tcgmatch_Autocomplete env c asked language w = (Inr names, w')"
  shows "\<exists>base products. searchCatalog env c base asked ''card'' w = (Inr products, w') \<and> match_base env c = Some base
    \<and> names = take 3 (add_new [] (suggested env c language products)) \<and> distinct names"
proof -
  from assms obtain base products where products: "searchCatalog env c base asked ''card'' w = (Inr products, w')"
      "match_base env c = Some base"
    and names: "names = take_names env c language products []"
    unfolding Tcgmatch_Autocomplete_def bind_io_Inr decoded_io_Inr
    by (auto simp: return_io_def validBase_def split: option.splits if_splits)
  with add_new_props [of "[]" "suggested env c language products"] show ?thesis
    by (auto simp: take_names_first)
qed

section \<open>Sets are answered from memory\<close>

text \<open>A game whose sets were read once is always answered: within the time to live from memory,
  with no call at all; after it from a new reading, which is kept with its moment, or, when the reading
  fails, from the names known before, which stay.\<close>
theorem known_sets_always_answered:
  assumes "SetsNames k = Some names"
  shows "if clock w (ticks w) - SetsReadAt k < SetsTTL c
    then GameSets env c k w = (Inr (names, k), w\<lparr>ticks := Suc (ticks w)\<rparr>)
    else case readSets env c (w\<lparr>ticks := Suc (ticks w)\<rparr>) of
        (Inl _, w') \<Rightarrow> GameSets env c k w = (Inr (names, k), w')
      | (Inr read, w') \<Rightarrow> GameSets env c k w
          = (Inr (read, k\<lparr>SetsNames := Some read, SetsReadAt := clock w' (ticks w')\<rparr>), w'\<lparr>ticks := Suc (ticks w')\<rparr>)"
  using assms by (auto simp: GameSets_def run_simps split: prod.splits sum.splits)

section \<open>A catalogue with one card\<close>

definition demo_product :: catalog_product where
  "demo_product = \<lparr>ProdID = 1, ProdName = ''Opt'', ProdTCG = ''digimon'', ProdType = ''card'', ProdImage = [],
     ProdSetID = [], ProdSetCode = ''S'', ProdSetName = ''Set'', ProdCardCode = ''1'', ProdLanguages = [],
     ProdFunction = []\<rparr>"

definition demo_listing :: match_listing where
  "demo_listing = \<lparr>ListingID = ''a'', ListingName = [], ListingTCG = ''digimon'', ListingLanguage = [], ListingStatus = [],
     ListingQuantity = 1, ListingPrice = 7, ListingIsActive = True, ListingIsHolo = False, ListingIsHoloReverse = False,
     ListingUserName = ''ana'', ListingUsername = ''ana''\<rparr>"

definition demo_match :: match_env where
  "demo_match = \<lparr>MatchText = plain_env,
     MatchParse = (\<lambda>_. Some \<lparr>UrlScheme = ''https'', UrlHost = ''h'', UrlHasUser = False, UrlPath = []\<rparr>),
     MatchFetch = (\<lambda>_ _. return_io []), MatchProducts = (\<lambda>_. Inr [demo_product, demo_product]),
     MatchListings = (\<lambda>_. Inr \<lparr>ListingsSuccess = True, ListingsData = [demo_listing\<lparr>ListingIsActive := False\<rparr>, demo_listing]\<rparr>),
     MatchBriefs = (\<lambda>_. Inl (Failure ''json'')), MatchPokemon = (\<lambda>_. Inl (Failure ''json'')),
     MatchSets = (\<lambda>_. Inl (Failure ''json'')), MatchDigest = (\<lambda>s. s), MatchEqualFold = (=)\<rparr>"

definition demo_match_client :: tcgmatch_client where
  "demo_match_client = \<lparr>TCGMatchURL = ''u'', TCGMatchGame = ''digimon'', TCGMatchPokemonURL = ''p''\<rparr>"

theorem naming_costs_no_offer_witness:
  "\<exists>named w'. namePokemonFunctions demo_match demo_match_client [demo_product] (calm_world empty_db) = (Inr named, w')
     \<and> map unnamed named = [unnamed demo_product]"
proof -
  have "MatchParse demo_match (TCGMatchPokemonURL demo_match_client) \<noteq> None" by (simp add: demo_match_def)
  moreover have "list_all (\<lambda>p. ProdFunction p = []) [demo_product]" by (simp add: demo_product_def)
  ultimately show ?thesis using naming_costs_no_offer [of demo_match demo_match_client "[demo_product]" "calm_world empty_db"]
    by (auto simp del: ex_simps)
qed


theorem tcgmatch_suggests_first_names_witness:
  "\<exists>w' products. Tcgmatch_Autocomplete demo_match demo_match_client ''Op'' [] (calm_world empty_db) = (Inr [''Opt''], w')
     \<and> [''Opt''] = take 3 (add_new [] (suggested demo_match demo_match_client [] products))"
proof -
  have "fst (Tcgmatch_Autocomplete demo_match demo_match_client ''Op'' [] (calm_world empty_db)) = Inr [''Opt'']" by code_simp
  then obtain w' where run: "Tcgmatch_Autocomplete demo_match demo_match_client ''Op'' [] (calm_world empty_db) = (Inr [''Opt''], w')"
    by (metis prod.collapse)
  from tcgmatch_suggests_first_names [OF run] run show ?thesis by blast
qed

theorem known_sets_always_answered_witness:
  "fst (GameSets demo_match \<lparr>SetsURL = ''u'', SetsGame = ''digimon'', SetsTTL = 5\<rparr> \<lparr>SetsNames = Some [''S''], SetsReadAt = 0\<rparr>
      (calm_world empty_db)) = Inr ([''S''], \<lparr>SetsNames = Some [''S''], SetsReadAt = 0\<rparr>)"
  using known_sets_always_answered [of "\<lparr>SetsNames = Some [''S''], SetsReadAt = 0\<rparr>" "[''S'']" "calm_world empty_db"
      "\<lparr>SetsURL = ''u'', SetsGame = ''digimon'', SetsTTL = 5\<rparr>" demo_match]
  by (simp add: calm_world_def)

end
