(* ===== verification/Scrycl.thy ===== *)
theory Scrycl
  imports Storefront
begin

text \<open>
  internal/aggregators/scrycl: the offers of many stores for one card, read from the page scry.cl
  renders for it.  The fetcher, the HTML parser, net/url and SHA-256 in hexadecimal are arguments.
\<close>

record scry_env =
  ScryclText :: text_env
  ScryclUrls :: url_parser
  ScryclFetch :: "string \<Rightarrow> string \<Rightarrow> string io"
  ScryclHtml :: "string \<Rightarrow> failure + html_node"
  ScryclDigest :: "string \<Rightarrow> string"

record scry_client =
  ScryclURL :: string
  ScryclExcludeCommunity :: bool

section \<open>The name of a page (internal/aggregators/scrycl/page.go)\<close>

definition slug_char :: "char \<Rightarrow> bool" where
  "slug_char c \<longleftrightarrow> (97 \<le> byte c \<and> byte c \<le> 122) \<or> (48 \<le> byte c \<and> byte c \<le> 57)"

text \<open>\<open>ReplaceAllString\<close> of \<open>[^a-z0-9]+\<close> by a dash; the flag says that a run is being read.\<close>

fun slugSeparators :: "bool \<Rightarrow> string \<Rightarrow> string" where
  "slugSeparators gap [] = []"
| "slugSeparators gap (c # s) =
     (if slug_char c then c # slugSeparators False s
      else if gap then slugSeparators True s else CHR ''-'' # slugSeparators True s)"

definition buildCardSlug :: "text_env \<Rightarrow> string \<Rightarrow> string" where
  "buildCardSlug env name = trim_char CHR ''-'' (slugSeparators False (ToLower env (dropAccents env name)))"

section \<open>The offers of a page\<close>

definition Scrycl_buildOffer :: "scry_env \<Rightarrow> (string \<times> string) list \<Rightarrow> failure + offer" where
  "Scrycl_buildOffer env attrs =
     (let item = zero_offer\<lparr>OfferCardName := lookup_string attrs ''data-card-name'', OfferStore := lookup_string attrs ''data-store-name'',
            OfferPriceAmount := lookup_string attrs ''data-price-clp'', OfferPriceCurrency := ''CLP'',
            OfferURL := lookup_string attrs ''data-product-url'', OfferVariantID := lookup_string attrs ''data-variant-key'',
            OfferSource := ''scry.cl'', OfferStockStatus := ''unknown'',
            OfferMetadata := [(''title'', lookup_string attrs ''data-offer-title'')]\<rparr>;
          invalid = (case Atoi (OfferPriceAmount item) of None \<Rightarrow> True | Some price \<Rightarrow> price \<le> 0)
            \<or> OfferCardName item = [] \<or> ValidateOffer (ScryclUrls env) item \<noteq> Inr ();
          identity = Join [OfferStore item, OfferURL item, OfferVariantID item] ''|''
      in if invalid then Inl (Failure ''invalid Scry.cl offer'')
         else Inr (item\<lparr>OfferID := ''scry:'' @ ScryclDigest env identity\<rparr>))"

definition offer_node :: "html_node \<Rightarrow> bool" where
  "offer_node node \<longleftrightarrow>
     \<not> (NodeData node \<noteq> ''a'' \<or> lookup_string (readAttributes node) ''data-track-type'' \<noteq> ''store_offer_click'')"

fun read_nodes :: "scry_env \<Rightarrow> html_node list \<Rightarrow> bool \<Rightarrow> offer list \<Rightarrow> failure + offer list \<times> bool" where
  "read_nodes env [] found items = Inr (items, found)"
| "read_nodes env (node # nodes) found items =
     (let attrs = readAttributes node;
          found = (found \<or> lookup_string attrs ''id'' = ''results'')
      in if \<not> offer_node node then read_nodes env nodes found items
         else (case Scrycl_buildOffer env attrs of
                 Inl e \<Rightarrow> Inl e
               | Inr item \<Rightarrow> read_nodes env nodes found (items @ [item])))"

definition Scrycl_readOffers :: "scry_env \<Rightarrow> string \<Rightarrow> failure + offer list" where
  "Scrycl_readOffers env data =
     (case ScryclHtml env data of
        Inl e \<Rightarrow> Inl e
      | Inr document \<Rightarrow>
          (case read_nodes env (Descendants document) False [] of
             Inl e \<Rightarrow> Inl e
           | Inr (items, found) \<Rightarrow>
               if \<not> found then Inl (Failure ''Scry.cl page missing results container'') else Inr (DeduplicateOffers items)))"

definition outside_host :: "scry_env \<Rightarrow> string \<Rightarrow> offer \<Rightarrow> bool" where
  "outside_host env host item \<longleftrightarrow>
     (case parse_url (ScryclUrls env) (OfferURL item) of
        None \<Rightarrow> False
      | Some link \<Rightarrow> \<not> (URLHost link = host \<or> HasSuffix (URLHost link) (''.'' @ host)))"

definition withoutCommunityOffers :: "scry_env \<Rightarrow> offer list \<Rightarrow> string \<Rightarrow> offer list" where
  "withoutCommunityOffers env items host = filter (outside_host env host) items"

section \<open>The client (internal/aggregators/scrycl/client.go)\<close>

definition Scrycl_FindOffers :: "scry_env \<Rightarrow> scry_client \<Rightarrow> card_query \<Rightarrow> offer list io" where
  "Scrycl_FindOffers env c q =
     (case parse_url (ScryclUrls env) (ScryclURL c) of
        None \<Rightarrow> fail_io (Failure ''invalid Scry.cl URL'')
      | Some base \<Rightarrow>
          if URLHost base = [] \<or> (URLScheme base \<noteq> ''https'' \<and> URLScheme base \<noteq> ''http'')
          then fail_io (Failure ''invalid Scry.cl URL'')
          else let slug = buildCardSlug (ScryclText env) (QueryName q) in
            if slug = [] then fail_io (Failure ''empty Scry.cl card slug'')
            else bind_io (try_io (ScryclFetch env (URLHost base)
                   (rev (dropWhile (\<lambda>x. x = CHR ''/'') (rev (ScryclURL c))) @ ''/card/'' @ slug))) (\<lambda>r.
              case r of
                Inl (StatusError code body) \<Rightarrow> if code = 404 then return_io [] else fail_io (StatusError code body)
              | Inl e \<Rightarrow> fail_io e
              | Inr data \<Rightarrow> bind_io (decoded_io (Scrycl_readOffers env data)) (\<lambda>items.
                  return_io (if ScryclExcludeCommunity c then withoutCommunityOffers env items (URLHost base) else items))))"

definition Scrycl_Search :: "scry_env \<Rightarrow> scry_client \<Rightarrow> card_query \<Rightarrow> offer list io" where
  "Scrycl_Search env c q = Scrycl_FindOffers env c q"

definition Scrycl_SourceName :: "scry_env \<Rightarrow> scry_client \<Rightarrow> string" where
  "Scrycl_SourceName env c =
     (case parse_url (ScryclUrls env) (ScryclURL c) of
        None \<Rightarrow> ScryclURL c
      | Some base \<Rightarrow> if URLHost base \<noteq> [] then URLHost base else ScryclURL c)"

section \<open>The slug of a name\<close>

lemma slugSeparators_props:
  "filter slug_char (slugSeparators gap s) = filter slug_char s
   \<and> (\<forall>c \<in> set (slugSeparators gap s). slug_char c \<or> c = CHR ''-'')
   \<and> successively (\<lambda>a b. a \<noteq> CHR ''-'' \<or> b \<noteq> CHR ''-'') (slugSeparators gap s)
   \<and> (gap \<longrightarrow> slugSeparators gap s = [] \<or> hd (slugSeparators gap s) \<noteq> CHR ''-'')"
proof (induction gap s rule: slugSeparators.induct)
  case (2 gap c s)
  have dash: "\<not> slug_char CHR ''-''" by code_simp
  show ?case
  proof (cases "slug_char c")
    case True
    with dash 2 show ?thesis by (auto simp: successively_Cons)
  next
    case False
    with dash 2 show ?thesis by (auto simp: successively_Cons)
  qed
qed simp

lemma trim_char_split:
  "\<exists>a b. s = a @ trim_char c s @ b \<and> set a \<subseteq> {c} \<and> set b \<subseteq> {c}
    \<and> (trim_char c s \<noteq> [] \<longrightarrow> hd (trim_char c s) \<noteq> c \<and> last (trim_char c s) \<noteq> c)"
proof -
  let ?P = "\<lambda>x. x = c"
  let ?m = "dropWhile ?P s"
  let ?t = "trim_char c s"
  have t: "?t = rev (dropWhile ?P (rev ?m))" by (simp add: trim_char_def)
  have m: "?m = ?t @ rev (takeWhile ?P (rev ?m))"
    by (metis t rev_append rev_rev_ident takeWhile_dropWhile_id)
  then have s: "s = takeWhile ?P s @ ?t @ rev (takeWhile ?P (rev ?m))"
    using takeWhile_dropWhile_id [of ?P s] by simp
  have "last ?t \<noteq> c" if "?t \<noteq> []"
    using that hd_dropWhile [of ?P "rev ?m"] by (simp add: t last_rev)
  moreover have "hd ?t \<noteq> c" if "?t \<noteq> []"
  proof -
    from m that have "hd ?m = hd ?t" "?m \<noteq> []" by (metis hd_append2) (use m that in force)
    with hd_dropWhile [of ?P s] show ?thesis by simp
  qed
  ultimately show ?thesis using s
    by (intro exI [of _ "takeWhile ?P s"] exI [of _ "rev (takeWhile ?P (rev ?m))"]) (auto dest: set_takeWhileD)
qed

text \<open>The page of a card is named by a clean slug: it holds lower-case letters, digits and single
  dashes that stand between two of them, and it keeps every letter and digit of the levelled name in
  order; so it is empty exactly when the name has none.\<close>
theorem card_slug_clean:
  "list_all (\<lambda>c. slug_char c \<or> c = CHR ''-'') (buildCardSlug env name)
   \<and> successively (\<lambda>a b. slug_char a \<or> slug_char b) (buildCardSlug env name)
   \<and> (buildCardSlug env name = [] \<or> slug_char (hd (buildCardSlug env name)) \<and> slug_char (last (buildCardSlug env name)))
   \<and> filter slug_char (buildCardSlug env name) = filter slug_char (ToLower env (dropAccents env name))"
proof -
  let ?l = "ToLower env (dropAccents env name)"
  let ?r = "slugSeparators False ?l"
  let ?t = "buildCardSlug env name"
  from trim_char_split [of ?r "CHR ''-''"] obtain a b where split: "?r = a @ ?t @ b" "set a \<subseteq> {CHR ''-''}" "set b \<subseteq> {CHR ''-''}"
    "?t \<noteq> [] \<Longrightarrow> hd ?t \<noteq> CHR ''-'' \<and> last ?t \<noteq> CHR ''-''"
    unfolding buildCardSlug_def by blast
  note props = slugSeparators_props [of False ?l]
  have dash: "\<not> slug_char CHR ''-''" by code_simp
  with split(2,3) have "filter slug_char a = []" "filter slug_char b = []" by (auto simp: filter_empty_conv)
  then have kept: "filter slug_char ?t = filter slug_char ?r" by (subst split(1)) simp
  have chars: "slug_char c \<or> c = CHR ''-''" if "c \<in> set ?t" for c
  proof -
    have "c \<in> set ?r" using that by (subst split(1)) simp
    with props show ?thesis by blast
  qed
  have "successively (\<lambda>a b. a \<noteq> CHR ''-'' \<or> b \<noteq> CHR ''-'') ?t"
    using props by (subst (asm) split(1)) (simp add: successively_append_iff)
  then have "successively (\<lambda>a b. slug_char a \<or> slug_char b) ?t"
    by (rule successively_mono) (use chars in blast)
  moreover have "slug_char (hd ?t) \<and> slug_char (last ?t)" if "?t \<noteq> []"
    using that split(4) chars by (metis hd_in_set last_in_set)
  ultimately show ?thesis using kept props chars by (auto simp: list_all_iff)
qed

section \<open>What a page answers\<close>

lemma read_nodes_offers:
  "read_nodes env nodes found items = Inr (os, seen) \<Longrightarrow>
   \<exists>read. os = items @ read \<and> list_all2 (\<lambda>n o'. Scrycl_buildOffer env (readAttributes n) = Inr o') (filter offer_node nodes) read
     \<and> seen = (found \<or> list_ex (\<lambda>n. lookup_string (readAttributes n) ''id'' = ''results'') nodes)"
proof (induction env nodes found items rule: read_nodes.induct)
  case (2 env node nodes found items)
  show ?case
  proof (cases "offer_node node")
    case False
    with 2 show ?thesis by (auto simp: Let_def)
  next
    case True
    with 2(3) obtain item where item: "Scrycl_buildOffer env (readAttributes node) = Inr item"
      by (auto simp: Let_def split: sum.splits)
    with True 2(2) [OF refl refl _ item] 2(3) obtain read where "os = (items @ [item]) @ read"
      "list_all2 (\<lambda>n o'. Scrycl_buildOffer env (readAttributes n) = Inr o') (filter offer_node nodes) read"
      "seen = ((found \<or> lookup_string (readAttributes node) ''id'' = ''results'')
         \<or> list_ex (\<lambda>n. lookup_string (readAttributes n) ''id'' = ''results'') nodes)"
      by (auto simp: Let_def)
    with True item show ?thesis by (intro exI [of _ "item # read"]) simp
  qed
qed simp

lemma built_sold:
  assumes "Scrycl_buildOffer env attrs = Inr item"
  shows "ValidateOffer (ScryclUrls env) item = Inr () \<and> (\<exists>n. Atoi (OfferPriceAmount item) = Some n \<and> 0 < n) \<and> OfferCardName item \<noteq> []"
  using assms by (auto simp: Scrycl_buildOffer_def Let_def ValidateOffer_def split: if_splits option.splits)

definition page_answers :: "scry_env \<Rightarrow> html_node \<Rightarrow> offer list \<Rightarrow> bool" where
  "page_answers env document read \<longleftrightarrow>
     list_ex (\<lambda>n. lookup_string (readAttributes n) ''id'' = ''results'') (Descendants document)
     \<and> list_all2 (\<lambda>n o'. Scrycl_buildOffer env (readAttributes n) = Inr o') (filter offer_node (Descendants document)) read"

lemma Scrycl_readOffers_page:
  "Scrycl_readOffers env data = Inr os \<Longrightarrow>
   \<exists>document read. ScryclHtml env data = Inr document \<and> page_answers env document read \<and> os = DeduplicateOffers read"
  by (auto simp: Scrycl_readOffers_def page_answers_def split: sum.splits if_splits dest!: read_nodes_offers)

definition sold_outside :: "scry_env \<Rightarrow> scry_client \<Rightarrow> url \<Rightarrow> offer \<Rightarrow> bool" where
  "sold_outside env c base item \<longleftrightarrow>
     ValidateOffer (ScryclUrls env) item = Inr () \<and> (case Atoi (OfferPriceAmount item) of None \<Rightarrow> False | Some n \<Rightarrow> 0 < n)
     \<and> (if ScryclExcludeCommunity c then outside_host env (URLHost base) item else True)"

lemma page_answers_sold:
  assumes "page_answers env document read" "item \<in> set (DeduplicateOffers read)"
  shows "ValidateOffer (ScryclUrls env) item = Inr () \<and> (\<exists>n. Atoi (OfferPriceAmount item) = Some n \<and> 0 < n)"
proof -
  have "item \<in> set read" using assms(2) dedup_from_subseq [of "[]" read]
    by (auto simp: DeduplicateOffers_def dest: list_emb_set)
  with assms(1) obtain n where "Scrycl_buildOffer env (readAttributes n) = Inr item"
    by (auto simp: page_answers_def list_all2_conv_all_nth in_set_conv_nth)
  from built_sold [OF this] show ?thesis by blast
qed


section \<open>A page with one offer\<close>

definition demo_scry :: scry_env where
  "demo_scry = \<lparr>ScryclText = plain_env,
     ScryclUrls = \<lparr>parse_url = (\<lambda>s. Some \<lparr>URLScheme = ''https'', URLHost = (if s = ''b'' then ''scry.cl'' else ''shop.cl'')\<rparr>),
       parse_request_uri = (\<lambda>_. Some \<lparr>URLScheme = ''https'', URLHost = ''shop.cl''\<rparr>)\<rparr>,
     ScryclFetch = (\<lambda>_ _. return_io []),
     ScryclHtml = (\<lambda>_. Inr (HtmlNode OtherNode [] [] [HtmlNode ElementNode ''div'' [(''id'', ''results'')]
       [HtmlNode ElementNode ''a'' [(''data-track-type'', ''store_offer_click''), (''data-store-name'', ''S''),
          (''data-card-name'', ''Opt''), (''data-price-clp'', ''7''), (''data-product-url'', ''u'')] []]])),
     ScryclDigest = (\<lambda>s. s)\<rparr>"


end
