(* ===== verification/Settings.thy ===== *)
theory Settings
  imports Model GoText
begin

text \<open>
  internal/config/config.go and internal/gcp/config.go: the settings a process reads from its
  environment.  The environment itself, the host name and what godotenv answers are arguments; an
  unset variable reads as the empty text, as \<open>os.Getenv\<close> has it.
\<close>

record host_env =
  HostDotenv :: "failure option"
  HostGetenv :: "string \<Rightarrow> string"
  HostName :: "string option"

record settings =
  CfgAddress :: string
  CfgAPIToken :: string
  CfgStoresPath :: string
  CfgWorkerID :: string
  CfgLeaseDuration :: duration
  CfgPollInterval :: duration
  CfgHTTPTimeout :: duration
  CfgSourceMaxAttempts :: int
  CfgSourceRetryBaseDelay :: duration
  CfgSourceMaxBodyBytes :: int
  CfgServerReadHeaderTimeout :: duration
  CfgServerReadTimeout :: duration
  CfgServerWriteTimeout :: duration
  CfgServerIdleTimeout :: duration
  CfgServerShutdownTimeout :: duration
  CfgHealthCheckTimeout :: duration
  CfgStockCheckLimit :: int
  CfgOfferCacheTTL :: duration
  CfgOfferCacheEmptyTTL :: duration
  CfgInventoryCacheTTL :: duration
  CfgSearchTTL :: duration
  CfgMaxCardsPerSearch :: int
  CfgSweepMaxWakes :: int
  CfgMaxQuantityPerCard :: int
  CfgSuspiciousPricePercent :: int
  CfgOrderBuyerName :: string
  CfgOrderBuyerEmail :: string
  CfgOrderPendingTTL :: duration
  CfgOrderReleaseMaxWakes :: int
  CfgOrderWebhookSecret :: string

section \<open>Reading one variable\<close>

definition loadDotenv :: "host_env \<Rightarrow> failure option" where
  "loadDotenv h = (if HostDotenv h = Some ErrMissing then None else HostDotenv h)"

definition readValueOr :: "host_env \<Rightarrow> string \<Rightarrow> string \<Rightarrow> string" where
  "readValueOr h key fallback = (if HostGetenv h key \<noteq> [] then HostGetenv h key else fallback)"

definition readIntOr :: "host_env \<Rightarrow> string \<Rightarrow> int \<Rightarrow> int" where
  "readIntOr h key fallback =
     (case Atoi (HostGetenv h key) of None \<Rightarrow> fallback | Some v \<Rightarrow> if v < 1 then fallback else v)"

text \<open>\<open>strconv.ParseBool\<close>; no setting is a flag.\<close>

definition ParseBool :: "string \<Rightarrow> bool option" where
  "ParseBool s =
     (if s \<in> {''1'', ''t'', ''T'', ''TRUE'', ''true'', ''True''} then Some True
      else if s \<in> {''0'', ''f'', ''F'', ''FALSE'', ''false'', ''False''} then Some False else None)"

definition readBoolOr :: "host_env \<Rightarrow> string \<Rightarrow> bool \<Rightarrow> bool" where
  "readBoolOr h key fallback = (case ParseBool (HostGetenv h key) of None \<Rightarrow> fallback | Some b \<Rightarrow> b)"

text \<open>A product of durations is a product of 64-bit integers.\<close>

definition readSecondsOr :: "host_env \<Rightarrow> string \<Rightarrow> int \<Rightarrow> duration" where
  "readSecondsOr h key fallback = wrap64 (readIntOr h key fallback * second)"

definition readMillisOr :: "host_env \<Rightarrow> string \<Rightarrow> int \<Rightarrow> duration" where
  "readMillisOr h key fallback = wrap64 (readIntOr h key fallback * millisecond)"

definition readHostname :: "host_env \<Rightarrow> string" where
  "readHostname h = (case HostName h of None \<Rightarrow> ''worker-local'' | Some v \<Rightarrow> v)"

section \<open>The settings\<close>

definition read_settings :: "host_env \<Rightarrow> settings" where
  "read_settings h =
     \<lparr>CfgAddress = readValueOr h ''MUCHI_API_ADDRESS'' '':8080'',
      CfgAPIToken = HostGetenv h ''MUCHI_API_TOKEN'',
      CfgStoresPath = readValueOr h ''MUCHI_STORES_CONFIG'' ''config/stores.yaml'',
      CfgWorkerID = readValueOr h ''MUCHI_WORKER_ID'' (readHostname h),
      CfgLeaseDuration = readSecondsOr h ''MUCHI_LEASE_SECONDS'' 60,
      CfgPollInterval = readSecondsOr h ''MUCHI_POLL_SECONDS'' 2,
      CfgHTTPTimeout = readSecondsOr h ''MUCHI_SOURCE_TIMEOUT_SECONDS'' 10,
      CfgSourceMaxAttempts = readIntOr h ''MUCHI_SOURCE_MAX_ATTEMPTS'' 3,
      CfgSourceRetryBaseDelay = readMillisOr h ''MUCHI_SOURCE_RETRY_BASE_MS'' 250,
      CfgSourceMaxBodyBytes = readIntOr h ''MUCHI_SOURCE_MAX_BODY_BYTES'' 16777216,
      CfgServerReadHeaderTimeout = readSecondsOr h ''MUCHI_SERVER_READ_HEADER_TIMEOUT_SECONDS'' 5,
      CfgServerReadTimeout = readSecondsOr h ''MUCHI_SERVER_READ_TIMEOUT_SECONDS'' 15,
      CfgServerWriteTimeout = readSecondsOr h ''MUCHI_SERVER_WRITE_TIMEOUT_SECONDS'' 30,
      CfgServerIdleTimeout = readSecondsOr h ''MUCHI_SERVER_IDLE_TIMEOUT_SECONDS'' 60,
      CfgServerShutdownTimeout = readSecondsOr h ''MUCHI_SERVER_SHUTDOWN_TIMEOUT_SECONDS'' 10,
      CfgHealthCheckTimeout = readSecondsOr h ''MUCHI_HEALTH_CHECK_TIMEOUT_SECONDS'' 2,
      CfgStockCheckLimit = readIntOr h ''MUCHI_STOCK_CHECK_LIMIT'' 5,
      CfgOfferCacheTTL = readSecondsOr h ''MUCHI_OFFER_CACHE_TTL_SECONDS'' 86400,
      CfgOfferCacheEmptyTTL = readSecondsOr h ''MUCHI_OFFER_CACHE_EMPTY_TTL_SECONDS'' 120,
      CfgInventoryCacheTTL = readSecondsOr h ''MUCHI_INVENTORY_CACHE_TTL_SECONDS'' 3600,
      CfgSearchTTL = readSecondsOr h ''MUCHI_SEARCH_TTL_SECONDS'' 86400,
      CfgMaxCardsPerSearch = readIntOr h ''MUCHI_MAX_CARDS_PER_SEARCH'' 500,
      CfgSweepMaxWakes = readIntOr h ''MUCHI_SWEEP_MAX_WAKES'' 50,
      CfgMaxQuantityPerCard = readIntOr h ''MUCHI_MAX_QUANTITY_PER_CARD'' 99,
      CfgSuspiciousPricePercent = readIntOr h ''MUCHI_SUSPICIOUS_PRICE_PERCENT'' 30,
      CfgOrderBuyerName = HostGetenv h ''MUCHI_ORDER_BUYER_NAME'',
      CfgOrderBuyerEmail = HostGetenv h ''MUCHI_ORDER_BUYER_EMAIL'',
      CfgOrderPendingTTL = readSecondsOr h ''MUCHI_ORDER_PENDING_TTL_SECONDS'' 86400,
      CfgOrderReleaseMaxWakes = readIntOr h ''MUCHI_ORDER_RELEASE_MAX_WAKES'' 50,
      CfgOrderWebhookSecret = HostGetenv h ''MUCHI_ORDER_WEBHOOK_SECRET''\<rparr>"

definition LoadConfig :: "host_env \<Rightarrow> failure + settings" where
  "LoadConfig h =
     (case loadDotenv h of
        Some e \<Rightarrow> Inl e
      | None \<Rightarrow>
          let config = read_settings h
          in if CfgAPIToken config = [] then Inl (Failure ''MUCHI_API_TOKEN is required'') else Inr config)"

section \<open>The settings of the cloud (internal/gcp/config.go)\<close>

record cloud_settings =
  CloudProjectID :: string
  CloudTaskRegion :: string
  CloudTaskQueue :: string
  CloudTaskURL :: string
  CloudTaskAccount :: string
  CloudTaskDeadline :: duration

definition readSetting :: "host_env \<Rightarrow> string \<Rightarrow> string \<Rightarrow> string" where
  "readSetting h key fallback = (if HostGetenv h key \<noteq> [] then HostGetenv h key else fallback)"

definition task_deadline :: "host_env \<Rightarrow> failure + duration" where
  "task_deadline h =
     (let v = HostGetenv h ''MUCHI_TASK_DEADLINE_SECONDS'' in
      if v = [] then Inr (30 * minute)
      else (case Atoi v of
              None \<Rightarrow> Inl (Failure ''MUCHI_TASK_DEADLINE_SECONDS must be between 15 and 1800'')
            | Some seconds \<Rightarrow>
                if seconds < 15 \<or> 1800 < seconds
                then Inl (Failure ''MUCHI_TASK_DEADLINE_SECONDS must be between 15 and 1800'')
                else Inr (wrap64 (seconds * second))))"

definition LoadSettings :: "host_env \<Rightarrow> failure + cloud_settings" where
  "LoadSettings h =
     map_sum id (\<lambda>deadline.
       \<lparr>CloudProjectID = HostGetenv h ''GOOGLE_CLOUD_PROJECT'',
        CloudTaskRegion = readSetting h ''MUCHI_TASK_REGION'' ''us-central1'',
        CloudTaskQueue = readSetting h ''MUCHI_TASK_QUEUE'' ''muchi-searches'',
        CloudTaskURL = HostGetenv h ''MUCHI_TASK_URL'',
        CloudTaskAccount = HostGetenv h ''MUCHI_TASK_SERVICE_ACCOUNT'', CloudTaskDeadline = deadline\<rparr>) (task_deadline h)"

section \<open>Settings are in range\<close>

lemma readIntOr_pos: "1 \<le> fallback \<Longrightarrow> 1 \<le> readIntOr h key fallback"
  by (auto simp: readIntOr_def split: option.split)

definition short_counts :: "host_env \<Rightarrow> bool" where
  "short_counts h \<longleftrightarrow> (\<forall>key n. Atoi (HostGetenv h key) = Some n \<longrightarrow> n \<le> 9223372036)"

lemma readIntOr_short: "short_counts h \<Longrightarrow> fallback \<le> 9223372036 \<Longrightarrow> readIntOr h key fallback \<le> 9223372036"
  by (auto simp: short_counts_def readIntOr_def split: option.split)

lemma readSecondsOr_pos:
  assumes "short_counts h" "1 \<le> fallback" "fallback \<le> 9223372036"
  shows "readSecondsOr h key fallback = readIntOr h key fallback * second \<and> second \<le> readSecondsOr h key fallback"
proof -
  have "1 \<le> readIntOr h key fallback" "readIntOr h key fallback \<le> 9223372036"
    using readIntOr_pos [OF assms(2)] readIntOr_short [OF assms(1,3)] by blast+
  then show ?thesis by (simp add: readSecondsOr_def wrap64_id int64_defs duration_defs)
qed

lemma readMillisOr_pos:
  assumes "short_counts h" "1 \<le> fallback" "fallback \<le> 9223372036"
  shows "readMillisOr h key fallback = readIntOr h key fallback * millisecond \<and> millisecond \<le> readMillisOr h key fallback"
proof -
  have "1 \<le> readIntOr h key fallback" "readIntOr h key fallback \<le> 9223372036"
    using readIntOr_pos [OF assms(2)] readIntOr_short [OF assms(1,3)] by blast+
  then show ?thesis by (simp add: readMillisOr_def wrap64_id int64_defs duration_defs)
qed

definition settings_durations :: "settings \<Rightarrow> duration list" where
  "settings_durations c =
     [CfgLeaseDuration c, CfgPollInterval c, CfgHTTPTimeout c, CfgServerReadHeaderTimeout c, CfgServerReadTimeout c,
      CfgServerWriteTimeout c, CfgServerIdleTimeout c, CfgServerShutdownTimeout c, CfgHealthCheckTimeout c,
      CfgOfferCacheTTL c, CfgOfferCacheEmptyTTL c, CfgInventoryCacheTTL c, CfgSearchTTL c, CfgOrderPendingTTL c]"

definition settings_counts :: "settings \<Rightarrow> int list" where
  "settings_counts c =
     [CfgSourceMaxAttempts c, CfgSourceMaxBodyBytes c, CfgStockCheckLimit c, CfgMaxCardsPerSearch c, CfgSweepMaxWakes c,
      CfgMaxQuantityPerCard c, CfgSuspiciousPricePercent c, CfgOrderReleaseMaxWakes c]"

lemma LoadConfig_Inr: "LoadConfig h = Inr c \<longleftrightarrow> loadDotenv h = None \<and> c = read_settings h \<and> HostGetenv h ''MUCHI_API_TOKEN'' \<noteq> []"
  by (auto simp: LoadConfig_def Let_def read_settings_def split: option.splits)


definition demo_host :: host_env where
  "demo_host = \<lparr>HostDotenv = Some ErrMissing, HostGetenv = (\<lambda>k. if k = ''MUCHI_API_TOKEN'' then ''t'' else
     if k = ''MUCHI_LEASE_SECONDS'' then ''0'' else []), HostName = None\<rparr>"


end
