(* ===== verification/Runtime.thy ===== *)
theory Runtime
  imports Answers Worker SourceStore Commerce Tcgmatch Scrycl Settings
begin

text \<open>
  internal/application, internal/repositories/search_offer.go and internal/search/service.go: the
  runtime a process composes out of its settings, its vault and its queue, and the operations every
  host calls.

  Here the ports of the services meet the components that fill them: the clients the catalogue
  builds answer through the platform clients, every call leaves through the source client, and the
  gate, the caches and the orders are the stores.  What the components take as arguments (parsers,
  decoders, the HTTP transport) is one record.
\<close>

section \<open>The arguments of a runtime\<close>

record runtime_env =
  RtText :: text_env
  RtSearch :: search_env
  RtConfig :: config_env
  RtFetch :: fetch_env
  RtSend :: "SourceClient.http_request \<Rightarrow> SourceClient.http_reply io"
  RtSession :: "session_request \<Rightarrow> session_reply io"
  RtShopify :: shopify_env
  RtWoo :: woo_env
  RtJump :: jump_env
  RtPresta :: store_env
  RtLists :: list_env
  RtMatch :: match_env
  RtScry :: scry_env
  RtScryfall :: scryfall
  RtIsJson :: "string \<Rightarrow> bool"
  RtHashConfig :: "config \<Rightarrow> string"
  RtStoresFile :: "string \<Rightarrow> failure + string"
  RtDecodeStores :: "string \<Rightarrow> failure + config"
  RtDigest :: "payload \<Rightarrow> string"
  RtHost :: "string \<Rightarrow> string option"
  RtSign :: "string \<Rightarrow> string \<Rightarrow> string"
  RtDecodeWebhook :: "string \<Rightarrow> wooCommerceOrderWebhook option"
  RtFuel :: nat
  RtSetsKept :: "game \<Rightarrow> sets_kept"

section \<open>The vault (internal/repositories/search_offer.go)\<close>

record vault =
  VaultSearches :: search_repository
  VaultOrders :: order_repository
  VaultCache :: offer_cache
  VaultOffer :: "string \<Rightarrow> offer io"
  VaultInventory :: inventory_cache
  VaultHealth :: "unit io"
  VaultSourceHealth :: "source_health list io"
  VaultWaiting :: "int \<Rightarrow> nat io"
  VaultGate :: traffic_gate

text \<open>\<open>repositories.New\<close>: the stores joined over one database.\<close>

definition New :: "text_env \<Rightarrow> duration \<Rightarrow> vault" where
  "New env ttl =
     \<lparr>VaultSearches = store_repository env ttl, VaultOrders = store_orders ttl, VaultCache = repository_cache,
      VaultOffer = Store_GetOffer, VaultInventory = repository_inventory, VaultHealth = CheckHealth,
      VaultSourceHealth = ListSourceHealth, VaultWaiting = CountWaitingItems, VaultGate = store_gate default_store\<rparr>"

section \<open>The source client (internal/application/application.go)\<close>

definition UserAgent :: string where "UserAgent = ''muchi-api/1.0''"

definition buildSourceClient :: "settings \<Rightarrow> runtime_env \<Rightarrow> traffic_gate \<Rightarrow> client" where
  "buildSourceClient config env gate =
     \<lparr>ClientSend = RtSend env, ClientGate = Some gate, ClientUserAgent = UserAgent,
      ClientMaxAttempts = CfgSourceMaxAttempts config, ClientBaseDelay = CfgSourceRetryBaseDelay config,
      ClientMaxBodyBytes = CfgSourceMaxBodyBytes config, ClientStorefront = False\<rparr>"

section \<open>The clients answer\<close>

text \<open>A client that fails answers no offers; one that runs out of fuel is still paging.\<close>

definition offers_or_error :: "offer list io \<Rightarrow> world \<Rightarrow> (offer list \<times> failure option) \<times> world" where
  "offers_or_error m w = (case m w of (Inl e, w') \<Rightarrow> (([], Some e), w') | (Inr os, w') \<Rightarrow> ((os, None), w'))"

definition fueled :: "'a option io \<Rightarrow> 'a io" where
  "fueled m = bind_io m (\<lambda>r. case r of None \<Rightarrow> fail_io OutOfFuel | Some x \<Rightarrow> return_io x)"

record fetchers =
  PortFetch :: "string \<Rightarrow> string \<Rightarrow> string io"
  PortStorefront :: "string \<Rightarrow> string \<Rightarrow> string io"
  PortSessions :: session_port

definition fetchers_of :: "runtime_env \<Rightarrow> client \<Rightarrow> fetchers" where
  "fetchers_of env c =
     \<lparr>PortFetch = FetchSource c (RtFetch env), PortStorefront = FetchStorefront c (RtFetch env),
      PortSessions = SendSession \<lparr>SessionSource = c, SessionDo = RtSession env\<rparr> (RtFetch env)\<rparr>"

text \<open>What \<open>commerce.Shops\<close> holds: one fetcher for every store.\<close>

definition commerce_of :: "settings \<Rightarrow> runtime_env \<Rightarrow> fetchers \<Rightarrow> config \<Rightarrow> (offer \<Rightarrow> stock_reading io) option \<Rightarrow> commerce" where
  "commerce_of config env f stores inventory =
     \<lparr>CommerceShops = \<lparr>ShopsConfig = stores, ShopsBuyerName = CfgOrderBuyerName config, ShopsBuyerEmail = CfgOrderBuyerEmail config\<rparr>,
      CommerceFetch = PortFetch f, CommerceSessions = Some (PortSessions f), CommerceLists = inventory,
      CommerceShopify = (RtShopify env)\<lparr>StoreFetchStorefront := Some (PortStorefront f)\<rparr>,
      CommerceWoo = (RtWoo env)\<lparr>StoreFetchStorefront := Some (PortStorefront f)\<rparr>,
      CommerceJump = (RtJump env)\<lparr>StoreFetchStorefront := Some (PortStorefront f)\<rparr>, CommerceJson = RtIsJson env\<rparr>"

definition lists_of :: "settings \<Rightarrow> runtime_env \<Rightarrow> fetchers \<Rightarrow> vault \<Rightarrow> list_env" where
  "lists_of config env f v =
     (RtLists env)\<lparr>ListFetch := PortFetch f, ListCache := Some (VaultInventory v), ListTTL := CfgInventoryCacheTTL config\<rparr>"

fun shop_offers :: "runtime_env \<Rightarrow> commerce \<Rightarrow> shop_client \<Rightarrow> card_query \<Rightarrow> offer list io" where
  "shop_offers env s (JumpsellerClient d n) q = fueled (Jumpseller_FindOffers (RtFuel env) (jump_of s) (plain_front d n) q)"
| "shop_offers env s (ShopifyClient d n) q = fueled (Shopify_FindOffers (RtFuel env) (shopify_of s) (plain_front d n) q)"
| "shop_offers env s (WooCommerceClient d n buyer email) q =
     fueled (Woo_FindOffers (RtFuel env) (woo_of s) (woo_front_of d n buyer email) q)"
| "shop_offers env s (PrestashopClient d n path) q =
     Prestashop_FindOffers ((RtPresta env)\<lparr>StoreFetch := CommerceFetch s\<rparr>)
       \<lparr>FrontDomain = d, FrontName = n, FrontSearchPath = path, FrontCurrency = [], FrontMaxPages = 0\<rparr> q"

text \<open>A source as the offer service sees it.\<close>

definition source_port :: "runtime_env \<Rightarrow> commerce \<Rightarrow> list_env \<Rightarrow> built_source \<Rightarrow> offer_source" where
  "source_port env s inventory source =
     (case source of
        ListSource l \<Rightarrow> \<lparr>SourceName = Moxfield_SourceName l, FindOffers = (\<lambda>q. offers_or_error (Moxfield_FindOffers inventory l q))\<rparr>
      | ShopSource c \<Rightarrow> \<lparr>SourceName = client_domain c, FindOffers = (\<lambda>q. offers_or_error (shop_offers env s c q))\<rparr>)"

definition match_of :: "runtime_env \<Rightarrow> fetchers \<Rightarrow> match_env" where
  "match_of env f = (RtMatch env)\<lparr>MatchFetch := PortFetch f\<rparr>"

definition scry_of :: "runtime_env \<Rightarrow> fetchers \<Rightarrow> scry_env" where
  "scry_of env f = (RtScry env)\<lparr>ScryclFetch := PortFetch f\<rparr>"

definition scryfall_of :: "runtime_env \<Rightarrow> fetchers \<Rightarrow> scryfall" where
  "scryfall_of env f = (RtScryfall env)\<lparr>ScryFetch := PortFetch f\<rparr>"

definition provider_port :: "runtime_env \<Rightarrow> fetchers \<Rightarrow> built_provider \<Rightarrow> offer_source" where
  "provider_port env f p =
     (case p of
        ScryclProvider base exclude \<Rightarrow>
          let c = \<lparr>ScryclURL = base, ScryclExcludeCommunity = exclude\<rparr> in
          \<lparr>SourceName = Scrycl_SourceName (scry_of env f) c, FindOffers = (\<lambda>q. offers_or_error (Scrycl_Search (scry_of env f) c q))\<rparr>
      | TCGMatchProvider c \<Rightarrow>
          \<lparr>SourceName = Tcgmatch_SourceName (match_of env f) c, FindOffers = (\<lambda>q. offers_or_error (Tcgmatch_Search (match_of env f) c q))\<rparr>)"

section \<open>Maps of the catalogue\<close>

text \<open>The entries of a map over the games, and over the stores, that the configuration can name.\<close>

definition entries_of :: "string list \<Rightarrow> (string \<rightharpoonup> 'a) \<Rightarrow> (string \<times> 'a) list" where
  "entries_of keys m = List.map_filter (\<lambda>k. map_option (Pair k) (m k)) keys"

definition named_games :: "config \<Rightarrow> game list" where
  "named_games c = map fst (ConfigGames c) @ tcgmatchGames @ [GameMagic]"

definition named_stores :: "config \<Rightarrow> string list" where
  "named_stores c = map fst (ConfigStores c) @ map (\<lambda>(d, store). StoreName store) (ConfigStores c)"

lemma entries_of_lookup: "map_of (entries_of keys m) k = (if k \<in> set keys then m k else None)"
  by (induction keys) (auto simp: entries_of_def List.map_filter_simps split: option.split)

section \<open>The services of a search (internal/search/service.go)\<close>

record service =
  ServiceSearches :: search_service
  ServiceCards :: card_service
  ServiceOffers :: offer_service
  ServiceStockRepository :: search_repository
  ServiceStocks :: "stock_checker option"
  ServiceCheckouts :: checkout_service
  ServiceOrders :: order_service

text \<open>A repository nobody set yet: a call through it dereferences nil.\<close>

definition nil_call :: "'a io" where
  "nil_call = fail_io (Failure ''panic: nil pointer'')"

definition no_repository :: search_repository where
  "no_repository =
     \<lparr>RepoCreateSearch = (\<lambda>_ _ _. nil_call), RepoGetSearch = (\<lambda>_. nil_call), RepoListResults = (\<lambda>_ _. nil_call),
      RepoCancelSearch = (\<lambda>_ _ _. nil_call), RepoClaimSearchItem = (\<lambda>_ _. nil_call),
      RepoRenewItemLease = (\<lambda>_ _ _. nil_call), RepoCompleteSearchItem = (\<lambda>_ _. nil_call)\<rparr>"

definition WithRepository :: "service \<Rightarrow> search_repository \<Rightarrow> service" where
  "WithRepository s repository =
     s\<lparr>ServiceSearches := (ServiceSearches s)\<lparr>SearchRepository := repository\<rparr>,
       ServiceStockRepository := repository,
       ServiceCheckouts := (ServiceCheckouts s)\<lparr>CheckoutRepository := repository\<rparr>,
       ServiceOrders := (ServiceOrders s)\<lparr>OrdersSearches := repository\<rparr>\<rparr>"

section \<open>The runtime (internal/application/application.go)\<close>

record dispatcher =
  DispatchTasks :: task_queue
  DispatchWake :: "string \<Rightarrow> unit io"

record dependencies =
  DepVault :: "vault option"
  DepQueue :: "dispatcher option"

record runtime =
  RuntimeService :: service
  RuntimeVault :: vault
  RuntimeQueue :: "dispatcher option"
  RuntimeGames :: "game_support list"
  RuntimeStores :: "listed_store list"
  RuntimeShelf :: "list_client list"
  RuntimeLists :: list_env

definition setCatalogTTL :: duration where "setCatalogTTL = 24 * hour"

definition cards_of :: "runtime_env \<Rightarrow> fetchers \<Rightarrow> shops \<Rightarrow> card_service" where
  "cards_of env f s =
     (let games = named_games (ShopsConfig s) in
      \<lparr>SvcMetadata = map (\<lambda>(g, p). (g, case p of ScryfallAnswers \<Rightarrow> Scryfall_CardMetadata (scryfall_of env f)
            | TCGMatchAnswers c \<Rightarrow> Tcgmatch_CardMetadata (match_of env f) c)) (entries_of games (MetadataProviders s)),
       SvcAutocomplete = map (\<lambda>(g, p). (g, case p of ScryfallAnswers \<Rightarrow> Scryfall_Autocomplete (scryfall_of env f)
            | TCGMatchAnswers c \<Rightarrow> Tcgmatch_Autocomplete (match_of env f) c)) (entries_of games (AutocompleteProviders s)),
       SvcNames = map (\<lambda>(g, p). (g, Scryfall_CanonicalName (scryfall_of env f))) (entries_of games (NameProviders s)),
       SvcLanguages = SupportedLanguages (ShopsConfig s)\<rparr>)"

text \<open>The sets of a game are read with what its catalogue kept when the question came.\<close>

definition sets_port :: "runtime_env \<Rightarrow> fetchers \<Rightarrow> game \<times> string \<Rightarrow> game \<times> string list io option" where
  "sets_port env f entry =
     (case entry of (g, base) \<Rightarrow>
        (g, Some (bind_io (GameSets (match_of env f) \<lparr>SetsURL = base, SetsGame = g, SetsTTL = setCatalogTTL\<rparr> (RtSetsKept env g))
                   (\<lambda>(names, kept). return_io names))))"

definition offers_of :: "settings \<Rightarrow> runtime_env \<Rightarrow> fetchers \<Rightarrow> vault \<Rightarrow> commerce \<Rightarrow> list_env \<Rightarrow> offer_service" where
  "offers_of config env f v s inventory =
     (let shops = CommerceShops s; stores = ShopsConfig shops; games = named_games stores in
      \<lparr>SvcProviders = map (\<lambda>(g, p). (g, provider_port env f p)) (entries_of games (Providers shops)),
       SvcSources = [],
       SvcSourcesByGame = map (\<lambda>(g, sources). (g, map (source_port env s inventory) sources)) (SourcesByGame shops),
       SvcCache = Some (VaultCache v), SvcOffers = Some (VaultOffer v),
       SvcCacheNamespace = RtHashConfig env stores @ '':'',
       SvcCacheTTL = CfgOfferCacheTTL config, SvcEmptyCacheTTL = CfgOfferCacheEmptyTTL config,
       SvcSuspiciousPercent = CfgSuspiciousPricePercent config,
       SvcStoreLocations = entries_of (named_stores stores) (Builder_StoreLocations shops),
       SvcSetsByGame = map (sets_port env f) (SetLibraries shops),
       SvcPrintsByGame = map (\<lambda>(g, p). (g, Some (Scryfall_CardPrints (scryfall_of env f)))) (entries_of games (PrintLibraries shops)),
       SvcSinglesOnly = SinglesOnly (RtConfig env) shops, SvcSealedOnly = SealedOnly shops\<rparr>)"

definition BuildRuntime :: "settings \<Rightarrow> runtime_env \<Rightarrow> dependencies \<Rightarrow> failure + runtime" where
  "BuildRuntime config env deps =
     (case DepVault deps of
        None \<Rightarrow> Inl (Failure ''runtime needs persistence'')
      | Some v \<Rightarrow>
          (case LoadStoreConfig (RtConfig env) (RtDecodeStores env) (RtStoresFile env (CfgStoresPath config)) of
             Inl e \<Rightarrow> Inl e
           | Inr stores \<Rightarrow>
               let f = fetchers_of env (buildSourceClient config env (VaultGate v));
                   shops = \<lparr>ShopsConfig = stores, ShopsBuyerName = CfgOrderBuyerName config, ShopsBuyerEmail = CfgOrderBuyerEmail config\<rparr>;
                   inventory = lists_of config env f v;
                   shelf = CollectInventories (SourcesByGame shops);
                   s = commerce_of config env f stores (Some (Shelf_CheckStock inventory shelf));
                   services =
                     \<lparr>ServiceSearches = \<lparr>SearchRepository = no_repository, SearchTasks = None,
                        MaxCards = CfgMaxCardsPerSearch config, MaxQuantity = CfgMaxQuantityPerCard config\<rparr>,
                      ServiceCards = cards_of env f shops,
                      ServiceOffers = offers_of config env f v s inventory,
                      ServiceStockRepository = no_repository, ServiceStocks = Some (Shops_CheckStock s),
                      ServiceCheckouts = \<lparr>CheckoutRepository = no_repository, CheckoutLinker = Some (Shops_CheckoutLink s),
                        CheckoutQuoter = Some (Shops_QuoteCart s)\<rparr>,
                      ServiceOrders = \<lparr>OrdersSearches = no_repository, OrdersRepository = Some (VaultOrders v),
                        OrdersPlacer = Some (Shops_PlaceOrder s), OrdersLinker = Some (Shops_CheckoutLink s)\<rparr>\<rparr>;
                   services = WithRepository services (VaultSearches v);
                   services = services\<lparr>ServiceSearches := (ServiceSearches services)\<lparr>SearchTasks := map_option DispatchTasks (DepQueue deps)\<rparr>\<rparr>
               in Inr \<lparr>RuntimeService = services, RuntimeVault = v, RuntimeQueue = DepQueue deps,
                    RuntimeGames = SupportedGames stores, RuntimeStores = ListedStores stores, RuntimeShelf = shelf,
                    RuntimeLists = inventory\<rparr>))"

section \<open>Operations (internal/application/operations.go, worker.go)\<close>

record operations =
  OpAPI :: api
  OpWorker :: worker
  OpSweeper :: sweeper
  OpDispatcher :: "dispatcher option"
  OpReleaser :: releaser

definition BuildSearchWorker :: "runtime \<Rightarrow> settings \<Rightarrow> worker" where
  "BuildSearchWorker rt config =
     \<lparr>WorkerRepository = VaultSearches (RuntimeVault rt), WorkerOffers = ServiceOffers (RuntimeService rt),
      WorkerStocks = ServiceStocks (RuntimeService rt), WorkerOwner = CfgWorkerID config,
      WorkerLease = CfgLeaseDuration config, WorkerPollInterval = CfgPollInterval config,
      WorkerStockLimit = nat (CfgStockCheckLimit config)\<rparr>"

definition api_of :: "runtime_env \<Rightarrow> runtime \<Rightarrow> settings \<Rightarrow> api" where
  "api_of env rt config =
     (let s = RuntimeService rt; v = RuntimeVault rt in
      \<lparr>ApiToken = CfgAPIToken config, ApiWebhookSecret = CfgOrderWebhookSecret config, ApiGames = RuntimeGames rt,
       ApiStores = RuntimeStores rt, ApiSearches = ServiceSearches s, ApiStocks = ServiceStocks s,
       ApiCheckout = ServiceCheckouts s, ApiOrders = ServiceOrders s, ApiCards = ServiceCards s,
       ApiOffers = ServiceOffers s, ApiSearchEnv = RtSearch env,
       ApiShelf = Some (refresh_port (RuntimeLists rt) (RuntimeShelf rt)), ApiCheckHealth = VaultHealth v,
       ApiListSources = VaultSourceHealth v, ApiFuel = RtFuel env, ApiDigest = RtDigest env, ApiHost = RtHost env,
       ApiSign = RtSign env, ApiDecodeWebhook = RtDecodeWebhook env\<rparr>)"

definition BuildOperations :: "runtime_env \<Rightarrow> runtime \<Rightarrow> settings \<Rightarrow> operations" where
  "BuildOperations env rt config =
     \<lparr>OpAPI = api_of env rt config, OpWorker = BuildSearchWorker rt config,
      OpSweeper = \<lparr>SweepItems = VaultWaiting (RuntimeVault rt),
        SweepQueueWaker = (case RuntimeQueue rt of None \<Rightarrow> (\<lambda>_. nil_call) | Some d \<Rightarrow> DispatchWake d),
        MaxWakes = CfgSweepMaxWakes config\<rparr>,
      OpDispatcher = RuntimeQueue rt,
      OpReleaser = \<lparr>MaxAge = CfgOrderPendingTTL config, MaxReleases = CfgOrderReleaseMaxWakes config\<rparr>\<rparr>"

definition ErrDispatcherMissing :: failure where
  "ErrDispatcherMissing = Failure ''sweep needs a task queue''"

definition ProcessSearch :: "search_env \<Rightarrow> operations \<Rightarrow> string \<Rightarrow> unit io" where
  "ProcessSearch senv op owner =
     (let w = (if owner \<noteq> [] then (OpWorker op)\<lparr>WorkerOwner := owner\<rparr> else OpWorker op) in processNext senv w)"

definition WorkSearches :: "nat \<Rightarrow> search_env \<Rightarrow> operations \<Rightarrow> unit io" where
  "WorkSearches turns senv op = RunWorker turns senv (OpWorker op)"

definition Operations_SweepQueue :: "operations \<Rightarrow> (nat \<times> failure option) io" where
  "Operations_SweepQueue op =
     (if OpDispatcher op = None then return_io (0, Some ErrDispatcherMissing) else SweepQueue (OpSweeper op))"

definition Operations_ReleaseOrders :: "operations \<Rightarrow> nat io" where
  "Operations_ReleaseOrders op = ReleaseOrders (OpReleaser op)"

section \<open>What is offered is asked\<close>

lemma commerce_of_config [simp]: "ShopsConfig (CommerceShops (commerce_of config env f stores inventory)) = stores"
  by (simp add: commerce_of_def)

lemma BuildRuntime_Inr:
  assumes "BuildRuntime config env deps = Inr rt"
  obtains v stores s inventory f where "DepVault deps = Some v" "RuntimeVault rt = v" "RuntimeQueue rt = DepQueue deps"
    and "LoadStoreConfig (RtConfig env) (RtDecodeStores env) (RtStoresFile env (CfgStoresPath config)) = Inr stores"
    and "RuntimeGames rt = SupportedGames stores" and "ShopsConfig (CommerceShops s) = stores"
    and "ServiceOffers (RuntimeService rt) = offers_of config env f v s inventory"
    and "SearchRepository (ServiceSearches (RuntimeService rt)) = VaultSearches v"
    and "OrdersSearches (ServiceOrders (RuntimeService rt)) = VaultSearches v"
    and "CheckoutRepository (ServiceCheckouts (RuntimeService rt)) = VaultSearches v"
    and "ServiceStockRepository (RuntimeService rt) = VaultSearches v"
proof -
  from assms obtain v stores where v: "DepVault deps = Some v"
    and stores: "LoadStoreConfig (RtConfig env) (RtDecodeStores env) (RtStoresFile env (CfgStoresPath config)) = Inr stores"
    by (auto simp: BuildRuntime_def split: option.splits sum.splits)
  let ?f = "fetchers_of env (buildSourceClient config env (VaultGate v))"
  let ?shops = "\<lparr>ShopsConfig = stores, ShopsBuyerName = CfgOrderBuyerName config, ShopsBuyerEmail = CfgOrderBuyerEmail config\<rparr>"
  let ?lists = "lists_of config env ?f v"
  show thesis
    by (rule that [of v stores "commerce_of config env ?f stores (Some (Shelf_CheckStock ?lists (CollectInventories (SourcesByGame ?shops))))"
          ?f ?lists])
       (use assms v stores in \<open>auto simp: BuildRuntime_def WithRepository_def Let_def\<close>)
qed

lemma LoadStoreConfig_valid: "LoadStoreConfig env decode file = Inr c \<Longrightarrow> ValidateConfig env c = None"
  by (auto simp: LoadStoreConfig_def split: sum.splits option.splits)

lemma Providers_named: "Providers s g \<noteq> None \<Longrightarrow> g \<in> set (named_games (ShopsConfig s))"
proof -
  have cast: "g \<in> fst ` set (ConfigGames (ShopsConfig s))"
    if "cast_provider s p m k g \<noteq> None" "m g = None" for p m k
    using that by (force simp: cast_provider_def dest: map_of_SomeD split: option.splits if_splits)
  have casts: "g \<in> fst ` set (ConfigGames (ShopsConfig s))"
    if "foldl (cast_provider s p) m ks g \<noteq> None" "m g = None" for p m ks
    using that
  proof (induction ks arbitrary: m)
    case (Cons k ks)
    then show ?case using cast by (cases "cast_provider s p m k g = None") auto
  qed simp
  have "g \<in> fst ` set (ConfigGames (ShopsConfig s))"
    if "foldl (\<lambda>m (name, p). if \<not> ProviderEnabled p then m else foldl (cast_provider s p) m (ProviderGames p)) m ps g \<noteq> None"
      "m g = None" for m ps
    using that
  proof (induction ps arbitrary: m)
    case (Cons np ps)
    let ?m = "if \<not> ProviderEnabled (snd np) then m else foldl (cast_provider s (snd np)) m (ProviderGames (snd np))"
    have "?m g \<noteq> None \<Longrightarrow> g \<in> fst ` set (ConfigGames (ShopsConfig s))"
      using casts Cons.prems(2) by (auto split: if_splits)
    with Cons show ?case by (cases "?m g = None") (simp_all add: split_beta)
  qed simp
  then show "Providers s g \<noteq> None \<Longrightarrow> g \<in> set (named_games (ShopsConfig s))"
    by (auto simp: Providers_def named_games_def)
qed

lemma offers_of_sources:
  fixes config env f v s inventory
  defines "svc \<equiv> offers_of config env f v s inventory" and "shops \<equiv> CommerceShops s"
  shows "Providers shops g \<noteq> None \<Longrightarrow> map_of (SvcProviders svc) g \<noteq> None"
    and "map_of (SourcesByGame shops) g = Some sources \<Longrightarrow> game_sources svc g = map (source_port env s inventory) sources"
proof -
  assume "Providers shops g \<noteq> None"
  with Providers_named [OF this] have "map_of (entries_of (named_games (ShopsConfig shops)) (Providers shops)) g \<noteq> None"
    by (simp add: entries_of_lookup)
  then show "map_of (SvcProviders svc) g \<noteq> None"
    by (simp add: svc_def offers_of_def Let_def shops_def map_of_map [where f = "\<lambda>p. provider_port env f p"])
next
  assume "map_of (SourcesByGame shops) g = Some sources"
  then show "game_sources svc g = map (source_port env s inventory) sources"
    by (simp add: svc_def offers_of_def game_sources_def lookup_list_def Let_def shops_def
        map_of_map [where f = "map (source_port env s inventory)"])
qed

text \<open>C23 What the runtime offers it can ask: of a runtime that came up, every game its selector lists
  has a provider or a store client behind the offer service the handlers and the worker share, so a
  question about it is asked and not refused as invalid (with no store on \<open>html\<close> and no enabled
  \<open>tcgdex\<close> provider for the game, which count for the selector and have no client).\<close>
theorem runtime_asks_what_it_offers:
  assumes built: "BuildRuntime config env deps = Inr rt"
    and decoded: "RtStoresFile env (CfgStoresPath config) = Inr data" "RtDecodeStores env data = Inr stores"
    and keys: "distinct (map fst (ConfigGames stores))" "distinct (map fst (ConfigStores stores))"
    and offered: "g \<in> set (RuntimeGames rt)"
    and platforms: "list_all (\<lambda>(domain, store). StorePlatform store \<noteq> ''html'') (ConfigStores stores)"
    and types: "list_all (\<lambda>(name, p). provider_serves (SupportKey g) p \<longrightarrow> ProviderType p \<noteq> ''tcgdex'') (ConfigProviders stores)"
  shows "(map_of (SvcProviders (ServiceOffers (RuntimeService rt))) (SupportKey g) \<noteq> None
      \<or> game_sources (ServiceOffers (RuntimeService rt)) (SupportKey g) \<noteq> [])
    \<and> WorkerOffers (BuildSearchWorker rt config) = ServiceOffers (RuntimeService rt)
    \<and> ApiOffers (OpAPI (BuildOperations env rt config)) = ServiceOffers (RuntimeService rt)"
proof -
  from built obtain v loaded s inventory f where
    loaded: "LoadStoreConfig (RtConfig env) (RtDecodeStores env) (RtStoresFile env (CfgStoresPath config)) = Inr loaded"
    and games: "RuntimeGames rt = SupportedGames loaded" and shops: "ShopsConfig (CommerceShops s) = loaded"
    and svc: "ServiceOffers (RuntimeService rt) = offers_of config env f v s inventory"
    by (rule BuildRuntime_Inr)
  have same: "loaded = stores" using loaded decoded by (auto simp: LoadStoreConfig_def split: option.splits)
  note config = shops [unfolded same]
  have "Providers (CommerceShops s) (SupportKey g) \<noteq> None
      \<or> (\<exists>sources. map_of (SourcesByGame (CommerceShops s)) (SupportKey g) = Some sources \<and> sources \<noteq> [])"
    using LoadStoreConfig_valid [OF loaded] keys offered platforms types games
    by (intro offered_game_is_asked [where env = "RtConfig env"]) (simp_all add: config same)
  then have "map_of (SvcProviders (offers_of config env f v s inventory)) (SupportKey g) \<noteq> None
      \<or> game_sources (offers_of config env f v s inventory) (SupportKey g) \<noteq> []"
    by (metis (no_types, lifting) Nil_is_map_conv offers_of_sources)
  then show ?thesis by (simp add: svc BuildSearchWorker_def BuildOperations_def api_of_def Let_def)
qed

section \<open>A runtime over one shop\<close>

definition demo_runtime_env :: runtime_env where
  "demo_runtime_env = \<lparr>RtText = plain_env, RtSearch = demo_search, RtConfig = demo_config_env,
     RtFetch = demo_fetch_env, RtSend = (\<lambda>_. fail_io (Failure ''down'')), RtSession = (\<lambda>_. fail_io (Failure ''down'')),
     RtShopify = demo_shopify, RtWoo = demo_woo, RtJump = demo_jump, RtPresta = demo_presta, RtLists = demo_list_env,
     RtMatch = demo_match, RtScry = demo_scry, RtScryfall = demo_scryfall, RtIsJson = (\<lambda>_. True),
     RtHashConfig = (\<lambda>_. ''h''), RtStoresFile = Inr, RtDecodeStores = (\<lambda>_. Inr (ShopsConfig demo_shops)),
     RtDigest = (\<lambda>_. ''d''), RtHost = (\<lambda>_. None), RtSign = (\<lambda>_ _. []), RtDecodeWebhook = (\<lambda>_. None), RtFuel = 9,
     RtSetsKept = (\<lambda>_. \<lparr>SetsNames = None, SetsReadAt = 0\<rparr>)\<rparr>"

definition demo_dependencies :: dependencies where
  "demo_dependencies = \<lparr>DepVault = Some (New plain_env hour), DepQueue = None\<rparr>"

lemma demo_stores_load:
  "LoadStoreConfig (RtConfig demo_runtime_env) (RtDecodeStores demo_runtime_env) (RtStoresFile demo_runtime_env path)
    = Inr (ShopsConfig demo_shops)"
  using demo_valid by (simp add: LoadStoreConfig_def demo_runtime_env_def)

lemma demo_runtime: "\<exists>rt. BuildRuntime c demo_runtime_env demo_dependencies = Inr rt \<and> RuntimeGames rt = SupportedGames (ShopsConfig demo_shops)"
  by (simp add: BuildRuntime_def demo_stores_load demo_dependencies_def Let_def)

theorem runtime_asks_what_it_offers_witness:
  "\<exists>rt. BuildRuntime (read_settings demo_host) demo_runtime_env demo_dependencies = Inr rt
     \<and> game_sources (ServiceOffers (RuntimeService rt)) ''magic'' \<noteq> []"
proof -
  from demo_runtime obtain rt where rt: "BuildRuntime (read_settings demo_host) demo_runtime_env demo_dependencies = Inr rt"
    "RuntimeGames rt = SupportedGames (ShopsConfig demo_shops)" by blast
  let ?g = "support_of (ShopsConfig demo_shops) (''magic'', demo_game ''magic'')"
  have stored: "RtStoresFile demo_runtime_env (CfgStoresPath (read_settings demo_host)) = Inr (CfgStoresPath (read_settings demo_host))"
    "RtDecodeStores demo_runtime_env (CfgStoresPath (read_settings demo_host)) = Inr (ShopsConfig demo_shops)"
    by (simp_all add: demo_runtime_env_def)
  have key: "SupportKey ?g = ''magic''" by (simp add: support_of_def Let_def)
  have offered: "?g \<in> set (RuntimeGames rt)" using demo_supported by (simp add: rt(2))
  have shape: "distinct (map fst (ConfigGames (ShopsConfig demo_shops)))" "distinct (map fst (ConfigStores (ShopsConfig demo_shops)))"
    "list_all (\<lambda>(domain, store). StorePlatform store \<noteq> ''html'') (ConfigStores (ShopsConfig demo_shops))"
    "list_all (\<lambda>(name, p). provider_serves (SupportKey ?g) p \<longrightarrow> ProviderType p \<noteq> ''tcgdex'') (ConfigProviders (ShopsConfig demo_shops))"
    by (simp_all add: demo_shop_defs)
  from runtime_asks_what_it_offers [OF rt(1) stored shape(1,2) offered shape(3,4)]
  have "map_of (SvcProviders (ServiceOffers (RuntimeService rt))) ''magic'' \<noteq> None
      \<or> game_sources (ServiceOffers (RuntimeService rt)) ''magic'' \<noteq> []" by (simp only: key)
  moreover have "map_of (SvcProviders (ServiceOffers (RuntimeService rt))) ''magic'' = None"
  proof -
    from rt(1) obtain v stores s inventory f where
      loaded: "LoadStoreConfig (RtConfig demo_runtime_env) (RtDecodeStores demo_runtime_env)
        (RtStoresFile demo_runtime_env (CfgStoresPath (read_settings demo_host))) = Inr stores"
      and config: "ShopsConfig (CommerceShops s) = stores"
      and svc: "ServiceOffers (RuntimeService rt) = offers_of (read_settings demo_host) demo_runtime_env f v s inventory"
      by (rule BuildRuntime_Inr)
    have "ShopsConfig (CommerceShops s) = ShopsConfig demo_shops" using loaded by (simp add: config demo_stores_load)
    then have "Providers (CommerceShops s) = Map.empty" by (simp add: Providers_def demo_shop_defs)
    then show ?thesis
      by (simp add: svc offers_of_def Let_def entries_of_lookup map_of_map [where f = "\<lambda>p. provider_port demo_runtime_env f p"])
  qed
  ultimately show ?thesis using rt(1) by blast
qed

end
