(* ===== verification/Hosting.thy ===== *)
theory Hosting
  imports Runtime WorkerProperties
begin

text \<open>
  internal/hosting, internal/gcp/runtime.go, function.go, cmd/muchi-api/main.go and
  internal/metrics: how a process starts an application instance, keeps it, serves its triggers and
  closes it.

  What a start meets (the environment, whether the database and the task queue open and close) is
  the record \<open>startup\<close>.  Opening and closing leave a trace of events, each with the number of the
  start that opened it.  \<open>errors.Join\<close> is the list of the failures that are not nil.  The lock of
  the loader and the 30 seconds of a start do not show in one thread.
\<close>

section \<open>One start (internal/gcp/runtime.go)\<close>

datatype resource = StoreOf nat | QueueOf nat

datatype resource_event = Opened resource | Closed resource

record startup =
  StartHost :: host_env
  StartOpenStore :: "string \<Rightarrow> failure option"
  StartTasks :: "failure + (string \<Rightarrow> unit io) \<times> (failure \<Rightarrow> bool)"
  StartStamp :: "time \<Rightarrow> string"
  StartNextWake :: "nat io"
  StartCloseStore :: "failure option"
  StartCloseQueue :: "failure option"
  StartEnv :: runtime_env

record instance_record =
  InstanceOperations :: operations
  InstanceSettings :: settings
  InstanceClose :: "failure list \<times> resource_event list"

definition join_errors :: "failure option list \<Rightarrow> failure list" where
  "join_errors es = List.map_filter id es"

text \<open>internal/taskqueue: the queue as the runtime holds it.  \<open>StartTasks\<close> is the client of Cloud Tasks,
  \<open>StartStamp\<close> the format of a time, \<open>StartNextWake\<close> the counter of the process.\<close>

definition OpenQueue :: "startup \<Rightarrow> cloud_settings \<Rightarrow> failure + task_client" where
  "OpenQueue st cloud =
     map_sum id (\<lambda>(create, known_task).
       \<lparr>TaskParent = ''projects/'' @ CloudProjectID cloud @ ''/locations/'' @ CloudTaskRegion cloud @ ''/queues/'' @ CloudTaskQueue cloud,
        CreateTask = create, TaskExists = known_task\<rparr>) (StartTasks st)"

definition dispatcher_of :: "startup \<Rightarrow> task_client \<Rightarrow> dispatcher" where
  "dispatcher_of st q =
     \<lparr>DispatchTasks = DispatchSearch q,
      DispatchWake = (\<lambda>reason. bind_io now (\<lambda>t. bind_io (StartNextWake st) (\<lambda>n. WakeWorker q (StartStamp st t) n reason)))\<rparr>"

definition openDispatcher :: "startup \<Rightarrow> cloud_settings \<Rightarrow> bool \<Rightarrow> failure + dispatcher option" where
  "openDispatcher st cloud queued =
     (if \<not> queued \<or> CloudTaskURL cloud = [] then Inr None else map_sum id (\<lambda>q. Some (dispatcher_of st q)) (OpenQueue st cloud))"

text \<open>The closure \<open>close\<close>: the queue first, when one was opened, then the database.\<close>

definition close_resources :: "startup \<Rightarrow> nat \<Rightarrow> dispatcher option \<Rightarrow> failure list \<times> resource_event list" where
  "close_resources st n q =
     (case q of
        None \<Rightarrow> (join_errors [StartCloseStore st], [Closed (StoreOf n)])
      | Some _ \<Rightarrow> (join_errors [StartCloseQueue st, StartCloseStore st], [Closed (QueueOf n), Closed (StoreOf n)]))"

definition OpenInstance :: "startup \<Rightarrow> bool \<Rightarrow> nat \<Rightarrow> (failure list + instance_record) \<times> resource_event list" where
  "OpenInstance st queued n =
     (case LoadConfig (StartHost st) of
        Inl e \<Rightarrow> (Inl [e], [])
      | Inr config \<Rightarrow>
     (case LoadSettings (StartHost st) of
        Inl e \<Rightarrow> (Inl [e], [])
      | Inr cloud \<Rightarrow>
     (case StartOpenStore st (CloudProjectID cloud) of
        Some e \<Rightarrow> (Inl [e], [])
      | None \<Rightarrow>
     (let v = New (RtText (StartEnv st)) (CfgSearchTTL config) in
      case openDispatcher st cloud queued of
        Inl e \<Rightarrow> (Inl (join_errors [Some e, StartCloseStore st]), [Opened (StoreOf n), Closed (StoreOf n)])
      | Inr q \<Rightarrow>
          let opened = [Opened (StoreOf n)] @ (if q = None then [] else [Opened (QueueOf n)]) in
          (case BuildRuntime config (StartEnv st) \<lparr>DepVault = Some v, DepQueue = q\<rparr> of
             Inl e \<Rightarrow> (Inl (e # fst (close_resources st n q)), opened @ snd (close_resources st n q))
           | Inr rt \<Rightarrow>
               (Inr \<lparr>InstanceOperations = BuildOperations (StartEnv st) rt config, InstanceSettings = config,
                  InstanceClose = close_resources st n q\<rparr>, opened))))))"

section \<open>The loader (internal/hosting/loader.go)\<close>

text \<open>\<open>LoaderStarts\<close> counts the starts, and \<open>LoaderTrace\<close> is what they and the closes did.\<close>

record loader =
  LoaderDispatch :: bool
  LoaderInstance :: "instance_record option"
  LoaderStarts :: nat
  LoaderTrace :: "resource_event list"

definition BuildLoader :: "bool \<Rightarrow> loader" where
  "BuildLoader queued = \<lparr>LoaderDispatch = queued, LoaderInstance = None, LoaderStarts = 0, LoaderTrace = []\<rparr>"

definition LoadInstance :: "startup \<Rightarrow> loader \<Rightarrow> (failure list + instance_record) \<times> loader" where
  "LoadInstance st l =
     (case LoaderInstance l of
        Some i \<Rightarrow> (Inr i, l)
      | None \<Rightarrow>
          (case OpenInstance st (LoaderDispatch l) (LoaderStarts l) of
             (r, events) \<Rightarrow>
               let l = l\<lparr>LoaderStarts := Suc (LoaderStarts l), LoaderTrace := LoaderTrace l @ events\<rparr> in
               (r, case r of Inl _ \<Rightarrow> l | Inr i \<Rightarrow> l\<lparr>LoaderInstance := Some i\<rparr>)))"

definition CloseInstance :: "loader \<Rightarrow> failure list \<times> loader" where
  "CloseInstance l =
     (case LoaderInstance l of
        None \<Rightarrow> ([], l)
      | Some i \<Rightarrow> (fst (InstanceClose i), l\<lparr>LoaderInstance := None, LoaderTrace := LoaderTrace l @ snd (InstanceClose i)\<rparr>))"

section \<open>Triggers over HTTP (internal/hosting/http.go)\<close>

datatype host_reply =
    HostError int string
  | HostEmpty int
  | HostJson string
  | HostAPI Answers.http_reply

definition unavailable :: host_reply where
  "unavailable = HostError 503 ''Service unavailable''"

definition ServeAPI :: "startup \<Rightarrow> Answers.http_request \<Rightarrow> route \<Rightarrow> loader \<Rightarrow> host_reply io \<times> loader" where
  "ServeAPI st r route l =
     (case LoadInstance st l of
        (Inl _, l) \<Rightarrow> (return_io unavailable, l)
      | (Inr i, l) \<Rightarrow> (bind_io (BuildHandler (OpAPI (InstanceOperations i)) r route) (\<lambda>a. return_io (HostAPI a)), l))"

definition ServeSearch :: "startup \<Rightarrow> string \<Rightarrow> loader \<Rightarrow> host_reply io \<times> loader" where
  "ServeSearch st owner l =
     (case LoadInstance st l of
        (Inl _, l) \<Rightarrow> (return_io unavailable, l)
      | (Inr i, l) \<Rightarrow>
          (bind_io (try_io (ProcessSearch (RtSearch (StartEnv st)) (InstanceOperations i) owner)) (\<lambda>r.
             return_io (case r of
                 Inr _ \<Rightarrow> HostEmpty 204
               | Inl e \<Rightarrow> if e \<noteq> ErrNotFound then HostError 500 ''Task failed'' else HostEmpty 204)), l))"

definition ServeSweep :: "startup \<Rightarrow> loader \<Rightarrow> host_reply io \<times> loader" where
  "ServeSweep st l =
     (case LoadInstance st l of
        (Inl _, l) \<Rightarrow> (return_io unavailable, l)
      | (Inr i, l) \<Rightarrow>
          (bind_io (Operations_SweepQueue (InstanceOperations i)) (\<lambda>(woken, err).
             return_io (case err of
                 Some e \<Rightarrow> if e = ErrDispatcherMissing then unavailable else HostError 500 ''Sweep failed''
               | None \<Rightarrow> HostJson (''{\"woken\":'' @ Itoa (int woken) @ ''}''))), l))"

definition ServeRelease :: "startup \<Rightarrow> loader \<Rightarrow> host_reply io \<times> loader" where
  "ServeRelease st l =
     (case LoadInstance st l of
        (Inl _, l) \<Rightarrow> (return_io unavailable, l)
      | (Inr i, l) \<Rightarrow>
          (bind_io (try_io (Operations_ReleaseOrders (InstanceOperations i))) (\<lambda>r.
             return_io (case r of
                 Inl _ \<Rightarrow> HostError 500 ''Release failed''
               | Inr released \<Rightarrow> HostJson (''{\"released\":'' @ Itoa (int released) @ ''}''))), l))"

section \<open>The functions of the cloud (function.go)\<close>

text \<open>Each entry point has a loader of its own; a search is named by its task.\<close>

record hosts =
  ApiHostLoader :: loader
  TaskHostLoader :: loader
  SweepHostLoader :: loader
  ReleaseHostLoader :: loader

definition function_hosts :: hosts where
  "function_hosts = \<lparr>ApiHostLoader = BuildLoader True, TaskHostLoader = BuildLoader False,
     SweepHostLoader = BuildLoader True, ReleaseHostLoader = BuildLoader False\<rparr>"

datatype trigger = ApiTrigger Answers.http_request route | TaskTrigger Answers.http_request | SweepTrigger | ReleaseTrigger

fun serve_function :: "startup \<Rightarrow> trigger \<Rightarrow> hosts \<Rightarrow> host_reply io \<times> hosts" where
  "serve_function st (ApiTrigger r route) h = map_prod id (\<lambda>l. h\<lparr>ApiHostLoader := l\<rparr>) (ServeAPI st r route (ApiHostLoader h))"
| "serve_function st (TaskTrigger r) h =
     map_prod id (\<lambda>l. h\<lparr>TaskHostLoader := l\<rparr>) (ServeSearch st (ReqHeader r ''X-CloudTasks-TaskName'') (TaskHostLoader h))"
| "serve_function st SweepTrigger h = map_prod id (\<lambda>l. h\<lparr>SweepHostLoader := l\<rparr>) (ServeSweep st (SweepHostLoader h))"
| "serve_function st ReleaseTrigger h = map_prod id (\<lambda>l. h\<lparr>ReleaseHostLoader := l\<rparr>) (ServeRelease st (ReleaseHostLoader h))"

section \<open>Commands (cmd/muchi-api/main.go)\<close>

record http_server =
  ServerAddr :: string
  ServerReadHeaderTimeout :: duration
  ServerReadTimeout :: duration
  ServerWriteTimeout :: duration
  ServerIdleTimeout :: duration

definition buildAPIServer :: "settings \<Rightarrow> http_server" where
  "buildAPIServer config =
     \<lparr>ServerAddr = CfgAddress config, ServerReadHeaderTimeout = CfgServerReadHeaderTimeout config,
      ServerReadTimeout = CfgServerReadTimeout config, ServerWriteTimeout = CfgServerWriteTimeout config,
      ServerIdleTimeout = CfgServerIdleTimeout config\<rparr>"

text \<open>What the server answers: \<open>ListenAndServe\<close> always fails, \<open>Shutdown\<close> and \<open>Close\<close> may.\<close>

record server_run =
  RunListen :: "http_server \<Rightarrow> failure"
  RunShutdown :: "duration \<Rightarrow> failure option"
  RunClose :: "failure option"

definition ErrServerClosed :: failure where "ErrServerClosed = Failure ''http: Server closed''"

definition stopServer :: "server_run \<Rightarrow> duration \<Rightarrow> failure list" where
  "stopServer s timeout =
     (case RunShutdown s timeout of None \<Rightarrow> [] | Some e \<Rightarrow> join_errors [Some e, RunClose s])"

definition serveAPI :: "server_run \<Rightarrow> settings \<Rightarrow> failure list" where
  "serveAPI s config =
     (let err = RunListen s (buildAPIServer config)
      in (if err = ErrServerClosed then [] else [err]) @ stopServer s (CfgServerShutdownTimeout config))"

definition validCommand :: "string \<Rightarrow> bool" where
  "validCommand command \<longleftrightarrow> command \<in> {''serve'', ''work'', ''process'', ''sweep'', ''release''}"

text \<open>A command answers its failures; a worker that runs for ever runs as long as its turns.\<close>

definition answer_failures :: "'a io \<Rightarrow> (failure \<Rightarrow> bool) \<Rightarrow> failure list io" where
  "answer_failures m forgiven =
     bind_io (try_io m) (\<lambda>r. return_io (case r of Inr _ \<Rightarrow> [] | Inl e \<Rightarrow> if forgiven e then [] else [e]))"

definition executeCommand ::
  "search_env \<Rightarrow> nat \<Rightarrow> server_run \<Rightarrow> string \<Rightarrow> instance_record \<Rightarrow> failure list io" where
  "executeCommand senv turns s command i =
     (let op = InstanceOperations i in
      if command = ''serve'' then return_io (serveAPI s (InstanceSettings i))
      else if command = ''work'' then answer_failures (WorkSearches turns senv op) (\<lambda>_. False)
      else if command = ''process''
        then answer_failures (ProcessSearch senv op (CfgWorkerID (InstanceSettings i))) (\<lambda>e. e = ErrNotFound)
      else if command = ''sweep''
        then bind_io (Operations_SweepQueue op) (\<lambda>(woken, err). return_io (join_errors [err]))
      else if command = ''release'' then answer_failures (Operations_ReleaseOrders op) (\<lambda>_. False)
      else return_io [Failure ''unknown command''])"

text \<open>A cancelled command is no failure; whatever the command did, the instance is closed.\<close>

definition runCommand ::
  "startup \<Rightarrow> nat \<Rightarrow> server_run \<Rightarrow> string list \<Rightarrow> (failure list \<times> resource_event list) io" where
  "runCommand st turns s args =
     (case args of
        [command] \<Rightarrow>
          if \<not> validCommand command then return_io ([Failure ''usage: muchi-api serve|work|process|sweep|release''], [])
          else (case LoadInstance st (BuildLoader (command = ''serve'' \<or> command = ''sweep'')) of
                  (Inl es, l) \<Rightarrow> return_io (es, LoaderTrace l)
                | (Inr i, l) \<Rightarrow>
                    bind_io (executeCommand (RtSearch (StartEnv st)) turns s command i) (\<lambda>result.
                      let result = (if result = [ContextDone] then [] else result);
                          (closing, l) = CloseInstance l
                      in return_io (result @ closing, LoaderTrace l)))
      | _ \<Rightarrow> return_io ([Failure ''usage: muchi-api serve|work|process|sweep|release''], []))"

definition exit_code :: "failure list \<Rightarrow> nat" where
  "exit_code es = (if es \<noteq> [] \<and> ContextDone \<notin> set es then 1 else 0)"

section \<open>Metrics (internal/metrics/prometheus.go)\<close>

record metrics =
  MetricRequests :: "string \<times> string \<Rightarrow> nat"
  MetricDurations :: "string \<Rightarrow> duration list"

definition NewMetrics :: metrics where
  "NewMetrics = \<lparr>MetricRequests = (\<lambda>_. 0), MetricDurations = (\<lambda>_. [])\<rparr>"

text \<open>\<open>statusWriter\<close> keeps the last status written, 200 when none was.\<close>

definition status_written :: "int list \<Rightarrow> int" where
  "status_written headers = foldl (\<lambda>status h. h) 200 headers"

definition MeasureRequests :: "string \<Rightarrow> int list \<Rightarrow> time \<Rightarrow> time \<Rightarrow> metrics \<Rightarrow> metrics" where
  "MeasureRequests method headers begun ended m =
     (let key = (method, Itoa (status_written headers))
      in m\<lparr>MetricRequests := (MetricRequests m)(key := Suc (MetricRequests m key)),
           MetricDurations := (MetricDurations m)(method := MetricDurations m method @ [ended - begun])\<rparr>)"

section \<open>Nothing stays open\<close>

text \<open>The resources open after a trace; \<open>None\<close> when one was opened twice, or closed while not open.\<close>

fun run_events :: "resource list \<Rightarrow> resource_event list \<Rightarrow> resource list option" where
  "run_events held [] = Some held"
| "run_events held (Opened r # es) = (if r \<in> set held then None else run_events (r # held) es)"
| "run_events held (Closed r # es) = (if r \<notin> set held then None else run_events (remove1 r held) es)"

lemma run_events_append: "run_events held (a @ b) = Option.bind (run_events held a) (\<lambda>h. run_events h b)"
  by (induction held a rule: run_events.induct) auto

definition started_clean :: "nat \<Rightarrow> (failure list + instance_record) \<times> resource_event list \<Rightarrow> bool" where
  "started_clean n start \<longleftrightarrow>
     (case start of
        (Inl es, tr) \<Rightarrow> es \<noteq> [] \<and> run_events [] tr = Some []
      | (Inr i, tr) \<Rightarrow>
          (case run_events [] tr of
             None \<Rightarrow> False
           | Some held \<Rightarrow> StoreOf n \<in> set held \<and> run_events held (snd (InstanceClose i)) = Some []))"

lemma OpenInstance_clean: "started_clean n (OpenInstance st queued n)"
  by (auto simp: started_clean_def OpenInstance_def close_resources_def join_errors_def List.map_filter_def Let_def
      split: sum.splits option.splits)

text \<open>C15 A start that fails leaves nothing open, and one that succeeds hands over how to close all it
  opened: on every path, through the settings, the database, the task queue and the composition of the
  runtime, what was opened is closed exactly once, by the start itself or by the instance.\<close>
theorem startup_leaks_nothing:
  "case OpenInstance st queued n of
     (Inl es, tr) \<Rightarrow> es \<noteq> [] \<and> run_events [] tr = Some []
   | (Inr i, tr) \<Rightarrow>
       (case run_events [] tr of
          None \<Rightarrow> False
        | Some held \<Rightarrow> StoreOf n \<in> set held \<and> run_events held (snd (InstanceClose i)) = Some [])"
  using OpenInstance_clean [of n st queued] by (simp add: started_clean_def)

datatype loader_call = CallLoad startup | CallClose

fun loader_step :: "loader_call \<Rightarrow> loader \<Rightarrow> loader" where
  "loader_step (CallLoad st) l = snd (LoadInstance st l)"
| "loader_step CallClose l = snd (CloseInstance l)"

text \<open>What is open is what the instance the loader holds will close.\<close>

definition loader_ok :: "loader \<Rightarrow> bool" where
  "loader_ok l \<longleftrightarrow>
     (case LoaderInstance l of
        None \<Rightarrow> run_events [] (LoaderTrace l) = Some []
      | Some i \<Rightarrow> (\<exists>held. run_events [] (LoaderTrace l) = Some held \<and> held \<noteq> []
          \<and> run_events held (snd (InstanceClose i)) = Some []))"

lemma loader_ok_step: "loader_ok l \<Longrightarrow> loader_ok (loader_step call l)"
proof (cases call)
  case (CallLoad st)
  assume ok: "loader_ok l"
  show ?thesis
  proof (cases "LoaderInstance l")
    case None
    obtain r tr where start: "OpenInstance st (LoaderDispatch l) (LoaderStarts l) = (r, tr)" by force
    with OpenInstance_clean [of "LoaderStarts l" st "LoaderDispatch l"] have clean: "started_clean (LoaderStarts l) (r, tr)" by simp
    from ok None have "run_events [] (LoaderTrace l) = Some []" by (simp add: loader_ok_def)
    with clean None start CallLoad show ?thesis
      by (cases r) (auto simp: loader_ok_def LoadInstance_def started_clean_def run_events_append Let_def split: option.splits)
  qed (use ok CallLoad in \<open>simp add: LoadInstance_def\<close>)
next
  case CallClose
  assume "loader_ok l"
  with CallClose show ?thesis
    by (cases "LoaderInstance l") (auto simp: loader_ok_def CloseInstance_def run_events_append)
qed

lemma loader_ok_run: "loader_ok l \<Longrightarrow> loader_ok (fold loader_step script l)"
  by (induction script arbitrary: l) (simp_all add: loader_ok_step)

text \<open>C16 A loader holds at most one instance and loses none: after any calls that load and close, in
  any order and with any starts failing, the resources that are open are those the held instance
  will close, none when it holds none; a call while it holds one starts nothing and answers that
  one, and a call after a failed start starts again.\<close>
theorem loader_holds_one_instance:
  "let l = fold loader_step script (BuildLoader queued) in
     (case LoaderInstance l of
        None \<Rightarrow> run_events [] (LoaderTrace l) = Some []
          \<and> LoaderStarts (snd (LoadInstance st l)) = Suc (LoaderStarts l)
      | Some i \<Rightarrow> LoadInstance st l = (Inr i, l)
          \<and> run_events [] (LoaderTrace (snd (CloseInstance l))) = Some []
          \<and> LoaderInstance (snd (CloseInstance l)) = None)"
proof -
  let ?l = "fold loader_step script (BuildLoader queued)"
  have ok: "loader_ok ?l" by (rule loader_ok_run) (simp add: loader_ok_def BuildLoader_def)
  show ?thesis
  proof (cases "LoaderInstance ?l")
    case None
    with ok show ?thesis
      by (auto simp: loader_ok_def LoadInstance_def Let_def split: prod.splits sum.splits)
  next
    case (Some i)
    with ok show ?thesis
      by (auto simp: loader_ok_def LoadInstance_def CloseInstance_def run_events_append Let_def)
  qed
qed

section \<open>A task is a turn\<close>

definition turn_worker :: "operations \<Rightarrow> string \<Rightarrow> worker" where
  "turn_worker op owner = (if owner \<noteq> [] then (OpWorker op)\<lparr>WorkerOwner := owner\<rparr> else OpWorker op)"

lemma ProcessSearch_turn: "ProcessSearch senv op owner = processNext senv (turn_worker op owner)"
  by (simp add: ProcessSearch_def turn_worker_def)

lemma OpenInstance_worker:
  assumes "OpenInstance st queued n = (Inr i, tr)"
  shows "WorkerRepository (turn_worker (InstanceOperations i) owner)
      = store_repository (RtText (StartEnv st)) (CfgSearchTTL (InstanceSettings i))"
    and "WorkerLease (turn_worker (InstanceOperations i) owner) = CfgLeaseDuration (InstanceSettings i)"
    and "WorkerOwner (turn_worker (InstanceOperations i) owner) = (if owner \<noteq> [] then owner else CfgWorkerID (InstanceSettings i))"
proof -
  from assms obtain config rt q where rt: "BuildRuntime config (StartEnv st)
      \<lparr>DepVault = Some (New (RtText (StartEnv st)) (CfgSearchTTL config)), DepQueue = q\<rparr> = Inr rt"
    and i: "InstanceOperations i = BuildOperations (StartEnv st) rt config" "InstanceSettings i = config"
    by (auto simp: OpenInstance_def Let_def split: sum.splits option.splits)
  from rt have v: "RuntimeVault rt = New (RtText (StartEnv st)) (CfgSearchTTL config)"
    by (rule BuildRuntime_Inr) simp
  show "WorkerRepository (turn_worker (InstanceOperations i) owner)
      = store_repository (RtText (StartEnv st)) (CfgSearchTTL (InstanceSettings i))"
    "WorkerLease (turn_worker (InstanceOperations i) owner) = CfgLeaseDuration (InstanceSettings i)"
    "WorkerOwner (turn_worker (InstanceOperations i) owner) = (if owner \<noteq> [] then owner else CfgWorkerID (InstanceSettings i))"
    by (simp_all add: turn_worker_def i BuildOperations_def BuildSearchWorker_def v New_def)
qed


text \<open>A worker whose only game is turned off.\<close>

definition bare_config :: config where
  "bare_config = (ShopsConfig demo_shops)\<lparr>ConfigGames := map (\<lambda>(k, g). (k, g\<lparr>GameEnabled := False\<rparr>)) (ConfigGames (ShopsConfig demo_shops))\<rparr>"

definition demo_startup :: startup where
  "demo_startup = \<lparr>StartHost = demo_host, StartOpenStore = (\<lambda>_. None), StartTasks = Inl (Failure ''down''),
     StartStamp = (\<lambda>_. []), StartNextWake = return_io 0, StartCloseStore = None, StartCloseQueue = None,
     StartEnv = demo_runtime_env\<lparr>RtDecodeStores := \<lambda>_. Inr bare_config\<rparr>\<rparr>"

lemma bare_valid: "ValidateConfig demo_config_env bare_config = None"
  by code_simp

lemma demo_startup_envs:
  "RtText (StartEnv demo_startup) = plain_env" "RtSearch (StartEnv demo_startup) = demo_search"
  "LoadStoreConfig (RtConfig (StartEnv demo_startup)) (RtDecodeStores (StartEnv demo_startup))
     (RtStoresFile (StartEnv demo_startup) path) = Inr bare_config"
  using bare_valid by (simp_all add: demo_startup_def demo_runtime_env_def LoadStoreConfig_def)

lemma demo_opens:
  "\<exists>i tr. OpenInstance demo_startup False 0 = (Inr i, tr) \<and> CfgLeaseDuration (InstanceSettings i) = minute"
proof -
  have config: "LoadConfig demo_host = Inr (read_settings demo_host)"
    by (simp add: LoadConfig_Inr loadDotenv_def demo_host_def)
  have lease: "CfgLeaseDuration (read_settings demo_host) = minute" by code_simp
  have cloud: "\<exists>c. LoadSettings demo_host = Inr c"
    by (simp add: LoadSettings_def task_deadline_def demo_host_def)
  have host: "StartHost demo_startup = demo_host" "StartOpenStore demo_startup p = None" for p
    by (simp_all add: demo_startup_def)
  show ?thesis using cloud lease
    by (auto simp: OpenInstance_def host config openDispatcher_def BuildRuntime_def demo_startup_envs Let_def)
qed

lemma demo_uncached: "row_of OfferCache k (wdb (snd demo_claimed)) = None"
proof -
  have "db_offer_cache (wdb (snd (stage_claim (stage_fill (stage_open (calm_world empty_db)))))) = []"
    by code_simp
  then show ?thesis by (simp add: demo_claimed_def demo_filled_def demo_opened_def row_of_def)
qed

lemma bare_shop:
  assumes "ShopsConfig s = bare_config"
  shows "Providers s = Map.empty" "SourcesByGame s = []"
  using assms by (simp_all add: Providers_def SourcesByGame_def bare_config_def demo_shop_defs List.map_filter_simps)

lemma bare_offers:
  assumes "OpenInstance demo_startup queued n = (Inr i, tr)"
  shows "SvcProviders (WorkerOffers (turn_worker (InstanceOperations i) owner)) = []"
    and "game_sources (WorkerOffers (turn_worker (InstanceOperations i) owner)) g = []"
    and "SvcCache (WorkerOffers (turn_worker (InstanceOperations i) owner)) = Some repository_cache"
proof -
  from assms obtain config rt q where rt: "BuildRuntime config (StartEnv demo_startup)
      \<lparr>DepVault = Some (New (RtText (StartEnv demo_startup)) (CfgSearchTTL config)), DepQueue = q\<rparr> = Inr rt"
    and i: "InstanceOperations i = BuildOperations (StartEnv demo_startup) rt config"
    by (auto simp: OpenInstance_def Let_def split: sum.splits option.splits)
  from rt obtain v stores s inventory f where kept: "Some (New (RtText (StartEnv demo_startup)) (CfgSearchTTL config)) = Some v"
    and loaded: "LoadStoreConfig (RtConfig (StartEnv demo_startup)) (RtDecodeStores (StartEnv demo_startup))
      (RtStoresFile (StartEnv demo_startup) (CfgStoresPath config)) = Inr stores"
    and stores: "ShopsConfig (CommerceShops s) = stores"
    and svc: "ServiceOffers (RuntimeService rt) = offers_of config (StartEnv demo_startup) f v s inventory"
    by (rule BuildRuntime_Inr) (simp only: dependencies.simps)
  from kept have v: "VaultCache v = repository_cache" by (auto simp: New_def)
  from loaded stores have "ShopsConfig (CommerceShops s) = bare_config" by (simp add: demo_startup_envs)
  note bare = bare_shop [OF this]
  have offers: "WorkerOffers (turn_worker (InstanceOperations i) owner) = offers_of config (StartEnv demo_startup) f v s inventory"
    by (simp add: turn_worker_def i BuildOperations_def BuildSearchWorker_def svc)
  show "SvcProviders (WorkerOffers (turn_worker (InstanceOperations i) owner)) = []"
    "game_sources (WorkerOffers (turn_worker (InstanceOperations i) owner)) g = []"
    "SvcCache (WorkerOffers (turn_worker (InstanceOperations i) owner)) = Some repository_cache"
    by (simp_all add: offers offers_of_def Let_def bare v game_sources_def lookup_list_def entries_of_def map_filter_def)
qed

lemma bare_work:
  assumes "SvcProviders (WorkerOffers wk) = []" "\<And>g. game_sources (WorkerOffers wk) g = []"
    and "SvcCache (WorkerOffers wk) = Some repository_cache"
    and calm: "calm w" "\<not> tx_open w" and none: "\<And>k. row_of OfferCache k (wdb w) = None"
    and it: "\<not> ItemVerifyStock it"
  shows "\<exists>w'. work_item env wk it w = (Inr (applyItemResult (it\<lparr>ItemFaults := []\<rparr>) [] (Some ErrInvalid), []), w')
    \<and> (w' = w \<or> w' = w\<lparr>calls := Suc (calls w)\<rparr>)"
proof -
  have get: "Get OfferCache k w = (Inl ErrMissing, w\<lparr>calls := Suc (calls w)\<rparr>)" for k
    using calm by (simp add: calm_Get none)
  have load: "loadOfferCache (WorkerOffers wk) k w = (Inr ([], False), w\<lparr>calls := Suc (calls w)\<rparr>)" for k
    by (simp add: loadOfferCache_def assms(3) repository_cache_def LoadOffers_def get run_simps)
  have "collectOffers env (WorkerOffers wk) g q w = (Inr ([], [], Some ErrInvalid), w\<lparr>calls := Suc (calls w)\<rparr>)" for g q
    by (simp add: collectOffers_def Let_def load assms(1,2) run_simps)
  then show ?thesis using it
    by (auto simp: work_item_def FindCardOffers_def Let_def run_simps)
qed

lemma demo_held_quiet: "\<not> tx_open (snd demo_claimed)" "\<not> ItemVerifyStock demo_item"
proof -
  have "let c = stage_claim (stage_fill (stage_open (calm_world empty_db)))
        in \<not> tx_open (snd c) \<and> \<not> ItemVerifyStock (item_of c)"
    by code_simp
  then show "\<not> tx_open (snd demo_claimed)" "\<not> ItemVerifyStock demo_item"
    by (simp_all add: Let_def demo_claimed_def demo_filled_def demo_opened_def demo_item_def)
qed


end
