(* ===== verification/Paths.thy ===== *)
theory Paths
  imports Directory
begin

text \<open>
  The export script, .agents/skills/one-two-update/scripts/export: names of files.  Go's \<open>path\<close> and
  \<open>path/filepath\<close> on a system whose separator is the slash, where a link of a document leads, and
  where a file goes in the bundle.
\<close>

section \<open>Paths (Go's path and path/filepath)\<close>

text \<open>One element of \<open>path.Clean\<close>: what stands before it comes in, cleaned.\<close>

definition clean_step :: "bool \<Rightarrow> string list \<Rightarrow> string \<Rightarrow> string list" where
  "clean_step rooted acc part =
     (if part = [] \<or> part = ''.'' then acc
      else if part = ''..''
      then (if acc = [] then (if rooted then [] else [part])
            else if last acc = ''..'' then acc @ [part]
            else butlast acc)
      else acc @ [part])"

definition clean_parts :: "bool \<Rightarrow> string list \<Rightarrow> string list" where
  "clean_parts rooted parts = foldl (clean_step rooted) [] parts"

definition Clean :: "string \<Rightarrow> string" where
  "Clean p =
     (if p = [] then ''.''
      else let rooted = hd p = CHR ''/'';
               out = (if rooted then ''/'' else []) @ Join (clean_parts rooted (split_char CHR ''/'' p)) ''/''
           in if out = [] then ''.'' else out)"

definition PathJoin :: "string list \<Rightarrow> string" where
  "PathJoin elems =
     (case dropWhile (\<lambda>e. e = []) elems of [] \<Rightarrow> [] | e # es \<Rightarrow> Clean (Join (e # es) ''/''))"

definition Dir :: "string \<Rightarrow> string" where
  "Dir p = Clean (rev (dropWhile (\<lambda>c. c \<noteq> CHR ''/'') (rev p)))"

definition Ext :: "string \<Rightarrow> string" where
  "Ext p =
     (let tail = takeWhile (\<lambda>c. c \<noteq> CHR ''/'' \<and> c \<noteq> CHR ''.'') (rev p)
      in if prefix (tail @ ''.'') (rev p) then CHR ''.'' # rev tail else [])"

text \<open>\<open>filepath.Rel\<close>: up from what is left of the base, then down what is left of the target.\<close>

fun after_common :: "string list \<Rightarrow> string list \<Rightarrow> string list \<times> string list" where
  "after_common (b # bs) (t # ts) = (if b = t then after_common bs ts else (b # bs, t # ts))"
| "after_common bs ts = (bs, ts)"

definition rel_parts :: "string \<Rightarrow> string list" where
  "rel_parts p = (if p = [] then [] else if p = ''/'' then [[]] else split_char CHR ''/'' p)"

definition Rel :: "string \<Rightarrow> string \<Rightarrow> failure + string" where
  "Rel basepath targpath =
     (let base = Clean basepath; targ = Clean targpath in
      if targ = base then Inr ''.''
      else let base = (if base = ''.'' then [] else base) in
        if prefix ''/'' base \<noteq> prefix ''/'' targ then Inl (Failure ''Rel: can't make relative'')
        else case after_common (rel_parts base) (rel_parts targ) of (bs, ts) \<Rightarrow>
          if ts \<noteq> [] \<and> bs \<noteq> [] \<and> hd bs = ''..'' then Inl (Failure ''Rel: can't make relative'')
          else Inr (Join (replicate (length bs) ''..'' @ ts) ''/''))"

section \<open>Links and destinations (selection.go)\<close>

definition resolveLink :: "string \<Rightarrow> string \<Rightarrow> (string \<times> string) option" where
  "resolveLink file link =
     (if Contains link '':'' \<or> HasPrefix link ''#'' then None
      else case SplitTwo link CHR ''#'' of (name, anchor) \<Rightarrow>
        Some (Clean (PathJoin [Dir file, name]), case anchor of None \<Rightarrow> [] | Some a \<Rightarrow> CHR ''#'' # a))"

definition mapDestination :: "string \<Rightarrow> string" where
  "mapDestination name = (if HasPrefix name ''.agents/'' then name else PathJoin [''.agents/canon'', name])"

definition containsPath :: "string list \<Rightarrow> string \<Rightarrow> bool" where
  "containsPath files name \<longleftrightarrow> name \<in> set files \<or> list_ex (\<lambda>f. HasPrefix f (name @ ''/'')) files"

section \<open>Splitting and joining\<close>

lemma split_char_nonempty [simp]: "split_char c s \<noteq> []"
  by (cases s) (auto split: list.splits)

lemma Join_split_char [simp]: "Join (split_char c s) [c] = s"
proof (induction s)
  case (Cons x s)
  obtain p ps where "split_char c s = p # ps" by (cases "split_char c s") auto
  with Cons show ?case by (cases ps) auto
qed simp

lemma part_chars: "p \<in> set (split_char c s) \<Longrightarrow> set p \<subseteq> set s - {c}"
  by (induction s arbitrary: p) (fastforce split: list.splits if_splits)+

lemma split_char_none: "c \<notin> set p \<Longrightarrow> split_char c p = [p]"
  by (induction p) auto

lemma split_char_append: "split_char c (a @ c # b) = split_char c a @ split_char c b"
proof (induction a)
  case (Cons x a)
  obtain p ps where "split_char c a = p # ps" by (cases "split_char c a") auto
  with Cons show ?case by auto
qed simp

lemma split_char_Join:
  "ps \<noteq> [] \<Longrightarrow> (\<And>p. p \<in> set ps \<Longrightarrow> c \<notin> set p) \<Longrightarrow> split_char c (Join ps [c]) = ps"
proof (induction ps "[c]" rule: Join.induct)
  case (3 x y xs)
  then show ?case using split_char_append [of c x] by (simp add: split_char_none)
qed (simp_all add: split_char_none)

lemma Join_chars: "x \<in> set (Join ps sep) \<Longrightarrow> (\<exists>p \<in> set ps. x \<in> set p) \<or> x \<in> set sep"
  by (induction ps sep rule: Join.induct) auto

section \<open>Tidy names\<close>

text \<open>A name as git lists it: relative, with no empty part, no dot and no way up.\<close>

definition plain_parts :: "string list \<Rightarrow> bool" where
  "plain_parts ps \<longleftrightarrow> list_all (\<lambda>p. p \<noteq> [] \<and> p \<noteq> ''.'' \<and> p \<noteq> ''..'' \<and> CHR ''/'' \<notin> set p) ps"

definition tidy :: "string \<Rightarrow> bool" where
  "tidy name \<longleftrightarrow> plain_parts (split_char CHR ''/'' name)"

lemma plain_parts_simps [simp]:
  "plain_parts []" "plain_parts (p # ps) \<longleftrightarrow> p \<noteq> [] \<and> p \<noteq> ''.'' \<and> p \<noteq> ''..'' \<and> CHR ''/'' \<notin> set p \<and> plain_parts ps"
  "plain_parts (ps @ qs) \<longleftrightarrow> plain_parts ps \<and> plain_parts qs"
  by (auto simp: plain_parts_def)

lemma tidy_slash: "tidy (a @ CHR ''/'' # b) \<longleftrightarrow> tidy a \<and> tidy b"
  by (simp add: tidy_def split_char_append)

lemma tidy_props:
  assumes "tidy p"
  shows "p \<noteq> []" "hd p \<noteq> CHR ''/''" "p \<noteq> ''.''" "\<not> prefix ''/'' p"
proof -
  obtain x s where x: "p = x # s" using assms by (cases p) (auto simp: tidy_def)
  with assms show "p \<noteq> []" "hd p \<noteq> CHR ''/''" "p \<noteq> ''.''" "\<not> prefix ''/'' p"
    by (auto simp: tidy_def split: if_splits list.splits)
qed

lemma clean_plain: "plain_parts ps \<Longrightarrow> foldl (clean_step r) acc ps = acc @ ps"
  by (induction ps arbitrary: acc) (auto simp: clean_step_def)

lemma clean_up: "plain_parts ys \<Longrightarrow> foldl (clean_step r) (xs @ ys) (replicate (length ys) ''..'') = xs"
  by (induction ys rule: rev_induct) (auto simp: clean_step_def simp flip: append_assoc)

lemma Clean_relative:
  "p \<noteq> [] \<Longrightarrow> hd p \<noteq> CHR ''/'' \<Longrightarrow>
   Clean p = (let out = Join (clean_parts False (split_char CHR ''/'' p)) ''/'' in if out = [] then ''.'' else out)"
  by (simp add: Clean_def)

lemma Clean_tidy [simp]: "tidy p \<Longrightarrow> Clean p = p"
  using tidy_props [of p] by (simp add: Clean_relative clean_parts_def tidy_def clean_plain)

lemma PathJoin_tidy: "tidy d \<Longrightarrow> PathJoin [d, n] = Clean (d @ CHR ''/'' # n)"
  using tidy_props [of d] by (simp add: PathJoin_def)

lemma Dir_slash:
  assumes "tidy a" "CHR ''/'' \<notin> set b"
  shows "Dir (a @ CHR ''/'' # b) = a"
proof -
  have "dropWhile (\<lambda>c. c \<noteq> CHR ''/'') (bs @ CHR ''/'' # rev a) = CHR ''/'' # rev a" if "CHR ''/'' \<notin> set bs" for bs
    using that by (induction bs) auto
  from this [of "rev b"] have "dropWhile (\<lambda>c. c \<noteq> CHR ''/'') (rev b @ CHR ''/'' # rev a) = CHR ''/'' # rev a"
    using assms(2) by simp
  moreover have "split_char CHR ''/'' (a @ ''/'') = split_char CHR ''/'' a @ [[]]"
    using split_char_append [of "CHR ''/''" a "[]"] by simp
  ultimately show ?thesis using assms(1) tidy_props [OF assms(1)]
    by (simp add: Dir_def Clean_relative clean_parts_def tidy_def clean_plain clean_step_def)
qed

lemma last_slash: "CHR ''/'' \<in> set p \<Longrightarrow> \<exists>a b. p = a @ CHR ''/'' # b \<and> CHR ''/'' \<notin> set b"
  by (metis split_list_last)

section \<open>Up and down again\<close>

lemma after_common_split: "after_common bs ts = (b, t) \<Longrightarrow> \<exists>cs. bs = cs @ b \<and> ts = cs @ t"
proof (induction bs ts rule: after_common.induct)
  case (1 x bs y ts)
  then show ?case by (auto split: if_splits)
qed auto

lemma rel_parts_tidy: "tidy p \<Longrightarrow> rel_parts p = split_char CHR ''/'' p"
  using tidy_props [of p] by (auto simp: rel_parts_def)

lemma Rel_tidy:
  assumes d: "tidy d" and t: "tidy t"
  shows "\<exists>rel. Rel d t = Inr rel \<and> rel \<noteq> [] \<and> PathJoin [d, rel] = t \<and> set rel \<subseteq> set t \<union> {CHR ''/'', CHR ''.''}"
proof (cases "t = d")
  case True
  have "split_char CHR ''/'' (d @ ''/.'') = split_char CHR ''/'' d @ [''.'']"
    using split_char_append [of "CHR ''/''" d "''.''"] by simp
  with True d tidy_props [OF d] show ?thesis
    by (simp add: Rel_def PathJoin_tidy Clean_relative clean_parts_def tidy_def clean_plain clean_step_def)
next
  case False
  obtain bs ts where rest: "after_common (split_char CHR ''/'' d) (split_char CHR ''/'' t) = (bs, ts)" by fastforce
  then obtain cs where cs: "split_char CHR ''/'' d = cs @ bs" "split_char CHR ''/'' t = cs @ ts"
    using after_common_split by blast
  have plain: "plain_parts cs" "plain_parts bs" "plain_parts ts" using d t by (simp_all add: tidy_def cs)
  let ?parts = "replicate (length bs) ''..'' @ ts"
  let ?rel = "Join ?parts ''/''"
  have "bs \<noteq> [] \<or> ts \<noteq> []" using False cs Join_split_char by (metis append_Nil2)
  then have ne: "?parts \<noteq> []" by auto
  have parts: "p \<noteq> [] \<and> CHR ''/'' \<notin> set p" if "p \<in> set ?parts" for p
  proof -
    have "p = ''..'' \<or> p \<in> set ts" using that by (simp add: in_set_replicate) blast
    then show ?thesis using plain(3) unfolding plain_parts_def list_all_iff by (elim disjE) simp_all
  qed
  have split: "split_char CHR ''/'' ?rel = ?parts" using ne parts by (intro split_char_Join) auto
  have "bs = [] \<or> hd bs \<noteq> ''..''" using plain(2) by (cases bs) auto
  then have rel: "Rel d t = Inr ?rel"
    unfolding Rel_def Let_def Clean_tidy [OF d] Clean_tidy [OF t] if_not_P [OF False] if_not_P [OF tidy_props(3) [OF d]]
      rel_parts_tidy [OF d] rel_parts_tidy [OF t] rest using tidy_props(4) [OF d] tidy_props(4) [OF t] by auto
  have "clean_parts False (split_char CHR ''/'' (d @ CHR ''/'' # ?rel)) = split_char CHR ''/'' t"
    using plain by (simp add: split_char_append split clean_parts_def cs clean_plain clean_up)
  then have "PathJoin [d, ?rel] = t"
    using tidy_props [OF d] tidy_props [OF t] by (simp add: PathJoin_tidy [OF d] Clean_relative)
  moreover have "set ?rel \<subseteq> set t \<union> {CHR ''/'', CHR ''.''}"
  proof
    fix x assume "x \<in> set ?rel"
    from Join_chars [OF this] consider "x = CHR ''/''" | p where "p \<in> set ?parts" "x \<in> set p"
      unfolding list.set insert_iff empty_iff by blast
    then show "x \<in> set t \<union> {CHR ''/'', CHR ''.''}"
    proof cases
      case (2 p)
      from 2(1) consider "p = ''..''" | "p \<in> set (split_char CHR ''/'' t)" unfolding cs(2) by (simp add: in_set_replicate) blast
      then show ?thesis using 2(2) part_chars [of p "CHR ''/''" t] by cases auto
    qed simp
  qed
  moreover have "?rel \<noteq> []"
  proof
    assume "?rel = []"
    with split have "?parts = [[]]" by simp
    then show False using parts [of "[]"] by simp
  qed
  ultimately show ?thesis using rel by blast
qed

section \<open>A link that moved with its file\<close>

lemma dest_form:
  assumes "tidy n"
  shows "mapDestination n = (if HasPrefix n ''.agents/'' then n else ''.agents/canon/'' @ n)"
proof -
  have canon: "tidy ''.agents/canon''" by code_simp
  have "tidy (''.agents/canon'' @ CHR ''/'' # n)" using assms canon by (simp only: tidy_slash)
  then show ?thesis using Clean_tidy PathJoin_tidy [OF canon, of n] by (simp add: mapDestination_def)
qed

lemma dest_tidy:
  assumes "tidy n"
  obtains a b where "mapDestination n = a @ CHR ''/'' # b" "CHR ''/'' \<notin> set b" "tidy a" "tidy (mapDestination n)"
proof -
  have canon: "tidy ''.agents/canon''" by code_simp
  have "tidy (''.agents/canon'' @ CHR ''/'' # n)" using assms canon by (simp only: tidy_slash)
  then have t: "tidy (mapDestination n)" using assms by (simp add: dest_form)
  have "CHR ''/'' \<in> set (mapDestination n)" by (auto simp: dest_form [OF assms] prefix_def)
  then obtain a b where "mapDestination n = a @ CHR ''/'' # b" "CHR ''/'' \<notin> set b" using last_slash by blast
  with t that show thesis by (metis tidy_slash)
qed

lemma Contains_char: "Contains s [c] \<longleftrightarrow> c \<in> set s"
  by (auto simp: Contains_iff sublist_def in_set_conv_decomp)

lemma SplitTwo_none: "c \<notin> set s \<Longrightarrow> SplitTwo s c = (s, None)"
proof -
  assume "c \<notin> set s"
  then have "dropWhile (\<lambda>x. x \<noteq> c) s = []" by auto
  then show ?thesis by (simp add: SplitTwo_def del: dropWhile_eq_Nil_conv)
qed

lemma SplitTwo_some: "c \<notin> set s \<Longrightarrow> SplitTwo (s @ c # r) c = (s, Some r)"
proof -
  assume "c \<notin> set s"
  then have "dropWhile (\<lambda>x. x \<noteq> c) (s @ c # r) = c # r" "takeWhile (\<lambda>x. x \<noteq> c) (s @ c # r) = s"
    by (induction s) auto
  then show ?thesis by (simp add: SplitTwo_def)
qed

lemma resolved_in_place:
  assumes d: "tidy d" "CHR ''/'' \<notin> set b" and t: "tidy t" and rel: "Rel d t = Inr rel"
    and chars: "CHR '':'' \<notin> set t" "CHR ''#'' \<notin> set t" and anchor: "anchor = [] \<or> hd anchor = CHR ''#''" "CHR '':'' \<notin> set anchor"
  shows "resolveLink (d @ CHR ''/'' # b) (rel @ anchor) = Some (t, anchor)"
proof -
  from Rel_tidy [OF d(1) t] rel have r: "rel \<noteq> []" "PathJoin [d, rel] = t" "set rel \<subseteq> set t \<union> {CHR ''/'', CHR ''.''}" by auto
  have no: "CHR '':'' \<notin> set rel" "CHR ''#'' \<notin> set rel" using r(3) chars by auto
  then have "\<not> HasPrefix (rel @ anchor) ''#''" using r(1) by (cases rel) auto
  moreover have "SplitTwo (rel @ anchor) CHR ''#'' = (rel, if anchor = [] then None else Some (tl anchor))"
    using no(2) anchor(1) by (cases anchor) (auto simp: SplitTwo_none SplitTwo_some)
  ultimately show ?thesis using no anchor r(2) t
    by (cases anchor) (auto simp: resolveLink_def Contains_char Dir_slash [OF d])
qed

lemma contained_tidy:
  assumes "containsPath files t" "\<And>f. f \<in> set files \<Longrightarrow> tidy f"
  shows "tidy t" and "\<exists>f \<in> set files. set t \<subseteq> set f"
proof -
  from assms(1) obtain f where f: "f \<in> set files" "f = t \<or> (\<exists>r. f = t @ CHR ''/'' # r)"
    by (auto simp: containsPath_def list_ex_iff prefix_def)
  with assms(2) tidy_slash show "tidy t" by blast
  from f show "\<exists>f \<in> set files. set t \<subseteq> set f" by (intro bexI [of _ f]) auto
qed

text \<open>Only the directory .agents itself has no place: files under it stay, and it would move.\<close>

lemma contained_dest:
  assumes "containsPath files t" "\<And>f. f \<in> set files \<Longrightarrow> tidy f" "t \<noteq> ''.agents''"
  shows "containsPath (map mapDestination files) (mapDestination t)"
proof (cases "t \<in> set files")
  case True
  then show ?thesis by (simp add: containsPath_def)
next
  case False
  with assms(1) obtain f r where f: "f \<in> set files" "f = t @ CHR ''/'' # r" by (auto simp: containsPath_def list_ex_iff prefix_def)
  have t: "tidy t" "tidy f" using assms f contained_tidy by blast+
  have "HasPrefix f ''.agents/'' \<longleftrightarrow> HasPrefix t ''.agents/''"
  proof
    assume "HasPrefix f ''.agents/''"
    then have "hd (split_char CHR ''/'' f) = ''.agents''"
      by (auto simp: prefix_def split: list.split)
    moreover have "split_char CHR ''/'' f = split_char CHR ''/'' t @ split_char CHR ''/'' r" by (simp add: f(2) split_char_append)
    ultimately have first: "hd (split_char CHR ''/'' t) = ''.agents''" by simp
    obtain ps where ps: "split_char CHR ''/'' t = ''.agents'' # ps" using first by (cases "split_char CHR ''/'' t") auto
    then have "t = Join (''.agents'' # ps) ''/''" using Join_split_char [of "CHR ''/''" t] by simp
    with assms(3) show "HasPrefix t ''.agents/''" by (cases ps) auto
  next
    assume "HasPrefix t ''.agents/''"
    then show "HasPrefix f ''.agents/''" by (auto simp: f(2) prefix_def)
  qed
  then have "mapDestination f = mapDestination t @ CHR ''/'' # r" using t f(2) by (auto simp: dest_form)
  then show ?thesis using f(1) by (force simp: containsPath_def list_ex_iff prefix_def)
qed

end
