(* ===== verification/Markdown.thy ===== *)
theory Markdown
  imports Paths Effects
begin

text \<open>
  The export script: the links of a Markdown document (selection.go, visitLinks).  A link is what the
  pattern finds outside code spans and fenced blocks; a visitor may replace it, fail, and keep a state
  of its own.
\<close>

section \<open>Tokens of a line\<close>

text \<open>The pattern \<open>`+[^`]*`+|\](([^\s)]+))\<close>, leftmost first: a span of code from its first backtick to
  the last of the run that closes it, or a link.  Two or more backticks that nothing closes are a span
  by themselves, a single one is not.\<close>

definition backtick :: char where "backtick = CHR 0x60"

definition link_char :: "char \<Rightarrow> bool" where
  "link_char c \<longleftrightarrow> c \<notin> {CHR 0x09, CHR 0x0A, CHR 0x0C, CHR 0x0D, CHR 0x20, CHR '')''}"

definition code_span :: "string \<Rightarrow> nat" where
  "code_span s =
     (let ticks = takeWhile (\<lambda>c. c = backtick) s; rest = dropWhile (\<lambda>c. c = backtick) s;
          inner = takeWhile (\<lambda>c. c \<noteq> backtick) rest; closing = takeWhile (\<lambda>c. c = backtick) (dropWhile (\<lambda>c. c \<noteq> backtick) rest)
      in if ticks = [] then 0
         else if closing \<noteq> [] then length ticks + length inner + length closing
         else if 2 \<le> length ticks then length ticks else 0)"

definition link_at :: "string \<Rightarrow> string option" where
  "link_at s =
     (case s of
        a # b # rest \<Rightarrow>
          let link = takeWhile link_char rest in
          if a = CHR '']'' \<and> b = CHR ''('' \<and> link \<noteq> [] \<and> prefix '')'' (dropWhile link_char rest) then Some link else None
      | _ \<Rightarrow> None)"

datatype token = Text string | LinkTo string

definition link_text :: "string \<Rightarrow> string" where "link_text link = ''](''@ link @ '')''"

function tokens :: "string \<Rightarrow> token list" where
  "tokens s =
     (if s = [] then []
      else if code_span s \<noteq> 0 then Text (take (code_span s) s) # tokens (drop (code_span s) s)
      else case link_at s of
          Some link \<Rightarrow> LinkTo link # tokens (drop (length link + 3) s)
        | None \<Rightarrow> Text [hd s] # tokens (tl s))"
  by pat_completeness auto
termination
  by (relation "measure length") (auto simp: link_at_def Let_def neq_Nil_conv split: list.splits if_splits)

declare tokens.simps [simp del]

section \<open>Visiting the links\<close>

text \<open>A visitor answers what a link becomes.  A failure leaves the token as it is and the last one of a
  line ends the document.\<close>

type_synonym 's visitor = "string \<Rightarrow> 's \<Rightarrow> (failure + string) \<times> 's"

fun visit_tokens :: "'s visitor \<Rightarrow> token list \<Rightarrow> failure option \<Rightarrow> 's \<Rightarrow> string \<times> failure option \<times> 's" where
  "visit_tokens f [] e s = ([], e, s)"
| "visit_tokens f (Text t # ts) e s = (case visit_tokens f ts e s of (out, r) \<Rightarrow> (t @ out, r))"
| "visit_tokens f (LinkTo l # ts) e s =
     (case f l s of
        (Inr l', s) \<Rightarrow> (case visit_tokens f ts e s of (out, r) \<Rightarrow> (link_text l' @ out, r))
      | (Inl e', s) \<Rightarrow> (case visit_tokens f ts (Some e') s of (out, r) \<Rightarrow> (link_text l @ out, r)))"

text \<open>\<open>strings.SplitAfter(s, "\n")\<close>.\<close>

fun split_after :: "string \<Rightarrow> string list" where
  "split_after [] = [[]]"
| "split_after (c # s) =
     (if c = CHR 0x0A then [c] # split_after s
      else case split_after s of [] \<Rightarrow> [[c]] | l # ls \<Rightarrow> (c # l) # ls)"

definition fence_of :: "string \<Rightarrow> string" where
  "fence_of trimmed =
     (if HasPrefix trimmed (replicate 3 backtick) \<or> HasPrefix trimmed ''~~~''
      then takeWhile (\<lambda>c. c = hd trimmed) trimmed else [])"

fun visit_lines :: "'s visitor \<Rightarrow> string \<Rightarrow> string list \<Rightarrow> 's \<Rightarrow> (failure + string) \<times> 's" where
  "visit_lines f fence [] s = (Inr [], s)"
| "visit_lines f fence (line # ls) s =
     (let trimmed = TrimSpace line;
          kept = (\<lambda>fence. case visit_lines f fence ls s of (r, s) \<Rightarrow> (map_sum id ((@) line) r, s)) in
      if fence \<noteq> [] then kept (if HasPrefix trimmed fence then [] else fence)
      else if fence_of trimmed \<noteq> [] then kept (fence_of trimmed)
      else case visit_tokens f (tokens line) None s of
          (_, Some e, s) \<Rightarrow> (Inl e, s)
        | (line, None, s) \<Rightarrow> (case visit_lines f [] ls s of (r, s) \<Rightarrow> (map_sum id ((@) line) r, s)))"

definition visitLinks :: "string \<Rightarrow> 's visitor \<Rightarrow> 's \<Rightarrow> (failure + string) \<times> 's" where
  "visitLinks content f s = visit_lines f [] (split_after content) s"

section \<open>Lines and their links\<close>

text \<open>Which lines are outside fences, the links a visit sees, and a document whose links are replaced.\<close>

fun marked :: "string \<Rightarrow> string list \<Rightarrow> (bool \<times> string) list" where
  "marked fence [] = []"
| "marked fence (line # ls) =
     (let trimmed = TrimSpace line in
      if fence \<noteq> [] then (False, line) # marked (if HasPrefix trimmed fence then [] else fence) ls
      else if fence_of trimmed \<noteq> [] then (False, line) # marked (fence_of trimmed) ls
      else (True, line) # marked [] ls)"

fun token_links :: "token list \<Rightarrow> string list" where
  "token_links [] = []"
| "token_links (Text t # ts) = token_links ts"
| "token_links (LinkTo l # ts) = l # token_links ts"

definition line_links :: "bool \<times> string \<Rightarrow> string list" where
  "line_links line = (if fst line then token_links (tokens (snd line)) else [])"

definition links_of :: "string \<Rightarrow> string list" where
  "links_of content = concat (map line_links (marked [] (split_after content)))"

fun render :: "(string \<Rightarrow> string) \<Rightarrow> token list \<Rightarrow> string" where
  "render g [] = []"
| "render g (Text t # ts) = t @ render g ts"
| "render g (LinkTo l # ts) = link_text (g l) @ render g ts"

definition relink_line :: "(string \<Rightarrow> string) \<Rightarrow> bool \<times> string \<Rightarrow> bool \<times> string" where
  "relink_line g line = (fst line, if fst line then render g (tokens (snd line)) else snd line)"

definition relink :: "(string \<Rightarrow> string) \<Rightarrow> string \<Rightarrow> string" where
  "relink g content = concat (map (\<lambda>line. snd (relink_line g line)) (marked [] (split_after content)))"

fun run_links :: "'s visitor \<Rightarrow> string list \<Rightarrow> 's \<Rightarrow> 's option" where
  "run_links f [] s = Some s"
| "run_links f (l # ls) s = (case f l s of (Inr _, s) \<Rightarrow> run_links f ls s | (Inl _, _) \<Rightarrow> None)"

section \<open>A visit succeeds when every link does\<close>

lemma run_links_append: "run_links f (a @ b) s = Option.bind (run_links f a s) (run_links f b)"
  by (induction a arbitrary: s) (auto split: prod.splits sum.splits)

lemma visit_failed: "\<exists>out e' s'. visit_tokens f ts (Some e) s = (out, Some e', s')"
proof (induction ts arbitrary: e s)
  case (Cons t ts)
  show ?case
  proof (cases t)
    case (Text x)
    then show ?thesis using Cons [of e s] by auto
  next
    case (LinkTo l)
    obtain r s1 where r: "f l s = (r, s1)" by fastforce
    obtain out e' s' where "visit_tokens f ts (Some (case r of Inl x \<Rightarrow> x | Inr _ \<Rightarrow> e)) s1 = (out, Some e', s')"
      using Cons [of "case r of Inl x \<Rightarrow> x | Inr _ \<Rightarrow> e" s1] by blast
    then show ?thesis using r LinkTo by (cases r) simp_all
  qed
qed simp

lemma visit_tokens_run:
  "(case visit_tokens f ts None s of (_, None, s') \<Rightarrow> Some s' | (_, Some e, _) \<Rightarrow> None) = run_links f (token_links ts) s"
proof (induction ts arbitrary: s)
  case (Cons t ts)
  show ?case
  proof (cases t)
    case (Text x)
    then show ?thesis using Cons [of s] by (auto split: prod.splits option.splits)
  next
    case (LinkTo l)
    obtain r s1 where r: "f l s = (r, s1)" by fastforce
    show ?thesis
    proof (cases r)
      case (Inl e)
      with r LinkTo visit_failed [of f ts e s1] show ?thesis by auto
    next
      case (Inr l')
      with r LinkTo Cons [of s1] show ?thesis by (auto split: prod.splits option.splits)
    qed
  qed
qed simp

fun visit_marked :: "'s visitor \<Rightarrow> (bool \<times> string) list \<Rightarrow> 's \<Rightarrow> (failure + string) \<times> 's" where
  "visit_marked f [] s = (Inr [], s)"
| "visit_marked f ((m, line) # ls) s =
     (case (if m then visit_tokens f (tokens line) None s else (line, None, s)) of
        (_, Some e, s) \<Rightarrow> (Inl e, s)
      | (line, None, s) \<Rightarrow> (case visit_marked f ls s of (r, s) \<Rightarrow> (map_sum id ((@) line) r, s)))"

lemma visit_lines_marked: "visit_lines f fence ls s = visit_marked f (marked fence ls) s"
  by (induction f fence ls s rule: visit_lines.induct) (auto simp: Let_def split: prod.splits option.splits)

lemma visit_marked_run:
  "(case visit_marked f ms s of (Inr _, s') \<Rightarrow> Some s' | (Inl _, _) \<Rightarrow> None) = run_links f (concat (map line_links ms)) s"
proof (induction f ms s rule: visit_marked.induct)
  case (2 f m line ls s)
  obtain out e s1 where v: "(if m then visit_tokens f (tokens line) None s else (line, None, s)) = (out, e, s1)"
    by (metis prod_cases3)
  have run: "run_links f (line_links (m, line)) s = (case e of None \<Rightarrow> Some s1 | Some _ \<Rightarrow> None)"
    using v visit_tokens_run [of f "tokens line" s] by (auto simp: line_links_def split: if_splits option.splits)
  show ?case
  proof (cases e)
    case None
    have "(case visit_marked f ls s1 of (Inr _, s') \<Rightarrow> Some s' | (Inl _, _) \<Rightarrow> None) = run_links f (concat (map line_links ls)) s1"
      using 2 v None by metis
    then show ?thesis using v None run by (auto simp: run_links_append split: prod.splits sum.splits)
  next
    case (Some e')
    then show ?thesis using v run by (simp add: run_links_append)
  qed
qed simp

lemma visitLinks_run:
  "(case visitLinks content f s of (Inr _, s') \<Rightarrow> Some s' | (Inl _, _) \<Rightarrow> None) = run_links f (links_of content) s"
  by (simp add: visitLinks_def links_of_def visit_lines_marked visit_marked_run)

text \<open>A visitor whose answer depends on the link alone rewrites the document by it.\<close>

lemma visit_tokens_pure:
  "(\<And>l s. l \<in> set (token_links ts) \<Longrightarrow> fst (f l s) = Inr (g l)) \<Longrightarrow> \<exists>s'. visit_tokens f ts None s = (render g ts, None, s')"
proof (induction ts arbitrary: s)
  case (Cons t ts)
  have more: "\<exists>s'. visit_tokens f ts None s1 = (render g ts, None, s')" for s1
    by (rule Cons.IH) (use Cons.prems in \<open>cases t, auto\<close>)
  show ?case
  proof (cases t)
    case (Text x)
    then show ?thesis using more [of s] by auto
  next
    case (LinkTo l)
    obtain s1 where "f l s = (Inr (g l), s1)" using Cons.prems [of l s] LinkTo by (cases "f l s") auto
    then show ?thesis using more [of s1] LinkTo by auto
  qed
qed simp

lemma visit_marked_pure:
  "(\<And>l s. l \<in> set (concat (map line_links ms)) \<Longrightarrow> fst (f l s) = Inr (g l)) \<Longrightarrow>
   \<exists>s'. visit_marked f ms s = (Inr (concat (map (\<lambda>line. snd (relink_line g line)) ms)), s')"
proof (induction ms arbitrary: s)
  case (Cons line ms)
  obtain m l where line: "line = (m, l)" by fastforce
  have "\<exists>s1. (if m then visit_tokens f (tokens l) None s else (l, None, s)) = (snd (relink_line g line), None, s1)"
    using visit_tokens_pure [of "tokens l" f g s] Cons.prems line by (auto simp: relink_line_def line_links_def)
  then obtain s1 where "(if m then visit_tokens f (tokens l) None s else (l, None, s)) = (snd (relink_line g line), None, s1)" ..
  moreover obtain s2 where "visit_marked f ms s1 = (Inr (concat (map (\<lambda>line. snd (relink_line g line)) ms)), s2)"
    using Cons by fastforce
  ultimately show ?case by (simp add: line)
qed simp

lemma visitLinks_pure:
  "(\<And>l s. l \<in> set (links_of content) \<Longrightarrow> fst (f l s) = Inr (g l)) \<Longrightarrow> \<exists>s'. visitLinks content f s = (Inr (relink g content), s')"
  unfolding visitLinks_def visit_lines_marked links_of_def relink_def by (rule visit_marked_pure)

section \<open>A rewritten line reads as it was rewritten\<close>

lemma takeWhile_run:
  "list_all P a \<Longrightarrow> b = [] \<or> \<not> P (hd b) \<Longrightarrow> takeWhile P (a @ b) = a \<and> dropWhile P (a @ b) = b"
  by (induction a) (cases b, auto)

lemma takeWhile_form:
  "s = takeWhile P s @ dropWhile P s" "list_all P (takeWhile P s)" "dropWhile P s = [] \<or> \<not> P (hd (dropWhile P s))"
  using hd_dropWhile [of P s] by (auto simp: list_all_iff simp del: dropWhile_eq_Nil_conv dest: set_takeWhileD)

lemma code_closed:
  assumes "a \<noteq> []" "list_all (\<lambda>c. c = backtick) a" "b \<noteq> []" "backtick \<notin> set b"
    and "d \<noteq> []" "list_all (\<lambda>c. c = backtick) d" "r = [] \<or> hd r \<noteq> backtick"
  shows "code_span (a @ b @ d @ r) = length a + length b + length d"
proof -
  have b: "list_all (\<lambda>c. c \<noteq> backtick) b" using assms(4) by (auto simp: list_all_iff)
  have "hd (b @ d @ r) \<noteq> backtick" using assms(3,4) by (cases b) auto
  then have 1: "takeWhile (\<lambda>c. c = backtick) (a @ b @ d @ r) = a \<and> dropWhile (\<lambda>c. c = backtick) (a @ b @ d @ r) = b @ d @ r"
    by (intro takeWhile_run assms(2)) simp
  have "hd (d @ r) = backtick" using assms(5,6) by (cases d) simp_all
  then have 2: "takeWhile (\<lambda>c. c \<noteq> backtick) (b @ d @ r) = b \<and> dropWhile (\<lambda>c. c \<noteq> backtick) (b @ d @ r) = d @ r"
    by (intro takeWhile_run b) simp
  have 3: "takeWhile (\<lambda>c. c = backtick) (d @ r) = d"
    using takeWhile_run [OF assms(6,7)] by simp
  show ?thesis unfolding code_span_def Let_def conjunct1 [OF 1] conjunct2 [OF 1] conjunct1 [OF 2] conjunct2 [OF 2] 3
    using assms(1,5) by simp
qed

lemma code_open:
  assumes "list_all (\<lambda>c. c = backtick) a" "backtick \<notin> set r"
  shows "code_span (a @ r) = (if 2 \<le> length a then length a else 0)"
proof -
  have r: "r = [] \<or> hd r \<noteq> backtick" using assms(2) by (cases r) auto
  have "takeWhile (\<lambda>c. c = backtick) (a @ r) = a" "dropWhile (\<lambda>c. c = backtick) (a @ r) = r"
    using takeWhile_run [of "\<lambda>c. c = backtick" a r] assms(1) r by auto
  moreover have "dropWhile (\<lambda>c. c \<noteq> backtick) r = []" using assms(2) by auto
  ultimately show ?thesis by (auto simp: code_span_def Let_def simp del: dropWhile_eq_Nil_conv)
qed

lemma code_cases:
  obtains (closed) a b d r where "s = a @ b @ d @ r" "a \<noteq> []" "list_all (\<lambda>c. c = backtick) a" "b \<noteq> []" "backtick \<notin> set b"
      "d \<noteq> []" "list_all (\<lambda>c. c = backtick) d" "r = [] \<or> hd r \<noteq> backtick"
  | (unclosed) a r where "s = a @ r" "a \<noteq> []" "list_all (\<lambda>c. c = backtick) a" "backtick \<notin> set r"
  | (other) "s = [] \<or> hd s \<noteq> backtick"
proof (cases "takeWhile (\<lambda>c. c = backtick) s = []")
  case True
  then have "s = [] \<or> hd s \<noteq> backtick" by (cases s) (auto split: if_splits)
  then show thesis by (rule other)
next
  case False
  define a where "a = takeWhile (\<lambda>c. c = backtick) s"
  define x where "x = dropWhile (\<lambda>c. c = backtick) s"
  define b where "b = takeWhile (\<lambda>c. c \<noteq> backtick) x"
  define y where "y = dropWhile (\<lambda>c. c \<noteq> backtick) x"
  have s: "s = a @ x" "x = b @ y" by (simp_all add: a_def x_def b_def y_def)
  have a: "a \<noteq> []" "list_all (\<lambda>c. c = backtick) a" using False takeWhile_form(2) by (simp_all add: a_def)
  have x: "x = [] \<or> hd x \<noteq> backtick" using takeWhile_form(3) [of "\<lambda>c. c = backtick" s] by (simp add: x_def)
  have b: "backtick \<notin> set b" by (auto simp: b_def dest: set_takeWhileD)
  show thesis
  proof (cases "y = []")
    case True
    then show thesis using unclosed [of a x] s a b by simp
  next
    case False
    then have y: "hd y = backtick" using hd_dropWhile [of "\<lambda>c. c \<noteq> backtick" x] by (simp add: y_def del: dropWhile_eq_Nil_conv)
    have "b \<noteq> []" using x y False s(2) by auto
    moreover have "takeWhile (\<lambda>c. c = backtick) y \<noteq> []" using y False by (cases y) auto
    ultimately show thesis
      using closed [of a b "takeWhile (\<lambda>c. c = backtick) y" "dropWhile (\<lambda>c. c = backtick) y"] s a b
        takeWhile_form(1) [of y "\<lambda>c. c = backtick"] takeWhile_form(2,3) [of "\<lambda>c. c = backtick" y] by simp
  qed
qed

lemma tokens_Nil [simp]: "tokens [] = []"
  by (simp add: tokens.simps)

lemma tokens_code: "t \<noteq> [] \<Longrightarrow> code_span (t @ r) = length t \<Longrightarrow> tokens (t @ r) = Text t # tokens r"
  by (subst tokens.simps) simp

lemma link_at_text: "l \<noteq> [] \<Longrightarrow> list_all link_char l \<Longrightarrow> link_at (link_text l @ r) = Some l"
  using takeWhile_run [of link_char l "'')'' @ r"] by (auto simp: link_at_def link_text_def link_char_def)

lemma code_span_other [simp]: "c \<noteq> backtick \<Longrightarrow> code_span (c # s) = 0"
  by (simp add: code_span_def)

lemma tokens_link: "l \<noteq> [] \<Longrightarrow> list_all link_char l \<Longrightarrow> tokens (link_text l @ r) = LinkTo l # tokens r"
proof -
  assume l: "l \<noteq> []" "list_all link_char l"
  have "code_span (link_text l @ r) = 0" by (simp add: link_text_def backtick_def)
  moreover have "drop (length l + 3) (link_text l @ r) = r" by (simp add: link_text_def eval_nat_numeral)
  ultimately show ?thesis using link_at_text [OF l, of r] by (subst tokens.simps) (simp add: link_text_def)
qed

lemma tokens_char: "code_span (c # s) = 0 \<Longrightarrow> link_at (c # s) = None \<Longrightarrow> tokens (c # s) = Text [c] # tokens s"
  by (subst tokens.simps) simp

lemma link_at_Some:
  assumes "link_at s = Some l"
  obtains r where "s = link_text l @ r" "l \<noteq> []" "list_all link_char l"
proof -
  from assms obtain rest where s: "s = '']('' @ rest" and l: "l = takeWhile link_char rest" "l \<noteq> []"
      and close: "prefix '')'' (dropWhile link_char rest)"
    by (auto simp: link_at_def Let_def split: list.splits if_splits)
  from close obtain r where "dropWhile link_char rest = '')'' @ r" by (auto simp: prefix_def)
  then have "rest = l @ '')'' @ r" using takeWhile_dropWhile_id [of link_char rest] l(1) by simp
  then show thesis using that [of r] s l takeWhile_form(2) [of link_char rest] by (simp add: link_text_def)
qed

text \<open>The tokens of a line, one by one.\<close>

lemma tokens_induct [case_names Nil Code Link Char]:
  assumes "P []"
    and "\<And>t r. t \<noteq> [] \<Longrightarrow> hd t = backtick \<Longrightarrow> code_span (t @ r) = length t \<Longrightarrow> P r \<Longrightarrow> P (t @ r)"
    and "\<And>l r. l \<noteq> [] \<Longrightarrow> list_all link_char l \<Longrightarrow> P r \<Longrightarrow> P (link_text l @ r)"
    and "\<And>c s. code_span (c # s) = 0 \<Longrightarrow> link_at (c # s) = None \<Longrightarrow> P s \<Longrightarrow> P (c # s)"
  shows "P s"
proof (induction s rule: length_induct)
  case (1 s)
  show ?case
  proof (cases s)
    case Nil
    then show ?thesis using assms(1) by simp
  next
    case (Cons c s')
    show ?thesis
    proof (cases "code_span s = 0")
      case False
      let ?t = "take (code_span s) s" and ?r = "drop (code_span s) s"
      have "hd s = backtick" using False Cons by (cases "c = backtick") auto
      moreover have "code_span s \<le> length s"
        by (cases s rule: code_cases) (auto simp: code_closed code_open Cons)
      moreover have "?t \<noteq> []" "hd ?t = hd s" using False Cons by (auto simp: take_Cons')
      moreover have "P ?r" using 1 False Cons by simp
      ultimately have "P (?t @ ?r)" by (intro assms(2)) (simp_all only: append_take_drop_id length_take, simp_all)
      then show ?thesis by simp
    next
      case True
      show ?thesis
      proof (cases "link_at s")
        case None
        then show ?thesis using assms(4) [of c s'] True 1 Cons by simp
      next
        case (Some l)
        then obtain r where "s = link_text l @ r" "l \<noteq> []" "list_all link_char l" by (rule link_at_Some)
        then show ?thesis using assms(3) [of l r] 1 by (simp add: link_text_def)
      qed
    qed
  qed
qed

definition good_link :: "(string \<Rightarrow> string) \<Rightarrow> string \<Rightarrow> bool" where
  "good_link g l \<longleftrightarrow> g l \<noteq> [] \<and> list_all link_char (g l) \<and> (backtick \<in> set (g l) \<longrightarrow> backtick \<in> set l)"

fun swap :: "(string \<Rightarrow> string) \<Rightarrow> token \<Rightarrow> token" where
  "swap g (Text t) = Text t"
| "swap g (LinkTo l) = LinkTo (g l)"

text \<open>Whether the link run a text starts with is closed, and whether one follows the bracket.\<close>

definition closes :: "string \<Rightarrow> bool" where
  "closes s \<longleftrightarrow> prefix '')'' (dropWhile link_char s)"

definition parens :: "string \<Rightarrow> bool" where
  "parens s \<longleftrightarrow> (\<exists>y. s = CHR ''('' # y \<and> y \<noteq> [] \<and> link_char (hd y) \<and> closes y)"

lemma closes_append: "closes (t @ x) \<longleftrightarrow> (if list_all link_char t then closes x else closes t)"
  by (induction t) (auto simp: closes_def)

lemma closes_link: "list_all link_char l \<Longrightarrow> closes (link_text l @ r)"
  using closes_append [of "'']('' @ l" "'')'' @ r"] by (simp add: link_text_def closes_def link_char_def)

lemma link_at_parens: "link_at (c # x) = None \<longleftrightarrow> \<not> (c = CHR '']'' \<and> parens x)"
proof (cases x)
  case (Cons b y)
  then show ?thesis by (cases y) (auto simp: link_at_def parens_def closes_def Let_def)
qed (simp add: link_at_def parens_def)

lemma single_tick: "code_span (backtick # s) = 0 \<Longrightarrow> backtick \<notin> set s"
proof (cases "backtick # s" rule: code_cases)
  case (closed a b d r)
  then show "code_span (backtick # s) = 0 \<Longrightarrow> ?thesis" using code_closed [of a b d r] by simp
next
  case (unclosed a r)
  moreover assume "code_span (backtick # s) = 0"
  ultimately have "length a < 2" using code_open [of a r] by (auto split: if_splits)
  then show ?thesis using unclosed by (cases a) auto
qed simp

lemma code_stays:
  assumes "t \<noteq> []" "code_span (t @ r) = length t" "r' = [] \<longleftrightarrow> r = []" "r \<noteq> [] \<Longrightarrow> hd r' = hd r"
    and "backtick \<in> set r' \<Longrightarrow> backtick \<in> set r"
  shows "code_span (t @ r') = length t"
proof (cases "t @ r" rule: code_cases)
  case (closed a b d x)
  then have n: "length t = length (a @ b @ d)" using assms(2) code_closed [of a b d x] by simp
  have "t @ r = (a @ b @ d) @ x" using closed(1) by simp
  with n have "t = a @ b @ d \<and> r = x" by (metis append_eq_append_conv)
  then have "t = a @ b @ d" "r = x" by blast+
  moreover from this have "r' = [] \<or> hd r' \<noteq> backtick" using closed(8) assms(3,4) by auto
  ultimately show ?thesis using code_closed [OF closed(2-7), of r'] by simp
next
  case (unclosed a x)
  have "length t \<noteq> 0" using assms(1) by simp
  moreover have "length t = (if 2 \<le> length a then length a else 0)"
    using assms(2) unclosed(1) code_open [OF unclosed(3,4)] by simp
  ultimately have a: "2 \<le> length a" "length t = length a" by (simp_all split: if_splits)
  with unclosed(1) have "t = a \<and> r = x" by (metis append_eq_append_conv)
  then have tr: "t = a" "r = x" by blast+
  then have "backtick \<notin> set r'" using assms(5) unclosed(4) by blast
  from code_open [OF unclosed(3) this] a(1) show ?thesis by (simp add: tr(1))
next
  case other
  with assms(1) have "code_span (t @ r) = 0" by (cases t) auto
  with assms(1,2) show ?thesis by simp
qed

lemma relinked:
  assumes "\<And>l. l \<in> set (token_links (tokens s)) \<Longrightarrow> good_link g l"
  shows "(render g (tokens s) = [] \<longleftrightarrow> s = []) \<and> (s \<noteq> [] \<longrightarrow> hd (render g (tokens s)) = hd s)
    \<and> (backtick \<in> set (render g (tokens s)) \<longrightarrow> backtick \<in> set s)
    \<and> closes (render g (tokens s)) = closes s \<and> parens (render g (tokens s)) = parens s
    \<and> tokens (render g (tokens s)) = map (swap g) (tokens s)"
  using assms
proof (induction s rule: tokens_induct)
  case (Code t r)
  note t = tokens_code [OF Code(1,3)]
  have IH: "render g (tokens r) = [] \<longleftrightarrow> r = []" "r \<noteq> [] \<Longrightarrow> hd (render g (tokens r)) = hd r"
      "backtick \<in> set (render g (tokens r)) \<Longrightarrow> backtick \<in> set r"
      "closes (render g (tokens r)) = closes r" "tokens (render g (tokens r)) = map (swap g) (tokens r)"
    using Code(4,5) by (auto simp: t)
  have "code_span (t @ render g (tokens r)) = length t" by (rule code_stays [OF Code(1,3) IH(1-3)])
  moreover have "\<not> parens (t @ x)" for x using Code(1,2) by (cases t) (auto simp: parens_def backtick_def)
  ultimately show ?case using Code(1) IH by (simp add: t closes_append tokens_code)
next
  case (Link l r)
  note t = tokens_link [OF Link(1,2), of r]
  have IH: "backtick \<in> set (render g (tokens r)) \<Longrightarrow> backtick \<in> set r" "tokens (render g (tokens r)) = map (swap g) (tokens r)"
    and good: "good_link g l"
    using Link(3,4) by (auto simp: t)
  have "closes (link_text l @ r)" "closes (link_text (g l) @ render g (tokens r))"
    using closes_link Link(2) good by (auto simp: good_link_def)
  moreover have "tokens (link_text (g l) @ render g (tokens r)) = LinkTo (g l) # map (swap g) (tokens r)"
    using good IH(2) by (simp add: good_link_def tokens_link)
  ultimately show ?case using good IH(1) by (auto simp: t parens_def good_link_def) (auto simp: link_text_def backtick_def)
next
  case (Char c s)
  note t = tokens_char [OF Char(1,2)]
  have IH: "render g (tokens s) = [] \<longleftrightarrow> s = []" "s \<noteq> [] \<Longrightarrow> hd (render g (tokens s)) = hd s"
      "backtick \<in> set (render g (tokens s)) \<Longrightarrow> backtick \<in> set s"
      "closes (render g (tokens s)) = closes s" "parens (render g (tokens s)) = parens s"
      "tokens (render g (tokens s)) = map (swap g) (tokens s)"
    using Char(3,4) by (auto simp: t)
  have "code_span (c # render g (tokens s)) = 0"
  proof (cases "c = backtick")
    case True
    then have "backtick \<notin> set (render g (tokens s))" using single_tick Char(1) IH(3) by blast
    then show ?thesis using True code_open [of "[backtick]"] by simp
  qed simp
  moreover have "link_at (c # render g (tokens s)) = None" using Char(2) IH(5) by (simp add: link_at_parens)
  moreover have "closes (c # render g (tokens s)) = closes (c # s)" using IH(4) by (simp add: closes_def)
  moreover have "parens (c # render g (tokens s)) = parens (c # s)" using IH(1,2,4) by (auto simp: parens_def)
  ultimately show ?case using IH by (auto simp: t tokens_char)
qed simp

definition newline :: char where "newline = CHR 0x0A"

text \<open>Two lines that agree up to the bracket of a link.\<close>

definition alike :: "string \<Rightarrow> string \<Rightarrow> bool" where
  "alike s s' \<longleftrightarrow> (\<exists>u v v'. s = u @ v \<and> s' = u @ v' \<and> (v = [] \<and> v' = [] \<or> v \<noteq> [] \<and> v' \<noteq> [] \<and> hd v = CHR '']'' \<and> hd v' = CHR '']''))"

lemma alike_append: "alike r r' \<Longrightarrow> alike (t @ r) (t @ r')"
  unfolding alike_def by (metis append.assoc)

lemma alike_link: "alike (link_text l @ r) (link_text k @ r')"
  unfolding alike_def by (rule exI [of _ "[]"]) (auto simp: link_text_def)

lemma alike_Nil: "alike [] []"
  by (auto simp: alike_def)

text \<open>A link holds no line break, and the text before the first link stays.\<close>

lemma relinked_line:
  assumes "\<And>l. l \<in> set (token_links (tokens s)) \<Longrightarrow> good_link g l"
  shows "(s \<noteq> [] \<longrightarrow> last (render g (tokens s)) = last s)
    \<and> filter (\<lambda>c. c = newline) (render g (tokens s)) = filter (\<lambda>c. c = newline) s
    \<and> alike s (render g (tokens s))"
  using assms
proof (induction s rule: tokens_induct)
  case (Code t r)
  note t = tokens_code [OF Code(1,3)]
  have "render g (tokens r) = [] \<longleftrightarrow> r = []" using relinked [of r g] Code(5) by (auto simp: t)
  then show ?case using Code(4,5) alike_append by (auto simp: t)
next
  case (Link l r)
  note t = tokens_link [OF Link(1,2), of r]
  have e: "render g (tokens r) = [] \<longleftrightarrow> r = []" using relinked [of r g] Link(4) by (auto simp: t)
  have good: "good_link g l" using Link(4) by (simp add: t)
  have no: "filter (\<lambda>c. c = newline) k = []" if "list_all link_char k" for k
    using that by (induction k) (auto simp: newline_def link_char_def)
  have "filter (\<lambda>c. c = newline) (link_text k) = []" if "list_all link_char k" for k
    using no [OF that] by (simp add: link_text_def newline_def)
  moreover have "last (link_text k) = CHR '')''" "link_text k \<noteq> []" for k by (simp_all add: link_text_def)
  ultimately show ?case using Link(2-4) e good alike_link by (auto simp: t good_link_def)
next
  case (Char c s)
  note t = tokens_char [OF Char(1,2)]
  have "render g (tokens s) = [] \<longleftrightarrow> s = []" using relinked [of s g] Char(4) by (auto simp: t)
  then show ?case using Char(3,4) alike_append [of _ _ "[c]"] by (auto simp: t)
qed (simp add: alike_Nil)

section \<open>A rewritten document reads as it was rewritten\<close>

lemma prefix_guard: "c \<notin> set p \<Longrightarrow> v = [] \<or> hd v = c \<Longrightarrow> prefix p (u @ v) \<longleftrightarrow> prefix p u"
proof
  assume p: "c \<notin> set p" "v = [] \<or> hd v = c" and "prefix p (u @ v)"
  then consider "prefix p u" | us where "p = u @ us" "prefix us v" unfolding prefix_append by blast
  then show "prefix p u"
  proof cases
    case (2 us)
    then have "us = []" using p(1,2) by (cases us) (auto simp: prefix_def)
    then show ?thesis using 2(1) by simp
  qed
qed (rule prefix_prefix)

lemma code_len_guard:
  "(\<And>p. p \<in> set codes \<Longrightarrow> c \<notin> set p) \<Longrightarrow> v = [] \<or> hd v = c \<Longrightarrow> code_len codes (u @ v) = code_len codes u"
proof -
  assume codes: "\<And>p. p \<in> set codes \<Longrightarrow> c \<notin> set p" and v: "v = [] \<or> hd v = c"
  have "find (\<lambda>p. prefix p (u @ v)) codes = find (\<lambda>p. prefix p u) codes"
    by (rule find_cong) (simp_all add: prefix_guard [OF codes v])
  then show ?thesis by (simp add: code_len_def)
qed

lemma code_len_le: "code_len codes s \<le> length s"
  by (auto simp: code_len_def find_Some_iff prefix_length_le split: option.split)

lemma trim_codes_guard:
  "(\<And>p. p \<in> set codes \<Longrightarrow> c \<notin> set p) \<Longrightarrow> v = [] \<or> hd v = c \<Longrightarrow> trim_codes codes (u @ v) = trim_codes codes u @ v"
proof (induction codes u rule: trim_codes.induct)
  case (1 codes s)
  have len: "code_len codes (s @ v) = code_len codes s" by (rule code_len_guard [OF 1(2,3)])
  show ?case
  proof (cases "code_len codes s = 0")
    case True
    then show ?thesis by (subst (1 2) trim_codes.simps) (simp add: len)
  next
    case False
    then have "trim_codes codes (drop (code_len codes s) s @ v) = trim_codes codes (drop (code_len codes s) s) @ v"
      using 1 by blast
    then show ?thesis using False code_len_le [of codes s] by (subst (1 2) trim_codes.simps) (simp add: len)
  qed
qed

lemma trim_codes_off: "\<exists>w. s = w @ trim_codes codes s \<and> set w \<subseteq> \<Union> (set ` set codes)"
proof (induction codes s rule: trim_codes.induct)
  case (1 codes s)
  show ?case
  proof (cases "code_len codes s = 0")
    case True
    then show ?thesis by (subst (1) trim_codes.simps) auto
  next
    case False
    then obtain p where p: "p \<in> set codes" "prefix p s" "code_len codes s = length p"
      by (auto simp: code_len_def find_Some_iff split: option.splits) (metis nth_mem)
    from 1 [OF False] obtain w where w: "drop (code_len codes s) s = w @ trim_codes codes (drop (code_len codes s) s)"
      "set w \<subseteq> \<Union> (set ` set codes)" by blast
    have "trim_codes codes s = trim_codes codes (drop (code_len codes s) s)"
      using False by (subst trim_codes.simps) simp
    moreover have "s = p @ drop (code_len codes s) s" using p(2,3) by (auto simp: prefix_def)
    ultimately have "s = (p @ w) @ trim_codes codes s" using w(1) by simp
    moreover have "set (p @ w) \<subseteq> \<Union> (set ` set codes)" using p(1) w(2) by auto
    ultimately show ?thesis by blast
  qed
qed

lemma trimmed_start:
  assumes "m \<notin> \<Union> (set ` set space_codes)"
  shows "prefix (replicate 3 m) (TrimSpace x) \<longleftrightarrow> prefix (replicate 3 m) (trim_codes space_codes x)"
proof -
  let ?y = "trim_codes space_codes x"
  obtain w where w: "rev ?y = w @ trim_codes (map rev space_codes) (rev ?y)" "set w \<subseteq> \<Union> (set ` set (map rev space_codes))"
    using trim_codes_off by blast
  then have y: "?y = TrimSpace x @ rev w" by (metis TrimSpace_def rev_append rev_rev_ident)
  have m: "m \<notin> set (rev w)" using w(2) assms by auto
  show ?thesis
  proof
    assume "prefix (replicate 3 m) ?y"
    then consider "prefix (replicate 3 m) (TrimSpace x)" | us where "replicate 3 m = TrimSpace x @ us" "prefix us (rev w)"
      unfolding y prefix_append by blast
    then show "prefix (replicate 3 m) (TrimSpace x)"
    proof cases
      case (2 us)
      have "set us \<subseteq> set (replicate 3 m)" unfolding 2(1) by simp
      then have "set us \<subseteq> {m}" by (simp add: set_replicate_conv_if)
      moreover have "set us \<subseteq> set (rev w)" using set_mono_prefix [OF 2(2)] .
      ultimately have "us = []" using m by (cases us) auto
      then show ?thesis using 2(1) by simp
    qed
  next
    assume "prefix (replicate 3 m) (TrimSpace x)"
    then show "prefix (replicate 3 m) ?y" by (subst y) (rule prefix_prefix)
  qed
qed

lemma marks_not_blank:
  "backtick \<notin> \<Union> (set ` set space_codes)" "CHR ''~'' \<notin> \<Union> (set ` set space_codes)" "CHR '']'' \<notin> \<Union> (set ` set space_codes)"
  by (simp_all add: space_codes_def backtick_def)

lemma fence_of_Nil:
  "fence_of t = [] \<longleftrightarrow> \<not> prefix (replicate 3 backtick) t \<and> \<not> prefix (replicate 3 CHR ''~'') t"
  by (cases t) (auto simp: fence_of_def numeral_3_eq_3)

lemma alike_fence:
  assumes "alike x x'"
  shows "fence_of (TrimSpace x) = [] \<longleftrightarrow> fence_of (TrimSpace x') = []"
proof -
  from assms obtain u v v' where x: "x = u @ v" "x' = u @ v'"
    and v: "v = [] \<or> hd v = CHR '']''" "v' = [] \<or> hd v' = CHR '']''" unfolding alike_def by blast
  have "trim_codes space_codes x = trim_codes space_codes u @ v" "trim_codes space_codes x' = trim_codes space_codes u @ v'"
    unfolding x using marks_not_blank(3) v by (auto intro!: trim_codes_guard)
  moreover have "CHR '']'' \<notin> set (replicate 3 backtick)" "CHR '']'' \<notin> set (replicate 3 CHR ''~'')" by (simp_all add: backtick_def)
  ultimately show ?thesis using v
    by (simp only: fence_of_Nil trimmed_start marks_not_blank(1,2) not_False_eq_True prefix_guard)
qed

text \<open>Lines as \<open>SplitAfter\<close> leaves them: each but the last ends in the only line break it holds.\<close>

fun proper :: "string list \<Rightarrow> bool" where
  "proper [] = False"
| "proper [l] \<longleftrightarrow> filter (\<lambda>c. c = newline) l = []"
| "proper (l # ls) \<longleftrightarrow> l \<noteq> [] \<and> last l = newline \<and> filter (\<lambda>c. c = newline) l = [newline] \<and> proper ls"

lemma split_after_ne [simp]: "split_after s \<noteq> []"
  by (cases s) (auto split: list.splits)

lemma split_after_proper: "proper (split_after s)"
proof (induction s)
  case (Cons c s)
  obtain l ls where s: "split_after s = l # ls" by (cases "split_after s") auto
  show ?case
  proof (cases ls)
    case Nil
    with Cons s show ?thesis by (auto simp: newline_def)
  next
    case (Cons l' ls')
    with Cons.IH s show ?thesis by (auto simp: newline_def)
  qed
qed simp

lemma split_after_line: "filter (\<lambda>c. c = newline) l = [] \<Longrightarrow> split_after l = [l]"
  by (induction l) (auto simp: newline_def split: if_splits)

lemma split_after_append:
  "l \<noteq> [] \<Longrightarrow> last l = newline \<Longrightarrow> filter (\<lambda>c. c = newline) l = [newline] \<Longrightarrow> split_after (l @ r) = l # split_after r"
  by (induction l) (auto simp: newline_def filter_empty_conv split: if_splits list.splits)

lemma split_after_concat: "proper ls \<Longrightarrow> split_after (concat ls) = ls"
  by (induction ls rule: proper.induct) (auto simp: split_after_line split_after_append)

lemma marked_lines [simp]: "map snd (marked fence ls) = ls"
  by (induction fence ls rule: marked.induct) (auto simp: Let_def)

lemma relinked_proper:
  "proper (map snd ms) \<Longrightarrow> (\<And>l. l \<in> set (concat (map line_links ms)) \<Longrightarrow> good_link g l) \<Longrightarrow>
   proper (map (\<lambda>line. snd (relink_line g line)) ms)"
proof (induction ms)
  case (Cons line ms)
  obtain m l where line: "line = (m, l)" by fastforce
  have same: "(l = [] \<longleftrightarrow> snd (relink_line g line) = []) \<and> (l \<noteq> [] \<longrightarrow> last (snd (relink_line g line)) = last l)
      \<and> filter (\<lambda>c. c = newline) (snd (relink_line g line)) = filter (\<lambda>c. c = newline) l"
    using relinked_line [of l g] relinked [of l g] Cons.prems(2) line by (auto simp: relink_line_def line_links_def)
  show ?case
  proof (cases ms)
    case Nil
    then show ?thesis using Cons.prems(1) same line by simp
  next
    case (Cons line' ms')
    then have "proper (map (\<lambda>line. snd (relink_line g line)) ms)" using Cons.IH Cons.prems line by auto
    then show ?thesis using Cons Cons.prems(1) same line by simp
  qed
qed simp

lemma marked_relinked:
  "(\<And>l. l \<in> set (concat (map line_links (marked fence ls))) \<Longrightarrow> good_link g l) \<Longrightarrow>
   marked fence (map (\<lambda>line. snd (relink_line g line)) (marked fence ls)) = map (relink_line g) (marked fence ls)"
proof (induction fence ls rule: marked.induct)
  case (2 fence line ls)
  consider "fence \<noteq> []" | "fence = []" "fence_of (TrimSpace line) \<noteq> []" | "fence = []" "fence_of (TrimSpace line) = []" by blast
  then show ?case
  proof cases
    case 3
    then have "marked fence (line # ls) = (True, line) # marked [] ls" by simp
    moreover from this 2(4) have "alike line (render g (tokens line))" using relinked_line [of line g] by (auto simp: line_links_def)
    then have "fence_of (TrimSpace (render g (tokens line))) = []" using alike_fence 3(2) by blast
    moreover have "marked [] (map (\<lambda>line. snd (relink_line g line)) (marked [] ls)) = map (relink_line g) (marked [] ls)"
      using 2(3) [OF refl] 2(4) 3 by auto
    ultimately show ?thesis using 3 by (simp add: relink_line_def)
  qed (use 2 in \<open>auto simp: relink_line_def Let_def\<close>)
qed simp

lemma relink_links:
  assumes "\<And>l. l \<in> set (links_of content) \<Longrightarrow> good_link g l"
  shows "links_of (relink g content) = map g (links_of content)"
proof -
  let ?ms = "marked [] (split_after content)"
  have good: "\<And>l. l \<in> set (concat (map line_links ?ms)) \<Longrightarrow> good_link g l" using assms by (simp add: links_of_def)
  have "proper (map (\<lambda>line. snd (relink_line g line)) ?ms)" by (rule relinked_proper) (simp_all add: split_after_proper good)
  then have "marked [] (split_after (relink g content)) = map (relink_line g) ?ms"
    unfolding relink_def using marked_relinked [of "[]" "split_after content" g, OF good] by (simp add: split_after_concat)
  moreover have "line_links (relink_line g line) = map g (line_links line)" if "line \<in> set ?ms" for line
  proof (cases line)
    case (Pair m l)
    have "token_links (map (swap g) ts) = map g (token_links ts)" for ts by (induction ts rule: token_links.induct) auto
    moreover have "good_link g k" if "m" "k \<in> set (token_links (tokens l))" for k
      using that \<open>line \<in> set ?ms\<close> by (intro good) (auto simp: line_links_def Pair intro!: bexI [of _ line])
    ultimately show ?thesis using relinked [of l g] by (simp add: Pair relink_line_def line_links_def)
  qed
  ultimately show ?thesis by (simp add: links_of_def map_concat cong: map_cong)
qed

end
