(* ===== verification/Export.thy ===== *)
theory Export
  imports Markdown
begin

text \<open>
  The export script, .agents/skills/one-two-update/scripts/export: which files of a source repository
  a bundle holds (source.go, selection.go), how their links move with them, and what a bundle must be
  (archive.go, validateBundle).

  Git, the file system, SHA-256 and the JSON encoder are arguments.  The files of a source are a list
  in the order a range loop over the map happens to take; what is selected does not depend on it.
\<close>

section \<open>The source repository (source.go)\<close>

text \<open>The rest of a function after a call that may return early with its error.\<close>

fun sum_bind :: "'e + 'a \<Rightarrow> ('a \<Rightarrow> 'e + 'b) \<Rightarrow> 'e + 'b" where
  "sum_bind (Inl e) f = Inl e"
| "sum_bind (Inr x) f = f x"

record export_host =
  HostGit :: "string \<Rightarrow> string list \<Rightarrow> failure + string"
  HostAbs :: "string \<Rightarrow> failure + string"
  HostEval :: "string \<Rightarrow> failure + string"
  HostRegular :: "string \<Rightarrow> failure + bool"
  HostReadFile :: "string \<Rightarrow> failure + string"
  HostDigest :: "string \<Rightarrow> string"

record export_options =
  ExportSource :: string
  ExportOutput :: string
  ExportSkills :: string
  ExportAgents :: string
  ExportAllowDirty :: bool

definition sourceAddress :: string where
  "sourceAddress = ''https://github.com/cangrejometralleta/OneTwoThree.git''"

record source_tree =
  TreeRoot :: string
  TreeCommit :: string
  TreeDirty :: bool
  TreeFiles :: "string list"
  TreeExcluded :: "string list"

definition runGit :: "export_host \<Rightarrow> string \<Rightarrow> string list \<Rightarrow> failure + string" where
  "runGit host dir args = map_sum id (\<lambda>out. TrimSuffix out [CHR 0x0A]) (HostGit host dir args)"

definition splitPaths :: "string \<Rightarrow> string list" where
  "splitPaths s = remdups (filter (\<lambda>name. name \<noteq> []) (split_char CHR 0x00 s))"

definition readSourceTree :: "export_host \<Rightarrow> export_options \<Rightarrow> failure + source_tree" where
  "readSourceTree host options =
     sum_bind (HostAbs host (ExportSource options)) (\<lambda>root.
     sum_bind (HostEval host root) (\<lambda>root.
     sum_bind (runGit host root [''rev-parse'', ''--show-toplevel'']) (\<lambda>top.
       if Clean top \<noteq> root then Inl (Failure ''source must be the repository root'')
       else sum_bind (runGit host root [''remote'', ''get-url'', ''origin'']) (\<lambda>origin.
         if origin \<noteq> sourceAddress \<and> origin \<noteq> ''git@github.com:cangrejometralleta/OneTwoThree.git''
         then Inl (Failure (''source origin is not OneTwoThree: '' @ origin))
         else sum_bind (runGit host root [''rev-parse'', ''HEAD'']) (\<lambda>commit.
              sum_bind (runGit host root [''status'', ''--porcelain'', ''--untracked-files=all'']) (\<lambda>state.
                if state \<noteq> [] \<and> \<not> ExportAllowDirty options
                then Inl (Failure ''source has local changes; use --allow-dirty for a labelled preview'')
                else sum_bind (runGit host root [''ls-files'', ''--cached'', ''--others'', ''--exclude-standard'', ''-z'']) (\<lambda>files.
                     sum_bind (runGit host root [''ls-files'', ''--cached'', ''--others'', ''--ignored'', ''--exclude-from=.canonignore'', ''-z'']) (\<lambda>excluded.
                       Inr \<lparr>TreeRoot = root, TreeCommit = commit, TreeDirty = (state \<noteq> []),
                         TreeFiles = splitPaths files, TreeExcluded = splitPaths excluded\<rparr>))))))))"

definition readFile :: "export_host \<Rightarrow> source_tree \<Rightarrow> string \<Rightarrow> failure + string" where
  "readFile host tree name =
     (if name \<notin> set (TreeFiles tree) \<or> name \<in> set (TreeExcluded tree)
      then Inl (Failure (''unavailable source: '' @ name))
      else let path = PathJoin [TreeRoot tree, name] in
        sum_bind (HostEval host path) (\<lambda>resolved.
          if resolved \<noteq> path then Inl (Failure (''symbolic source is not supported: '' @ name))
          else sum_bind (HostRegular host path) (\<lambda>regular.
            if \<not> regular then Inl (Failure (''not a regular file: '' @ name)) else HostReadFile host path)))"

section \<open>The selection (selection.go)\<close>

record selection =
  SelFiles :: "(string \<times> string) list"
  SelSkills :: "string list"
  SelAgents :: "string list"

text \<open>\<open>^[a-z0-9]+(-[a-z0-9]+)*$\<close>.\<close>

definition selectionName :: "string \<Rightarrow> bool" where
  "selectionName s \<longleftrightarrow>
     list_all (\<lambda>p. p \<noteq> [] \<and> list_all (\<lambda>c. c \<in> set ''abcdefghijklmnopqrstuvwxyz0123456789'') p) (split_char CHR ''-'' s)"

text \<open>What a link of a document selects.\<close>

datatype node = FileNode string | SkillNode string | AgentNode string

definition target_node :: "string \<Rightarrow> node option" where
  "target_node target =
     (let parts = split_char CHR ''/'' target in
      if 3 \<le> length parts \<and> parts ! 0 = ''.agents''
      then if parts ! 1 = ''skills'' then Some (SkillNode (parts ! 2))
           else if parts ! 1 = ''agents'' then Some (AgentNode (TrimSuffix (parts ! 2) (Ext (parts ! 2))))
           else None
      else None)"

type_synonym adding = "selection \<Rightarrow> failure option \<times> selection"

fun add_each :: "(string \<Rightarrow> adding) \<Rightarrow> string list \<Rightarrow> adding" where
  "add_each add [] sel = (None, sel)"
| "add_each add (name # names) sel =
     (case add name sel of (Some e, sel) \<Rightarrow> (Some e, sel) | (None, sel) \<Rightarrow> add_each add names sel)"

definition addDirectory :: "(string \<Rightarrow> adding) \<Rightarrow> source_tree \<Rightarrow> string \<Rightarrow> adding" where
  "addDirectory add tree start =
     add_each add (filter (\<lambda>name. HasPrefix name start \<and> name \<notin> set (TreeExcluded tree)) (TreeFiles tree))"

text \<open>The closure \<open>addFile\<close> hands to \<open>visitLinks\<close>; its error outlives a link.\<close>

definition link_visitor :: "(node \<Rightarrow> adding) \<Rightarrow> string \<Rightarrow> (selection \<times> failure option) visitor" where
  "link_visitor add name link s =
     (case resolveLink name link of
        None \<Rightarrow> (Inr link, s)
      | Some (target, _) \<Rightarrow>
          let (sel, err) = s;
              (err, sel) = (case target_node target of None \<Rightarrow> (err, sel) | Some k \<Rightarrow> add k sel)
          in (case err of None \<Rightarrow> Inr link | Some e \<Rightarrow> Inl e, sel, err))"

text \<open>The three methods, each with the others it calls.\<close>

definition addFile_body :: "(string \<Rightarrow> adding) \<Rightarrow> (string \<Rightarrow> adding) \<Rightarrow> export_host \<Rightarrow> source_tree \<Rightarrow> string \<Rightarrow> adding" where
  "addFile_body add_skill add_agent host tree name sel =
     (if name \<in> fst ` set (SelFiles sel) then (None, sel)
      else case readFile host tree name of
          Inl e \<Rightarrow> (Some e, sel)
        | Inr content \<Rightarrow>
            let sel = sel\<lparr>SelFiles := SelFiles sel @ [(name, content)]\<rparr> in
            if Ext name \<noteq> ''.md'' then (None, sel)
            else case visitLinks content (link_visitor (\<lambda>k sel. case k of
                       FileNode f \<Rightarrow> (None, sel)
                     | SkillNode s \<Rightarrow> add_skill s sel
                     | AgentNode a \<Rightarrow> add_agent a sel) name) (sel, None) of
                (r, (sel, _)) \<Rightarrow> (case r of Inl e \<Rightarrow> Some e | Inr _ \<Rightarrow> None, sel))"

definition addSkill_body :: "(string \<Rightarrow> adding) \<Rightarrow> source_tree \<Rightarrow> string \<Rightarrow> adding" where
  "addSkill_body add_file tree name sel =
     (if \<not> selectionName name then (Some (Failure (''invalid skill name: '' @ name)), sel)
      else if name = ''one-two-joke''
      then (Some (Failure ''one-two-joke requires excluded hand-written material; it cannot be bundled''), sel)
      else if name \<in> set (SelSkills sel) then (None, sel)
      else let sel = sel\<lparr>SelSkills := SelSkills sel @ [name]\<rparr>; start = ''.agents/skills/'' @ name @ ''/'' in
        (case add_file (start @ ''SKILL.md'') sel of
           (Some e, sel) \<Rightarrow> (Some e, sel)
         | (None, sel) \<Rightarrow> addDirectory add_file tree start sel))"

definition addAgent_body :: "(string \<Rightarrow> adding) \<Rightarrow> source_tree \<Rightarrow> string \<Rightarrow> adding" where
  "addAgent_body add_file tree name sel =
     (if \<not> selectionName name then (Some (Failure (''invalid agent name: '' @ name)), sel)
      else if name \<in> set (SelAgents sel) then (None, sel)
      else let sel = sel\<lparr>SelAgents := SelAgents sel @ [name]\<rparr> in
        (case add_file (''.agents/agents/'' @ name @ ''.md'') sel of
           (Some e, sel) \<Rightarrow> (Some e, sel)
         | (None, sel) \<Rightarrow>
             let adapter = ''.agents/agents/'' @ name @ ''.toml'' in
             if adapter \<in> set (TreeFiles tree) then add_file adapter sel else (None, sel)))"

text \<open>They call each other; the fuel is the depth of the calls.\<close>

fun addFile :: "nat \<Rightarrow> export_host \<Rightarrow> source_tree \<Rightarrow> string \<Rightarrow> adding"
  and addSkill :: "nat \<Rightarrow> export_host \<Rightarrow> source_tree \<Rightarrow> string \<Rightarrow> adding"
  and addAgent :: "nat \<Rightarrow> export_host \<Rightarrow> source_tree \<Rightarrow> string \<Rightarrow> adding" where
  "addFile 0 host tree name = (\<lambda>sel. (Some OutOfFuel, sel))"
| "addFile (Suc n) host tree name = addFile_body (addSkill n host tree) (addAgent n host tree) host tree name"
| "addSkill 0 host tree name = (\<lambda>sel. (Some OutOfFuel, sel))"
| "addSkill (Suc n) host tree name = addSkill_body (addFile n host tree) tree name"
| "addAgent 0 host tree name = (\<lambda>sel. (Some OutOfFuel, sel))"
| "addAgent (Suc n) host tree name = addAgent_body (addFile n host tree) tree name"

definition canon_files :: "string list" where
  "canon_files = [''AGENTS.md'', ''RULES.md'', ''VALUES.md'', ''PATTERNS.md'', ''.canonignore'']"

definition canon_directories :: "string list" where
  "canon_directories = [''rules/'', ''values/'', ''patterns/'']"

definition addCanon :: "nat \<Rightarrow> export_host \<Rightarrow> source_tree \<Rightarrow> adding" where
  "addCanon n host tree sel =
     (case add_each (addFile n host tree) canon_files sel of
        (Some e, sel) \<Rightarrow> (Some e, sel)
      | (None, sel) \<Rightarrow> add_each (addDirectory (addFile n host tree) tree) canon_directories sel)"

definition named_skills :: "export_options \<Rightarrow> string list" where
  "named_skills options =
     filter (\<lambda>s. s \<noteq> []) (split_char CHR '','' (''one-two-update,one-two-reload,'' @ ExportSkills options))"

definition named_agents :: "export_options \<Rightarrow> string list" where
  "named_agents options = filter (\<lambda>a. a \<noteq> []) (split_char CHR '','' (ExportAgents options))"

definition selection_fuel :: "source_tree \<Rightarrow> nat" where
  "selection_fuel tree = 2 * length (TreeFiles tree) + 2"

definition collect_selection :: "export_host \<Rightarrow> source_tree \<Rightarrow> export_options \<Rightarrow> failure option \<times> selection" where
  "collect_selection host tree options =
     (let n = selection_fuel tree in
      case addCanon n host tree \<lparr>SelFiles = [], SelSkills = [], SelAgents = []\<rparr> of
        (Some e, sel) \<Rightarrow> (Some e, sel)
      | (None, sel) \<Rightarrow>
          (case add_each (addSkill n host tree) (named_skills options) sel of
             (Some e, sel) \<Rightarrow> (Some e, sel)
           | (None, sel) \<Rightarrow> add_each (addAgent n host tree) (named_agents options) sel))"

section \<open>The bundle (selection.go)\<close>

record bundle_manifest =
  ManifestSchema :: int
  ManifestSource :: string
  ManifestCommit :: string
  ManifestDirty :: bool
  ManifestSnapshot :: bool
  ManifestSkills :: "string list"
  ManifestAgents :: "string list"
  ManifestRemoteReferences :: "string list"
  ManifestFiles :: "(string \<times> string) list"

type_synonym archive_files = "(string \<times> string) list"

definition listNames :: "string list \<Rightarrow> string list" where
  "listNames names = sort (remdups names)"

definition rewrite_link ::
  "source_tree \<Rightarrow> string list \<Rightarrow> string \<Rightarrow> string list visitor" where
  "rewrite_link tree files name link remote =
     (case resolveLink name link of
        None \<Rightarrow> (Inr link, remote)
      | Some (target, anchor) \<Rightarrow>
          if containsPath files target
          then (map_sum id (\<lambda>relative. relative @ anchor) (Rel (Dir (mapDestination name)) (mapDestination target)), remote)
          else if HasPrefix target ''.agents/'' \<or> HasPrefix target ''rules/'' \<or> HasPrefix target ''values/''
            \<or> HasPrefix target ''patterns/'' \<or> \<not> containsPath (TreeFiles tree) target
          then (Inl (Failure (''unresolved reference in '' @ name @ '': '' @ link)), remote)
          else (Inr (''https://github.com/cangrejometralleta/OneTwoThree/blob/'' @ TreeCommit tree @ ''/'' @ target @ anchor),
                List.insert target remote))"

definition rewriteLinks :: "source_tree \<Rightarrow> string list \<Rightarrow> string \<Rightarrow> string \<Rightarrow> string list \<Rightarrow> (failure + string) \<times> string list" where
  "rewriteLinks tree files name content remote = visitLinks content (rewrite_link tree files name) remote"

fun render_files ::
  "source_tree \<Rightarrow> (string \<times> string) list \<Rightarrow> string list \<Rightarrow> archive_files \<Rightarrow> string list \<Rightarrow> failure + archive_files \<times> string list" where
  "render_files tree files [] b remote = Inr (b, remote)"
| "render_files tree files (name # names) b remote =
     (let content = (case map_of files name of None \<Rightarrow> [] | Some c \<Rightarrow> c) in
      case (if Ext name = ''.md'' then rewriteLinks tree (map fst files) name content remote else (Inr content, remote)) of
        (Inl e, _) \<Rightarrow> Inl e
      | (Inr content, remote) \<Rightarrow> render_files tree files names (AList.update (mapDestination name) content b) remote)"

definition renderBundle ::
  "export_host \<Rightarrow> (bundle_manifest \<Rightarrow> failure + string) \<Rightarrow> source_tree \<Rightarrow> selection \<Rightarrow> failure + archive_files" where
  "renderBundle host encode tree sel =
     sum_bind (render_files tree (SelFiles sel) (listNames (map fst (SelFiles sel))) [] []) (\<lambda>(b, remote).
     sum_bind (encode \<lparr>ManifestSchema = 1, ManifestSource = sourceAddress, ManifestCommit = TreeCommit tree,
         ManifestDirty = TreeDirty tree, ManifestSnapshot = True, ManifestSkills = listNames (SelSkills sel),
         ManifestAgents = listNames (SelAgents sel), ManifestRemoteReferences = listNames remote,
         ManifestFiles = map (\<lambda>(d, content). (d, HostDigest host content)) b\<rparr>) (\<lambda>content.
       Inr (AList.update ''.agents/distribution.json'' (content @ [CHR 0x0A]) b)))"

definition collectBundle ::
  "export_host \<Rightarrow> (bundle_manifest \<Rightarrow> failure + string) \<Rightarrow> source_tree \<Rightarrow> export_options \<Rightarrow> failure + archive_files" where
  "collectBundle host encode tree options =
     (case collect_selection host tree options of
        (Some e, _) \<Rightarrow> Inl e
      | (None, sel) \<Rightarrow> renderBundle host encode tree sel)"

section \<open>What a bundle must be (archive.go)\<close>

definition check_link :: "archive_files \<Rightarrow> string \<Rightarrow> unit visitor" where
  "check_link b name link s =
     (case resolveLink name link of
        Some (target, _) \<Rightarrow>
          if \<not> containsPath (map fst b) target
          then (Inl (Failure (''broken bundled link: '' @ name @ '' -> '' @ target)), s) else (Inr link, s)
      | None \<Rightarrow> (Inr link, s))"

definition validate_entry :: "archive_files \<Rightarrow> string \<times> string \<Rightarrow> failure option" where
  "validate_entry b entry =
     (let (name, content) = entry in
      if Clean name \<noteq> name \<or> \<not> HasPrefix name ''.agents/'' \<or> Contains name ''/.git/''
      then Some (Failure (''invalid archive path: '' @ name))
      else if Ext name \<noteq> ''.md'' then None
      else case fst (visitLinks content (check_link b name) ()) of Inl e \<Rightarrow> Some e | Inr _ \<Rightarrow> None)"

fun first_failure :: "failure option list \<Rightarrow> failure option" where
  "first_failure [] = None"
| "first_failure (e # es) = (case e of Some e \<Rightarrow> Some e | None \<Rightarrow> first_failure es)"

definition validateBundle :: "archive_files \<Rightarrow> failure option" where
  "validateBundle b = first_failure (map (validate_entry b) b)"

end
