(* ===== verification/Archive.thy ===== *)
theory Archive
  imports Export Settings Prices "HOL-Library.Word"
begin

text \<open>
  The export script: the archive a bundle becomes (archive.go) and the command itself (main.go).

  A disk is what its files hold.  The zip format is an argument, as are the failures of the file
  system, each at the call that may report it; the temporary file has the name the system chose.
\<close>

unbundle bit_operations_syntax

type_synonym disk = "string \<Rightarrow> string option"

section \<open>The archive (archive.go)\<close>

record zip_entry =
  EntryName :: string
  EntryMode :: "32 word"
  EntryContent :: string

record archive_host =
  ZipEncode :: "zip_entry list \<Rightarrow> string"
  ZipDecode :: "string \<Rightarrow> failure + zip_entry list"
  FileCreateTemp :: "disk \<Rightarrow> string \<Rightarrow> failure + string"
  FileHeader :: "string \<Rightarrow> failure option"
  FileWrite :: "string \<Rightarrow> failure option"
  FileFinish :: "failure option"
  FileCloseStaged :: "failure option"
  FileRead :: "string \<Rightarrow> failure option"
  FileCreate :: "failure option"
  FileOpen :: "failure option"
  FileCopy :: "(failure \<times> string) option"
  FileClose :: "failure option"
  FileRemove :: "string \<Rightarrow> bool"

text \<open>\<open>fs.FileMode.IsRegular\<close>: none of the bits that make a file something else.\<close>

definition IsRegular :: "32 word \<Rightarrow> bool" where
  "IsRegular m \<longleftrightarrow> m AND 0x8F280000 = 0"

definition file_of :: "archive_files \<Rightarrow> string \<Rightarrow> string" where
  "file_of b name = (case map_of b name of None \<Rightarrow> [] | Some content \<Rightarrow> content)"

definition archive_entry :: "archive_files \<Rightarrow> string \<Rightarrow> zip_entry" where
  "archive_entry b name =
     \<lparr>EntryName = name, EntryMode = (if HasSuffix name ''.sh'' then 0x1ED else 0x1A4), EntryContent = file_of b name\<rparr>"

text \<open>What reaches the staged file, also when an entry fails and the writer is closed.\<close>

fun write_entries :: "archive_host \<Rightarrow> archive_files \<Rightarrow> string list \<Rightarrow> zip_entry list \<Rightarrow> failure option \<times> zip_entry list" where
  "write_entries host b [] done_entries = (None, done_entries)"
| "write_entries host b (name # names) done_entries =
     (case FileHeader host name of
        Some e \<Rightarrow> (Some e, done_entries)
      | None \<Rightarrow>
          (case FileWrite host name of
             Some e \<Rightarrow> (Some e, done_entries)
           | None \<Rightarrow> write_entries host b names (done_entries @ [archive_entry b name])))"

definition writeArchive :: "archive_host \<Rightarrow> archive_files \<Rightarrow> failure option \<times> string" where
  "writeArchive host b =
     (case write_entries host b (listNames (map fst b)) [] of
        (Some e, entries) \<Rightarrow> (Some e, ZipEncode host entries)
      | (None, entries) \<Rightarrow> (FileFinish host, ZipEncode host entries))"

definition verify_entry :: "archive_host \<Rightarrow> archive_files \<Rightarrow> zip_entry \<Rightarrow> failure option" where
  "verify_entry host b entry =
     (case FileRead host (EntryName entry) of
        Some e \<Rightarrow> Some e
      | None \<Rightarrow>
          if \<not> IsRegular (EntryMode entry) \<or> EntryContent entry \<noteq> file_of b (EntryName entry)
          then Some (Failure (''archive verification failed: '' @ EntryName entry)) else None)"

definition verifyArchive :: "archive_host \<Rightarrow> string \<Rightarrow> archive_files \<Rightarrow> failure option" where
  "verifyArchive host bytes b =
     (case ZipDecode host bytes of
        Inl e \<Rightarrow> Some e
      | Inr entries \<Rightarrow>
          if length entries \<noteq> length b then Some (Failure ''archive file count differs'')
          else first_failure (map (verify_entry host b) entries))"

definition remove_file :: "archive_host \<Rightarrow> string \<Rightarrow> disk \<Rightarrow> disk" where
  "remove_file host name disk = (if FileRemove host name then disk(name := None) else disk)"

text \<open>The second half of \<open>writeBundle\<close>: the output is created, or it was there; a copy that fails is removed.\<close>

definition publish :: "archive_host \<Rightarrow> string \<Rightarrow> string \<Rightarrow> disk \<Rightarrow> failure option \<times> disk" where
  "publish host output staged disk =
     (if disk output \<noteq> None then (Some (Failure (''open '' @ output @ '': file exists'')), disk)
      else case FileCreate host of
        Some e \<Rightarrow> (Some e, disk)
      | None \<Rightarrow>
          let disk = disk(output \<mapsto> []) in
          (case FileOpen host of
             Some e \<Rightarrow> (Some e, remove_file host output disk)
           | None \<Rightarrow>
               (case FileCopy host of
                  Some (e, part) \<Rightarrow> (Some e, remove_file host output (disk(output \<mapsto> part)))
                | None \<Rightarrow>
                    let disk = disk(output \<mapsto> (case disk staged of None \<Rightarrow> [] | Some bytes \<Rightarrow> bytes)) in
                    (case FileClose host of
                       Some e \<Rightarrow> (Some e, remove_file host output disk)
                     | None \<Rightarrow> (None, disk)))))"

definition writeBundle :: "archive_host \<Rightarrow> string \<Rightarrow> archive_files \<Rightarrow> disk \<Rightarrow> failure option \<times> disk" where
  "writeBundle host output b disk =
     (case validateBundle b of
        Some e \<Rightarrow> (Some e, disk)
      | None \<Rightarrow>
          (case FileCreateTemp host disk (Dir output) of
             Inl e \<Rightarrow> (Some e, disk)
           | Inr staged \<Rightarrow>
               let (err, bytes) = writeArchive host b;
                   disk = disk(staged \<mapsto> bytes);
                   (r, disk) =
                     (case err of
                        Some e \<Rightarrow> (Some e, disk)
                      | None \<Rightarrow>
                          (case FileCloseStaged host of
                             Some e \<Rightarrow> (Some e, disk)
                           | None \<Rightarrow>
                               (case verifyArchive host bytes b of
                                  Some e \<Rightarrow> (Some e, disk)
                                | None \<Rightarrow> publish host output staged disk)))
               in (r, remove_file host staged disk)))"

section \<open>The command (main.go)\<close>

text \<open>The flags as Go's \<open>flag\<close> package reads them: one dash or two, a value after an equals sign or, for a
  text, in the next argument; the first argument that is no flag ends them.\<close>

definition flag_default :: export_options where
  "flag_default = \<lparr>ExportSource = [], ExportOutput = [], ExportSkills = [], ExportAgents = ''dove'', ExportAllowDirty = False\<rparr>"

definition set_text :: "string \<Rightarrow> string \<Rightarrow> export_options \<Rightarrow> export_options option" where
  "set_text name v options =
     (if name = ''source'' then Some (options\<lparr>ExportSource := v\<rparr>)
      else if name = ''output'' then Some (options\<lparr>ExportOutput := v\<rparr>)
      else if name = ''skills'' then Some (options\<lparr>ExportSkills := v\<rparr>)
      else if name = ''agents'' then Some (options\<lparr>ExportAgents := v\<rparr>)
      else None)"

definition set_flag :: "string \<Rightarrow> string option \<Rightarrow> export_options \<Rightarrow> failure + export_options" where
  "set_flag name v options =
     (case ParseBool (case v of None \<Rightarrow> ''true'' | Some v \<Rightarrow> v) of
        None \<Rightarrow> Inl (Failure (''invalid boolean value for -'' @ name @ '': parse error''))
      | Some on \<Rightarrow> Inr (options\<lparr>ExportAllowDirty := on\<rparr>))"

fun parse_flags :: "string list \<Rightarrow> export_options \<Rightarrow> failure + export_options \<times> string list" where
  "parse_flags [] options = Inr (options, [])"
| "parse_flags (s # args) options =
     (if length s < 2 \<or> hd s \<noteq> CHR ''-'' then Inr (options, s # args)
      else if s = ''--'' then Inr (options, args)
      else let flag = (if s ! 1 = CHR ''-'' then drop 2 s else drop 1 s) in
        if prefix ''-'' flag \<or> prefix ''='' flag then Inl (Failure (''bad flag syntax: '' @ s))
        else case SplitTwo flag CHR ''='' of (name, v) \<Rightarrow>
          if name = ''allow-dirty''
          then (case set_flag name v options of Inl e \<Rightarrow> Inl e | Inr options \<Rightarrow> parse_flags args options)
          else if set_text name [] options = None
          then Inl (Failure (if name = ''help'' \<or> name = ''h'' then ''flag: help requested''
            else ''flag provided but not defined: -'' @ name))
          else (case v of
              Some v \<Rightarrow> parse_flags args (case set_text name v options of None \<Rightarrow> options | Some o' \<Rightarrow> o')
            | None \<Rightarrow>
                (case args of
                   [] \<Rightarrow> Inl (Failure (''flag needs an argument: -'' @ name))
                 | v # args \<Rightarrow> parse_flags args (case set_text name v options of None \<Rightarrow> options | Some o' \<Rightarrow> o'))))"

definition exportBundle ::
  "export_host \<Rightarrow> (bundle_manifest \<Rightarrow> failure + string) \<Rightarrow> archive_host \<Rightarrow> string list \<Rightarrow> disk \<Rightarrow> (failure + string) \<times> disk" where
  "exportBundle host encode archive args disk =
     (case parse_flags args flag_default of
        Inl e \<Rightarrow> (Inl e, disk)
      | Inr (options, rest) \<Rightarrow>
          if \<not> HasPrefix (ExportSource options) ''/'' \<or> \<not> HasPrefix (ExportOutput options) ''/'' \<or> rest \<noteq> []
          then (Inl (Failure ''use absolute paths: --source <repository> --output <new.zip> [--skills <names>]''), disk)
          else case sum_bind (readSourceTree host options) (\<lambda>tree. collectBundle host encode tree options) of
              Inl e \<Rightarrow> (Inl e, disk)
            | Inr b \<Rightarrow>
                (case writeBundle archive (ExportOutput options) b disk of
                   (Some e, disk) \<Rightarrow> (Inl e, disk)
                 | (None, disk) \<Rightarrow>
                     (Inr ([CHR 0xE2, CHR 0x9C, CHR 0x85] @ '' Snapshot Exported: '' @ ExportOutput options @ '' ('' @
                        Itoa (int (length b)) @ '' files)'' @ [CHR 0x0A]), disk)))"

text \<open>What the process prints to its standard output and error, and its exit status.\<close>

definition export_main ::
  "export_host \<Rightarrow> (bundle_manifest \<Rightarrow> failure + string) \<Rightarrow> archive_host \<Rightarrow> (failure \<Rightarrow> string) \<Rightarrow> string list \<Rightarrow> disk
   \<Rightarrow> (string \<times> string \<times> int) \<times> disk" where
  "export_main host encode archive said args disk =
     (case exportBundle host encode archive args disk of
        (Inl e, disk) \<Rightarrow> (([], [CHR 0xE2, CHR 0x9D, CHR 0x8C] @ '' Export Failed: '' @ said e @ [CHR 0x0A], 1), disk)
      | (Inr line, disk) \<Rightarrow> ((line, [], 0), disk))"

end
