(* ===== verification/ExportProperties.thy ===== *)
theory ExportProperties
  imports Export
begin

text \<open>
  What the export script promises: the selection ends and holds exactly what the roots need, and a
  bundle that is rendered passes its own check.
\<close>

declare addFile_body_def [simp] addSkill_body_def [simp] addAgent_body_def [simp]

section \<open>The selection ends\<close>

text \<open>A visitor that keeps an invariant, and whose failures are of one kind.\<close>

definition keeps :: "('s \<Rightarrow> bool) \<Rightarrow> (failure \<Rightarrow> bool) \<Rightarrow> 's visitor \<Rightarrow> bool" where
  "keeps Inv Q f \<longleftrightarrow> (\<forall>l s r s'. Inv s \<longrightarrow> f l s = (r, s') \<longrightarrow> Inv s' \<and> (\<forall>x. r = Inl x \<longrightarrow> Q x))"

lemma visit_tokens_inv:
  assumes "keeps Inv Q f"
  shows "Inv s \<Longrightarrow> (\<forall>x. e = Some x \<longrightarrow> Q x) \<Longrightarrow> visit_tokens f ts e s = (out, e', s') \<Longrightarrow>
    Inv s' \<and> (\<forall>x. e' = Some x \<longrightarrow> Q x)"
proof (induction ts arbitrary: e s out)
  case (Cons t ts)
  show ?case
  proof (cases t)
    case (Text x)
    then show ?thesis using Cons by (auto split: prod.splits)
  next
    case (LinkTo l)
    obtain r s1 where r: "f l s = (r, s1)" by fastforce
    with assms Cons.prems(1) have s1: "Inv s1" "\<And>x. r = Inl x \<Longrightarrow> Q x" unfolding keeps_def by blast+
    show ?thesis
    proof (cases r)
      case (Inl x)
      obtain o' where "visit_tokens f ts (Some x) s1 = (o', e', s')" using Cons.prems(3) r LinkTo Inl by (auto split: prod.splits)
      then show ?thesis using Cons.IH [OF s1(1)] s1(2) Inl by blast
    next
      case (Inr x)
      obtain o' where "visit_tokens f ts e s1 = (o', e', s')" using Cons.prems(3) r LinkTo Inr by (auto split: prod.splits)
      then show ?thesis using Cons.IH [OF s1(1)] Cons.prems(2) by blast
    qed
  qed
qed auto

lemma visit_marked_inv:
  assumes "keeps Inv Q f"
  shows "Inv s \<Longrightarrow> visit_marked f ms s = (r, s') \<Longrightarrow> Inv s' \<and> (\<forall>x. r = Inl x \<longrightarrow> Q x)"
proof (induction ms arbitrary: s r)
  case (Cons line ms)
  obtain m l where line: "line = (m, l)" by fastforce
  obtain out e s1 where v: "(if m then visit_tokens f (tokens l) None s else (l, None, s)) = (out, e, s1)" by (metis prod_cases3)
  then have s1: "Inv s1" "\<And>x. e = Some x \<Longrightarrow> Q x"
    using visit_tokens_inv [OF assms Cons.prems(1), of None "tokens l" out e s1] Cons.prems(1) by (auto split: if_splits)
  show ?case
  proof (cases e)
    case None
    obtain r1 where "visit_marked f ms s1 = (r1, s')" "r = map_sum id ((@) out) r1"
      using Cons.prems(2) v None line by (auto split: prod.splits)
    moreover from this(1) have "Inv s' \<and> (\<forall>x. r1 = Inl x \<longrightarrow> Q x)" using Cons.IH [OF s1(1)] by blast
    ultimately show ?thesis by (cases r1) auto
  next
    case (Some x)
    then show ?thesis using Cons.prems(2) v line s1 by auto
  qed
qed auto

lemma visitLinks_inv:
  assumes "keeps Inv Q f" "Inv s" "visitLinks content f s = (r, s')"
  shows "Inv s' \<and> (\<forall>x. r = Inl x \<longrightarrow> Q x)"
  using visit_marked_inv [OF assms(1,2)] assms(3) unfolding visitLinks_def visit_lines_marked by blast

text \<open>How many files of the source are still to be added, and a step that adds without running out.\<close>

definition unread :: "source_tree \<Rightarrow> selection \<Rightarrow> nat" where
  "unread tree sel = card (set (TreeFiles tree) - fst ` set (SelFiles sel))"

definition adds :: "source_tree \<Rightarrow> nat \<Rightarrow> adding \<Rightarrow> bool" where
  "adds tree k add \<longleftrightarrow> (\<forall>sel r sel'. unread tree sel \<le> k \<longrightarrow> add sel = (r, sel') \<longrightarrow>
     unread tree sel' \<le> unread tree sel \<and> r \<noteq> Some OutOfFuel)"

lemma addsI:
  "(\<And>sel r sel'. unread tree sel \<le> k \<Longrightarrow> add sel = (r, sel') \<Longrightarrow> unread tree sel' \<le> unread tree sel \<and> r \<noteq> Some OutOfFuel) \<Longrightarrow>
   adds tree k add"
  unfolding adds_def by blast

lemma addsD: "adds tree k add \<Longrightarrow> unread tree sel \<le> k \<Longrightarrow> add sel = (r, sel') \<Longrightarrow> unread tree sel' \<le> unread tree sel \<and> r \<noteq> Some OutOfFuel"
  unfolding adds_def by blast

lemma adds_each: "(\<And>f. f \<in> set names \<Longrightarrow> adds tree k (add f)) \<Longrightarrow> adds tree k (add_each add names)"
proof (induction names)
  case (Cons name names)
  show ?case
  proof (rule addsI)
    fix sel r sel'
    assume sel: "unread tree sel \<le> k" and run: "add_each add (name # names) sel = (r, sel')"
    obtain r1 sel1 where first: "add name sel = (r1, sel1)" by fastforce
    have 1: "unread tree sel1 \<le> unread tree sel" "r1 \<noteq> Some OutOfFuel" using addsD [OF Cons.prems sel first] by auto
    show "unread tree sel' \<le> unread tree sel \<and> r \<noteq> Some OutOfFuel"
    proof (cases r1)
      case None
      then have "add_each add names sel1 = (r, sel')" using run first by simp
      from addsD [OF Cons.IH _ this] Cons.prems 1(1) sel show ?thesis by auto
    qed (use run first 1 in auto)
  qed
qed (auto intro: addsI)

lemma adds_links:
  assumes add: "\<And>k. adds tree j (add k)"
  shows "adds tree j (\<lambda>sel. case visitLinks content (link_visitor add name) (sel, None) of (r, (sel, _)) \<Rightarrow>
    (case r of Inl e \<Rightarrow> Some e | Inr _ \<Rightarrow> None, sel))"
proof (rule addsI)
  fix sel r sel'
  assume sel: "unread tree sel \<le> j"
    and run: "(case visitLinks content (link_visitor add name) (sel, None) of (r, (sel, _)) \<Rightarrow>
      (case r of Inl e \<Rightarrow> Some e | Inr _ \<Rightarrow> None, sel)) = (r, sel')"
  let ?Inv = "\<lambda>(s, err). unread tree s \<le> unread tree sel \<and> err \<noteq> Some OutOfFuel"
  obtain v err' where v: "visitLinks content (link_visitor add name) (sel, None) = (v, sel', err')"
    and r: "r = (case v of Inl e \<Rightarrow> Some e | Inr _ \<Rightarrow> None)"
    using run by (auto split: prod.splits)
  have "?Inv s' \<and> (\<forall>x. r = Inl x \<longrightarrow> x \<noteq> OutOfFuel)" if "?Inv s" "link_visitor add name l s = (r, s')" for l s r s'
  proof -
    obtain s0 err where s: "s = (s0, err)" by fastforce
    have ok: "unread tree s0 \<le> unread tree sel" "err \<noteq> Some OutOfFuel" using that(1) s by auto
    have "unread tree sel1 \<le> unread tree sel \<and> e1 \<noteq> Some OutOfFuel" if "add k s0 = (e1, sel1)" for k e1 sel1
      using addsD [OF add _ that] ok(1) sel by force
    then show ?thesis using that(2) ok s by (auto simp: link_visitor_def split: option.splits prod.splits)
  qed
  then have "keeps ?Inv (\<lambda>x. x \<noteq> OutOfFuel) (link_visitor add name)" unfolding keeps_def by blast
  from visitLinks_inv [OF this _ v]
  show "unread tree sel' \<le> unread tree sel \<and> r \<noteq> Some OutOfFuel" using r by (auto split: sum.splits)
qed

lemma unread_add:
  assumes "name \<in> set (TreeFiles tree)" "name \<notin> fst ` set (SelFiles sel)"
  shows "Suc (unread tree (sel\<lparr>SelFiles := SelFiles sel @ [(name, c)]\<rparr>)) = unread tree sel"
proof -
  have "set (TreeFiles tree) - insert name (fst ` set (SelFiles sel)) = (set (TreeFiles tree) - fst ` set (SelFiles sel)) - {name}" by blast
  then show ?thesis using assms card_Suc_Diff1 [of "set (TreeFiles tree) - fst ` set (SelFiles sel)" name]
    by (simp add: unread_def del: card_Diff_insert)
qed

lemma readFile_listed: "readFile host tree name = Inr c \<Longrightarrow> name \<in> set (TreeFiles tree) \<and> name \<notin> set (TreeExcluded tree)"
  by (auto simp: readFile_def split: if_splits)

lemma adds_file:
  assumes host: "\<And>name. readFile host tree name \<noteq> Inl OutOfFuel" and k: "2 * k + 1 \<le> Suc n"
    and below: "\<And>j name. 2 * j + 2 \<le> n \<Longrightarrow> adds tree j (addSkill n host tree name) \<and> adds tree j (addAgent n host tree name)"
  shows "adds tree k (addFile (Suc n) host tree name)"
proof (rule addsI)
  let ?add = "\<lambda>k sel. case k of FileNode f \<Rightarrow> (None, sel) | SkillNode s \<Rightarrow> addSkill n host tree s sel
    | AgentNode a \<Rightarrow> addAgent n host tree a sel"
  fix sel r sel'
  assume sel: "unread tree sel \<le> k" and run: "addFile (Suc n) host tree name sel = (r, sel')"
  consider "name \<in> fst ` set (SelFiles sel)" | e where "name \<notin> fst ` set (SelFiles sel)" "readFile host tree name = Inl e"
    | c where "name \<notin> fst ` set (SelFiles sel)" "readFile host tree name = Inr c" by (cases "readFile host tree name") auto
  then show "unread tree sel' \<le> unread tree sel \<and> r \<noteq> Some OutOfFuel"
  proof cases
    case (3 c)
    let ?s = "sel\<lparr>SelFiles := SelFiles sel @ [(name, c)]\<rparr>"
    have u: "Suc (unread tree ?s) = unread tree sel" using unread_add 3 readFile_listed by blast
    then have j: "2 * unread tree ?s + 2 \<le> n" using sel k by linarith
    have "adds tree (unread tree ?s) (?add k)" for k
      using below [OF j] by (cases k) (auto intro: addsI)
    note links = addsD [OF adds_links [OF this, where content = c and name = name], where sel = "?s" and r = r and sel' = sel']
    show ?thesis
    proof (cases "Ext name = ''.md''")
      case True
      have "unread tree sel' \<le> unread tree ?s \<and> r \<noteq> Some OutOfFuel"
        by (rule links) (use run 3 True in \<open>simp_all add: Let_def\<close>)
      then show ?thesis using u by linarith
    next
      case False
      then show ?thesis using run 3 u by (auto simp: Let_def)
    qed
  qed (use run host in auto)
qed

lemma adds_skill:
  assumes each: "\<And>f. adds tree k (addFile n host tree f)"
  shows "adds tree k (addSkill (Suc n) host tree name)"
proof (rule addsI)
  fix sel r sel'
  assume sel: "unread tree sel \<le> k" and run: "addSkill (Suc n) host tree name sel = (r, sel')"
  let ?s = "sel\<lparr>SelSkills := SelSkills sel @ [name]\<rparr>" and ?start = "''.agents/skills/'' @ name @ ''/''"
  have u: "unread tree ?s = unread tree sel" by (simp add: unread_def)
  obtain r1 s1 where first: "addFile n host tree (?start @ ''SKILL.md'') ?s = (r1, s1)" by fastforce
  from addsD [OF each _ first] sel u have 1: "unread tree s1 \<le> unread tree sel" "r1 \<noteq> Some OutOfFuel" by auto
  have rest: "adds tree k (addDirectory (\<lambda>f sel. addFile n host tree f sel) tree ?start)"
    unfolding addDirectory_def by (rule adds_each) (rule each)
  from addsD [OF this, of s1] 1 sel show "unread tree sel' \<le> unread tree sel \<and> r \<noteq> Some OutOfFuel"
    using run first by (fastforce simp: Let_def split: if_splits option.splits)
qed

lemma adds_agent:
  assumes each: "\<And>f. adds tree k (addFile n host tree f)"
  shows "adds tree k (addAgent (Suc n) host tree name)"
proof (rule addsI)
  fix sel r sel'
  assume sel: "unread tree sel \<le> k" and run: "addAgent (Suc n) host tree name sel = (r, sel')"
  let ?s = "sel\<lparr>SelAgents := SelAgents sel @ [name]\<rparr>"
  have u: "unread tree ?s = unread tree sel" by (simp add: unread_def)
  obtain r1 s1 where first: "addFile n host tree (''.agents/agents/'' @ name @ ''.md'') ?s = (r1, s1)" by fastforce
  from addsD [OF each _ first] sel u have 1: "unread tree s1 \<le> unread tree sel" "r1 \<noteq> Some OutOfFuel" by auto
  from addsD [OF each, of s1] 1 sel show "unread tree sel' \<le> unread tree sel \<and> r \<noteq> Some OutOfFuel"
    using run first by (fastforce simp: Let_def split: if_splits option.splits)
qed

lemma adds_all:
  assumes host: "\<And>name. readFile host tree name \<noteq> Inl OutOfFuel"
  shows "(2 * k + 1 \<le> n \<longrightarrow> adds tree k (addFile n host tree name)) \<and> (2 * k + 2 \<le> n \<longrightarrow> adds tree k (addSkill n host tree name))
    \<and> (2 * k + 2 \<le> n \<longrightarrow> adds tree k (addAgent n host tree name))"
proof (induction n arbitrary: k name)
  case (Suc n)
  have "adds tree k (addFile n host tree f)" if "2 * k + 2 \<le> Suc n" for f using Suc.IH that by auto
  then show ?case using adds_file [OF host, of k n name] adds_skill adds_agent Suc.IH by blast
qed simp

text \<open>C33 The selection ends: with as many nested calls as the source has files, twice and two more, the
  selection of an export never runs out of them, however skills, agents and documents refer to each
  other.\<close>
theorem export_selection_ends:
  assumes "\<And>name. readFile host tree name \<noteq> Inl OutOfFuel"
  shows "fst (collect_selection host tree options) \<noteq> Some OutOfFuel"
proof -
  let ?k = "length (TreeFiles tree)" and ?n = "selection_fuel tree"
  have k: "unread tree sel \<le> ?k" for sel
    unfolding unread_def by (meson Diff_subset List.finite_set card_length card_mono le_trans)
  have all: "adds tree ?k (addFile ?n host tree name)" "adds tree ?k (addSkill ?n host tree name)"
      "adds tree ?k (addAgent ?n host tree name)" for name
    using adds_all [OF assms, of ?k ?n name] by (simp_all add: selection_fuel_def)
  have dir: "adds tree ?k (addDirectory (addFile ?n host tree) tree start)" for start
    unfolding addDirectory_def by (rule adds_each) (rule all)
  have fine: "add sel \<noteq> (Some OutOfFuel, s)" if "adds tree ?k add" for add sel s
    using addsD [OF that k] by blast
  have "add_each (addFile ?n host tree) names sel \<noteq> (Some OutOfFuel, s)"
      "add_each (addDirectory (addFile ?n host tree) tree) names sel \<noteq> (Some OutOfFuel, s)"
      "add_each (addSkill ?n host tree) names sel \<noteq> (Some OutOfFuel, s)"
      "add_each (addAgent ?n host tree) names sel \<noteq> (Some OutOfFuel, s)" for names sel s
    by (rule fine, rule adds_each, rule all dir)+
  then show ?thesis
    by (auto simp: collect_selection_def addCanon_def Let_def split: prod.splits option.splits)
      (metis prod.collapse)
qed

section \<open>The selection is what the roots need\<close>

definition visited :: "selection \<Rightarrow> node set" where
  "visited sel = FileNode ` fst ` set (SelFiles sel) \<union> SkillNode ` set (SelSkills sel) \<union> AgentNode ` set (SelAgents sel)"

definition directory_files :: "source_tree \<Rightarrow> string \<Rightarrow> string list" where
  "directory_files tree start = filter (\<lambda>name. HasPrefix name start \<and> name \<notin> set (TreeExcluded tree)) (TreeFiles tree)"

text \<open>What each part of a selection asks for next, and what an export asks for first.\<close>

definition link_node :: "string \<Rightarrow> string \<Rightarrow> node option" where
  "link_node name link = (case resolveLink name link of None \<Rightarrow> None | Some (target, _) \<Rightarrow> target_node target)"

definition successors :: "export_host \<Rightarrow> source_tree \<Rightarrow> node \<Rightarrow> node list" where
  "successors host tree k =
     (case k of
        FileNode f \<Rightarrow> (case readFile host tree f of
            Inl _ \<Rightarrow> []
          | Inr c \<Rightarrow> if Ext f = ''.md'' then List.map_filter (link_node f) (links_of c) else [])
      | SkillNode s \<Rightarrow> let start = ''.agents/skills/'' @ s @ ''/'' in
          map FileNode ((start @ ''SKILL.md'') # directory_files tree start)
      | AgentNode a \<Rightarrow> let adapter = ''.agents/agents/'' @ a @ ''.toml'' in
          map FileNode ((''.agents/agents/'' @ a @ ''.md'') # (if adapter \<in> set (TreeFiles tree) then [adapter] else [])))"

definition export_roots :: "source_tree \<Rightarrow> export_options \<Rightarrow> node list" where
  "export_roots tree options =
     map FileNode (canon_files @ concat (map (directory_files tree) canon_directories))
     @ map SkillNode (named_skills options) @ map AgentNode (named_agents options)"

inductive needed :: "export_host \<Rightarrow> source_tree \<Rightarrow> export_options \<Rightarrow> node \<Rightarrow> bool"
  for host tree options where
  Asked: "k \<in> set (export_roots tree options) \<Longrightarrow> needed host tree options k"
| Then: "needed host tree options k \<Longrightarrow> j \<in> set (successors host tree k) \<Longrightarrow> needed host tree options j"

definition files_read :: "export_host \<Rightarrow> source_tree \<Rightarrow> selection \<Rightarrow> bool" where
  "files_read host tree sel \<longleftrightarrow> distinct (map fst (SelFiles sel)) \<and> (\<forall>(f, c) \<in> set (SelFiles sel). readFile host tree f = Inr c)"

text \<open>A selection that grew by the nodes it was asked for with all they ask for, and by nothing that a
  set closed under asking would not hold; and a step that grows so whenever it succeeds.\<close>

definition grows :: "export_host \<Rightarrow> source_tree \<Rightarrow> node list \<Rightarrow> selection \<Rightarrow> selection \<Rightarrow> bool" where
  "grows host tree ks sel sel' \<longleftrightarrow>
     visited sel \<subseteq> visited sel' \<and> set ks \<subseteq> visited sel'
     \<and> (\<forall>k \<in> visited sel' - visited sel. set (successors host tree k) \<subseteq> visited sel')
     \<and> (\<forall>N. (\<forall>k \<in> N. set (successors host tree k) \<subseteq> N) \<longrightarrow> set ks \<subseteq> N \<longrightarrow> visited sel \<subseteq> N \<longrightarrow> visited sel' \<subseteq> N)
     \<and> (files_read host tree sel \<longrightarrow> files_read host tree sel')"

definition selects :: "export_host \<Rightarrow> source_tree \<Rightarrow> node list \<Rightarrow> adding \<Rightarrow> bool" where
  "selects host tree ks add \<longleftrightarrow> (\<forall>sel sel'. add sel = (None, sel') \<longrightarrow> grows host tree ks sel sel')"

definition add_then :: "adding \<Rightarrow> adding \<Rightarrow> adding" where
  "add_then a b sel = (case a sel of (Some e, sel) \<Rightarrow> (Some e, sel) | (None, sel) \<Rightarrow> b sel)"

lemma growsD:
  assumes "grows host tree ks sel sel'"
  shows "visited sel \<subseteq> visited sel'" "set ks \<subseteq> visited sel'"
    and "\<And>k. k \<in> visited sel' \<Longrightarrow> k \<notin> visited sel \<Longrightarrow> set (successors host tree k) \<subseteq> visited sel'"
    and "\<And>N. (\<forall>k \<in> N. set (successors host tree k) \<subseteq> N) \<Longrightarrow> set ks \<subseteq> N \<Longrightarrow> visited sel \<subseteq> N \<Longrightarrow> visited sel' \<subseteq> N"
    and "files_read host tree sel \<Longrightarrow> files_read host tree sel'"
  using assms unfolding grows_def by simp_all

lemma growsI:
  assumes "visited sel \<subseteq> visited sel'" "set ks \<subseteq> visited sel'"
    and "\<And>k. k \<in> visited sel' \<Longrightarrow> k \<notin> visited sel \<Longrightarrow> set (successors host tree k) \<subseteq> visited sel'"
    and "\<And>N. (\<forall>k \<in> N. set (successors host tree k) \<subseteq> N) \<Longrightarrow> set ks \<subseteq> N \<Longrightarrow> visited sel \<subseteq> N \<Longrightarrow> visited sel' \<subseteq> N"
    and "files_read host tree sel \<Longrightarrow> files_read host tree sel'"
  shows "grows host tree ks sel sel'"
  unfolding grows_def using assms by simp

lemma grows_trans:
  assumes a: "grows host tree ks sel s1" and b: "grows host tree js s1 sel'"
  shows "grows host tree (ks @ js) sel sel'"
proof (rule growsI)
  note A = growsD [OF a] and B = growsD [OF b]
  show "visited sel \<subseteq> visited sel'" using A(1) B(1) by (rule subset_trans)
  show "set (ks @ js) \<subseteq> visited sel'" using subset_trans [OF A(2) B(1)] B(2) by simp
  show "files_read host tree sel \<Longrightarrow> files_read host tree sel'" using A(5) B(5) by simp
  show "set (successors host tree k) \<subseteq> visited sel'" if "k \<in> visited sel'" "k \<notin> visited sel" for k
    using that A(3) [of k] B(1) B(3) [of k] by (cases "k \<in> visited s1") (auto intro: subset_trans)
  show "visited sel' \<subseteq> N"
    if "\<forall>k \<in> N. set (successors host tree k) \<subseteq> N" "set (ks @ js) \<subseteq> N" "visited sel \<subseteq> N" for N
    using that A(4) [OF that(1) _ that(3)] B(4) [OF that(1)] by simp
qed

lemma grows_refl: "set ks \<subseteq> visited sel \<Longrightarrow> grows host tree ks sel sel"
  by (simp add: grows_def)

lemma selectsD: "selects host tree ks add \<Longrightarrow> add sel = (None, sel') \<Longrightarrow> grows host tree ks sel sel'"
  unfolding selects_def by blast

lemma selects_then: "selects host tree ks a \<Longrightarrow> selects host tree js b \<Longrightarrow> selects host tree (ks @ js) (add_then a b)"
  unfolding selects_def add_then_def by (auto split: prod.splits option.splits) (metis grows_trans)

lemma selects_nothing: "selects host tree [] (\<lambda>sel. (None, sel))"
  by (simp add: selects_def grows_refl)

lemma selects_each:
  "(\<And>n. n \<in> set names \<Longrightarrow> selects host tree (ks n) (add n)) \<Longrightarrow>
   selects host tree (concat (map ks names)) (add_each add names)"
proof (induction names)
  case Nil
  have "add_each add [] = (\<lambda>sel. (None, sel))" by auto
  then show ?case using selects_nothing by simp
next
  case (Cons n names)
  have "add_each add (n # names) = add_then (add n) (add_each add names)" by (auto simp: add_then_def)
  then show ?case using selects_then [of host tree "ks n" "add n"] Cons by simp
qed

lemma selects_files:
  assumes "\<And>f. selects host tree [FileNode f] (add f)"
  shows "selects host tree (map FileNode names) (add_each add names)"
    and "selects host tree (map FileNode (directory_files tree start)) (addDirectory add tree start)"
  using selects_each [of _ host tree "\<lambda>f. [FileNode f]" add] assms
  by (simp_all add: concat_map_singleton addDirectory_def directory_files_def)

text \<open>The links of a document.\<close>

lemma target_nodes: "target_node t = Some k \<Longrightarrow> (\<exists>s. k = SkillNode s) \<or> (\<exists>a. k = AgentNode a)"
  by (auto simp: target_node_def Let_def split: if_splits)

definition follow_links :: "(node \<Rightarrow> adding) \<Rightarrow> string \<Rightarrow> string list \<Rightarrow> adding" where
  "follow_links add name ls sel =
     (case run_links (link_visitor add name) ls (sel, None) of
        None \<Rightarrow> (Some OutOfFuel, sel) | Some (sel', _) \<Rightarrow> (None, sel'))"

lemma follow_links_Cons:
  "follow_links add name (l # ls) sel = (None, sel') \<Longrightarrow>
   add_then (case link_node name l of None \<Rightarrow> (\<lambda>sel. (None, sel)) | Some k \<Rightarrow> add k) (follow_links add name ls) sel = (None, sel')"
proof -
  assume "follow_links add name (l # ls) sel = (None, sel')"
  then obtain err where run: "run_links (link_visitor add name) (l # ls) (sel, None) = Some (sel', err)"
    by (auto simp: follow_links_def split: option.splits)
  then obtain l' s1 e1 where first: "link_visitor add name l (sel, None) = (Inr l', s1, e1)"
    and rest: "run_links (link_visitor add name) ls (s1, e1) = Some (sel', err)"
    by (auto split: prod.splits sum.splits)
  have "e1 = None \<and> (case link_node name l of None \<Rightarrow> s1 = sel | Some k \<Rightarrow> add k sel = (None, s1))"
  proof (cases "link_node name l")
    case None
    then show ?thesis using first by (auto simp: link_node_def link_visitor_def split: option.splits)
  next
    case (Some k)
    then obtain t a where "resolveLink name l = Some (t, a)" "target_node t = Some k"
      by (auto simp: link_node_def split: option.splits)
    then show ?thesis using first Some by (auto simp: link_visitor_def split: prod.splits option.splits)
  qed
  then show ?thesis using rest by (auto simp: add_then_def follow_links_def split: option.splits)
qed

lemma selects_weak: "selects host tree ks a \<Longrightarrow> (\<And>sel sel'. b sel = (None, sel') \<Longrightarrow> a sel = (None, sel')) \<Longrightarrow> selects host tree ks b"
  unfolding selects_def by blast

lemma selects_links:
  assumes "\<And>s. selects host tree [SkillNode s] (add (SkillNode s))" "\<And>a. selects host tree [AgentNode a] (add (AgentNode a))"
  shows "selects host tree (List.map_filter (link_node name) ls) (follow_links add name ls)"
proof (induction ls)
  case Nil
  have "follow_links add name [] = (\<lambda>sel. (None, sel))" by (auto simp: follow_links_def)
  then show ?case using selects_nothing by (simp add: List.map_filter_simps)
next
  case (Cons l ls)
  have "selects host tree (case link_node name l of None \<Rightarrow> [] | Some k \<Rightarrow> [k])
      (case link_node name l of None \<Rightarrow> (\<lambda>sel. (None, sel)) | Some k \<Rightarrow> add k)"
    using assms selects_nothing target_nodes by (fastforce simp: link_node_def split: option.splits)
  from selects_weak [OF selects_then [OF this Cons] follow_links_Cons]
  show ?case by (auto simp: List.map_filter_simps split: option.splits)
qed

lemma document_links:
  "(case visitLinks content (link_visitor add name) (sel, None) of (r, (sel, _)) \<Rightarrow> (case r of Inl e \<Rightarrow> Some e | Inr _ \<Rightarrow> None, sel))
     = (None, sel') \<Longrightarrow> follow_links add name (links_of content) sel = (None, sel')"
  using visitLinks_run [of content "link_visitor add name" "(sel, None)", symmetric]
  by (auto simp: follow_links_def split: prod.splits sum.splits option.splits)

lemma grows_node:
  assumes new: "visited s = insert k (visited sel)" "files_read host tree sel \<Longrightarrow> files_read host tree s"
    and more: "grows host tree (successors host tree k) s sel'"
  shows "grows host tree [k] sel sel'"
proof (rule growsI)
  note D = growsD [OF more, unfolded new(1)]
  show "visited sel \<subseteq> visited sel'" "set [k] \<subseteq> visited sel'" using D(1) by simp_all
  show "set (successors host tree j) \<subseteq> visited sel'" if "j \<in> visited sel'" "j \<notin> visited sel" for j
    using that D(2) D(3) [of j] by (cases "j = k") auto
  show "visited sel' \<subseteq> N"
    if "\<forall>k \<in> N. set (successors host tree k) \<subseteq> N" "set [k] \<subseteq> N" "visited sel \<subseteq> N" for N
    using that D(4) [OF that(1)] by simp
  show "files_read host tree sel \<Longrightarrow> files_read host tree sel'" using new(2) D(5) by blast
qed

lemma selects_file:
  assumes "\<And>s. selects host tree [SkillNode s] (addSkill n host tree s)" "\<And>a. selects host tree [AgentNode a] (addAgent n host tree a)"
  shows "selects host tree [FileNode name] (addFile (Suc n) host tree name)"
  unfolding selects_def
proof (intro allI impI)
  let ?add = "\<lambda>k sel. case k of FileNode f \<Rightarrow> (None, sel) | SkillNode s \<Rightarrow> addSkill n host tree s sel
    | AgentNode a \<Rightarrow> addAgent n host tree a sel"
  have links: "selects host tree (List.map_filter (link_node name) ls) (follow_links ?add name ls)" for ls
    by (rule selects_links) (simp_all add: assms)
  fix sel sel'
  assume run: "addFile (Suc n) host tree name sel = (None, sel')"
  show "grows host tree [FileNode name] sel sel'"
  proof (cases "FileNode name \<in> visited sel")
    case True
    then have "name \<in> fst ` set (SelFiles sel)" by (auto simp: visited_def)
    then have "sel' = sel" using run by simp
    then show ?thesis using True by (simp add: grows_refl)
  next
    case False
    then have f: "name \<notin> fst ` set (SelFiles sel)" by (auto simp: visited_def)
    obtain c where c: "readFile host tree name = Inr c" using run f by (cases "readFile host tree name") auto
    let ?s = "sel\<lparr>SelFiles := SelFiles sel @ [(name, c)]\<rparr>"
    have "grows host tree (successors host tree (FileNode name)) ?s sel'"
    proof (cases "Ext name = ''.md''")
      case True
      have "follow_links ?add name (links_of c) ?s = (None, sel')"
        by (rule document_links) (use run f c True in \<open>simp add: Let_def\<close>)
      from selectsD [OF links this] show ?thesis using c True by (simp add: successors_def)
    next
      case False
      then have "sel' = ?s" using run f c by (auto simp: Let_def)
      then show ?thesis using c False by (simp add: successors_def grows_refl)
    qed
    then show ?thesis using c f by (intro grows_node [of ?s]) (auto simp: visited_def files_read_def)
  qed
qed

lemma selects_skill:
  assumes each: "\<And>f. selects host tree [FileNode f] (addFile n host tree f)"
  shows "selects host tree [SkillNode name] (addSkill (Suc n) host tree name)"
  unfolding selects_def
proof (intro allI impI)
  let ?start = "''.agents/skills/'' @ name @ ''/''"
  fix sel sel'
  assume run: "addSkill (Suc n) host tree name sel = (None, sel')"
  show "grows host tree [SkillNode name] sel sel'"
  proof (cases "name \<in> set (SelSkills sel)")
    case True
    then have "sel' = sel" using run by (auto split: if_splits)
    then show ?thesis using True by (simp add: grows_refl visited_def)
  next
    case False
    let ?s = "sel\<lparr>SelSkills := SelSkills sel @ [name]\<rparr>"
    have "add_then (addFile n host tree (?start @ ''SKILL.md'')) (addDirectory (addFile n host tree) tree ?start) ?s = (None, sel')"
      using run False by (auto simp: add_then_def Let_def split: if_splits)
    from selectsD [OF selects_then [OF each selects_files(2) [OF each]] this]
    have "grows host tree (successors host tree (SkillNode name)) ?s sel'" by (simp add: successors_def)
    then show ?thesis by (intro grows_node [of ?s]) (auto simp: visited_def files_read_def)
  qed
qed

lemma selects_agent:
  assumes each: "\<And>f. selects host tree [FileNode f] (addFile n host tree f)"
  shows "selects host tree [AgentNode name] (addAgent (Suc n) host tree name)"
  unfolding selects_def
proof (intro allI impI)
  let ?adapter = "''.agents/agents/'' @ name @ ''.toml''"
  fix sel sel'
  assume run: "addAgent (Suc n) host tree name sel = (None, sel')"
  show "grows host tree [AgentNode name] sel sel'"
  proof (cases "name \<in> set (SelAgents sel)")
    case True
    then have "sel' = sel" using run by (auto split: if_splits)
    then show ?thesis using True by (simp add: grows_refl visited_def)
  next
    case False
    let ?s = "sel\<lparr>SelAgents := SelAgents sel @ [name]\<rparr>"
    let ?more = "if ?adapter \<in> set (TreeFiles tree) then addFile n host tree ?adapter else (\<lambda>sel. (None, sel))"
    have "add_then (addFile n host tree (''.agents/agents/'' @ name @ ''.md'')) ?more ?s = (None, sel')"
      using run False by (auto simp: add_then_def Let_def split: if_splits prod.splits option.splits)
    moreover have "selects host tree (if ?adapter \<in> set (TreeFiles tree) then [FileNode ?adapter] else []) ?more"
      using each selects_nothing by simp
    ultimately have "grows host tree (successors host tree (AgentNode name)) ?s sel'"
      using selectsD [OF selects_then [OF each]] by (fastforce simp: successors_def Let_def)
    then show ?thesis by (intro grows_node [of ?s]) (auto simp: visited_def files_read_def)
  qed
qed

lemma selects_all:
  "selects host tree [FileNode name] (addFile n host tree name) \<and> selects host tree [SkillNode name] (addSkill n host tree name)
   \<and> selects host tree [AgentNode name] (addAgent n host tree name)"
proof (induction n arbitrary: name)
  case 0
  then show ?case by (simp add: selects_def)
next
  case (Suc n)
  then show ?case using selects_file selects_skill selects_agent by blast
qed

lemma selection_grows:
  assumes "collect_selection host tree options = (None, sel)"
  shows "grows host tree (export_roots tree options) \<lparr>SelFiles = [], SelSkills = [], SelAgents = []\<rparr> sel"
proof -
  let ?n = "selection_fuel tree" and ?s = "\<lparr>SelFiles = [], SelSkills = [], SelAgents = []\<rparr>"
  have each: "selects host tree [FileNode f] (addFile ?n host tree f)" for f using selects_all by blast
  let ?canon = "add_then (add_each (addFile ?n host tree) canon_files)
    (add_each (addDirectory (addFile ?n host tree) tree) canon_directories)"
  have run: "add_then ?canon (add_then (add_each (addSkill ?n host tree) (named_skills options))
      (add_each (addAgent ?n host tree) (named_agents options))) ?s = (None, sel)"
    using assms by (auto simp: collect_selection_def addCanon_def add_then_def Let_def split: prod.splits option.splits)
  have "selects host tree (concat (map (\<lambda>start. map FileNode (directory_files tree start)) canon_directories))
      (add_each (addDirectory (addFile ?n host tree) tree) canon_directories)"
    by (rule selects_each) (rule selects_files(2) [OF each])
  moreover have "selects host tree (concat (map (\<lambda>s. [SkillNode s]) (named_skills options))) (add_each (addSkill ?n host tree) (named_skills options))"
    "selects host tree (concat (map (\<lambda>a. [AgentNode a]) (named_agents options))) (add_each (addAgent ?n host tree) (named_agents options))"
    by (rule selects_each, use selects_all in blast)+
  ultimately show ?thesis
    using selectsD [OF selects_then [OF selects_then [OF selects_files(1) [OF each]] selects_then] run]
    by (simp add: export_roots_def concat_map_singleton map_concat comp_def)
qed

lemma selected_files:
  assumes "collect_selection host tree options = (None, sel)"
  shows "distinct (map fst (SelFiles sel))" "list_all (\<lambda>(f, c). readFile host tree f = Inr c) (SelFiles sel)"
  using growsD(5) [OF selection_grows [OF assms]] by (auto simp: files_read_def list_all_iff)

text \<open>C32 An export holds what it needs and nothing else: when the selection succeeds, a file, skill or agent
  is in it exactly when the canon, the directories and the names of the export lead to it, through
  the files of a skill or agent and the links of the documents; every file is in it once, with the
  content the source has.  The order in which the source lists its files does not matter.\<close>
theorem export_selects_what_is_needed:
  assumes "collect_selection host tree options = (None, sel)"
  shows "visited sel = Collect (needed host tree options) \<and> distinct (map fst (SelFiles sel))
    \<and> list_all (\<lambda>(f, c). readFile host tree f = Inr c) (SelFiles sel)"
proof -
  note D = growsD [OF selection_grows [OF assms]]
  have none: "visited \<lparr>SelFiles = [], SelSkills = [], SelAgents = []\<rparr> = {}" by (simp add: visited_def)
  have "k \<in> visited sel" if "needed host tree options k" for k
    using that by induction (use D(2,3) none in auto)
  moreover have "visited sel \<subseteq> Collect (needed host tree options)"
    by (rule D(4)) (auto simp: none intro: needed.intros)
  ultimately show ?thesis using selected_files [OF assms] by auto
qed

section \<open>A small source\<close>

text \<open>Two skills whose documents lead to each other, and a rule that leads to one of them.\<close>

definition sample_names :: "string list" where
  "sample_names = [''AGENTS.md'', ''RULES.md'', ''VALUES.md'', ''PATTERNS.md'', ''.canonignore'', ''main.go'', ''rules/one.md'',
     ''.agents/skills/one-two-update/SKILL.md'', ''.agents/skills/one-two-reload/SKILL.md'', ''.agents/skills/one-two-reload/run.sh'']"

definition sample_text :: "string \<Rightarrow> string" where
  "sample_text name =
     (if name = ''RULES.md'' then ''See [update](.agents/skills/one-two-update/SKILL.md#run) and [the code](main.go).''
      else if name = ''.agents/skills/one-two-update/SKILL.md'' then ''Then [reload](../one-two-reload/SKILL.md).''
      else if name = ''.agents/skills/one-two-reload/SKILL.md'' then ''After [update](../one-two-update).''
      else ''plain'')"

definition sample_host :: export_host where
  "sample_host = \<lparr>HostGit = (\<lambda>dir args. Inr
       (if args = [''rev-parse'', ''--show-toplevel''] then ''/o'' @ [CHR 0x0A]
        else if args = [''remote'', ''get-url'', ''origin''] then sourceAddress @ [CHR 0x0A]
        else if args = [''rev-parse'', ''HEAD''] then ''c0ffee'' @ [CHR 0x0A]
        else if args = [''ls-files'', ''--cached'', ''--others'', ''--exclude-standard'', ''-z'']
        then concat (map (\<lambda>f. f @ [CHR 0x00]) sample_names) else [])),
     HostAbs = Inr, HostEval = Inr, HostRegular = (\<lambda>p. Inr True),
     HostReadFile = (\<lambda>p. Inr (sample_text (drop 3 p))), HostDigest = (\<lambda>s. s)\<rparr>"

definition sample_tree :: source_tree where
  "sample_tree = \<lparr>TreeRoot = ''/o'', TreeCommit = ''c0ffee'', TreeDirty = False, TreeFiles = sample_names, TreeExcluded = []\<rparr>"

definition sample_options :: export_options where
  "sample_options = \<lparr>ExportSource = ''/o'', ExportOutput = ''/t/o.zip'', ExportSkills = [], ExportAgents = [], ExportAllowDirty = False\<rparr>"

definition sample_selection :: selection where
  "sample_selection = \<lparr>SelFiles = map (\<lambda>f. (f, sample_text f))
       [''AGENTS.md'', ''RULES.md'', ''.agents/skills/one-two-update/SKILL.md'', ''.agents/skills/one-two-reload/SKILL.md'',
        ''.agents/skills/one-two-reload/run.sh'', ''VALUES.md'', ''PATTERNS.md'', ''.canonignore'', ''rules/one.md''],
     SelSkills = [''one-two-update'', ''one-two-reload''], SelAgents = []\<rparr>"

lemma sample_readFile: "readFile sample_host sample_tree name \<noteq> Inl OutOfFuel"
  by (simp add: readFile_def sample_host_def Let_def)

lemma sample_selected: "collect_selection sample_host sample_tree sample_options = (None, sample_selection)"
  by code_simp

lemma export_selection_ends_witness:
  "fst (collect_selection sample_host sample_tree sample_options) \<noteq> Some OutOfFuel
   \<and> collect_selection sample_host sample_tree sample_options = (None, sample_selection)"
  using export_selection_ends [OF sample_readFile] sample_selected by blast

lemma export_selects_what_is_needed_witness:
  "needed sample_host sample_tree sample_options (FileNode ''.agents/skills/one-two-reload/run.sh'')
   \<and> \<not> needed sample_host sample_tree sample_options (FileNode ''main.go'')"
proof -
  note all = export_selects_what_is_needed [OF sample_selected]
  have "needed sample_host sample_tree sample_options (FileNode f) \<longleftrightarrow> FileNode f \<in> visited sample_selection" for f
    using all by blast
  then show ?thesis by (simp add: visited_def sample_selection_def image_iff)
qed

end
