(* ===== verification/BundleProperties.thy ===== *)
theory BundleProperties
  imports ExportProperties
begin

text \<open>
  A bundle the export script renders passes the check of the archive writer: the names are clean and
  under .agents, and every local link of every document leads to a file or directory of the bundle.
\<close>

section \<open>Names\<close>

text \<open>A name as a source has it: tidy, without the characters that end a link or make it one to
  elsewhere, and no part of git's own directory.\<close>

definition name_char :: "char \<Rightarrow> bool" where
  "name_char c \<longleftrightarrow> link_char c \<and> c \<noteq> backtick \<and> c \<noteq> CHR '':'' \<and> c \<noteq> CHR ''#''"

definition source_name :: "string \<Rightarrow> bool" where
  "source_name f \<longleftrightarrow> tidy f \<and> list_all name_char f \<and> ''.git'' \<notin> set (split_char CHR ''/'' f)"

lemma source_nameD:
  assumes "source_name f"
  shows "tidy f" "list_all name_char f" "''.git'' \<notin> set (split_char CHR ''/'' f)"
  using assms by (simp_all add: source_name_def)

lemma agents_chars: "list_all name_char ''.agents/canon/''" by code_simp

lemma dest_chars: "tidy f \<Longrightarrow> list_all name_char f \<Longrightarrow> list_all name_char (mapDestination f)"
  using agents_chars by (simp add: dest_form)

lemma git_part: "Contains s ''/.git/'' \<Longrightarrow> ''.git'' \<in> set (split_char CHR ''/'' s)"
proof -
  assume "Contains s ''/.git/''"
  then obtain u v where "s = u @ CHR ''/'' # ''.git'' @ CHR ''/'' # v" by (auto simp: Contains_iff sublist_def)
  then show ?thesis by (simp only: split_char_append) simp
qed

lemma prefix_upto: "prefix (takeWhile P a @ [c]) (a @ d # b) \<longleftrightarrow> prefix (takeWhile P a @ [c]) a" if "c \<noteq> d" "\<not> P c"
  using that by (induction a) auto

lemma Ext_below: "Ext (a @ CHR ''/'' # f) = Ext f"
proof -
  let ?P = "\<lambda>c. c \<noteq> CHR ''/'' \<and> c \<noteq> CHR ''.''"
  have "takeWhile ?P (rev f @ CHR ''/'' # rev a) = takeWhile ?P (rev f)" for f :: string
    by (induction f rule: rev_induct) auto
  then show ?thesis using prefix_upto [of "CHR ''.''" "CHR ''/''" ?P "rev f" "rev a"] by (simp add: Ext_def Let_def)
qed

lemma dest_Ext: "tidy f \<Longrightarrow> Ext (mapDestination f) = Ext f"
proof -
  assume "tidy f"
  then have "mapDestination f = f \<or> mapDestination f = ''.agents/canon'' @ CHR ''/'' # f" by (simp add: dest_form)
  then show ?thesis using Ext_below [of "''.agents/canon''" f] by metis
qed

lemma dest_name:
  assumes "source_name f"
  shows "Clean (mapDestination f) = mapDestination f" "HasPrefix (mapDestination f) ''.agents/''"
    and "\<not> Contains (mapDestination f) ''/.git/''"
proof -
  note f = source_nameD [OF assms]
  show "Clean (mapDestination f) = mapDestination f" by (rule dest_tidy [OF f(1)]) (rule Clean_tidy)
  show "HasPrefix (mapDestination f) ''.agents/''" using f(1) by (simp add: dest_form)
  have canon: "''.git'' \<notin> set (split_char CHR ''/'' ''.agents/canon'')" by code_simp
  then have "''.git'' \<notin> set (split_char CHR ''/'' (''.agents/canon'' @ CHR ''/'' # f))"
    using f(3) unfolding split_char_append set_append by blast
  moreover have "mapDestination f = f \<or> mapDestination f = ''.agents/canon'' @ CHR ''/'' # f" using f(1) by (simp add: dest_form)
  ultimately have "''.git'' \<notin> set (split_char CHR ''/'' (mapDestination f))" using f(3) by metis
  then show "\<not> Contains (mapDestination f) ''/.git/''" using git_part by blast
qed


section \<open>Links of a document\<close>

lemma token_links_form: "l \<in> set (token_links (tokens s)) \<Longrightarrow> l \<noteq> [] \<and> list_all link_char l"
proof (induction s rule: tokens_induct)
  case (Code t r)
  then show ?case by (simp add: tokens_code)
next
  case (Link k r)
  then show ?case by (auto simp: tokens_link)
next
  case (Char c s)
  then show ?case by (simp add: tokens_char)
qed simp

lemma links_form: "l \<in> set (links_of content) \<Longrightarrow> l \<noteq> [] \<and> list_all link_char l"
  unfolding links_of_def line_links_def by (auto dest: token_links_form split: if_splits)

lemma run_links_each: "run_links f ls s = Some s' \<Longrightarrow> l \<in> set ls \<Longrightarrow> \<exists>s x s'. f l s = (Inr x, s')"
  by (induction ls arbitrary: s) (auto split: prod.splits sum.splits)

text \<open>Where a link may lead: elsewhere, or to a place of the bundle.\<close>

definition leads_into :: "string list \<Rightarrow> string \<Rightarrow> string \<Rightarrow> bool" where
  "leads_into dests name link = (case resolveLink name link of None \<Rightarrow> True | Some (target, _) \<Rightarrow> containsPath dests target)"

definition entry_fits :: "string list \<Rightarrow> string \<times> string \<Rightarrow> bool" where
  "entry_fits dests entry \<longleftrightarrow>
     (let (name, content) = entry in
      Clean name = name \<and> HasPrefix name ''.agents/'' \<and> \<not> Contains name ''/.git/''
      \<and> (Ext name = ''.md'' \<longrightarrow> list_all (leads_into dests name) (links_of content)))"

lemma containsPath_mono: "set a \<subseteq> set b \<Longrightarrow> containsPath a t \<Longrightarrow> containsPath b t"
  by (auto simp: containsPath_def list_ex_iff)

lemma fits_validates:
  assumes "entry_fits dests entry" "set dests \<subseteq> fst ` set b"
  shows "validate_entry b entry = None"
proof -
  obtain name content where e: "entry = (name, content)" by fastforce
  have "fst (check_link b name l s) = Inr (id l)" if "leads_into dests name l" for l s
  proof (cases "resolveLink name l")
    case None
    then show ?thesis by (simp add: check_link_def)
  next
    case (Some r)
    then obtain t a where r: "resolveLink name l = Some (t, a)" by (cases r) auto
    with that have "containsPath (map fst b) t" using containsPath_mono [of dests "map fst b"] assms(2) by (simp add: leads_into_def)
    then show ?thesis using r by (simp add: check_link_def)
  qed
  then have "\<exists>s'. visitLinks content (check_link b name) () = (Inr (relink id content), s')"
    if "list_all (leads_into dests name) (links_of content)"
    using that by (intro visitLinks_pure) (auto simp: list_all_iff)
  then show ?thesis using assms(1) by (auto simp: entry_fits_def validate_entry_def e)
qed

lemma first_failure_None: "first_failure es = None \<longleftrightarrow> set es \<subseteq> {None}"
  by (induction es) (auto split: option.splits)


section \<open>Links that moved\<close>

text \<open>A source whose names are plain, and a selected document none of whose links leads to the directory
  .agents itself: that directory has no place of its own in a bundle.\<close>

definition plain_source :: "source_tree \<Rightarrow> bool" where
  "plain_source tree \<longleftrightarrow> list_all source_name (TreeFiles tree)
     \<and> list_all (\<lambda>c. link_char c \<and> c \<noteq> backtick) (TreeCommit tree)"

definition plain_link :: "string \<Rightarrow> string \<Rightarrow> bool" where
  "plain_link name link = (case resolveLink name link of None \<Rightarrow> True | Some (target, _) \<Rightarrow> target \<noteq> ''.agents'')"

definition moved :: "source_tree \<Rightarrow> string list \<Rightarrow> string \<Rightarrow> string \<Rightarrow> string" where
  "moved tree files name link = (case fst (rewrite_link tree files name link []) of Inl _ \<Rightarrow> link | Inr l \<Rightarrow> l)"

lemma rewrite_state: "fst (rewrite_link tree files name link r) = fst (rewrite_link tree files name link r')"
  by (auto simp: rewrite_link_def split: option.splits)

lemma rewritten:
  assumes "rewriteLinks tree files name content remote = (Inr content', remote')"
  shows "content' = relink (moved tree files name) content"
    and "l \<in> set (links_of content) \<Longrightarrow> fst (rewrite_link tree files name l []) = Inr (moved tree files name l)"
proof -
  let ?f = "rewrite_link tree files name"
  have "run_links ?f (links_of content) remote = Some remote'"
    using visitLinks_run [of content ?f remote] assms by (simp add: rewriteLinks_def)
  then have each: "fst (?f l []) = Inr (moved tree files name l)" if "l \<in> set (links_of content)" for l
    using run_links_each [OF _ that] rewrite_state unfolding moved_def by (metis fst_conv sum.simps(6))
  then show "l \<in> set (links_of content) \<Longrightarrow> fst (?f l []) = Inr (moved tree files name l)" .
  have "\<exists>s'. visitLinks content ?f remote = (Inr (relink (moved tree files name) content), s')"
    by (rule visitLinks_pure) (metis each rewrite_state)
  then show "content' = relink (moved tree files name) content" using assms by (auto simp: rewriteLinks_def)
qed

lemma anchor_part:
  assumes "resolveLink name link = Some (target, anchor)"
  shows "set anchor \<subseteq> set link" "anchor = [] \<or> hd anchor = CHR ''#''" "CHR '':'' \<notin> set link"
proof -
  have "set rest \<subseteq> set link \<and> CHR ''#'' \<in> set link" if "dropWhile (\<lambda>c. c \<noteq> CHR ''#'') link = x # rest" for x rest
    using that set_dropWhileD [of _ "\<lambda>c. c \<noteq> CHR ''#''" link] hd_dropWhile [of "\<lambda>c. c \<noteq> CHR ''#''" link] by fastforce
  then show "set anchor \<subseteq> set link" "anchor = [] \<or> hd anchor = CHR ''#''" "CHR '':'' \<notin> set link"
    using assms by (auto simp: resolveLink_def SplitTwo_def Contains_char split: if_splits list.splits)
qed


lemma contained_chars:
  assumes "containsPath files t" "list_all source_name files"
  shows "tidy t" "list_all name_char t"
proof -
  have files: "tidy f" "list_all name_char f" if "f \<in> set files" for f using assms(2) that by (auto simp: list_all_iff source_name_def)
  show "tidy t" by (rule contained_tidy [OF assms(1) files(1)])
  obtain f where "f \<in> set files" "set t \<subseteq> set f" using contained_tidy(2) [OF assms(1) files(1)] by blast
  then show "list_all name_char t" using files(2) by (auto simp: list_all_iff)
qed

lemma moved_inside:
  assumes files: "list_all source_name files" "f \<in> set files" and l: "list_all link_char l"
    and r: "resolveLink f l = Some (t, anchor)" "containsPath files t" "t \<noteq> ''.agents''"
    and g: "Rel (Dir (mapDestination f)) (mapDestination t) = Inr rel"
  shows "rel @ anchor \<noteq> []" "list_all link_char (rel @ anchor)" "backtick \<in> set (rel @ anchor) \<Longrightarrow> backtick \<in> set l"
    and "leads_into (map mapDestination files) (mapDestination f) (rel @ anchor)"
proof -
  have tidy: "tidy x" if "x \<in> set files" for x using files(1) that by (auto simp: list_all_iff source_name_def)
  note t = contained_chars [OF r(2) files(1)] and a = anchor_part [OF r(1)]
  obtain d b where d: "mapDestination f = d @ CHR ''/'' # b" "CHR ''/'' \<notin> set b" "tidy d" by (rule dest_tidy [OF tidy [OF files(2)]])
  have dt: "tidy (mapDestination t)" by (rule dest_tidy [OF t(1)])
  have dc: "list_all name_char (mapDestination t)" by (rule dest_chars [OF t])
  have g': "Rel d (mapDestination t) = Inr rel" using g Dir_slash [OF d(3,2)] d(1) by simp
  from Rel_tidy [OF d(3) dt] g' have rel: "rel \<noteq> []" "set rel \<subseteq> set (mapDestination t) \<union> {CHR ''/'', CHR ''.''}" by auto
  then have rc: "list_all name_char rel" using dc unfolding list_all_iff by (auto simp: name_char_def link_char_def backtick_def)
  show "rel @ anchor \<noteq> []" using rel(1) by simp
  show "list_all link_char (rel @ anchor)" using rc l a(1) unfolding list_all_iff name_char_def by auto
  show "backtick \<in> set l" if "backtick \<in> set (rel @ anchor)" using that rc a(1) unfolding list_all_iff name_char_def by auto
  have "CHR '':'' \<notin> set (mapDestination t)" "CHR ''#'' \<notin> set (mapDestination t)" "CHR '':'' \<notin> set anchor"
    using dc a(1,3) unfolding list_all_iff name_char_def by blast+
  from resolved_in_place [OF d(3,2) dt g' this(1,2) a(2) this(3)]
  have "resolveLink (mapDestination f) (rel @ anchor) = Some (mapDestination t, anchor)" unfolding d(1) .
  moreover have "containsPath (map mapDestination files) (mapDestination t)" by (rule contained_dest [OF r(2) tidy r(3)])
  ultimately show "leads_into (map mapDestination files) (mapDestination f) (rel @ anchor)" by (simp add: leads_into_def)
qed

lemma moved_away:
  assumes "list_all link_char commit" "backtick \<notin> set commit" "list_all name_char t" "list_all link_char l" "set anchor \<subseteq> set l"
  defines "url \<equiv> ''https://github.com/cangrejometralleta/OneTwoThree/blob/'' @ commit @ ''/'' @ t @ anchor"
  shows "url \<noteq> []" "list_all link_char url" "backtick \<in> set url \<Longrightarrow> backtick \<in> set l" "leads_into dests name url"
proof -
  let ?host = "''https://github.com/cangrejometralleta/OneTwoThree/blob/''"
  have host: "list_all name_char (filter (\<lambda>c. c \<noteq> CHR '':'') ?host) \<and> CHR '':'' \<in> set ?host" by code_simp
  then have hc: "list_all link_char ?host" "backtick \<notin> set ?host" by code_simp+
  have slash: "link_char CHR ''/''" "backtick \<noteq> CHR ''/''" by code_simp+
  show "url \<noteq> []" by (simp add: url_def)
  show "list_all link_char url" using assms(1,3,4,5) hc(1) slash unfolding url_def list_all_append by (auto simp: list_all_iff name_char_def)
  show "backtick \<in> set l" if "backtick \<in> set url"
    using that assms(2,3,5) hc(2) slash(2) unfolding url_def set_append by (auto simp: list_all_iff name_char_def)
  have "Contains url '':''" unfolding Contains_char url_def set_append using host by blast
  then show "leads_into dests name url" by (simp add: leads_into_def resolveLink_def)
qed

lemma moved_link:
  assumes tree: "plain_source tree" and files: "list_all source_name files" "f \<in> set files"
    and l: "l \<noteq> []" "list_all link_char l" "plain_link f l"
    and ok: "fst (rewrite_link tree files f l []) = Inr (moved tree files f l)"
  shows "good_link (moved tree files f) l \<and> leads_into (map mapDestination files) (mapDestination f) (moved tree files f l)"
proof (cases "resolveLink f l")
  case None
  then have "moved tree files f l = l" by (simp add: moved_def rewrite_link_def)
  moreover have "resolveLink (mapDestination f) l = None" using None by (auto simp: resolveLink_def split: if_splits prod.splits)
  ultimately show ?thesis using l(1,2) by (simp add: good_link_def leads_into_def)
next
  case (Some p)
  then obtain t a where r: "resolveLink f l = Some (t, a)" by (cases p) auto
  show ?thesis
  proof (cases "containsPath files t")
    case True
    then obtain rel where rel: "Rel (Dir (mapDestination f)) (mapDestination t) = Inr rel" "moved tree files f l = rel @ a"
      using ok r by (cases "Rel (Dir (mapDestination f)) (mapDestination t)") (auto simp: rewrite_link_def)
    have "t \<noteq> ''.agents''" using l(3) r by (simp add: plain_link_def)
    from moved_inside [OF files l(2) r True this rel(1)] show ?thesis unfolding good_link_def rel(2) by blast
  next
    case False
    have g: "moved tree files f l = ''https://github.com/cangrejometralleta/OneTwoThree/blob/'' @ TreeCommit tree @ ''/'' @ t @ a"
      and t: "containsPath (TreeFiles tree) t"
      using ok r False by (auto simp: rewrite_link_def split: if_splits)
    have commit: "list_all link_char (TreeCommit tree)" "backtick \<notin> set (TreeCommit tree)" and names: "list_all source_name (TreeFiles tree)"
      using tree by (auto simp: plain_source_def list_all_iff)
    from moved_away [OF commit contained_chars(2) [OF t names] l(2) anchor_part(1) [OF r]]
    show ?thesis unfolding good_link_def g by blast
  qed
qed


section \<open>The bundle\<close>

lemma update_all: "list_all P b \<Longrightarrow> P (k, v) \<Longrightarrow> list_all P (AList.update k v b)"
  by (induction b) auto

lemma update_keys: "fst ` set (AList.update k v b) = insert k (fst ` set b)"
  by (induction b) auto

definition plain_document :: "string \<times> string \<Rightarrow> bool" where
  "plain_document d \<longleftrightarrow> (Ext (fst d) = ''.md'' \<longrightarrow> list_all (plain_link (fst d)) (links_of (snd d)))"

lemma document_fits:
  assumes tree: "plain_source tree" and files: "list_all source_name (map fst files)" "(name, content) \<in> set files"
    and doc: "plain_document (name, content)"
    and run: "(if Ext name = ''.md'' then rewriteLinks tree (map fst files) name content remote else (Inr content, remote)) = (Inr content', remote')"
  shows "entry_fits (map mapDestination (map fst files)) (mapDestination name, content')"
proof -
  have mem: "name \<in> set (map fst files)" using files(2) by force
  then have name: "source_name name" using files(1) by (auto simp: list_all_iff)
  let ?g = "moved tree (map fst files) name"
  have "list_all (leads_into (map mapDestination (map fst files)) (mapDestination name)) (links_of content')" if md: "Ext name = ''.md''"
  proof -
    have r: "rewriteLinks tree (map fst files) name content remote = (Inr content', remote')" using run md by simp
    have each: "good_link ?g l \<and> leads_into (map mapDestination (map fst files)) (mapDestination name) (?g l)"
      if "l \<in> set (links_of content)" for l
    proof (rule moved_link [OF tree files(1) mem _ _ _ rewritten(2) [OF r that]])
      show "l \<noteq> []" "list_all link_char l" using links_form [OF that] by auto
      show "plain_link name l" using doc md that by (auto simp: plain_document_def list_all_iff)
    qed
    then have "links_of content' = map ?g (links_of content)" unfolding rewritten(1) [OF r] by (intro relink_links) blast
    then show ?thesis using each by (simp add: list_all_iff)
  qed
  then show ?thesis using dest_name [OF name] dest_Ext [of name] source_nameD(1) [OF name] by (simp add: entry_fits_def)
qed

lemma render_fits:
  assumes "plain_source tree" "list_all source_name (map fst files)" "list_all plain_document files"
  shows "render_files tree files names b remote = Inr (b', remote') \<Longrightarrow> set names \<subseteq> fst ` set files \<Longrightarrow>
    list_all (entry_fits (map mapDestination (map fst files))) b \<Longrightarrow>
    list_all (entry_fits (map mapDestination (map fst files))) b' \<and> fst ` set b' = fst ` set b \<union> mapDestination ` set names"
proof (induction names arbitrary: b remote)
  case (Cons name names)
  from Cons.prems(2) obtain content where c: "map_of files name = Some content" "(name, content) \<in> set files"
    by (metis imageE insert_subset list.simps(15) map_of_SomeD map_of_eq_None_iff not_None_eq)
  obtain content' remote1 where run:
      "(if Ext name = ''.md'' then rewriteLinks tree (map fst files) name content remote else (Inr content, remote)) = (Inr content', remote1)"
      "render_files tree files names (AList.update (mapDestination name) content' b) remote1 = Inr (b', remote')"
    using Cons.prems(1) c(1) by (simp only: render_files.simps Let_def option.case) (auto split: prod.splits sum.splits)
  have "plain_document (name, content)" using assms(3) c(2) by (auto simp: list_all_iff)
  from document_fits [OF assms(1,2) c(2) this run(1)]
  have "list_all (entry_fits (map mapDestination (map fst files))) (AList.update (mapDestination name) content' b)"
    using Cons.prems(3) by (intro update_all)
  from Cons.IH [OF run(2) _ this] Cons.prems(2) show ?case by (simp add: update_keys)
qed simp

lemma renderBundle_valid:
  assumes "plain_source tree" "list_all source_name (map fst (SelFiles sel))" "list_all plain_document (SelFiles sel)"
    and run: "renderBundle host encode tree sel = Inr b"
  shows "validateBundle b = None"
proof -
  let ?dests = "map mapDestination (map fst (SelFiles sel))" and ?names = "listNames (map fst (SelFiles sel))"
  from run obtain b1 remote x where r: "render_files tree (SelFiles sel) ?names [] [] = Inr (b1, remote)"
      and b: "b = AList.update ''.agents/distribution.json'' x b1"
    unfolding renderBundle_def
    by (cases "render_files tree (SelFiles sel) ?names [] []") (auto elim!: sum_bind.elims)
  have names: "set ?names = fst ` set (SelFiles sel)" by (simp add: listNames_def)
  have fits: "list_all (entry_fits ?dests) b1" "fst ` set b1 = set ?dests"
    using render_fits [OF assms(1-3) r] names by (auto simp: image_comp)
  have "entry_fits ?dests (''.agents/distribution.json'', x)"
  proof -
    have "Clean ''.agents/distribution.json'' = ''.agents/distribution.json''" "Ext ''.agents/distribution.json'' = ''.json''"
      "\<not> Contains ''.agents/distribution.json'' ''/.git/''" by code_simp+
    then show ?thesis by (simp add: entry_fits_def)
  qed
  then have "list_all (entry_fits ?dests) b" unfolding b using fits(1) by (intro update_all)
  moreover have "set ?dests \<subseteq> fst ` set b" unfolding b update_keys fits(2) by blast
  ultimately show ?thesis using fits_validates [of ?dests _ b]
    by (auto simp: validateBundle_def first_failure_None list_all_iff)
qed


definition plain_documents :: "export_host \<Rightarrow> source_tree \<Rightarrow> bool" where
  "plain_documents host tree \<longleftrightarrow>
     list_all (\<lambda>f. case readFile host tree f of Inl _ \<Rightarrow> True | Inr c \<Rightarrow> plain_document (f, c)) (TreeFiles tree)"

text \<open>C31 An export passes its own check: from a source with plain names, none of whose documents links to
  the directory .agents itself, every bundle the script renders is one the archive writer accepts.
  Each file has a clean name under .agents, and each local link of each document, moved with its
  file, leads to a file or directory of the bundle.\<close>
theorem export_passes_its_check:
  assumes "plain_source tree" and "plain_documents host tree"
    and "collectBundle host encode tree options = Inr b"
  shows "validateBundle b = None"
proof -
  obtain sel where sel: "collect_selection host tree options = (None, sel)" and run: "renderBundle host encode tree sel = Inr b"
    using assms(3) by (auto simp: collectBundle_def split: prod.splits option.splits)
  have read: "readFile host tree f = Inr c" "f \<in> set (TreeFiles tree)" if "(f, c) \<in> set (SelFiles sel)" for f c
    using selected_files(2) [OF sel] that readFile_listed by (fastforce simp: list_all_iff)+
  have "list_all source_name (map fst (SelFiles sel))"
    using assms(1) read(2) by (fastforce simp: plain_source_def list_all_iff)
  moreover have "list_all plain_document (SelFiles sel)"
    using assms(2) read by (fastforce simp: plain_documents_def list_all_iff)
  ultimately show ?thesis by (rule renderBundle_valid [OF assms(1) _ _ run])
qed

definition sample_bundle :: archive_files where
  "sample_bundle =
    [(''.agents/skills/one-two-reload/SKILL.md'', ''After [update](../one-two-update).''),
     (''.agents/skills/one-two-reload/run.sh'', ''plain''),
     (''.agents/skills/one-two-update/SKILL.md'', ''Then [reload](../one-two-reload/SKILL.md).''),
     (''.agents/canon/.canonignore'', ''plain''),
     (''.agents/canon/AGENTS.md'', ''plain''),
     (''.agents/canon/PATTERNS.md'', ''plain''),
     (''.agents/canon/RULES.md'', ''See [update](../skills/one-two-update/SKILL.md#run) and [the code](https://github.com/cangrejometralleta/OneTwoThree/blob/c0ffee/main.go).''),
     (''.agents/canon/VALUES.md'', ''plain''),
     (''.agents/canon/rules/one.md'', ''plain''),
     (''.agents/distribution.json'', ''c0ffee'' @ [CHR 0x0A])]"

lemma sample_collected: "collectBundle sample_host (\<lambda>m. Inr (ManifestCommit m)) sample_tree sample_options = Inr sample_bundle"
  by code_simp

lemma export_passes_its_check_witness: "validateBundle sample_bundle = None"
proof -
  have "plain_source sample_tree" "plain_documents sample_host sample_tree" by code_simp+
  from export_passes_its_check [OF this sample_collected] show ?thesis .
qed

text \<open>Without the condition on the directory .agents the check refuses a bundle that holds it: a document
  outside it links to a directory that stays, by the place the script maps it to.\<close>

lemma agents_directory_refused:
  "map_sum id validateBundle (collectBundle
     (sample_host\<lparr>HostReadFile := (\<lambda>p. Inr (if p = ''/o/RULES.md'' then ''[All](.agents)'' else []))\<rparr>)
     (\<lambda>m. Inr (ManifestCommit m)) sample_tree sample_options) =
   Inr (Some (Failure ''broken bundled link: .agents/canon/RULES.md -> .agents/canon/.agents''))"
  by code_simp

end
