(* ===== verification/ArchiveProperties.thy ===== *)
theory ArchiveProperties
  imports Archive BundleProperties
begin

text \<open>
  What the export script leaves behind: a new archive that holds the bundle and was read back, or the
  disk as it was.
\<close>

section \<open>Writing and reading back\<close>

lemma write_entries_all:
  "write_entries host b names done_entries = (None, es) \<Longrightarrow> es = done_entries @ map (archive_entry b) names"
  by (induction host b names done_entries rule: write_entries.induct) (auto split: option.splits)

lemma writeArchive_bytes:
  "writeArchive host b = (None, bytes) \<Longrightarrow> bytes = ZipEncode host (map (archive_entry b) (listNames (map fst b)))"
  unfolding writeArchive_def using write_entries_all [of host b "listNames (map fst b)" "[]"] by (auto split: prod.splits option.splits)

lemma checks_pass: "first_failure (map f xs) = None \<longleftrightarrow> (\<forall>x \<in> set xs. f x = None)"
  by (induction xs) (auto split: option.splits)

lemma entry_verifies: "FileRead host name = None \<Longrightarrow> verify_entry host b (archive_entry b name) = None"
proof -
  have "IsRegular 0x1ED" "IsRegular 0x1A4" by code_simp+
  then show "FileRead host name = None \<Longrightarrow> ?thesis" by (simp add: verify_entry_def archive_entry_def)
qed

lemma listNames_length: "distinct names \<Longrightarrow> length (listNames names) = length names"
  by (simp add: listNames_def distinct_remdups_id)

lemma entries_map: "map_of (map (\<lambda>name. (name, file_of b name)) names) k = (if k \<in> set names then Some (file_of b k) else None)"
  by (induction names) auto

lemma file_of_Some: "(if k \<in> fst ` set b then Some (file_of b k) else None) = map_of b k"
  using map_of_eq_None_iff [of b k] by (auto simp: file_of_def split: option.splits)

text \<open>C34 What is archived is what is read: where the zip format answers the entries it was given, the
  archive of a bundle passes its verification, and its entries, in the order of their names, are
  regular files that hold the bundle and nothing else, scripts executable.\<close>
theorem archive_reads_back:
  assumes "ZipDecode host (ZipEncode host (map (archive_entry b) (listNames (map fst b)))) = Inr (map (archive_entry b) (listNames (map fst b)))"
    and "\<And>name. FileRead host name = None" and "distinct (map fst b)"
    and "writeArchive host b = (None, bytes)"
  shows "verifyArchive host bytes b = None \<and> (\<exists>es. ZipDecode host bytes = Inr es \<and> sorted (map EntryName es)
    \<and> map_of (map (\<lambda>e. (EntryName e, EntryContent e)) es) = map_of b
    \<and> list_all (\<lambda>e. EntryMode e = (if HasSuffix (EntryName e) ''.sh'' then 0x1ED else 0x1A4)) es)"
proof -
  let ?es = "map (archive_entry b) (listNames (map fst b))"
  have bytes: "ZipDecode host bytes = Inr ?es" using writeArchive_bytes [OF assms(4)] assms(1) by simp
  moreover have "verifyArchive host bytes b = None"
    using assms(2,3) by (simp add: verifyArchive_def bytes checks_pass entry_verifies listNames_length comp_def flip: map_map)
  moreover have "map EntryName ?es = listNames (map fst b)" by (simp add: archive_entry_def comp_def)
  then have "sorted (map EntryName ?es)" by (simp add: listNames_def)
  moreover have "map_of (map (\<lambda>e. (EntryName e, EntryContent e)) ?es) = map_of b"
    by (rule ext) (simp add: comp_def archive_entry_def entries_map listNames_def file_of_Some)
  moreover have "list_all (\<lambda>e. EntryMode e = (if HasSuffix (EntryName e) ''.sh'' then 0x1ED else 0x1A4)) ?es"
    by (simp add: list_all_iff archive_entry_def)
  ultimately show ?thesis by blast
qed

section \<open>All or nothing\<close>

lemma publish_all:
  assumes "\<And>name. FileRemove host name" "disk staged = Some bytes" "publish host output staged disk = (r, disk')"
  shows "r \<noteq> None \<and> disk' = disk \<or> r = None \<and> disk output = None \<and> disk' = disk(output \<mapsto> bytes)"
  using assms(2,3) by (auto simp: publish_def remove_file_def assms(1) Let_def fun_upd_idem split: if_splits option.splits)

lemma writeBundle_all:
  assumes remove: "\<And>name. FileRemove host name" and fresh: "\<forall>d staged. FileCreateTemp host disk d = Inr staged \<longrightarrow> disk staged = None"
    and run: "writeBundle host output b disk = (r, disk')"
  shows "r \<noteq> None \<and> disk' = disk \<or> r = None \<and> disk output = None \<and> validateBundle b = None
    \<and> (\<exists>bytes. writeArchive host b = (None, bytes) \<and> verifyArchive host bytes b = None \<and> disk' = disk(output \<mapsto> bytes))"
proof (cases "validateBundle b")
  case None
  show ?thesis
  proof (cases "FileCreateTemp host disk (Dir output)")
    case (Inl e)
    then show ?thesis using run None by (simp add: writeBundle_def) blast
  next
    case (Inr staged)
    obtain err bytes where w: "writeArchive host b = (err, bytes)" by fastforce
    let ?disk = "disk(staged \<mapsto> bytes)"
    have undo: "?disk(staged := None) = disk" using fresh Inr by (simp add: fun_upd_idem)
    obtain disk1 where inner: "(case err of Some e \<Rightarrow> (Some e, ?disk) | None \<Rightarrow>
          (case FileCloseStaged host of Some e \<Rightarrow> (Some e, ?disk) | None \<Rightarrow>
            (case verifyArchive host bytes b of Some e \<Rightarrow> (Some e, ?disk) | None \<Rightarrow> publish host output staged ?disk))) = (r, disk1)"
        and end_disk: "disk' = disk1(staged := None)"
      using run None Inr w by (simp add: writeBundle_def remove_file_def remove Let_def split_def) (metis prod.collapse fst_conv snd_conv)
    consider "r \<noteq> None" "disk1 = ?disk" | "err = None" "verifyArchive host bytes b = None" "publish host output staged ?disk = (r, disk1)"
    proof (cases "\<exists>e. err = Some e \<or> FileCloseStaged host = Some e \<or> verifyArchive host bytes b = Some e")
      case True
      show thesis by (rule that(1)) (use inner True in \<open>auto split: option.splits dest: sym [of "Some _"]\<close>)
    next
      case False
      show thesis by (rule that(2)) (use inner False in \<open>auto split: option.splits\<close>)
    qed
    then show ?thesis
    proof cases
      case 1
      then show ?thesis using end_disk undo by simp
    next
      case 2
      from publish_all [OF remove _ 2(3), of bytes] consider "r \<noteq> None" "disk1 = ?disk"
        | "r = None" "?disk output = None" "disk1 = ?disk(output \<mapsto> bytes)" by auto
      then show ?thesis
      proof cases
        case 1
        then show ?thesis using end_disk undo by simp
      next
        case ok: 2
        then have "output \<noteq> staged" by auto
        then have "disk output = None" "disk' = disk(output \<mapsto> bytes)" using ok end_disk undo by (auto simp: fun_upd_twist)
        then show ?thesis using ok(1) 2(1,2) w None by blast
      qed
    qed
  qed
qed (use run in \<open>auto simp: writeBundle_def\<close>)

text \<open>Without faults, a valid bundle is written.\<close>

lemma writes_without_faults:
  "(\<And>name. FileHeader host name = None) \<Longrightarrow> (\<And>name. FileWrite host name = None) \<Longrightarrow>
   write_entries host b names es = (None, es @ map (archive_entry b) names)"
  by (induction names arbitrary: es) simp_all

lemma writeBundle_succeeds:
  assumes "validateBundle b = None" "distinct (map fst b)"
    and zip: "ZipDecode host (ZipEncode host (map (archive_entry b) (listNames (map fst b)))) = Inr (map (archive_entry b) (listNames (map fst b)))"
    and "disk output = None" "FileCreateTemp host disk (Dir output) = Inr staged" "staged \<noteq> output"
    and "\<And>name. FileHeader host name = None" "\<And>name. FileWrite host name = None" "\<And>name. FileRead host name = None"
    and "FileFinish host = None" "FileCloseStaged host = None" "FileCreate host = None" "FileOpen host = None" "FileCopy host = None"
      "FileClose host = None"
  shows "fst (writeBundle host output b disk) = None"
proof -
  let ?bytes = "ZipEncode host (map (archive_entry b) (listNames (map fst b)))"
  have "writeArchive host b = (None, ?bytes)" using writes_without_faults [of host b _ "[]"] assms by (simp add: writeArchive_def)
  moreover have "verifyArchive host ?bytes b = None"
    using assms(2,9) by (simp add: verifyArchive_def zip checks_pass entry_verifies listNames_length comp_def flip: map_map)
  ultimately show ?thesis using assms by (simp add: writeBundle_def publish_def)
qed

text \<open>C30 An export is all or nothing: where files can be removed and the temporary file is new, an export
  that fails at any step leaves the disk as it was; one that succeeds read the source, and added
  one file, the output that was not there, with the archive of a valid bundle, verified.\<close>
theorem export_all_or_nothing:
  assumes "\<And>name. FileRemove archive name"
    and "\<And>d staged. FileCreateTemp archive disk d = Inr staged \<Longrightarrow> disk staged = None"
    and "exportBundle host encode archive args disk = (r, disk')"
  shows "(\<exists>e. r = Inl e) \<and> disk' = disk \<or> (\<exists>line options tree b bytes. r = Inr line
    \<and> parse_flags args flag_default = Inr (options, []) \<and> readSourceTree host options = Inr tree
    \<and> collectBundle host encode tree options = Inr b \<and> validateBundle b = None
    \<and> writeArchive archive b = (None, bytes) \<and> verifyArchive archive bytes b = None
    \<and> disk (ExportOutput options) = None \<and> disk' = disk(ExportOutput options \<mapsto> bytes))"
proof -
  have fresh: "\<forall>d staged. FileCreateTemp archive disk d = Inr staged \<longrightarrow> disk staged = None" using assms(2) by blast
  show ?thesis
  proof (cases "r")
    case (Inl e)
    then consider "disk' = disk" | name b x where "writeBundle archive name b disk = (Some x, disk')"
      using assms(3) by (auto simp: exportBundle_def split: sum.splits prod.splits if_splits option.splits)
    then have "disk' = disk" using writeBundle_all [OF assms(1) fresh] by cases auto
    then show ?thesis using Inl by blast
  next
    case (Inr line)
    then obtain options b where o: "parse_flags args flag_default = Inr (options, [])"
        "sum_bind (readSourceTree host options) (\<lambda>tree. collectBundle host encode tree options) = Inr b"
        "writeBundle archive (ExportOutput options) b disk = (None, disk')"
      using assms(3) by (auto simp: exportBundle_def split: sum.splits prod.splits if_splits option.splits)
    obtain tree where "readSourceTree host options = Inr tree" "collectBundle host encode tree options = Inr b"
      using o(2) by (cases "readSourceTree host options") auto
    then show ?thesis using Inr o(1) writeBundle_all [OF assms(1) fresh o(3)] by blast
  qed
qed


section \<open>A small export\<close>

text \<open>A format that writes each entry out, every text ended by a zero byte, and a disk without faults.\<close>

fun sample_entries :: "string list \<Rightarrow> zip_entry list" where
  "sample_entries (name # content # parts) =
     \<lparr>EntryName = name, EntryMode = (if HasSuffix name ''.sh'' then 0x1ED else 0x1A4), EntryContent = content\<rparr> # sample_entries parts"
| "sample_entries _ = []"

definition sample_io :: archive_host where
  "sample_io = \<lparr>ZipEncode = (\<lambda>es. concat (map (\<lambda>e. EntryName e @ [CHR 0x00] @ EntryContent e @ [CHR 0x00]) es)),
     ZipDecode = (\<lambda>s. Inr (sample_entries (split_char CHR 0x00 s))),
     FileCreateTemp = (\<lambda>disk dir. if disk ''/t/.onetwothree-1.zip'' = None then Inr ''/t/.onetwothree-1.zip'' else Inl (Failure ''taken'')),
     FileHeader = (\<lambda>name. None), FileWrite = (\<lambda>name. None), FileFinish = None, FileCloseStaged = None, FileRead = (\<lambda>name. None),
     FileCreate = None, FileOpen = None, FileCopy = None, FileClose = None, FileRemove = (\<lambda>name. True)\<rparr>"

definition sample_files :: archive_files where
  "sample_files = [(''.agents/run.sh'', ''run''), (''.agents/note.md'', ''[run](run.sh)'')]"

lemma archive_reads_back_witness:
  "verifyArchive sample_io (snd (writeArchive sample_io sample_files)) sample_files = None"
proof -
  have "ZipDecode sample_io (ZipEncode sample_io (map (archive_entry sample_files) (listNames (map fst sample_files)))) =
      Inr (map (archive_entry sample_files) (listNames (map fst sample_files)))" by code_simp
  moreover have "FileRead sample_io name = None" for name by (simp add: sample_io_def)
  moreover have "distinct (map fst sample_files)" "writeArchive sample_io sample_files = (None, snd (writeArchive sample_io sample_files))"
    by code_simp+
  ultimately show ?thesis using archive_reads_back [of sample_io sample_files] by blast
qed

definition sample_args :: "string list" where
  "sample_args = [''--source'', ''/o'', ''-output=/t/o.zip'', ''--agents='']"

lemma sample_steps:
  "parse_flags sample_args flag_default = Inr (sample_options, [])"
  "readSourceTree sample_host sample_options = Inr sample_tree"
  by code_simp+

lemma sample_split:
  "list_all (\<lambda>e. CHR 0x00 \<notin> set (EntryName e) \<and> CHR 0x00 \<notin> set (EntryContent e)
     \<and> EntryMode e = (if HasSuffix (EntryName e) ''.sh'' then 0x1ED else 0x1A4)) es \<Longrightarrow>
   ZipDecode sample_io (ZipEncode sample_io es) = Inr es"
proof (induction es)
  case (Cons e es)
  have "split_char CHR 0x00 (EntryName e @ CHR 0x00 # EntryContent e @ CHR 0x00 # r) = EntryName e # EntryContent e # split_char CHR 0x00 r" for r
    using Cons.prems by (simp add: split_char_append split_char_none)
  then show ?case using Cons by (simp add: sample_io_def)
qed (simp add: sample_io_def)

lemma sample_written: "fst (writeBundle sample_io ''/t/o.zip'' sample_bundle (\<lambda>name. None)) = None"
proof -
  have zeros: "list_all (\<lambda>(name, content). CHR 0x00 \<notin> set name \<and> CHR 0x00 \<notin> set content) sample_bundle" by code_simp
  have "CHR 0x00 \<notin> set name \<and> CHR 0x00 \<notin> set (file_of sample_bundle name)" if "name \<in> fst ` set sample_bundle" for name
  proof -
    from that obtain c where c: "map_of sample_bundle name = Some c" by (cases "map_of sample_bundle name") (auto simp: map_of_eq_None_iff)
    then show ?thesis using zeros map_of_SomeD [OF c] by (fastforce simp: list_all_iff file_of_def)
  qed
  then have zip: "ZipDecode sample_io (ZipEncode sample_io (map (archive_entry sample_bundle) (listNames (map fst sample_bundle)))) =
      Inr (map (archive_entry sample_bundle) (listNames (map fst sample_bundle)))"
    by (intro sample_split) (auto simp: list_all_iff listNames_def archive_entry_def)
  have "validateBundle sample_bundle = None" "distinct (map fst sample_bundle)" by code_simp+
  from writeBundle_succeeds [OF this zip, of "\<lambda>name. None" "''/t/o.zip''" "''/t/.onetwothree-1.zip''"]
  show ?thesis by (simp add: sample_io_def)
qed

lemma sample_exported:
  "\<exists>line. fst (exportBundle sample_host (\<lambda>m. Inr (ManifestCommit m)) sample_io sample_args (\<lambda>name. None)) = Inr line"
proof -
  obtain disk where "writeBundle sample_io ''/t/o.zip'' sample_bundle (\<lambda>name. None) = (None, disk)"
    using sample_written by (metis prod.collapse)
  moreover have "ExportSource sample_options = ''/o''" "ExportOutput sample_options = ''/t/o.zip''" by (simp_all add: sample_options_def)
  ultimately show ?thesis by (simp add: exportBundle_def sample_steps sample_collected)
qed

lemma export_all_or_nothing_witness:
  "\<exists>options tree b bytes. parse_flags sample_args flag_default = Inr (options, [])
    \<and> collectBundle sample_host (\<lambda>m. Inr (ManifestCommit m)) tree options = Inr b \<and> validateBundle b = None
    \<and> snd (exportBundle sample_host (\<lambda>m. Inr (ManifestCommit m)) sample_io sample_args (\<lambda>name. None)) =
        [ExportOutput options \<mapsto> bytes]"
proof -
  have "FileRemove sample_io name" for name by (simp add: sample_io_def)
  moreover obtain r disk where run: "exportBundle sample_host (\<lambda>m. Inr (ManifestCommit m)) sample_io sample_args (\<lambda>name. None) = (r, disk)"
    by fastforce
  moreover have "\<nexists>e. r = Inl e" using sample_exported unfolding run fst_conv by (elim exE) simp
  ultimately show ?thesis
    using export_all_or_nothing [of sample_io "\<lambda>name. None", OF _ _ run] unfolding run snd_conv by blast
qed

end
