(* ===== verification/Spec2Isabelle.thy ===== *)
theory Spec2Isabelle
  imports QueueSpec SourceStore SourceClient CardCatalog WorkerProperties Payloads AnswerProperties Commerce Tcgmatch Scrycl Settings Runtime Hosting ArchiveProperties
begin

text \<open>
  Verification of muchi-api, a Go service that finds offers for trading cards in Chilean stores.

  \<^bold>\<open>The program.\<close> A client opens a search with a list of cards (POST /v1/searches).  The search
  becomes one item per card in a store of documents, which is also the work queue: a worker claims
  an item under a lease, asks the sources of the game for offers, and completes the item, which
  counts it in its search.  Sources are store platforms and aggregators, reached through a client
  that retries, paces and breaks circuits per domain.  From the offers of a search the client asks
  for stock, checkout links and orders; a store moves an order on by a signed webhook, and a sweep
  frees the orders nobody paid.

  \<^bold>\<open>Theories and code\<close> (paths under src/internal).
  \<^item> \<open>Prelude\<close>, \<open>GoText\<close>: 64-bit arithmetic, lists and maps; Go's \<open>strings\<close> and \<open>strconv\<close> on bytes.
  \<^item> \<open>Model\<close>: model/*.go and the failures of search/failures.go.  \<open>CardNames\<close>, \<open>Prices\<close>: the
    pure functions of model/offer.go and model/units.go.
  \<^item> \<open>Records\<close>, \<open>Effects\<close>: repositories/records.go and repository.go with db/collection.go: the
    database as ten tables, the world an operation runs in (clock, random identifiers, calls that
    may fail), and the repository primitive with its transactions.  \<open>Payloads\<close>: db/model_record.go
    and db/storage.go, how a record becomes a document and comes back.
  \<^item> \<open>SearchStore\<close>, \<open>ItemStore\<close>, \<open>OrderStore\<close>, \<open>OfferStore\<close>, \<open>SourceStore\<close>: the stores of the same
    names under repositories/, and orders/releaser.go.
  \<^item> \<open>Queue\<close>, \<open>QueueSystem\<close>, \<open>QueueProperties\<close>, \<open>Demo\<close>: the queue as a system.  A step is one
    operation of one caller, between which others may run; the invariant \<open>queue_ok\<close> ties every search
    to its items, and reachability is over any sequence of steps with any failing calls.
    \<open>QueueSpec\<close>: a board of tallies that says what the queue promises, and the refinement to it.
  \<^item> \<open>SourceClient\<close>, \<open>Sessions\<close>: source/client.go, reads that are retried and session calls that are
    not.  \<open>Prints\<close>, \<open>CardCatalog\<close>: cardmetadata/ (the Scryfall client)
    and search/card_service.go.
  \<^item> \<open>OfferSearch\<close>: search/offer_*.go, one question over cache, sources and provider.  \<open>Services\<close>,
    \<open>ServiceProperties\<close>: the other services of search/.  \<open>Worker\<close>, \<open>WorkerProperties\<close>: search/worker.go,
    sweep/, taskqueue/.
  \<^item> \<open>Directory\<close>: stores/directory/, the configuration and its validation.  \<open>Catalog\<close>: catalog/ and
    stores/commerce/shops.go, the clients the configuration becomes.
  \<^item> \<open>Numbers\<close>: decimal numbers written and read back.  \<open>Storefront\<close>: what the platform clients share
    (addresses, HTML trees, amounts, the ports they hold).  \<open>Shopify\<close>, \<open>WooCommerce\<close>, \<open>Jumpseller\<close>,
    \<open>Prestashop\<close>: the directories of those names under stores/, from a page or reply to offers, stock,
    cart links, quotes and orders.  \<open>Moxfield\<close>: stores/moxfield/, lists that are priced, kept and
    counted again.  \<open>Commerce\<close>: stores/commerce/, which of these clients answers for a store.
  \<^item> \<open>Tcgmatch\<close>, \<open>Scrycl\<close>: aggregators/, the two providers that answer for many stores at once, with
    their suggestions, metadata and sets.
  \<^item> \<open>Settings\<close>: config/ and gcp/config.go, what a process reads from its environment.  \<open>Runtime\<close>:
    application/, repositories/search_offer.go and search/service.go, where every port above is filled
    by the component that provides it.  \<open>Hosting\<close>: hosting/, gcp/runtime.go, metrics/, and function.go and
    cmd/muchi-api/main.go of src: how an instance starts, serves its triggers and commands, and closes.
  \<^item> \<open>Paths\<close>, \<open>Markdown\<close>, \<open>Export\<close>, \<open>Archive\<close>: .agents/skills/one-two-update/scripts/export/ of src, the
    command that packs a repository: Go's paths and where a file goes in a bundle, the links of a
    document, the selection of files with the rewriting of their links, and the archive on the disk
    with the command's flags.  \<open>ExportProperties\<close>, \<open>BundleProperties\<close>, \<open>ArchiveProperties\<close> say what a
    selection holds, that a bundle passes its own check, and that an export is all or nothing.
  \<^item> \<open>Wire\<close>, \<open>Answers\<close>, \<open>AnswerProperties\<close>: handler/ and errorhandler/, from a request to its answer.

  \<^bold>\<open>How effects are modelled.\<close> An operation of type \<open>'a io\<close> maps a world to a failure or a value and
  the next world.  Every call to the backend may fail (\<open>outage\<close>), the clock may say anything, and a
  statement that needs a quiet backend says \<open>calm\<close>.  \<open>Transact\<close> undoes every write of a failed
  transaction; inside it a read after a write fails, as Firestore's do.  Go's pair of a value and an
  error is a pair where the caller uses both, and a sum where it uses one.

  \<^bold>\<open>Interfaces.\<close> Where a component relies on another by contract, the contract is a locale with the
  laws as its assumptions, and the provider's theory interprets it: the cache of offers
  (\<open>answer_cache\<close> by \<open>kept_answers\<close>), the pages of a search (\<open>result_pages\<close> by \<open>store_pages\<close>), and the
  others beside the components they belong to.

  \<^bold>\<open>What the lemmas show.\<close> The queue: counters agree with the items in every reachable state, only
  open work is claimed, an ended search and a finished item stay as they are, results take distinct
  places, and the queue refines the board.  Stores: one search or order per idempotency key, orders
  only advance, the sweep frees what it counts, cached offers read back.  Sources: waits are bounded,
  turns spaced, throttles held, an open circuit refuses.  Questions: faults name the sources that
  failed, a partial answer is never cached.  Carts and orders: one store per order, an order only
  behind its search; an order is the sequence of its session calls, none before its cart is filled,
  and a store that is off or a buyer that is not set is never asked.  Stores: searches end and hold
  whole answers, a permalink holds every line, a quote adds up, amounts keep their minor units.  Names and prices: equivalences with reference definitions.  Configuration: what
  the selector offers is what a search asks, also through the runtime the settings compose; settings
  stay in range.  Aggregators: the offers of TCGMatch are those of its sellable listings, naming Pokemon
  functions costs no offer, sets once read are always answered, and a page of scry.cl is read whole or
  refused.  Hosting: a start leaks nothing, a loader holds at most one instance, and a wake-up moves a
  search on by one card.  Handlers: every request is answered, nothing but health
  and a signed webhook gets in without the token, pages in bounds, redelivered webhooks change
  nothing.  Export: what is selected is what the roots need, a document whose links moved is read with
  the links it was given, and each of them leads into the bundle; a failed export leaves no file.

  \<^bold>\<open>Bounds and fuel.\<close> Loops over lists are structural.  Reading every page of a search takes fuel,
  one page more than the search has finished items after the cursor; \<open>collecting_ends_in_search\<close>
  shows that it never runs out with that.  The retry loop of the source client recurses over its
  remaining attempts.  The page loops of Shopify and Jumpseller take fuel, and \<open>shopify_search_ends\<close>
  and \<open>jumpseller_search_ends\<close> show that one more than the bounds of the code is enough; WooCommerce
  has no bound of its own, and a result there says that the pages ended.  A worker's loop without end is modelled by its turns.  The selection of an export nests its calls;
  \<open>export_selection_ends\<close> shows that two calls for each file of the source, and two more, are enough.

  \<^bold>\<open>Arguments of the model.\<close> Unicode tables beyond ASCII, net/url, JSON and YAML decoders, SHA-256,
  HMAC and base64, the %q verb, HTTP and Cloud Tasks clients, the HTML parser, \<open>html.UnescapeString\<close>, \<open>big.Rat\<close> and
  \<open>strconv.ParseFloat\<close>, git, the zip format and the failures of a file system: records of functions, named
  in the theory that uses them.

  \<^bold>\<open>Not modelled.\<close> Logging, the exposition format of the metrics, sockets and signals, the patterns of
  the HTTP multiplexer and the strict JSON decoder; the texts of wrapped errors beyond what a
  caller tests; goroutines inside one call: the sources of
  a question are asked in order, and a cancelled context is a failing call.  Contention that makes
  Firestore restart a transaction leaves no trace and is not modelled.  The test library
  search/repositorytest/ is no part of the program.
\<close>

end
